(* ===== verification/Prelude.thy ===== *)
theory Prelude
  imports Main "HOL-Library.Word" "HOL-Library.Multiset" "HOL-Library.Char_ord" "HOL-Library.List_Lexorder"
    "HOL-Library.Product_Lexorder" "HOL-Library.Code_Target_Numeral"
begin

text \<open>
  Shared vocabulary of the development: the machine types of the C++ code, the Linux error
  numbers it returns, the result type of its fallible operations, and the generic lemmas on
  lists that several components use.

  A C++ operation of the code returns \<open>0\<close> or a negative \<open>errno\<close> and writes an output
  parameter only when it returns \<open>0\<close>. Here it returns \<open>Inr\<close> of the output or \<open>Inl\<close> of an
  error. \<open>Errno c\<close> is the returned code; \<open>Undefined\<close> marks an execution the C++ standard gives
  no meaning to (a read or write outside a buffer, an element access past the end of a
  vector), so that memory safety is a statement about the model.
\<close>

section \<open>Machine types\<close>

type_synonym u8 = "8 word"
type_synonym u16 = "16 word"
type_synonym u32 = "32 word"
type_synonym u64 = "64 word"
type_synonym bytes = "8 word list"

section \<open>Error numbers\<close>

abbreviation (input) EPERM :: int where "EPERM \<equiv> 1"
abbreviation (input) ENOENT :: int where "ENOENT \<equiv> 2"
abbreviation (input) ESRCH :: int where "ESRCH \<equiv> 3"
abbreviation (input) EINTR :: int where "EINTR \<equiv> 4"
abbreviation (input) EIO :: int where "EIO \<equiv> 5"
abbreviation (input) EBADF :: int where "EBADF \<equiv> 9"
abbreviation (input) EAGAIN :: int where "EAGAIN \<equiv> 11"
abbreviation (input) ENOMEM :: int where "ENOMEM \<equiv> 12"
abbreviation (input) EACCES :: int where "EACCES \<equiv> 13"
abbreviation (input) EINVAL :: int where "EINVAL \<equiv> 22"
abbreviation (input) ERANGE :: int where "ERANGE \<equiv> 34"
abbreviation (input) EPROTO :: int where "EPROTO \<equiv> 71"
abbreviation (input) ENOTUNIQ :: int where "ENOTUNIQ \<equiv> 76"
abbreviation (input) EMSGSIZE :: int where "EMSGSIZE \<equiv> 90"
abbreviation (input) EPROTOTYPE :: int where "EPROTOTYPE \<equiv> 91"
abbreviation (input) ENOTSUP :: int where "ENOTSUP \<equiv> 95"
abbreviation (input) ECONNRESET :: int where "ECONNRESET \<equiv> 104"
abbreviation (input) ENOTCONN :: int where "ENOTCONN \<equiv> 107"
abbreviation (input) ETIMEDOUT :: int where "ETIMEDOUT \<equiv> 110"
abbreviation (input) EALREADY :: int where "EALREADY \<equiv> 114"
abbreviation (input) EINPROGRESS :: int where "EINPROGRESS \<equiv> 115"
abbreviation (input) ESTALE :: int where "ESTALE \<equiv> 116"
abbreviation (input) ECANCELED :: int where "ECANCELED \<equiv> 125"

section \<open>Results\<close>

datatype err = Errno int | Undefined

type_synonym 'a result = "err + 'a"

named_theorems res_simps \<open>evaluation and inversion rules of the result monad\<close>

definition res_bind :: "'a result \<Rightarrow> ('a \<Rightarrow> 'b result) \<Rightarrow> 'b result" where
  "res_bind m f = (case m of Inl e \<Rightarrow> Inl e | Inr x \<Rightarrow> f x)"

definition fail :: "int \<Rightarrow> 'a result" where
  "fail c = Inl (Errno c)"

definition guard :: "bool \<Rightarrow> int \<Rightarrow> unit result" where
  "guard b c = (if b then Inr () else fail c)"

lemma res_bind_simps [simp]:
  "res_bind (Inl e) f = Inl e"
  "res_bind (Inr x) f = f x"
  by (simp_all add: res_bind_def)

lemma res_bind_Inr_iff [res_simps]:
  "res_bind m f = Inr y \<longleftrightarrow> (\<exists>x. m = Inr x \<and> f x = Inr y)"
  by (cases m) simp_all

lemma res_bind_Inl_iff [res_simps]:
  "res_bind m f = Inl e \<longleftrightarrow> m = Inl e \<or> (\<exists>x. m = Inr x \<and> f x = Inl e)"
  by (cases m) simp_all

lemma res_bind_assoc:
  "res_bind (res_bind m f) g = res_bind m (\<lambda>x. res_bind (f x) g)"
  by (cases m) simp_all

lemma fail_neq [simp]: "fail c \<noteq> Inr x" "Inr x \<noteq> fail c"
  by (simp_all add: fail_def)

lemma fail_eq [simp]: "fail c = fail d \<longleftrightarrow> c = d"
  by (simp add: fail_def)

lemma fail_Inl [simp]:
  "fail c = Inl (Errno d) \<longleftrightarrow> c = d" "Inl (Errno d) = fail c \<longleftrightarrow> d = c"
  "fail c \<noteq> Inl Undefined" "Inl Undefined \<noteq> fail c"
  by (auto simp: fail_def)

lemma res_bind_fail [simp]: "res_bind (fail c) f = fail c"
  by (simp add: fail_def)

lemma guard_simps [simp]:
  "guard True c = Inr ()" "guard False c = fail c"
  by (simp_all add: guard_def)

lemma guard_Inr_iff [res_simps]: "guard b c = Inr u \<longleftrightarrow> b"
  by (simp add: guard_def)

lemma guard_Inl_iff [res_simps]: "guard b c = Inl e \<longleftrightarrow> \<not> b \<and> e = Errno c"
  by (auto simp: guard_def fail_def)

text \<open>The C return value of an operation: \<open>0\<close> on success, the code otherwise.\<close>

definition code_of :: "'a result \<Rightarrow> int option" where
  "code_of r = (case r of Inr _ \<Rightarrow> Some 0 | Inl (Errno c) \<Rightarrow> Some c | Inl Undefined \<Rightarrow> None)"

text \<open>
  The output parameter after an operation that was entered with \<open>out\<close>: the value the
  operation wrote, or \<open>out\<close> itself when it failed.
\<close>

definition out_param :: "'a result \<Rightarrow> 'a \<Rightarrow> 'a" where
  "out_param r out = (case r of Inr v \<Rightarrow> v | Inl _ \<Rightarrow> out)"

primrec mapM_res :: "('a \<Rightarrow> 'b result) \<Rightarrow> 'a list \<Rightarrow> 'b list result" where
  "mapM_res f [] = Inr []"
| "mapM_res f (x # xs) = res_bind (f x) (\<lambda>y. res_bind (mapM_res f xs) (\<lambda>ys. Inr (y # ys)))"

lemma mapM_res_Inr_iff [res_simps]:
  "mapM_res f xs = Inr ys \<longleftrightarrow> list_all2 (\<lambda>x y. f x = Inr y) xs ys"
proof (induction xs arbitrary: ys)
  case Nil
  then show ?case by auto
next
  case (Cons x xs)
  then show ?case by (cases ys) (auto simp: res_simps)
qed

lemma mapM_res_Inl_D: "mapM_res f xs = Inl e \<Longrightarrow> \<exists>x \<in> set xs. f x = Inl e"
  by (induction xs) (auto simp: res_simps)

lemma mapM_res_length: "mapM_res f xs = Inr ys \<Longrightarrow> length ys = length xs"
  by (auto simp: res_simps dest: list_all2_lengthD)

lemma mapM_res_cong:
  "xs = ys \<Longrightarrow> (\<And>x. x \<in> set ys \<Longrightarrow> f x = g x) \<Longrightarrow> mapM_res f xs = mapM_res g ys"
  by (induction ys arbitrary: xs) auto

lemma mapM_res_map: "mapM_res f (map g xs) = mapM_res (\<lambda>x. f (g x)) xs"
  by (induction xs) auto

lemma mapM_res_Inr: "(\<And>x. x \<in> set xs \<Longrightarrow> f x = Inr (g x)) \<Longrightarrow> mapM_res f xs = Inr (map g xs)"
  by (induction xs) auto

lemma mapM_res_ex: "(\<And>x. x \<in> set xs \<Longrightarrow> \<exists>y. f x = Inr y) \<Longrightarrow> \<exists>ys. mapM_res f xs = Inr ys"
proof (induction xs)
  case (Cons x xs)
  then obtain y ys where "f x = Inr y" "mapM_res f xs = Inr ys" by (meson list.set_intros)
  then show ?case by simp
qed simp

section \<open>Lists\<close>

text \<open>The first element that satisfies a predicate: \<open>for(auto& x:xs) if(p(x)) return x\<close>.\<close>

lemma find_Some_D: "List.find P xs = Some x \<Longrightarrow> x \<in> set xs \<and> P x"
  by (induction xs) (auto split: if_splits)

lemma find_None_D: "List.find P xs = None \<Longrightarrow> x \<in> set xs \<Longrightarrow> \<not> P x"
  by (induction xs) (auto split: if_splits)

lemma find_ex: "x \<in> set xs \<Longrightarrow> P x \<Longrightarrow> \<exists>y. List.find P xs = Some y"
  by (induction xs) auto

lemma find_unique:
  "x \<in> set xs \<Longrightarrow> P x \<Longrightarrow> (\<And>y. y \<in> set xs \<Longrightarrow> P y \<Longrightarrow> y = x) \<Longrightarrow> List.find P xs = Some x"
  by (metis find_Some_D find_ex)

text \<open>\<open>for(auto& x:xs) if(p(x)) {x=f(x); break;}\<close>: only the first match is changed.\<close>

fun update_first :: "('a \<Rightarrow> bool) \<Rightarrow> ('a \<Rightarrow> 'a) \<Rightarrow> 'a list \<Rightarrow> 'a list" where
  "update_first p f [] = []"
| "update_first p f (x # xs) = (if p x then f x # xs else x # update_first p f xs)"

lemma length_update_first [simp]: "length (update_first p f xs) = length xs"
  by (induction xs) auto

lemma update_first_none: "(\<And>x. x \<in> set xs \<Longrightarrow> \<not> p x) \<Longrightarrow> update_first p f xs = xs"
  by (induction xs) auto

lemma map_update_first: "(\<And>x. p x \<Longrightarrow> g (f x) = g x) \<Longrightarrow> map g (update_first p f xs) = map g xs"
  by (induction xs) auto

lemma find_update_first_same:
  "(\<And>x. p x \<Longrightarrow> p (f x)) \<Longrightarrow> List.find p (update_first p f xs) = map_option f (List.find p xs)"
  by (induction xs) auto

lemma find_update_first_other:
  "(\<And>x. p x \<Longrightarrow> \<not> q x) \<Longrightarrow> (\<And>x. p x \<Longrightarrow> \<not> q (f x)) \<Longrightarrow>
    List.find q (update_first p f xs) = List.find q xs"
  by (induction xs) auto

lemma set_update_first: "set (update_first p f xs) \<subseteq> set xs \<union> f ` {x \<in> set xs. p x}"
  by (induction xs) auto

lemma distinct_map_inj_on: "distinct (map f xs) \<Longrightarrow> x \<in> set xs \<Longrightarrow> y \<in> set xs \<Longrightarrow> f x = f y \<Longrightarrow> x = y"
  by (auto simp: distinct_map inj_on_def)

text \<open>\<open>xs[i]\<close> of a vector: no meaning past its end.\<close>

definition nth_res :: "'a list \<Rightarrow> nat \<Rightarrow> 'a result" where
  "nth_res xs i = (if i < length xs then Inr (xs ! i) else Inl Undefined)"

lemma nth_res_simps [simp]: "i < length xs \<Longrightarrow> nth_res xs i = Inr (xs ! i)"
  by (simp add: nth_res_def)

lemma nth_res_Inr_iff [res_simps]: "nth_res xs i = Inr x \<longleftrightarrow> i < length xs \<and> xs ! i = x"
  by (auto simp: nth_res_def)

lemma nth_res_Inl_iff [res_simps]: "nth_res xs i = Inl e \<longleftrightarrow> length xs \<le> i \<and> e = Undefined"
  by (auto simp: nth_res_def)

text \<open>A loop whose body may return an error, over the list of its iterations.\<close>

primrec foldM_res :: "('a \<Rightarrow> 's \<Rightarrow> 's result) \<Rightarrow> 'a list \<Rightarrow> 's \<Rightarrow> 's result" where
  "foldM_res f [] s = Inr s"
| "foldM_res f (x # xs) s = res_bind (f x s) (foldM_res f xs)"

lemma foldM_res_invariant:
  "foldM_res f xs s = Inr t \<Longrightarrow> P s \<Longrightarrow> (\<And>x s s'. x \<in> set xs \<Longrightarrow> P s \<Longrightarrow> f x s = Inr s' \<Longrightarrow> P s') \<Longrightarrow> P t"
proof (induction xs arbitrary: s)
  case (Cons x xs)
  obtain s' where s': "f x s = Inr s'" "foldM_res f xs s' = Inr t"
    using Cons.prems(1) by (auto simp: res_simps)
  with Cons show ?case by (metis list.set_intros)
qed simp

lemma foldM_res_Inl:
  "foldM_res f xs s = Inl e \<Longrightarrow> P s \<Longrightarrow> (\<And>x s s'. x \<in> set xs \<Longrightarrow> P s \<Longrightarrow> f x s = Inr s' \<Longrightarrow> P s') \<Longrightarrow>
    \<exists>x \<in> set xs. \<exists>s'. P s' \<and> f x s' = Inl e"
proof (induction xs arbitrary: s)
  case (Cons x xs)
  show ?case
  proof (cases "f x s")
    case (Inl e')
    with Cons.prems show ?thesis by auto
  next
    case (Inr s')
    then have "foldM_res f xs s' = Inl e" "P s'" using Cons.prems by auto
    then have "\<exists>y \<in> set xs. \<exists>s''. P s'' \<and> f y s'' = Inl e"
      by (rule Cons.IH) (rule Cons.prems(3), simp_all)
    then show ?thesis by auto
  qed
qed simp

lemma foldM_res_same: "(\<And>x. x \<in> set xs \<Longrightarrow> f x s = Inr s) \<Longrightarrow> foldM_res f xs s = Inr s"
  by (induction xs) auto

lemma foldM_res_map: "foldM_res f (map g xs) s = foldM_res (\<lambda>x. f (g x)) xs s"
  by (induction xs arbitrary: s) (auto simp: res_bind_def split: sum.splits)

lemma foldM_res_append: "foldM_res f (xs @ ys) s = res_bind (foldM_res f xs s) (foldM_res f ys)"
  by (induction xs arbitrary: s) (auto simp: res_bind_def split: sum.splits)

text \<open>Marking an unmarked position leaves one unmarked position less.\<close>

lemma length_filter_Not_update:
  "i < length used \<Longrightarrow> \<not> used ! i \<Longrightarrow>
    length (filter Not used) = Suc (length (filter Not (used[i := True])))"
proof (induction used arbitrary: i)
  case (Cons u used)
  then show ?case by (cases i) auto
qed simp

lemma mset_eq_of_distinct_subset:
  assumes "set xs \<subseteq> set ys" and "distinct xs" and "length ys = length xs"
  shows "mset ys = mset xs"
proof -
  have "card (set xs) \<le> card (set ys)" using assms(1) by (simp add: card_mono)
  moreover have "card (set ys) \<le> length ys" by (rule card_length)
  moreover have "card (set xs) = length xs" using assms(2) by (rule distinct_card)
  ultimately have c: "card (set ys) = length ys" "card (set xs) = card (set ys)" using assms(3) by simp_all
  then have "set xs = set ys" using assms(1) by (intro card_subset_eq) simp_all
  with c assms(2) show ?thesis by (metis card_distinct set_eq_iff_mset_eq_distinct)
qed

end
