(* ===== verification/NumText.thy ===== *)
theory NumText
  imports Prelude
begin

text \<open>
  Integers as text: \<open>std::to_string\<close> (and the integral \<open>operator<<\<close> of the classic locale) and
  \<open>std::from_chars\<close> for 64-bit integers, with the round trips that the codec, the mock backend
  and the local gateway protocol rest on, and the injectivity of keys that join numbers with a
  colon.
\<close>

section \<open>Decimal digits\<close>

definition digit_char :: "nat \<Rightarrow> char" where
  "digit_char d = char_of (48 + d)"

definition is_digit :: "char \<Rightarrow> bool" where
  "is_digit c \<longleftrightarrow> 48 \<le> (of_char c :: nat) \<and> (of_char c :: nat) \<le> 57"

definition digit_val :: "char \<Rightarrow> nat" where
  "digit_val c = of_char c - 48"

lemma digit_val_char [simp]: "d < 10 \<Longrightarrow> digit_val (digit_char d) = d"
  by (simp add: digit_val_def digit_char_def)

lemma is_digit_char [simp]: "d < 10 \<Longrightarrow> is_digit (digit_char d)"
  by (simp add: is_digit_def digit_char_def)

lemma digit_char_val [simp]: "is_digit c \<Longrightarrow> digit_char (digit_val c) = c"
  by (simp add: is_digit_def digit_char_def digit_val_def)

lemma digit_val_lt: "is_digit c \<Longrightarrow> digit_val c < 10"
  by (auto simp: is_digit_def digit_val_def less_diff_conv2)

fun dec_nat :: "nat \<Rightarrow> string" where
  "dec_nat n = (if n < 10 then [digit_char n] else dec_nat (n div 10) @ [digit_char (n mod 10)])"

declare dec_nat.simps [simp del]

definition digits_val :: "string \<Rightarrow> nat" where
  "digits_val s = foldl (\<lambda>a c. 10 * a + digit_val c) 0 s"

lemma digits_val_Nil [simp]: "digits_val [] = 0"
  by (simp add: digits_val_def)

lemma digits_val_snoc [simp]: "digits_val (s @ [c]) = 10 * digits_val s + digit_val c"
  by (simp add: digits_val_def)

lemma digits_val_append: "digits_val (s @ t) = digits_val s * 10 ^ length t + digits_val t"
proof (induction t rule: rev_induct)
  case Nil
  then show ?case by simp
next
  case (snoc c t)
  have "digits_val (s @ t @ [c]) = 10 * digits_val (s @ t) + digit_val c"
    by (metis append_assoc digits_val_snoc)
  with snoc show ?case by (simp add: algebra_simps)
qed

lemma digits_val_lt: "\<forall>c \<in> set s. is_digit c \<Longrightarrow> digits_val s < 10 ^ length s"
proof (induction s rule: rev_induct)
  case Nil
  then show ?case by simp
next
  case (snoc c s)
  then have "digits_val s < 10 ^ length s" and "digit_val c < 10" by (auto simp: digit_val_lt)
  then have "10 * digits_val s + digit_val c < 10 * 10 ^ length s" by linarith
  then show ?case by simp
qed

lemma digits_val_replicate_zero [simp]: "digits_val (replicate n (CHR ''0'')) = 0"
proof (induction n)
  case (Suc n)
  have "replicate (Suc n) (CHR ''0'') = replicate n (CHR ''0'') @ [CHR ''0'']"
    by (simp add: replicate_append_same)
  with Suc show ?case by (simp del: replicate_Suc add: digit_val_def)
qed simp

lemma digits_val_dec_nat [simp]: "digits_val (dec_nat n) = n"
proof (induction n rule: dec_nat.induct)
  case (1 n)
  then show ?case
    by (subst dec_nat.simps) (auto simp: digits_val_def)
qed

lemma dec_nat_digits: "c \<in> set (dec_nat n) \<Longrightarrow> is_digit c"
proof (induction n rule: dec_nat.induct)
  case (1 n)
  then show ?case by (subst (asm) dec_nat.simps) (auto split: if_splits)
qed

lemma dec_nat_not_Nil [simp]: "dec_nat n \<noteq> []"
  by (subst dec_nat.simps) simp

lemma dec_nat_inject [simp]: "dec_nat m = dec_nat n \<longleftrightarrow> m = n"
  by (metis digits_val_dec_nat)

lemma length_dec_nat_le: "0 < k \<Longrightarrow> length (dec_nat n) \<le> k \<longleftrightarrow> n < 10 ^ k"
proof (induction n arbitrary: k rule: dec_nat.induct)
  case (1 n)
  show ?case
  proof (cases "n < 10")
    case True
    moreover have "(10::nat) \<le> 10 ^ k" using 1(2) by (cases k) auto
    ultimately show ?thesis using 1(2) by (subst dec_nat.simps) auto
  next
    case False
    show ?thesis
    proof (cases "k = 1")
      case True
      then show ?thesis using False by (subst dec_nat.simps) simp
    next
      case k: False
      with 1(2) obtain j where j: "k = Suc j" "0 < j" by (cases k) auto
      have "length (dec_nat n) \<le> k \<longleftrightarrow> length (dec_nat (n div 10)) \<le> j"
        using False j by (subst dec_nat.simps) simp
      also have "\<dots> \<longleftrightarrow> n div 10 < 10 ^ j" using 1(1)[OF False j(2)] .
      also have "\<dots> \<longleftrightarrow> n < 10 ^ k" using j by (simp add: div_less_iff_less_mult mult.commute)
      finally show ?thesis .
    qed
  qed
qed

lemma length_dec_nat_eq:
  assumes "10 ^ k \<le> n" and "n < 10 ^ Suc k"
  shows "length (dec_nat n) = Suc k"
proof -
  have "length (dec_nat n) \<le> Suc k" using assms(2) length_dec_nat_le[of "Suc k" n] by simp
  moreover have "k = 0 \<or> \<not> length (dec_nat n) \<le> k" using assms(1) length_dec_nat_le[of k n] by auto
  moreover have "0 < length (dec_nat n)" by simp
  ultimately show ?thesis by (cases "k = 0") (linarith, simp)
qed

section \<open>std::to\_string\<close>

definition to_string_nat :: "nat \<Rightarrow> string" where
  "to_string_nat n = dec_nat n"

definition to_string_u64 :: "u64 \<Rightarrow> string" where
  "to_string_u64 w = dec_nat (unat w)"

definition to_string_int :: "int \<Rightarrow> string" where
  "to_string_int i = (if i < 0 then CHR ''-'' # dec_nat (nat (- i)) else dec_nat (nat i))"

lemma not_digit_minus [simp]: "\<not> is_digit (CHR ''-'')" "\<not> is_digit (CHR '':'')"
  "\<not> is_digit (CHR ''+'')" "\<not> is_digit (CHR ''.'')" "\<not> is_digit (CHR ''e'')" "\<not> is_digit (CHR ''E'')"
  by (simp_all add: is_digit_def)

lemma dec_nat_hd_neq: "\<not> is_digit c \<Longrightarrow> dec_nat n \<noteq> c # s"
  by (metis dec_nat_digits list.set_intros(1))

lemma to_string_int_inject [simp]: "to_string_int i = to_string_int j \<longleftrightarrow> i = j"
proof -
  have "CHR ''-'' # dec_nat m \<noteq> dec_nat n" "dec_nat n \<noteq> CHR ''-'' # dec_nat m" for m n
    by (metis dec_nat_hd_neq not_digit_minus(1))+
  then show ?thesis by (auto simp: to_string_int_def)
qed

lemma to_string_u64_inject [simp]: "to_string_u64 v = to_string_u64 w \<longleftrightarrow> v = w"
  by (auto simp: to_string_u64_def intro: unsigned_word_eqI)

lemma colon_notin_dec [simp]: "CHR '':'' \<notin> set (dec_nat n)"
  by (metis dec_nat_digits not_digit_minus(2))

lemma colon_notin_to_string [simp]:
  "CHR '':'' \<notin> set (to_string_u64 w)" "CHR '':'' \<notin> set (to_string_int i)"
  by (auto simp: to_string_u64_def to_string_int_def)

text \<open>A separator that occurs in neither first part splits a joined string in one way only.\<close>

lemma sep_inject:
  assumes "s @ c # t = s' @ c # t'" and "c \<notin> set s" and "c \<notin> set s'"
  shows "s = s' \<and> t = t'"
proof -
  have "takeWhile (\<lambda>x. x \<noteq> c) (s @ c # t) = s" "takeWhile (\<lambda>x. x \<noteq> c) (s' @ c # t') = s'"
    using assms(2,3) by (auto simp: takeWhile_append)
  with assms(1) show ?thesis by auto
qed

section \<open>std::from\_chars\<close>

text \<open>
  \<open>std::from_chars(first, last, n)\<close> for a 64-bit \<open>n\<close> initialised to \<open>0\<close>: the error code, the
  value of \<open>n\<close> afterwards (unchanged on an error) and the rest of the text from the returned
  pointer. A minus sign is taken for a signed type only; leading zeros are taken.
\<close>

datatype errc = Ok_errc | Invalid_argument | Result_out_of_range

definition from_chars_u64 :: "string \<Rightarrow> errc \<times> int \<times> string" where
  "from_chars_u64 s =
     (let ds = takeWhile is_digit s; rest = dropWhile is_digit s
      in if ds = [] then (Invalid_argument, 0, s)
         else if digits_val ds < 2 ^ 64 then (Ok_errc, int (digits_val ds), rest)
         else (Result_out_of_range, 0, rest))"

definition from_chars_i64 :: "string \<Rightarrow> errc \<times> int \<times> string" where
  "from_chars_i64 s =
     (let neg = (case s of [] \<Rightarrow> False | c # _ \<Rightarrow> c = CHR ''-'');
          t = (if neg then tl s else s);
          ds = takeWhile is_digit t; rest = dropWhile is_digit t;
          v = (if neg then - int (digits_val ds) else int (digits_val ds))
      in if ds = [] then (Invalid_argument, 0, s)
         else if - (2 ^ 63) \<le> v \<and> v < 2 ^ 63 then (Ok_errc, v, rest)
         else (Result_out_of_range, 0, rest))"

lemma takeWhile_dec [simp]:
  "takeWhile is_digit (dec_nat n) = dec_nat n" "dropWhile is_digit (dec_nat n) = []"
  by (simp_all add: takeWhile_eq_all_conv dropWhile_eq_Nil_conv dec_nat_digits)

lemma from_chars_u64_to_string: "n < 2 ^ 64 \<Longrightarrow> from_chars_u64 (dec_nat n) = (Ok_errc, int n, [])"
  by (simp add: from_chars_u64_def)

lemma from_chars_i64_to_string:
  assumes "- (2 ^ 63) \<le> i" and "i < 2 ^ 63"
  shows "from_chars_i64 (to_string_int i) = (Ok_errc, i, [])"
proof (cases "i < 0")
  case True
  with assms show ?thesis by (simp add: from_chars_i64_def to_string_int_def)
next
  case False
  obtain c s where cs: "dec_nat (nat i) = c # s" by (cases "dec_nat (nat i)") auto
  then have "c \<noteq> CHR ''-''" using dec_nat_hd_neq[of "CHR ''-''" "nat i" s] by auto
  then have "(case dec_nat (nat i) of [] \<Rightarrow> False | c # _ \<Rightarrow> c = CHR ''-'') = False"
    using cs by simp
  with False assms show ?thesis
    by (simp add: from_chars_i64_def to_string_int_def)
qed

text \<open>What an accepted text is: digits only, whose value is the result.\<close>

lemma from_chars_u64_ok:
  assumes "from_chars_u64 s = (Ok_errc, n, [])"
  shows "s \<noteq> [] \<and> (\<forall>c \<in> set s. is_digit c) \<and> n = int (digits_val s) \<and> digits_val s < 2 ^ 64"
proof -
  have "dropWhile is_digit s = []" using assms by (auto simp: from_chars_u64_def Let_def split: if_splits)
  then have "takeWhile is_digit s = s" by (simp add: dropWhile_eq_Nil_conv takeWhile_eq_all_conv)
  with assms show ?thesis
    by (auto simp: from_chars_u64_def Let_def dropWhile_eq_Nil_conv split: if_splits)
qed

lemma from_chars_u64_iff:
  "from_chars_u64 s = (Ok_errc, n, []) \<longleftrightarrow>
    s \<noteq> [] \<and> (\<forall>c \<in> set s. is_digit c) \<and> n = int (digits_val s) \<and> digits_val s < 2 ^ 64"
proof
  assume r: "s \<noteq> [] \<and> (\<forall>c \<in> set s. is_digit c) \<and> n = int (digits_val s) \<and> digits_val s < 2 ^ 64"
  then have tw: "takeWhile is_digit s = s" "dropWhile is_digit s = []"
    by (auto simp: takeWhile_eq_all_conv dropWhile_eq_Nil_conv)
  show "from_chars_u64 s = (Ok_errc, n, [])"
    unfolding from_chars_u64_def Let_def tw using r by simp
qed (rule from_chars_u64_ok)

lemma from_chars_i64_range:
  "from_chars_i64 s = (Ok_errc, n, r) \<Longrightarrow> - (2 ^ 63) \<le> n \<and> n < 2 ^ 63"
  by (auto simp: from_chars_i64_def Let_def split: if_splits)

lemma from_chars_u64_range:
  "from_chars_u64 s = (Ok_errc, n, r) \<Longrightarrow> 0 \<le> n \<and> n < 2 ^ 64"
  by (auto simp: from_chars_u64_def Let_def split: if_splits)

section \<open>Hexadecimal\<close>

text \<open>The table lookup \<open>"0123456789abcdef"[n]\<close>.\<close>

definition hex_char :: "nat \<Rightarrow> char" where
  "hex_char n = (if n < 10 then char_of (48 + n) else char_of (87 + n))"

text \<open>\<open>Key(const HostIdentity&)\<close>: two lower-case digits per byte.\<close>

definition hex_bytes :: "bytes \<Rightarrow> string" where
  "hex_bytes bs = concat (map (\<lambda>b. [hex_char (unat b div 16), hex_char (unat b mod 16)]) bs)"

text \<open>The lambda \<open>digit\<close> of the code: the value of a hexadecimal digit, \<open>-1\<close> otherwise.\<close>

definition hex_digit :: "char \<Rightarrow> int" where
  "hex_digit c =
     (let n = (of_char c :: nat)
      in if 48 \<le> n \<and> n \<le> 57 then int n - 48
         else if 97 \<le> n \<and> n \<le> 102 then int n - 97 + 10
         else if 65 \<le> n \<and> n \<le> 70 then int n - 65 + 10
         else - 1)"

lemma hex_digit_char [simp]: "n < 16 \<Longrightarrow> hex_digit (hex_char n) = int n"
  by (auto simp: hex_digit_def hex_char_def Let_def)

lemma hex_digit_range: "hex_digit c < 16" "- 1 \<le> hex_digit c"
  by (auto simp: hex_digit_def Let_def)

lemma hex_char_inject: "m < 16 \<Longrightarrow> n < 16 \<Longrightarrow> hex_char m = hex_char n \<longleftrightarrow> m = n"
  by (metis hex_digit_char of_nat_eq_iff)

lemma length_hex_bytes [simp]: "length (hex_bytes bs) = 2 * length bs"
  by (induction bs) (auto simp: hex_bytes_def)

lemma hex_bytes_Cons: "hex_bytes (b # bs) = hex_char (unat b div 16) # hex_char (unat b mod 16) # hex_bytes bs"
  by (simp add: hex_bytes_def)

lemma unat_u8_lt: "unat (b :: u8) < 256"
  using unsigned_less[of b] by simp

lemma hex_bytes_inject [simp]: "hex_bytes xs = hex_bytes ys \<longleftrightarrow> xs = ys"
proof (induction xs arbitrary: ys)
  case Nil
  then show ?case by (cases ys) (auto simp: hex_bytes_def)
next
  case (Cons x xs)
  show ?case
  proof (cases ys)
    case Nil
    then show ?thesis by (simp add: hex_bytes_def)
  next
    case (Cons y zs)
    have lt: "unat x div 16 < 16" "unat y div 16 < 16" using unat_u8_lt[of x] unat_u8_lt[of y] by auto
    have "unat x div 16 = unat y div 16 \<and> unat x mod 16 = unat y mod 16 \<longleftrightarrow> x = y"
      by (metis div_mult_mod_eq unsigned_word_eqI)
    with lt Cons Cons.IH show ?thesis by (auto simp: hex_bytes_Cons hex_char_inject)
  qed
qed

lemma hex_char_not_colon: "n < 16 \<Longrightarrow> hex_char n \<noteq> CHR '':''"
proof
  assume n: "n < 16" and eq: "hex_char n = CHR '':''"
  have "hex_digit (CHR '':'') = - 1" by (simp add: hex_digit_def)
  with hex_digit_char[OF n] eq show False by simp
qed

end
