(* ===== verification/FloatText.thy ===== *)
theory FloatText
  imports NumText Complex_Main
begin

text \<open>
  IEEE 754 binary32 and binary64 as the code uses them through the C++ library: a value is its
  bit pattern, \<open>out << setprecision(max_digits10) << v\<close> prints it as \<open>%.{9,17}g\<close> does, and
  \<open>in >> noskipws >> v\<close> followed by \<open>in.eof()\<close> reads the whole text back, rounding to nearest
  with ties to even. Both follow libstdc++ in the classic locale.

  The main result, \<open>read_write_float\<close> at the end, is that \<open>max_digits10\<close> digits are enough:
  reading back the printed text of any finite value gives the same bits.
\<close>

section \<open>Formats\<close>

record float_format =
  mant_bits :: nat \<comment> \<open>stored fraction bits\<close>
  exp_bits :: nat
  digits10 :: nat \<comment> \<open>\<open>max_digits10\<close>\<close>

definition binary32 :: float_format where
  "binary32 = \<lparr>mant_bits = 23, exp_bits = 8, digits10 = 9\<rparr>"

definition binary64 :: float_format where
  "binary64 = \<lparr>mant_bits = 52, exp_bits = 11, digits10 = 17\<rparr>"

text \<open>The exponent of the unit of the subnormal numbers: \<open>-149\<close> and \<open>-1074\<close>.\<close>

definition emin :: "float_format \<Rightarrow> int" where
  "emin f = 2 - 2 ^ (exp_bits f - 1) - int (mant_bits f)"

text \<open>The bit pattern of infinity: all finite magnitudes are below it.\<close>

definition inf_bits :: "float_format \<Rightarrow> nat" where
  "inf_bits f = (2 ^ exp_bits f - 1) * 2 ^ mant_bits f"

definition sign_bit :: "float_format \<Rightarrow> nat" where
  "sign_bit f = 2 ^ (mant_bits f + exp_bits f)"

text \<open>The magnitude \<open>m * 2 ^ k\<close> of the finite value whose bits below the sign are \<open>b\<close>.\<close>

definition mag_mant :: "float_format \<Rightarrow> nat \<Rightarrow> nat" where
  "mag_mant f b =
     (if b div 2 ^ mant_bits f = 0 then b else 2 ^ mant_bits f + b mod 2 ^ mant_bits f)"

definition mag_exp :: "float_format \<Rightarrow> nat \<Rightarrow> int" where
  "mag_exp f b = emin f + int (b div 2 ^ mant_bits f) - (if b div 2 ^ mant_bits f = 0 then 0 else 1)"

section \<open>Rounding\<close>

text \<open>Nearest natural number to \<open>a / b\<close>, ties to even.\<close>

definition rne :: "nat \<Rightarrow> nat \<Rightarrow> nat" where
  "rne a b =
     (let q = a div b; r = a mod b
      in if 2 * r < b then q else if b < 2 * r then Suc q else if even q then q else Suc q)"

text \<open>\<open>a / b\<close> scaled by \<open>B ^ e\<close>, as a fraction of naturals.\<close>

definition scale :: "nat \<Rightarrow> int \<Rightarrow> nat \<times> nat \<Rightarrow> nat \<times> nat" where
  "scale B e ab = (if 0 \<le> e then (fst ab * B ^ nat e, snd ab) else (fst ab, snd ab * B ^ nat (- e)))"

text \<open>The number of times \<open>a\<close> must be multiplied by \<open>B\<close> to reach \<open>b\<close>.\<close>

function lead :: "nat \<Rightarrow> nat \<Rightarrow> nat \<Rightarrow> nat" where
  "lead B a b = (if a = 0 \<or> B < 2 \<or> b \<le> a then 0 else Suc (lead B (B * a) b))"
  by pat_completeness auto
termination
  by (relation "measure (\<lambda>(B, a, b). b - a)") (auto simp: diff_less_mono2)

declare lead.simps [simp del]

text \<open>\<open>\<lfloor>log B (a / b)\<rfloor>\<close> for a positive fraction.\<close>

fun ilog :: "nat \<Rightarrow> nat \<Rightarrow> nat" where
  "ilog B n = (if B < 2 \<or> n < B then 0 else Suc (ilog B (n div B)))"

declare ilog.simps [simp del]

definition flog :: "nat \<Rightarrow> nat \<times> nat \<Rightarrow> int" where
  "flog B ab = (if snd ab \<le> fst ab then int (ilog B (fst ab div snd ab)) else - int (lead B (fst ab) (snd ab)))"

text \<open>
  The magnitude bits of \<open>a / b\<close> rounded to the format; \<open>inf_bits\<close> or more when it overflows.
  The unit is \<open>2 ^ k\<close>; a rounded significand that reaches the next power of two carries into
  the exponent by itself, because the stored fields are adjacent.
\<close>

definition round_bits :: "float_format \<Rightarrow> nat \<times> nat \<Rightarrow> nat" where
  "round_bits f ab =
     (if fst ab = 0 then 0
      else let k = max (emin f) (flog 2 ab - int (mant_bits f));
               sc = scale 2 (- k) ab
           in nat (k - emin f) * 2 ^ mant_bits f + rne (fst sc) (snd sc))"

section \<open>Printing\<close>

text \<open>\<open>m * 2 ^ k\<close> as a fraction.\<close>

definition mag_frac :: "float_format \<Rightarrow> nat \<Rightarrow> nat \<times> nat" where
  "mag_frac f b = scale 2 (mag_exp f b) (mag_mant f b, 1)"

text \<open>\<open>P\<close> significant decimal digits \<open>D\<close> and the decimal exponent \<open>X\<close> of the first.\<close>

definition sci_digits :: "nat \<Rightarrow> nat \<times> nat \<Rightarrow> nat \<times> int" where
  "sci_digits P ab =
     (let X = flog 10 ab;
          sc = scale 10 (int P - 1 - X) ab;
          D = rne (fst sc) (snd sc)
      in if D = 10 ^ P then (10 ^ (P - 1), X + 1) else (D, X))"

definition strip_zeros :: "string \<Rightarrow> string" where
  "strip_zeros s = rev (dropWhile (\<lambda>c. c = CHR ''0'') (rev s))"

definition with_frac :: "string \<Rightarrow> string \<Rightarrow> string" where
  "with_frac i fr = (let s = strip_zeros fr in if s = [] then i else i @ CHR ''.'' # s)"

definition exp_text :: "int \<Rightarrow> string" where
  "exp_text X =
     (let d = dec_nat (nat \<bar>X\<bar>)
      in CHR ''e'' # (if X < 0 then CHR ''-'' else CHR ''+'') # (if length d < 2 then CHR ''0'' # d else d))"

text \<open>The \<open>%g\<close> layout of the digits.\<close>

definition layout_g :: "nat \<Rightarrow> nat \<times> int \<Rightarrow> string" where
  "layout_g P DX =
     (let ds = dec_nat (fst DX); X = snd DX
      in if X < - 4 \<or> int P \<le> X then with_frac (take 1 ds) (drop 1 ds) @ exp_text X
         else if 0 \<le> X then with_frac (take (nat X + 1) ds) (drop (nat X + 1) ds)
         else with_frac ''0'' (replicate (nat (- X) - 1) (CHR ''0'') @ ds))"

definition print_mag :: "float_format \<Rightarrow> nat \<Rightarrow> string" where
  "print_mag f b =
     (if inf_bits f < b then ''nan'' else if b = inf_bits f then ''inf''
      else if b = 0 then ''0''
      else layout_g (digits10 f) (sci_digits (digits10 f) (mag_frac f b)))"

text \<open>\<open>out << setprecision(max_digits10) << v\<close>.\<close>

definition float_print :: "float_format \<Rightarrow> nat \<Rightarrow> string" where
  "float_print f n =
     (if sign_bit f \<le> n then CHR ''-'' # print_mag f (n - sign_bit f) else print_mag f n)"

section \<open>Reading\<close>

text \<open>
  The longest prefix libstdc++ collects is
  \<open>[+-]? digits* (. digits*)? ([eE] [+-]? digits*)?\<close>; \<open>strtod\<close> must then take all of it and the
  stream must be at its end. A text passes when it is all of the form
  \<open>[+-]? (d+ (. d*)? | . d+) ([eE] [+-]? d+)?\<close>. The result is the sign, the digits of the
  significand as a number and the decimal exponent of its last digit.
\<close>

definition parse_sign :: "string \<Rightarrow> bool \<times> string" where
  "parse_sign s =
     (case s of [] \<Rightarrow> (False, [])
      | c # t \<Rightarrow> if c = CHR ''-'' then (True, t) else if c = CHR ''+'' then (False, t) else (False, s))"

definition parse_exp :: "string \<Rightarrow> int option" where
  "parse_exp s =
     (case s of [] \<Rightarrow> Some 0
      | c # t \<Rightarrow>
          if c = CHR ''e'' \<or> c = CHR ''E'' then
            (let nd = parse_sign t; ds = takeWhile is_digit (snd nd)
             in if ds = [] \<or> dropWhile is_digit (snd nd) \<noteq> [] then None
                else Some (if fst nd then - int (digits_val ds) else int (digits_val ds)))
          else None)"

definition parse_frac :: "string \<Rightarrow> string \<times> string" where
  "parse_frac s =
     (case s of [] \<Rightarrow> ([], [])
      | c # t \<Rightarrow> if c = CHR ''.'' then (takeWhile is_digit t, dropWhile is_digit t) else ([], s))"

definition parse_float :: "string \<Rightarrow> (bool \<times> nat \<times> int) option" where
  "parse_float s =
     (let ns = parse_sign s;
          i = takeWhile is_digit (snd ns);
          fr = parse_frac (dropWhile is_digit (snd ns))
      in if i = [] \<and> fst fr = [] then None
         else case parse_exp (snd fr) of None \<Rightarrow> None
              | Some e \<Rightarrow> Some (fst ns, digits_val (i @ fst fr), e - int (length (fst fr))))"

text \<open>
  \<open>in >> noskipws >> v; !in || !in.eof() || !isfinite(v)\<close>: \<open>None\<close> when the read is refused (a
  malformed text, or a magnitude that rounds to infinity).
\<close>

definition float_parse :: "float_format \<Rightarrow> string \<Rightarrow> nat option" where
  "float_parse f s =
     (case parse_float s of None \<Rightarrow> None
      | Some (neg, n, e) \<Rightarrow>
          (let b = round_bits f (scale 10 e (n, 1))
           in if inf_bits f \<le> b then None else Some (if neg then sign_bit f + b else b)))"

section \<open>Doubles as numbers\<close>

text \<open>
  Where the code computes with doubles the model keeps their values as rationals; \<open>rnd64\<close> is the
  rounding of an exact result. Every value here is finite.
\<close>

type_synonym double = rat

definition bits_value :: "float_format \<Rightarrow> nat \<Rightarrow> rat" where
  "bits_value f b = of_nat (mag_mant f b) * 2 powi (mag_exp f b)"

definition rnd64 :: "rat \<Rightarrow> double" where
  "rnd64 x =
     (let q = quotient_of \<bar>x\<bar>;
          v = bits_value binary64 (round_bits binary64 (nat (fst q), nat (snd q)))
      in if x < 0 then - v else v)"

section \<open>Correctness of logarithm, scaling and rounding\<close>

definition ratio :: "nat \<times> nat \<Rightarrow> rat" where
  "ratio ab = of_nat (fst ab) / of_nat (snd ab)"

lemma scale_snd_pos [simp]: "0 < B \<Longrightarrow> 0 < snd ab \<Longrightarrow> 0 < snd (scale B e ab)"
  by (simp add: scale_def)

lemma scale_fst_pos [simp]: "0 < B \<Longrightarrow> 0 < fst ab \<Longrightarrow> 0 < fst (scale B e ab)"
  by (simp add: scale_def)

lemma ratio_scale: "0 < B \<Longrightarrow> ratio (scale B e ab) = ratio ab * of_nat B powi e"
  by (auto simp: scale_def ratio_def power_int_def field_simps)

lemma ilog_spec:
  assumes "2 \<le> B" and "0 < n"
  shows "B ^ ilog B n \<le> n \<and> n < B ^ Suc (ilog B n)"
  using assms(2)
proof (induction n rule: less_induct)
  case (less n)
  show ?case
  proof (cases "n < B")
    case True
    with less show ?thesis by (simp add: ilog.simps[of B n])
  next
    case False
    let ?m = "n div B"
    have m: "0 < ?m" "?m < n" using assms(1) False less.prems by (auto simp: div_greater_zero_iff)
    note IH = less.IH[OF m(2,1)]
    have i: "ilog B n = Suc (ilog B ?m)" using False assms(1) by (simp add: ilog.simps[of B n])
    have "B * B ^ ilog B ?m \<le> n"
      using IH by (metis mult_le_mono2 order_trans times_div_less_eq_dividend)
    moreover have "n < B * B ^ Suc (ilog B ?m)"
      using IH assms(1) by (metis dividend_less_times_div less_le_trans mult.commute mult_le_mono2 Suc_leI
          add.commute mult_Suc_right zero_less_numeral order.strict_trans2)
    ultimately show ?thesis by (simp add: i)
  qed
qed

lemma lead_spec:
  "2 \<le> B \<Longrightarrow> 0 < a \<Longrightarrow>
    b \<le> a * B ^ lead B a b \<and> (0 < lead B a b \<longrightarrow> a * B ^ (lead B a b - 1) < b)"
proof (induction B a b rule: lead.induct)
  case (1 B a b)
  show ?case
  proof (cases "b \<le> a")
    case True
    then show ?thesis by (simp add: lead.simps[of B a b])
  next
    case False
    with 1(2,3) have F: "\<not> (a = 0 \<or> B < 2 \<or> b \<le> a)" by simp
    note IH = 1(1)[OF F]
    have l: "lead B a b = Suc (lead B (B * a) b)" using F by (simp add: lead.simps[of B a b])
    show ?thesis
      using IH l F by (cases "lead B (B * a) b") (auto simp: ac_simps)
  qed
qed

lemma flog_spec:
  assumes "2 \<le> B" and "0 < fst ab" and "0 < snd ab"
  shows "of_nat B powi flog B ab \<le> ratio ab \<and> ratio ab < of_nat B powi (flog B ab + 1)"
proof (cases "snd ab \<le> fst ab")
  case True
  let ?q = "fst ab div snd ab"
  have q: "0 < ?q" using True assms by (simp add: div_greater_zero_iff)
  have e: "flog B ab = int (ilog B ?q)" using True by (simp add: flog_def)
  have "B ^ ilog B ?q * snd ab \<le> fst ab"
    using ilog_spec[OF assms(1) q] by (metis div_times_less_eq_dividend le_trans mult_le_mono1)
  moreover have "fst ab < B ^ Suc (ilog B ?q) * snd ab"
  proof -
    have "fst ab < Suc ?q * snd ab" using assms(3) by (metis dividend_less_div_times mult_Suc add.commute)
    also have "\<dots> \<le> B ^ Suc (ilog B ?q) * snd ab"
      using ilog_spec[OF assms(1) q] by (intro mult_le_mono1) (simp add: Suc_leI)
    finally show ?thesis .
  qed
  ultimately have "of_nat (B ^ ilog B ?q * snd ab) \<le> (of_nat (fst ab) :: rat)"
    and "(of_nat (fst ab) :: rat) < of_nat (B ^ Suc (ilog B ?q) * snd ab)"
    by (simp_all only: of_nat_le_iff of_nat_less_iff)
  then have "of_nat B ^ ilog B ?q * of_nat (snd ab) \<le> (of_nat (fst ab) :: rat)"
    and "(of_nat (fst ab) :: rat) < of_nat B ^ Suc (ilog B ?q) * of_nat (snd ab)"
    by (simp_all only: of_nat_mult of_nat_power)
  then show ?thesis
    using assms(3) by (simp add: e ratio_def power_int_add_1' pos_le_divide_eq pos_divide_less_eq
        power_int_of_nat flip: of_nat_Suc)
next
  case False
  let ?j = "lead B (fst ab) (snd ab)"
  have e: "flog B ab = - int ?j" using False by (simp add: flog_def)
  have j: "0 < ?j" using False assms by (simp add: lead.simps[of B "fst ab"])
  note L = lead_spec[OF assms(1,2), of "snd ab"]
  have "of_nat (snd ab) \<le> (of_nat (fst ab * B ^ ?j) :: rat)"
    and "(of_nat (fst ab * B ^ (?j - 1)) :: rat) < of_nat (snd ab)"
    using L j by (simp_all only: of_nat_le_iff of_nat_less_iff)
  then have 1: "of_nat (snd ab) \<le> (of_nat (fst ab) :: rat) * of_nat B ^ ?j"
    and 2: "(of_nat (fst ab) :: rat) * of_nat B ^ (?j - 1) < of_nat (snd ab)"
    by (simp_all only: of_nat_mult of_nat_power)
  have B: "0 < (of_nat B :: rat)" using assms(1) by simp
  have p1: "of_nat B powi - int ?j \<le> ratio ab"
  proof -
    have "1 \<le> of_nat (fst ab) / of_nat (snd ab) * (of_nat B :: rat) ^ ?j"
      using 1 assms(3) by (simp add: pos_le_divide_eq)
    then show ?thesis using B by (simp add: ratio_def power_int_minus pos_divide_le_eq inverse_eq_divide)
  qed
  have "- int ?j + 1 = - int (?j - 1)" using j by simp
  moreover have "ratio ab < of_nat B powi - int (?j - 1)"
  proof -
    have "of_nat (fst ab) / of_nat (snd ab) * (of_nat B :: rat) ^ (?j - 1) < 1"
      using 2 assms(3) by (simp add: pos_divide_less_eq)
    then show ?thesis using B by (simp add: ratio_def power_int_minus pos_less_divide_eq inverse_eq_divide)
  qed
  ultimately show ?thesis using p1 by (simp only: e)
qed

lemma flog_unique:
  assumes "2 \<le> B" and "0 < fst ab" and "0 < snd ab"
    and "of_nat B powi k \<le> ratio ab" and "ratio ab < of_nat B powi (k + 1)"
  shows "flog B ab = k"
proof -
  note S = flog_spec[OF assms(1-3)]
  have B: "1 < (of_nat B :: rat)" using assms(1) by simp
  have "of_nat B powi k < (of_nat B :: rat) powi (flog B ab + 1)" using S assms(4) by linarith
  then have "k < flog B ab + 1" using B power_int_increasing[of "flog B ab + 1" k "of_nat B :: rat"] by linarith
  moreover have "of_nat B powi flog B ab < (of_nat B :: rat) powi (k + 1)" using S assms(5) by linarith
  then have "flog B ab < k + 1" using B power_int_increasing[of "k + 1" "flog B ab" "of_nat B :: rat"] by linarith
  ultimately show ?thesis by simp
qed

lemma rne_near:
  assumes "0 < b"
  shows "\<bar>of_nat (rne a b) - (of_nat a :: rat) / of_nat b\<bar> \<le> 1 / 2"
proof -
  let ?q = "a div b" and ?r = "a mod b"
  have "(of_nat a :: rat) = of_nat (?q * b + ?r)" by simp
  also have "\<dots> = of_nat ?q * of_nat b + of_nat ?r" by (simp only: of_nat_add of_nat_mult)
  finally have a: "(of_nat a :: rat) / of_nat b = of_nat ?q + of_nat ?r / of_nat b"
    using assms by (simp add: add_divide_distrib)
  have r: "?r < b" using assms by simp
  have r1: "(of_nat ?r :: rat) / of_nat b < 1" using r assms by (simp add: divide_simps)
  have lo: "(of_nat ?r :: rat) / of_nat b \<le> 1 / 2" if "2 * ?r \<le> b"
  proof -
    have "(of_nat (2 * ?r) :: rat) \<le> of_nat b" using that by (simp only: of_nat_le_iff)
    then show ?thesis using assms by (simp add: divide_simps)
  qed
  have hi: "1 / 2 \<le> (of_nat ?r :: rat) / of_nat b" if "b \<le> 2 * ?r"
  proof -
    have "(of_nat b :: rat) \<le> of_nat (2 * ?r)" using that by (simp only: of_nat_le_iff)
    then show ?thesis using assms by (simp add: divide_simps)
  qed
  have nn: "0 \<le> (of_nat ?r :: rat) / of_nat b" by simp
  show ?thesis
    unfolding a using lo hi r1 nn by (auto simp: rne_def Let_def abs_le_iff)
qed

lemma rne_unique:
  assumes "0 < b" and "\<bar>(of_nat a :: rat) / of_nat b - of_nat n\<bar> < 1 / 2"
  shows "rne a b = n"
proof -
  have "\<bar>(of_nat (rne a b) :: rat) - of_nat n\<bar> < 1"
    using rne_near[OF assms(1), of a] assms(2) by linarith
  then have "(of_nat (rne a b) :: rat) < of_nat (Suc n)" and "(of_nat n :: rat) < of_nat (Suc (rne a b))"
    by (simp_all add: abs_less_iff)
  then show ?thesis unfolding of_nat_less_iff by simp
qed

section \<open>Rounding to a format\<close>

lemma rne_scale:
  assumes "0 < B" and "0 < snd ab" and "\<bar>ratio ab - of_nat n * of_nat B powi K\<bar> < of_nat B powi K / 2"
  shows "rne (fst (scale B (- K) ab)) (snd (scale B (- K) ab)) = n"
proof (rule rne_unique)
  show "0 < snd (scale B (- K) ab)" using assms by simp
  let ?u = "(of_nat B :: rat) powi K"
  have u: "0 < ?u" using assms(1) by simp
  have "of_nat (fst (scale B (- K) ab)) / of_nat (snd (scale B (- K) ab)) = ratio (scale B (- K) ab)"
    by (simp add: ratio_def)
  also have "\<dots> = ratio ab / ?u"
    using assms(1) by (simp add: ratio_scale power_int_minus divide_inverse)
  finally have e: "of_nat (fst (scale B (- K) ab)) / of_nat (snd (scale B (- K) ab)) - of_nat n
      = (ratio ab - of_nat n * ?u) / ?u"
    using assms(1) by (simp add: diff_divide_distrib)
  show "\<bar>of_nat (fst (scale B (- K) ab)) / of_nat (snd (scale B (- K) ab)) - (of_nat n :: rat)\<bar> < 1 / 2"
    unfolding e using assms(3) u by (simp add: abs_divide pos_divide_less_eq)
qed

lemma round_bits_at:
  assumes "0 < fst ab" and "0 < snd ab" and "K = max (emin f) (flog 2 ab - int (mant_bits f))"
    and "\<bar>ratio ab - of_nat n * 2 powi K\<bar> < 2 powi K / 2"
  shows "round_bits f ab = nat (K - emin f) * 2 ^ mant_bits f + n"
  using assms rne_scale[of 2 ab n K] by (simp add: round_bits_def Let_def)

lemma mag_split: "b = nat (mag_exp f b - emin f) * 2 ^ mant_bits f + mag_mant f b"
proof -
  let ?h = "b div 2 ^ mant_bits f"
  have "b = ?h * 2 ^ mant_bits f + b mod 2 ^ mant_bits f" by (rule div_mult_mod_eq[symmetric])
  then show ?thesis
    by (cases "?h") (auto simp: mag_exp_def mag_mant_def algebra_simps)
qed

lemma mag_frac_value: "ratio (mag_frac f b) = bits_value f b"
  by (simp add: mag_frac_def ratio_scale bits_value_def) (simp add: ratio_def)

lemma mag_frac_pos: "0 < b \<Longrightarrow> 0 < fst (mag_frac f b) \<and> 0 < snd (mag_frac f b)"
  by (auto simp: mag_frac_def scale_def mag_mant_def)

lemma two_powi_add_nat: "(2::rat) powi (int p + k) = 2 ^ p * 2 powi k"
  by (simp add: power_int_add)

text \<open>Every number nearer to a finite value than a quarter of its relative spacing rounds to it.\<close>

lemma round_bits_near:
  assumes ab: "0 < fst ab" "0 < snd ab" and b: "0 < b"
    and near: "\<bar>ratio ab - bits_value f b\<bar> * 2 ^ (mant_bits f + 2) < bits_value f b"
  shows "round_bits f ab = b"
proof -
  let ?p = "mant_bits f" and ?m = "mag_mant f b" and ?k = "mag_exp f b" and ?d = "ratio ab"
  let ?u = "(2::rat) powi ?k"
  have u: "0 < ?u" by simp
  have v: "bits_value f b = of_nat ?m * ?u" by (simp add: bits_value_def)
  have P: "(2::rat) ^ (?p + 2) = 4 * 2 ^ ?p" by simp
  have mle: "?m < 2 * 2 ^ ?p"
    by (auto simp: mag_mant_def div_eq_0_iff)
  have mq: "(of_nat ?m :: rat) < 2 * 2 ^ ?p" using mle by (metis of_nat_less_iff of_nat_mult of_nat_numeral of_nat_power)
  have mq1: "(of_nat ?m :: rat) + 1 \<le> 2 * 2 ^ ?p"
  proof -
    have "Suc ?m \<le> 2 * 2 ^ ?p" using mle by simp
    then have "(of_nat (Suc ?m) :: rat) \<le> of_nat (2 * 2 ^ ?p)" by (simp only: of_nat_le_iff)
    then show ?thesis by simp
  qed
  have half: "\<bar>?d - of_nat ?m * ?u\<bar> < ?u / 2"
  proof -
    have "\<bar>?d - of_nat ?m * ?u\<bar> * (4 * 2 ^ ?p) < of_nat ?m * ?u" using near by (simp add: v)
    also have "\<dots> < 2 * 2 ^ ?p * ?u" using mq u by (simp add: mult_strict_right_mono)
    finally have "\<bar>?d - of_nat ?m * ?u\<bar> * 2 * (2 * 2 ^ ?p) < ?u * (2 * 2 ^ ?p)" by (simp add: ac_simps)
    then have "\<bar>?d - of_nat ?m * ?u\<bar> * 2 < ?u" by (rule mult_right_less_imp_less) simp
    then show ?thesis by simp
  qed
  have hu: "?d < of_nat ?m * ?u + ?u / 2" and hl: "of_nat ?m * ?u - ?u / 2 < ?d"
    using half by linarith+
  have done_k: "round_bits f ab = b" if "max (emin f) (flog 2 ab - int ?p) = ?k"
    using round_bits_at[OF ab that[symmetric] half] mag_split[of b f] by simp
  note fs = flog_spec[of 2 ab, OF _ ab, simplified]
  have upper: "?d < 2 * 2 ^ ?p * ?u"
  proof -
    have "?d < (of_nat ?m + 1 / 2) * ?u" using hu by (simp add: distrib_right)
    also have "\<dots> < 2 * 2 ^ ?p * ?u" using mq1 u by (intro mult_strict_right_mono) auto
    finally show ?thesis .
  qed
  have flog_less: "flog 2 ab < int ?p + j" if "?d < 2 ^ ?p * 2 powi j" for j
  proof (rule ccontr)
    assume "\<not> flog 2 ab < int ?p + j"
    then have "(2::rat) powi (int ?p + j) \<le> 2 powi flog 2 ab" by (intro power_int_increasing) auto
    with fs that show False by (simp add: two_powi_add_nat)
  qed
  have flog_ge: "int ?p + j \<le> flog 2 ab" if "2 ^ ?p * 2 powi j \<le> ?d" for j
  proof (rule ccontr)
    assume "\<not> int ?p + j \<le> flog 2 ab"
    then have "(2::rat) powi (flog 2 ab + 1) \<le> 2 powi (int ?p + j)" by (intro power_int_increasing) auto
    with fs that show False by (simp add: two_powi_add_nat)
  qed
  show ?thesis
  proof (cases "b div 2 ^ ?p = 0")
    case True
    then have m: "?m = b" "b < 2 ^ ?p" and k: "?k = emin f"
      by (auto simp: mag_mant_def mag_exp_def div_eq_0_iff)
    have "Suc b \<le> 2 ^ ?p" using m by simp
    then have "(of_nat (Suc b) :: rat) \<le> of_nat (2 ^ ?p)" by (simp only: of_nat_le_iff)
    then have "(of_nat ?m :: rat) + 1 / 2 < 2 ^ ?p" using m by simp
    then have "(of_nat ?m + 1 / 2) * ?u < 2 ^ ?p * ?u" using u by (intro mult_strict_right_mono)
    then have "?d < 2 ^ ?p * ?u" using hu by (simp add: distrib_right)
    then have "flog 2 ab < int ?p + ?k" by (rule flog_less)
    with k show ?thesis by (intro done_k) simp
  next
    case False
    then have mge: "2 ^ ?p \<le> ?m" and kge: "emin f \<le> ?k"
      by (auto simp: mag_mant_def mag_exp_def)
    show ?thesis
    proof (cases "2 ^ ?p * ?u \<le> ?d")
      case True
      have "flog 2 ab < int ?p + (?k + 1)"
        using upper by (intro flog_less) (simp add: power_int_add ac_simps)
      with flog_ge[OF True] have "flog 2 ab = int ?p + ?k" by simp
      with kge show ?thesis by (intro done_k) simp
    next
      case lt: False
      have f1: "flog 2 ab < int ?p + ?k" using lt by (intro flog_less) simp
      have "(of_nat ?m - 1 / 2) * ?u < ?d" using hl by (simp add: left_diff_distrib)
      with lt have "(of_nat ?m - 1 / 2) * ?u < 2 ^ ?p * ?u" by linarith
      then have "(of_nat ?m :: rat) - 1 / 2 < 2 ^ ?p" using u by (metis mult_less_cancel_right_pos)
      then have "(of_nat ?m :: rat) < of_nat (Suc (2 ^ ?p))" by simp
      then have m: "?m = 2 ^ ?p" using mge unfolding of_nat_less_iff by simp
      show ?thesis
      proof (cases "?k = emin f")
        case True
        with f1 show ?thesis by (intro done_k) simp
      next
        case k: False
        let ?w = "(2::rat) powi (?k - 1)"
        have w: "?u = 2 * ?w" by (simp add: power_int_diff)
        have "\<bar>?d - 2 ^ ?p * ?u\<bar> * (4 * 2 ^ ?p) < 2 ^ ?p * ?u" using near m by (simp add: v)
        then have "\<bar>?d - 2 ^ ?p * ?u\<bar> * 4 * 2 ^ ?p < ?u * 2 ^ ?p" by (simp add: ac_simps)
        then have quarter: "\<bar>?d - 2 ^ ?p * ?u\<bar> * 4 < ?u" by (rule mult_right_less_imp_less) simp
        have "(1::rat) * ?u \<le> 2 ^ ?p * ?u" by (intro mult_right_mono) auto
        moreover have "2 ^ ?p * ?w = 2 ^ ?p * ?u / 2" by (simp add: w)
        moreover have "\<bar>?d - 2 ^ ?p * ?u\<bar> < ?u / 4" using quarter by simp
        then have "2 ^ ?p * ?u - ?u / 4 < ?d" by linarith
        ultimately have "2 ^ ?p * ?w \<le> ?d" using u by linarith
        then have "flog 2 ab - int ?p = ?k - 1" using flog_ge[of "?k - 1"] f1 by simp
        with k kge have K: "?k - 1 = max (emin f) (flog 2 ab - int ?p)" by simp
        have e: "of_nat (2 * 2 ^ ?p) * ?w = 2 ^ ?p * ?u" by (simp add: w)
        have "?u / 4 = ?w / 2" by (simp add: w)
        then have "\<bar>?d - of_nat (2 * 2 ^ ?p) * ?w\<bar> < ?w / 2" unfolding e using quarter by simp
        then have "round_bits f ab = nat (?k - 1 - emin f) * 2 ^ ?p + 2 * 2 ^ ?p"
          using round_bits_at[OF ab K, of "2 * 2 ^ ?p"] by simp
        also have "\<dots> = b"
        proof -
          have "nat (?k - emin f) = Suc (nat (?k - 1 - emin f))" using k kge by simp
          then show ?thesis using mag_split[of b f] m by simp
        qed
        finally show ?thesis .
      qed
    qed
  qed
qed

section \<open>Printing and reading back\<close>

lemma nat_near:
  assumes "\<bar>(of_nat n :: rat) - s\<bar> \<le> 1 / 2"
  shows "of_nat a \<le> s \<Longrightarrow> a \<le> n" and "s < of_nat a \<Longrightarrow> n \<le> a"
proof -
  assume "of_nat a \<le> s"
  with assms have "(of_nat a :: rat) < of_nat n + 1" unfolding abs_le_iff by linarith
  then have "(of_nat a :: rat) < of_nat (Suc n)" by simp
  then show "a \<le> n" unfolding of_nat_less_iff by simp
next
  assume "s < of_nat a"
  with assms have "(of_nat n :: rat) < of_nat a + 1" unfolding abs_le_iff by linarith
  then have "(of_nat n :: rat) < of_nat (Suc a)" by simp
  then show "n \<le> a" unfolding of_nat_less_iff by simp
qed

text \<open>\<open>P\<close> digits have exactly \<open>P\<close> digits and a relative error of at most half a unit.\<close>

lemma sci_digits_spec:
  assumes P: "0 < P" and ab: "0 < fst ab" "0 < snd ab" and eq: "sci_digits P ab = (D, X)"
  shows "10 ^ (P - 1) \<le> D" and "D < 10 ^ P"
    and "\<bar>of_nat D * 10 powi (X - int P + 1) - ratio ab\<bar> * (2 * 10 ^ (P - 1)) \<le> ratio ab"
proof -
  let ?X = "flog 10 ab"
  let ?E = "int P - 1 - ?X"
  let ?sc = "scale 10 ?E ab"
  let ?D = "rne (fst ?sc) (snd ?sc)"
  let ?w = "(10::rat) powi (- ?E)"
  have w: "0 < ?w" by simp
  have s: "ratio ?sc = ratio ab * 10 powi ?E" by (simp add: ratio_scale)
  have "(10::rat) powi ?E * ?w = 1" by (simp flip: power_int_add)
  then have r: "ratio ab = ratio ?sc * ?w" unfolding s by (simp only: mult.assoc mult_1_right)
  note fl = flog_spec[of 10 ab, OF _ ab, simplified]
  have "10 powi ?X * 10 powi ?E \<le> ratio ?sc" "ratio ?sc < 10 powi (?X + 1) * 10 powi ?E"
    unfolding s using fl by (auto intro: mult_right_mono mult_strict_right_mono)
  moreover have "(10::rat) powi ?X * 10 powi ?E = of_nat (10 ^ (P - 1))"
    using P by (simp flip: power_int_add add: power_int_nonneg_exp nat_diff_distrib)
  moreover have "(10::rat) powi (?X + 1) * 10 powi ?E = of_nat (10 ^ P)"
    by (simp flip: power_int_add add: power_int_nonneg_exp)
  ultimately have lo: "of_nat (10 ^ (P - 1)) \<le> ratio ?sc" and hi: "ratio ?sc < of_nat (10 ^ P)"
    by simp_all
  have near: "\<bar>of_nat ?D - ratio ?sc\<bar> \<le> 1 / 2"
    using rne_near[of "snd ?sc" "fst ?sc"] ab by (simp add: ratio_def)
  have D: "10 ^ (P - 1) \<le> ?D" "?D \<le> 10 ^ P"
    using nat_near[OF near] lo hi by auto
  have err: "\<bar>of_nat ?D * ?w - ratio ab\<bar> * (2 * 10 ^ (P - 1)) \<le> ratio ab"
  proof -
    have "of_nat ?D * ?w - ratio ab = (of_nat ?D - ratio ?sc) * ?w" by (simp add: r left_diff_distrib)
    then have "\<bar>of_nat ?D * ?w - ratio ab\<bar> = \<bar>of_nat ?D - ratio ?sc\<bar> * ?w" by (simp add: abs_mult)
    also have "\<dots> \<le> 1 / 2 * ?w" using near w by (intro mult_right_mono) auto
    finally have "\<bar>of_nat ?D * ?w - ratio ab\<bar> * (2 * 10 ^ (P - 1)) \<le> 1 / 2 * ?w * (2 * 10 ^ (P - 1))"
      by (rule mult_right_mono) simp
    also have "\<dots> = of_nat (10 ^ (P - 1)) * ?w" by simp
    also have "\<dots> \<le> ratio ab" unfolding r using lo w by (intro mult_right_mono) auto
    finally show ?thesis .
  qed
  have "10 ^ (P - 1) \<le> D \<and> D < 10 ^ P \<and> of_nat D * 10 powi (X - int P + 1) = of_nat ?D * ?w"
  proof (cases "?D = 10 ^ P")
    case True
    then have DX: "D = 10 ^ (P - 1)" "X = ?X + 1" using eq by (auto simp: sci_digits_def Let_def)
    have "(10::rat) ^ P = 10 ^ (P - 1) * 10" using P by (cases P) auto
    moreover have "(10::rat) powi (X - int P + 1) = 10 * ?w"
      unfolding DX by (simp add: power_int_add[of _ 1 "- ?E", simplified] algebra_simps
          flip: power_int_add_1')
    ultimately show ?thesis using DX True P by simp
  next
    case False
    then have DX: "D = ?D" "X = ?X" using eq by (auto simp: sci_digits_def Let_def)
    have "X - int P + 1 = - ?E" using DX by simp
    then have "of_nat D * (10::rat) powi (X - int P + 1) = of_nat ?D * ?w" by (simp only: DX(1))
    with DX False D show ?thesis by simp
  qed
  then show "10 ^ (P - 1) \<le> D" "D < 10 ^ P"
    and "\<bar>of_nat D * 10 powi (X - int P + 1) - ratio ab\<bar> * (2 * 10 ^ (P - 1)) \<le> ratio ab"
    using err by simp_all
qed

lemma strip_zeros_split: "\<exists>z. fr = strip_zeros fr @ replicate z (CHR ''0'')"
proof -
  have "rev fr = takeWhile (\<lambda>c. c = CHR ''0'') (rev fr) @ dropWhile (\<lambda>c. c = CHR ''0'') (rev fr)" by simp
  then have "fr = strip_zeros fr @ rev (takeWhile (\<lambda>c. c = CHR ''0'') (rev fr))"
    unfolding strip_zeros_def by (metis rev_append rev_rev_ident)
  moreover have "rev (takeWhile (\<lambda>c. c = CHR ''0'') (rev fr)) =
      replicate (length (takeWhile (\<lambda>c. c = CHR ''0'') (rev fr))) (CHR ''0'')"
    by (rule replicate_eqI[symmetric, THEN sym]) (auto dest: set_takeWhileD)
  ultimately show ?thesis by metis
qed

definition all_digits :: "string \<Rightarrow> bool" where
  "all_digits s \<longleftrightarrow> (\<forall>c \<in> set s. is_digit c)"

lemma takeWhile_digits [simp]:
  "all_digits s \<Longrightarrow> takeWhile is_digit (s @ t) = s @ takeWhile is_digit t"
  "all_digits s \<Longrightarrow> dropWhile is_digit (s @ t) = dropWhile is_digit t"
  "all_digits s \<Longrightarrow> takeWhile is_digit s = s"
  "all_digits s \<Longrightarrow> dropWhile is_digit s = []"
  by (auto simp: all_digits_def takeWhile_append dropWhile_append takeWhile_eq_all_conv dropWhile_eq_Nil_conv)

lemma all_digits_dec [simp]: "all_digits (dec_nat n)"
  by (simp add: all_digits_def dec_nat_digits)

lemma all_digits_Nil [simp]: "all_digits []"
  by (simp add: all_digits_def)

lemma all_digits_sub:
  "all_digits s \<Longrightarrow> all_digits (take k s)" "all_digits s \<Longrightarrow> all_digits (drop k s)"
  "all_digits (replicate k (CHR ''0''))" "all_digits (s @ t) \<longleftrightarrow> all_digits s \<and> all_digits t"
  "all_digits (c # s) \<longleftrightarrow> is_digit c \<and> all_digits s"
  by (auto simp: all_digits_def is_digit_def dest: in_set_takeD in_set_dropD)

text \<open>What may follow the significand: nothing, or an exponent.\<close>

definition tail_ok :: "string \<Rightarrow> int \<Rightarrow> bool" where
  "tail_ok t e \<longleftrightarrow> parse_exp t = Some e \<and> (t = [] \<or> hd t = CHR ''e'')"

lemma tail_Nil: "tail_ok [] 0"
  by (simp add: tail_ok_def parse_exp_def)

lemma parse_exp_signed:
  assumes "all_digits d" and "d \<noteq> []"
  shows "parse_exp (CHR ''e'' # (if neg then CHR ''-'' else CHR ''+'') # d)
    = Some (if neg then - int (digits_val d) else int (digits_val d))"
  using assms by (cases neg) (simp_all add: parse_exp_def parse_sign_def Let_def all_digits_def)

lemma digits_val_zero_Cons: "digits_val (CHR ''0'' # s) = digits_val s"
  using digits_val_append[of "[CHR ''0'']" s] digits_val_replicate_zero[of 1] by simp

lemma tail_exp: "tail_ok (exp_text X) X"
proof -
  let ?d = "dec_nat (nat \<bar>X\<bar>)"
  let ?e = "if length ?d < 2 then CHR ''0'' # ?d else ?d"
  have "all_digits ?e" "?e \<noteq> []" and v: "digits_val ?e = nat \<bar>X\<bar>"
    by (simp_all add: all_digits_sub digits_val_zero_Cons) (simp add: is_digit_def)
  from parse_exp_signed[OF this(1,2), of "X < 0"] v show ?thesis
    by (simp add: tail_ok_def exp_text_def Let_def digits_val_zero_Cons)
qed

lemma tail_no_digit: "tail_ok t e \<Longrightarrow> takeWhile is_digit t = [] \<and> dropWhile is_digit t = t"
  by (cases t) (auto simp: tail_ok_def)

lemma parse_sign_digit: "is_digit c \<Longrightarrow> parse_sign (c # s) = (False, c # s)"
  by (auto simp: parse_sign_def)

lemma parse_float_parts:
  assumes i: "all_digits i" "i \<noteq> []" and fr: "all_digits s" and t: "tail_ok t e"
    and mid: "m = (if s = [] then [] else CHR ''.'' # s)"
  shows "parse_float (i @ m @ t) = Some (False, digits_val (i @ s), e - int (length s))"
proof -
  obtain c j where c: "i = c # j" "is_digit c" using i by (cases i) (auto simp: all_digits_def)
  have sg: "parse_sign (i @ m @ t) = (False, i @ m @ t)" using c by (simp add: parse_sign_digit)
  note td = tail_no_digit[OF t]
  have nd: "takeWhile is_digit (m @ t) = [] \<and> dropWhile is_digit (m @ t) = m @ t"
    using td mid by auto
  have pf: "parse_frac (m @ t) = (s, t)"
  proof (cases "s = []")
    case True
    then show ?thesis using t mid by (cases t) (auto simp: parse_frac_def tail_ok_def)
  next
    case False
    then show ?thesis using td mid fr by (simp add: parse_frac_def)
  qed
  show ?thesis using i nd pf t by (simp add: parse_float_def sg tail_ok_def)
qed

lemma parse_with_frac:
  assumes i: "all_digits i" "i \<noteq> []" and fr: "all_digits fr" and t: "tail_ok t e"
  obtains n k where "parse_float (with_frac i fr @ t) = Some (False, n, k)"
    and "(of_nat n :: rat) * 10 powi k = of_nat (digits_val (i @ fr)) * 10 powi (e - int (length fr))"
proof -
  let ?s = "strip_zeros fr"
  obtain z where z: "fr = ?s @ replicate z (CHR ''0'')" using strip_zeros_split by blast
  have s: "all_digits ?s" using fr z by (metis all_digits_sub(4))
  have "parse_float (i @ (if ?s = [] then [] else CHR ''.'' # ?s) @ t)
      = Some (False, digits_val (i @ ?s), e - int (length ?s))"
    by (rule parse_float_parts[OF i s t refl])
  moreover have "with_frac i fr @ t = i @ (if ?s = [] then [] else CHR ''.'' # ?s) @ t"
    by (simp add: with_frac_def Let_def)
  moreover have "(of_nat (digits_val (i @ ?s)) :: rat) * 10 powi (e - int (length ?s))
      = of_nat (digits_val (i @ fr)) * 10 powi (e - int (length fr))"
  proof -
    have "digits_val (i @ fr) = digits_val (i @ ?s) * 10 ^ z"
      by (subst z) (simp add: digits_val_append power_add algebra_simps)
    moreover have "length fr = length ?s + z" by (subst z) simp
    moreover have "(10::rat) powi (e - int (length ?s)) = 10 ^ z * 10 powi (e - int (length ?s) - int z)"
      by (simp flip: power_int_of_nat power_int_add)
    ultimately show ?thesis by (simp add: algebra_simps power_add)
  qed
  ultimately show thesis using that by simp
qed

lemma parse_layout:
  assumes "10 ^ (P - 1) \<le> D" and "D < 10 ^ P" and P: "0 < P"
  obtains n k where "parse_float (layout_g P (D, X)) = Some (False, n, k)"
    and "(of_nat n :: rat) * 10 powi k = of_nat D * 10 powi (X - int P + 1)"
proof -
  let ?ds = "dec_nat D"
  have len: "length ?ds = P" using length_dec_nat_eq[of "P - 1" D] assms by simp
  consider (sci) "X < - 4 \<or> int P \<le> X" | (fixed) "\<not> (X < - 4 \<or> int P \<le> X)" "0 \<le> X"
    | (small) "\<not> (X < - 4 \<or> int P \<le> X)" "X < 0" by linarith
  then show thesis
  proof cases
    case sci
    have i: "all_digits (take 1 ?ds)" "take 1 ?ds \<noteq> []" and f: "all_digits (drop 1 ?ds)"
      using len P by (auto simp: all_digits_sub)
    obtain n k where "parse_float (with_frac (take 1 ?ds) (drop 1 ?ds) @ exp_text X) = Some (False, n, k)"
      and "(of_nat n :: rat) * 10 powi k
        = of_nat (digits_val (take 1 ?ds @ drop 1 ?ds)) * 10 powi (X - int (length (drop 1 ?ds)))"
      by (rule parse_with_frac[OF i f tail_exp])
    with that sci len P show thesis by (simp add: layout_g_def Let_def of_nat_diff algebra_simps)
  next
    case fixed
    let ?j = "nat X + 1"
    have i: "all_digits (take ?j ?ds)" "take ?j ?ds \<noteq> []" and f: "all_digits (drop ?j ?ds)"
      using len P by (auto simp: all_digits_sub)
    obtain n k where "parse_float (with_frac (take ?j ?ds) (drop ?j ?ds) @ []) = Some (False, n, k)"
      and "(of_nat n :: rat) * 10 powi k
        = of_nat (digits_val (take ?j ?ds @ drop ?j ?ds)) * 10 powi (0 - int (length (drop ?j ?ds)))"
      by (rule parse_with_frac[OF i f tail_Nil])
    moreover have "0 - int (length (drop ?j ?ds)) = X - int P + 1" using fixed len by simp
    ultimately have v: "(of_nat n :: rat) * 10 powi k = of_nat D * 10 powi (X - int P + 1)"
      and p: "parse_float (with_frac (take ?j ?ds) (drop ?j ?ds)) = Some (False, n, k)"
      by (simp_all only: append_Nil2 append_take_drop_id digits_val_dec_nat)
    show thesis by (rule that[OF _ v]) (use fixed p in \<open>simp add: layout_g_def Let_def\<close>)
  next
    case small
    let ?z = "replicate (nat (- X) - 1) (CHR ''0'')"
    have i: "all_digits ''0''" "''0'' \<noteq> []" and f: "all_digits (?z @ ?ds)"
      by (auto simp: all_digits_sub is_digit_def) 
    obtain n k where "parse_float (with_frac ''0'' (?z @ ?ds) @ []) = Some (False, n, k)"
      and "(of_nat n :: rat) * 10 powi k
        = of_nat (digits_val (''0'' @ ?z @ ?ds)) * 10 powi (0 - int (length (?z @ ?ds)))"
      by (rule parse_with_frac[OF i f tail_Nil])
    moreover have "0 - int (length (?z @ ?ds)) = X - int P + 1" using small len by simp
    moreover have "digits_val (''0'' @ ?z @ ?ds) = D"
      by (simp add: digits_val_append digits_val_zero_Cons)
    ultimately have v: "(of_nat n :: rat) * 10 powi k = of_nat D * 10 powi (X - int P + 1)"
      and p: "parse_float (with_frac ''0'' (?z @ ?ds)) = Some (False, n, k)"
      by (simp_all only: append_Nil2)
    show thesis by (rule that[OF _ v]) (use small p in \<open>simp add: layout_g_def Let_def\<close>)
  qed
qed


lemma float_parse_mag:
  assumes "parse_float s = Some (neg, n, e)" and "0 < n" and "0 < b" and "b < inf_bits f"
    and "\<bar>of_nat n * 10 powi e - bits_value f b\<bar> * 2 ^ (mant_bits f + 2) < bits_value f b"
  shows "float_parse f s = Some (if neg then sign_bit f + b else b)"
proof -
  have "round_bits f (scale 10 e (n, 1)) = b"
    using assms by (intro round_bits_near) (auto simp: ratio_scale, simp add: ratio_def)
  with assms show ?thesis by (simp add: float_parse_def Let_def)
qed

text \<open>The printed magnitude reads back, with either sign.\<close>

lemma bits_value_pos: "0 < b \<Longrightarrow> 0 < bits_value f b"
  by (auto simp: bits_value_def mag_mant_def)

lemma print_mag_read:
  assumes b: "0 < b" "b < inf_bits f" and P: "1 < digits10 f"
    and enough: "2 ^ (mant_bits f + 1) < (10::rat) ^ (digits10 f - 1)"
  obtains n k where "parse_float (print_mag f b) = Some (False, n, k)" and "0 < n"
    and "\<bar>of_nat n * 10 powi k - bits_value f b\<bar> * 2 ^ (mant_bits f + 2) < bits_value f b"
proof -
  let ?P = "digits10 f" and ?v = "bits_value f b"
  obtain D X where DX: "sci_digits ?P (mag_frac f b) = (D, X)" by (cases "sci_digits ?P (mag_frac f b)")
  have P0: "0 < ?P" using P by simp
  note S = sci_digits_spec[OF P0 conjunct1[OF mag_frac_pos[OF b(1)]] conjunct2[OF mag_frac_pos[OF b(1)]] DX]
  obtain n k where nk: "parse_float (layout_g ?P (D, X)) = Some (False, n, k)"
    "(of_nat n :: rat) * 10 powi k = of_nat D * 10 powi (X - int ?P + 1)"
    by (rule parse_layout[OF S(1,2) P0])
  let ?d = "\<bar>of_nat n * 10 powi k - ?v\<bar>"
  have v: "0 < ?v" using b(1) by (rule bits_value_pos)
  have near: "?d * (2 * 10 ^ (?P - 1)) \<le> ?v" using S(3) by (simp add: nk(2) mag_frac_value)
  have "?d * 2 ^ (mant_bits f + 2) < ?v"
  proof (cases "?d = 0")
    case False
    then have "?d * 2 ^ (mant_bits f + 2) < ?d * (2 * 10 ^ (?P - 1))"
      using enough by (intro mult_strict_left_mono) auto
    with near show ?thesis by linarith
  qed (use v in simp)
  moreover have "0 < D" using S(1) by (metis gr0I le_zero_eq power_not_zero zero_neq_numeral)
  then have "0 < (of_nat n :: rat) * 10 powi k" unfolding nk(2) by simp
  then have "0 < n" by (cases n) auto
  moreover have "print_mag f b = layout_g ?P (D, X)" using b by (simp add: print_mag_def DX)
  ultimately show thesis using that nk(1) by simp
qed

lemma parse_float_minus:
  assumes "parse_float s = Some (False, n, k)" and "s \<noteq> []" and "is_digit (hd s)"
  shows "parse_float (CHR ''-'' # s) = Some (True, n, k)"
proof -
  obtain c t where s: "s = c # t" "is_digit c" using assms by (cases s) auto
  have "parse_sign (CHR ''-'' # s) = (True, s)" "parse_sign s = (False, s)"
    using s parse_sign_digit by (auto simp: parse_sign_def)
  with assms(1) show ?thesis by (auto simp: parse_float_def Let_def split: if_splits option.splits)
qed

lemma with_frac_hd: "i \<noteq> [] \<Longrightarrow> with_frac i fr @ t \<noteq> [] \<and> hd (with_frac i fr @ t) = hd i"
  by (simp add: with_frac_def Let_def)

lemma print_mag_hd: "b < inf_bits f \<Longrightarrow> 0 < digits10 f \<Longrightarrow> print_mag f b \<noteq> [] \<and> is_digit (hd (print_mag f b))"
proof -
  assume b: "b < inf_bits f" "0 < digits10 f"
  have "is_digit (hd (dec_nat n))" for n
    by (rule dec_nat_digits, rule hd_in_set, simp)
  moreover have "is_digit (CHR ''0'')" by (simp add: is_digit_def)
  moreover have "with_frac i fr \<noteq> []" "hd (with_frac i fr) = hd i" if "i \<noteq> []" for i fr
    using with_frac_hd[OF that, of fr "[]"] by simp_all
  ultimately show ?thesis
    using b by (auto simp: print_mag_def layout_g_def Let_def with_frac_hd)
qed

text \<open>
  \<open>max_digits10\<close> digits are enough: a finite value is what its printed text reads back as, both
  zeros included.
\<close>

lemma float_round_trip:
  assumes n: "n < sign_bit f \<and> n < inf_bits f \<or> sign_bit f \<le> n \<and> n - sign_bit f < inf_bits f"
    and P: "1 < digits10 f" and enough: "2 ^ (mant_bits f + 1) < (10::rat) ^ (digits10 f - 1)"
    and inf: "0 < inf_bits f"
  shows "float_parse f (float_print f n) = Some n"
proof -
  define b where "b = (if sign_bit f \<le> n then n - sign_bit f else n)"
  have b: "b < inf_bits f" and pr: "float_print f n = (if sign_bit f \<le> n then CHR ''-'' # print_mag f b else print_mag f b)"
    and nb: "n = (if sign_bit f \<le> n then sign_bit f + b else b)"
    using n by (auto simp: b_def float_print_def)
  show ?thesis
  proof (cases "b = 0")
    case True
    have z: "parse_float ''0'' = Some (False, 0, 0)" by code_simp
    have "parse_float ''-0'' = Some (True, 0, 0)" by code_simp
    moreover have "round_bits f (scale 10 0 (0, 1)) = 0" by (simp add: round_bits_def scale_def)
    ultimately have "float_parse f (float_print f n) = Some (if sign_bit f \<le> n then sign_bit f + b else b)"
      using True inf z by (simp add: pr print_mag_def float_parse_def)
    then show ?thesis using nb by metis
  next
    case False
    then have b0: "0 < b" by simp
    obtain m k where mk: "parse_float (print_mag f b) = Some (False, m, k)" "0 < m"
      "\<bar>of_nat m * 10 powi k - bits_value f b\<bar> * 2 ^ (mant_bits f + 2) < bits_value f b"
      by (rule print_mag_read[OF b0 b P enough])
    have "parse_float (CHR ''-'' # print_mag f b) = Some (True, m, k)"
      using mk(1) print_mag_hd[OF b] P by (intro parse_float_minus) auto
    then have "float_parse f (float_print f n) = Some (if sign_bit f \<le> n then sign_bit f + b else b)"
      using float_parse_mag[OF mk(1,2) b0 b mk(3)] float_parse_mag[OF _ mk(2) b0 b mk(3)] by (simp add: pr)
    then show ?thesis using nb by metis
  qed
qed

text \<open>The finite patterns of the two formats of the code.\<close>

definition finite_bits :: "float_format \<Rightarrow> nat \<Rightarrow> bool" where
  "finite_bits f n \<longleftrightarrow> n < 2 * sign_bit f \<and> n mod sign_bit f < inf_bits f"

lemma finite_bits_split:
  assumes "finite_bits f n"
  shows "n < sign_bit f \<and> n < inf_bits f \<or> sign_bit f \<le> n \<and> n - sign_bit f < inf_bits f"
proof (cases "n < sign_bit f")
  case True
  with assms show ?thesis by (simp add: finite_bits_def)
next
  case False
  then have "n mod sign_bit f = (n - sign_bit f) mod sign_bit f" by (simp add: le_mod_geq)
  moreover have "n - sign_bit f < sign_bit f" using False assms unfolding finite_bits_def by linarith
  ultimately have "n mod sign_bit f = n - sign_bit f" by simp
  with False assms show ?thesis by (simp add: finite_bits_def)
qed

lemma read_write_float:
  assumes "finite_bits f n" and "f = binary32 \<or> f = binary64"
  shows "float_parse f (float_print f n) = Some n"
  using finite_bits_split[OF assms(1)] assms(2)
  by (intro float_round_trip) (auto simp: binary32_def binary64_def inf_bits_def)

text \<open>What a read returns is a finite value.\<close>

lemma float_parse_finite:
  assumes "float_parse f s = Some n" and "inf_bits f \<le> sign_bit f"
  shows "finite_bits f n"
  using assms by (auto simp: float_parse_def Let_def finite_bits_def split: option.splits if_splits)

end
