(* ===== verification/ToolModel.thy ===== *)
theory ToolModel
  imports FloatText
begin

text \<open>
  The data transfer objects of \<open>include/kcf_tool/model/*.hpp\<close>: one record per struct, with the
  fields in the order of the code and prefixed by the initials of the struct, and for every
  struct that the code default-initialises (\<open>T{}\<close>) the value that initialisation gives.

  Signed integers are \<open>int\<close>, unsigned ones words of their width, \<open>double\<close> is a rational
  (see \<open>FloatText\<close>), a vector is a list, \<open>std::size_t\<close> a natural number.
\<close>

section \<open>Identities\<close>

record runtime_identity =
  ri_pid :: int
  ri_process_start_ticks :: u64

definition runtime_identity0 :: runtime_identity where
  "runtime_identity0 = \<lparr>ri_pid = 0, ri_process_start_ticks = 0\<rparr>"

record endpoint_identity =
  ei_runtime :: runtime_identity
  ei_registration_id :: u64

definition endpoint_identity0 :: endpoint_identity where
  "endpoint_identity0 = \<lparr>ei_runtime = runtime_identity0, ei_registration_id = 0\<rparr>"

definition mk_endpoint :: "int \<Rightarrow> u64 \<Rightarrow> u64 \<Rightarrow> endpoint_identity" where
  "mk_endpoint pid ticks reg =
     \<lparr>ei_runtime = \<lparr>ri_pid = pid, ri_process_start_ticks = ticks\<rparr>, ei_registration_id = reg\<rparr>"

text \<open>The two hand-written \<open>operator==\<close> of the code compare every field.\<close>

definition runtime_identity_eq :: "runtime_identity \<Rightarrow> runtime_identity \<Rightarrow> bool" where
  "runtime_identity_eq a b \<longleftrightarrow>
     ri_pid a = ri_pid b \<and> ri_process_start_ticks a = ri_process_start_ticks b"

definition endpoint_identity_eq :: "endpoint_identity \<Rightarrow> endpoint_identity \<Rightarrow> bool" where
  "endpoint_identity_eq a b \<longleftrightarrow>
     runtime_identity_eq (ei_runtime a) (ei_runtime b) \<and> ei_registration_id a = ei_registration_id b"

lemma runtime_identity_eq [simp]: "runtime_identity_eq a b \<longleftrightarrow> a = b"
  by (cases a; cases b) (auto simp: runtime_identity_eq_def)

lemma endpoint_identity_eq [simp]: "endpoint_identity_eq a b \<longleftrightarrow> a = b"
  by (cases a; cases b) (auto simp: endpoint_identity_eq_def)

section \<open>Dynamic values\<close>

datatype value_kind = BOOLEAN | SIGNED_INTEGER | UNSIGNED_INTEGER | FLOATING_POINT | STRING | STRUCT

record field_value =
  fv_name :: string
  fv_type_name :: string
  fv_value :: string
  fv_kind :: value_kind
  fv_array_values :: "string list"

definition field_value0 :: field_value where
  "field_value0 = \<lparr>fv_name = [], fv_type_name = [], fv_value = [], fv_kind = STRING, fv_array_values = []\<rparr>"

record data_snapshot =
  ds_type_name :: string
  ds_sequence :: u64
  ds_timestamp_us :: u64
  ds_fields :: "field_value list"
  ds_type_id :: u64

definition data_snapshot0 :: data_snapshot where
  "data_snapshot0 = \<lparr>ds_type_name = [], ds_sequence = 0, ds_timestamp_us = 0, ds_fields = [], ds_type_id = 0\<rparr>"

section \<open>What a backend lists\<close>

record application_info =
  ai_name :: string
  ai_state :: string
  ai_supervisor :: runtime_identity
  ai_revision :: u64
  ai_managed_element_count :: u32

definition application_info0 :: application_info where
  "application_info0 = \<lparr>ai_name = [], ai_state = [], ai_supervisor = runtime_identity0, ai_revision = 0,
     ai_managed_element_count = 0\<rparr>"

datatype backend_connection_state = DISCONNECTED | CONNECTED | CONNECTION_ERROR

record element_info =
  el_name :: string
  el_pid :: int
  el_executable :: string
  el_mode :: string
  el_state :: string
  el_heartbeat :: u64
  el_runtime_error :: int
  el_identity :: runtime_identity
  el_supervisor :: runtime_identity
  el_application_name :: string
  el_heartbeat_available :: bool

record parameter_info =
  pi_name :: string
  pi_type_name :: string
  pi_value :: string
  pi_writable :: bool
  pi_identity :: endpoint_identity
  pi_role :: string
  pi_payload_size :: u64
  pi_type_id :: u64
  pi_diagnostic_type_name :: string
  pi_snapshot :: data_snapshot
  pi_text_editable :: bool

record service_info =
  si_identity :: endpoint_identity
  si_name :: string
  si_port :: u16
  si_service_id :: u16
  si_request_size :: u32
  si_response_size :: u32
  si_request_type_id :: u64
  si_response_type_id :: u64
  si_diagnostic_request_type_name :: string
  si_diagnostic_response_type_name :: string

record topic_info =
  ti_name :: string
  ti_type_name :: string
  ti_payload_size :: nat
  ti_publishers :: "string list"
  ti_subscribers :: "string list"
  ti_frequency_hz :: double
  ti_sequence :: u64
  ti_identity :: endpoint_identity
  ti_role :: string
  ti_type_id :: u64
  ti_diagnostic_type_name :: string
  ti_frequency_available :: bool
  ti_sequence_available :: bool

section \<open>Network\<close>

record route_endpoint_identity =
  rei_host_id :: string
  rei_boot_id :: string
  rei_pid :: int
  rei_start_ticks :: u64
  rei_registration_id :: u64

record remote_type_identity =
  rti_type_id :: u64
  rti_schema_id :: u64
  rti_encoding_id :: u32
  rti_payload_size :: u32

record remote_endpoint =
  re_identity :: route_endpoint_identity
  re_session :: u64
  re_value_type :: remote_type_identity
  re_request_type :: remote_type_identity
  re_response_type :: remote_type_identity
  re_feedback_type :: remote_type_identity
  re_id :: string
  re_runtime_id :: string
  re_application_id :: string
  re_application :: string
  re_element :: string
  re_name :: string
  re_kind :: string
  re_role :: string
  re_scope :: string
  re_type :: string
  re_diagnostic :: string

datatype diagnostics_state =
  DIAG_UNAVAILABLE | DIAG_UNSUPPORTED | DIAG_INCOMPATIBLE | DIAG_PENDING | DIAG_VALID
  | DIAG_TRUNCATED | DIAG_LOST | DIAG_ERROR | DIAG_TIMEOUT

datatype network_rate_state = RATE_INVALID | RATE_MEASURING | RATE_VALID

record network_counter_delta =
  ncd_packets_sent :: u64
  ncd_packets_received :: u64
  ncd_samples_published :: u64
  ncd_dropped :: u64
  ncd_duplicate :: u64
  ncd_out_of_order :: u64
  ncd_missed_sequence :: u64
  ncd_malformed :: u64
  ncd_local_samples_skipped :: u64

definition network_counter_delta0 :: network_counter_delta where
  "network_counter_delta0 = \<lparr>ncd_packets_sent = 0, ncd_packets_received = 0, ncd_samples_published = 0,
     ncd_dropped = 0, ncd_duplicate = 0, ncd_out_of_order = 0, ncd_missed_sequence = 0,
     ncd_malformed = 0, ncd_local_samples_skipped = 0\<rparr>"

record network_route_rates =
  nrr_status :: network_rate_state
  nrr_interval_seconds :: double
  nrr_send_hz :: double
  nrr_receive_hz :: double
  nrr_proxy_publish_hz :: double
  nrr_local_skipped_per_second :: double
  nrr_delta :: network_counter_delta

definition network_route_rates0 :: network_route_rates where
  "network_route_rates0 = \<lparr>nrr_status = RATE_INVALID, nrr_interval_seconds = 0, nrr_send_hz = 0,
     nrr_receive_hz = 0, nrr_proxy_publish_hz = 0, nrr_local_skipped_per_second = 0,
     nrr_delta = network_counter_delta0\<rparr>"

record remote_route =
  rr_source :: route_endpoint_identity
  rr_destination :: route_endpoint_identity
  rr_source_session :: u64
  rr_destination_session :: u64
  rr_route_id :: u64
  rr_name :: string
  rr_state :: u8
  rr_reason :: u8
  rr_proxy_recovery :: u8
  rr_sending :: bool
  rr_error :: int
  rr_packets_sent :: u64
  rr_packets_received :: u64
  rr_samples_published :: u64
  rr_dropped :: u64
  rr_duplicate :: u64
  rr_out_of_order :: u64
  rr_missed_sequence :: u64
  rr_malformed :: u64
  rr_local_samples_skipped :: u64
  rr_rates :: network_route_rates

record remote_network_diagnostics =
  rnd_status :: diagnostics_state
  rnd_gateway_host :: string
  rnd_gateway_boot :: string
  rnd_gateway_session :: u64
  rnd_observed_at_unix_ms :: u64
  rnd_error :: int
  rnd_total_routes :: u32
  rnd_truncated :: bool
  rnd_routes :: "remote_route list"

definition remote_network_diagnostics0 :: remote_network_diagnostics where
  "remote_network_diagnostics0 = \<lparr>rnd_status = DIAG_UNAVAILABLE, rnd_gateway_host = [],
     rnd_gateway_boot = [], rnd_gateway_session = 0, rnd_observed_at_unix_ms = 0, rnd_error = 0,
     rnd_total_routes = 0, rnd_truncated = False, rnd_routes = []\<rparr>"

record remote_host =
  rh_id :: string
  rh_boot_id :: string
  rh_label :: string
  rh_address :: string
  rh_state :: string
  rh_framework_version :: string
  rh_network_version :: string
  rh_compatibility :: string
  rh_capabilities :: string
  rh_session :: u64
  rh_revision :: u64
  rh_age_ms :: u64
  rh_metadata_ready :: bool
  rh_endpoints :: "remote_endpoint list"
  rh_diagnostics :: remote_network_diagnostics

record network_snapshot =
  ns_observer_host :: string
  ns_remote_control_available :: bool
  ns_network_client_available :: bool
  ns_explicit_control_identity :: bool
  ns_status :: string
  ns_route_status :: string
  ns_hosts :: "remote_host list"

definition network_snapshot0 :: network_snapshot where
  "network_snapshot0 = \<lparr>ns_observer_host = [], ns_remote_control_available = False,
     ns_network_client_available = False, ns_explicit_control_identity = False,
     ns_status = ''Network discovery disabled / unavailable'',
     ns_route_status =
       ''External Gateway route/statistics observation API unavailable; no inferred network edges'',
     ns_hosts = []\<rparr>"

record network_options =
  no_interface_address :: string
  no_port :: u16
  no_host_id :: string

definition network_options0 :: network_options where
  "network_options0 = \<lparr>no_interface_address = ''0.0.0.0'', no_port = 37651, no_host_id = []\<rparr>"

section \<open>Remote control\<close>

datatype remote_operation =
  OpPrepare | OpGet | OpSet | OpCall | OpGoal | OpCancel | OpSubscribe | OpUnsubscribe | OpPoll

record remote_command =
  rc_operation :: remote_operation
  rc_endpoint :: remote_endpoint
  rc_input :: data_snapshot
  rc_handle :: u64
  rc_timeout_ms :: u32
  rc_tracking_ms :: u32

record remote_activity =
  ra_handle :: u64
  ra_endpoint :: remote_endpoint
  ra_topic :: bool
  ra_accepted :: bool
  ra_terminal :: bool
  ra_communication_lost :: bool
  ra_execution_unknown :: bool
  ra_cancel_unknown :: bool
  ra_cancel_accepted :: bool
  ra_has_value :: bool
  ra_state :: int
  ra_error :: int
  ra_sequence :: u64
  ra_received_packets :: u64
  ra_route_id :: u64
  ra_observed_at :: int
  ra_feedback :: data_snapshot
  ra_result :: data_snapshot

record remote_reply =
  rp_error :: int
  rp_response_received :: bool
  rp_execution_unknown :: bool
  rp_cancel_unknown :: bool
  rp_accepted :: bool
  rp_readback_error :: int
  rp_handle :: u64
  rp_value :: data_snapshot
  rp_activities :: "remote_activity list"

definition remote_reply0 :: remote_reply where
  "remote_reply0 = \<lparr>rp_error = 0, rp_response_received = False, rp_execution_unknown = False,
     rp_cancel_unknown = False, rp_accepted = False, rp_readback_error = 0, rp_handle = 0,
     rp_value = data_snapshot0, rp_activities = []\<rparr>"

text \<open>The future is already fulfilled when it is returned: its value is the reply.\<close>

definition RemoteUnavailable :: "int \<Rightarrow> remote_reply" where
  "RemoteUnavailable error = remote_reply0\<lparr>rp_error := error\<rparr>"

section \<open>Local gateway\<close>

record local_gateway_endpoint =
  le_identity :: route_endpoint_identity
  le_application :: route_endpoint_identity
  le_host_name :: string
  le_application_name :: string
  le_element_name :: string
  le_name :: string
  le_kind :: u32
  le_role :: u32
  le_scope :: u32
  le_value_type :: remote_type_identity
  le_request_type :: remote_type_identity
  le_response_type :: remote_type_identity
  le_feedback_type :: remote_type_identity
  le_groups :: "string list"

record local_gateway_peer =
  lp_host :: string
  lp_boot :: string
  lp_address :: string
  lp_state :: string
  lp_session :: u64
  lp_metadata_revision :: u64
  lp_metadata_port :: u32
  lp_metadata_ready :: bool
  lp_endpoints :: "local_gateway_endpoint list"

datatype local_gateway_connection = GW_DISABLED | GW_CONNECTING | GW_READY | GW_ERROR

record local_gateway_snapshot =
  lgs_connection :: local_gateway_connection
  lgs_socket_path :: string
  lgs_state :: string
  lgs_host :: string
  lgs_boot :: string
  lgs_interface_name :: string
  lgs_ipv4 :: string
  lgs_session :: u64
  lgs_observed_at_unix_ms :: u64
  lgs_interface_index :: u32
  lgs_error :: int
  lgs_last_network_error :: int
  lgs_peers :: "local_gateway_peer list"

definition local_gateway_snapshot0 :: local_gateway_snapshot where
  "local_gateway_snapshot0 = \<lparr>lgs_connection = GW_DISABLED, lgs_socket_path = [], lgs_state = [],
     lgs_host = [], lgs_boot = [], lgs_interface_name = [], lgs_ipv4 = [], lgs_session = 0,
     lgs_observed_at_unix_ms = 0, lgs_interface_index = 0, lgs_error = 0, lgs_last_network_error = 0,
     lgs_peers = []\<rparr>"

end
