(* ===== verification/ValueCodec.thy ===== *)
theory ValueCodec
  imports ToolModel
begin

text \<open>
  \<open>src/backend/value_codec.cpp\<close>: the decoding of a payload into a \<open>DataSnapshot\<close> of texts and
  the encoding of an edited snapshot back into bytes, driven by a type descriptor.

  The descriptor and the payload are types of the KCF framework; their fields are the ones the
  code reads. \<open>ValidateTypeDescriptor\<close> is code of the framework and an argument \<open>valid\<close> of
  \<open>Decode\<close> and \<open>Encode\<close>. Sizes and offsets are naturals: \<open>Bounds\<close> computes their products in
  64 bits and the sums stay below the payload size. Scalars are stored little-endian.
\<close>

section \<open>Framework data\<close>

datatype field_kind =
  FK_BOOL | FK_INT8 | FK_UINT8 | FK_INT16 | FK_UINT16 | FK_INT32 | FK_UINT32
  | FK_INT64 | FK_UINT64 | FK_FLOAT32 | FK_FLOAT64
  | FK_Other nat \<comment> \<open>a value outside the enumerators\<close>

definition fk_code :: "field_kind \<Rightarrow> nat" where
  "fk_code k = (case k of FK_BOOL \<Rightarrow> 1 | FK_INT8 \<Rightarrow> 2 | FK_UINT8 \<Rightarrow> 3 | FK_INT16 \<Rightarrow> 4 | FK_UINT16 \<Rightarrow> 5
     | FK_INT32 \<Rightarrow> 6 | FK_UINT32 \<Rightarrow> 7 | FK_INT64 \<Rightarrow> 8 | FK_UINT64 \<Rightarrow> 9 | FK_FLOAT32 \<Rightarrow> 10
     | FK_FLOAT64 \<Rightarrow> 11 | FK_Other n \<Rightarrow> n)"

record type_field_info =
  tf_name :: string
  tf_kind :: field_kind
  tf_offset :: nat
  tf_element_size :: nat
  tf_array_count :: nat

record type_descriptor =
  td_type_id :: u64
  td_type_name :: string
  td_payload_size :: nat
  td_field_count :: nat
  td_fields :: "type_field_info list"

record dynamic_payload =
  dp_type_id :: u64
  dp_bytes :: bytes
  dp_sequence :: u64

section \<open>Names and kinds\<close>

definition kind_names :: "string list" where
  "kind_names = ['''', ''bool'', ''int8'', ''uint8'', ''int16'', ''uint16'', ''int32'', ''uint32'',
     ''int64'', ''uint64'', ''float32'', ''float64'']"

definition Name :: "field_kind \<Rightarrow> string result" where
  "Name k = nth_res kind_names (fk_code k)"

definition Kind :: "field_kind \<Rightarrow> value_kind" where
  "Kind k =
     (let n = fk_code k
      in if n = 1 then BOOLEAN
         else if 10 \<le> n then FLOATING_POINT
         else if n mod 2 = 0 then SIGNED_INTEGER else UNSIGNED_INTEGER)"

section \<open>Memory\<close>

text \<open>\<open>memcpy\<close> out of and into a buffer, and the little-endian value of the bytes.\<close>

definition read_at :: "bytes \<Rightarrow> nat \<Rightarrow> nat \<Rightarrow> bytes result" where
  "read_at bs off w = (if off + w \<le> length bs then Inr (take w (drop off bs)) else Inl Undefined)"

definition write_at :: "bytes \<Rightarrow> nat \<Rightarrow> bytes \<Rightarrow> bytes result" where
  "write_at bs off b =
     (if off + length b \<le> length bs then Inr (take off bs @ b @ drop (off + length b) bs)
      else Inl Undefined)"

primrec le_val :: "bytes \<Rightarrow> nat" where
  "le_val [] = 0"
| "le_val (b # bs) = unat b + 256 * le_val bs"

primrec le_bytes :: "nat \<Rightarrow> nat \<Rightarrow> bytes" where
  "le_bytes 0 n = []"
| "le_bytes (Suc w) n = word_of_nat (n mod 256) # le_bytes w (n div 256)"

text \<open>The two's complement reading of a \<open>w\<close>-byte pattern and the pattern of an integer.\<close>

definition signed_of :: "nat \<Rightarrow> nat \<Rightarrow> int" where
  "signed_of w n = (if n < 2 ^ (8 * w - 1) then int n else int n - 2 ^ (8 * w))"

definition pattern_of :: "nat \<Rightarrow> int \<Rightarrow> nat" where
  "pattern_of w i = nat (i mod 2 ^ (8 * w))"

section \<open>Scalars\<close>

text \<open>\<open>sizeof(T)\<close> of the C++ type of a kind.\<close>

definition fk_width :: "field_kind \<Rightarrow> nat" where
  "fk_width k = (case k of FK_BOOL \<Rightarrow> 1 | FK_INT8 \<Rightarrow> 1 | FK_UINT8 \<Rightarrow> 1 | FK_INT16 \<Rightarrow> 2 | FK_UINT16 \<Rightarrow> 2
     | FK_INT32 \<Rightarrow> 4 | FK_UINT32 \<Rightarrow> 4 | FK_INT64 \<Rightarrow> 8 | FK_UINT64 \<Rightarrow> 8 | FK_FLOAT32 \<Rightarrow> 4 | FK_FLOAT64 \<Rightarrow> 8
     | FK_Other n \<Rightarrow> 0)"

datatype scalar_class = Bool_class | Signed_class | Unsigned_class | Float_class float_format | No_class

definition fk_class :: "field_kind \<Rightarrow> scalar_class" where
  "fk_class k = (case k of FK_BOOL \<Rightarrow> Bool_class
     | FK_INT8 \<Rightarrow> Signed_class | FK_INT16 \<Rightarrow> Signed_class | FK_INT32 \<Rightarrow> Signed_class | FK_INT64 \<Rightarrow> Signed_class
     | FK_UINT8 \<Rightarrow> Unsigned_class | FK_UINT16 \<Rightarrow> Unsigned_class | FK_UINT32 \<Rightarrow> Unsigned_class
     | FK_UINT64 \<Rightarrow> Unsigned_class
     | FK_FLOAT32 \<Rightarrow> Float_class binary32 | FK_FLOAT64 \<Rightarrow> Float_class binary64 | FK_Other n \<Rightarrow> No_class)"

text \<open>The text of the bytes of one scalar, and the bytes of an accepted text.\<close>

definition Read_text :: "field_kind \<Rightarrow> bytes \<Rightarrow> string result" where
  "Read_text k b =
     (case fk_class k of
        Bool_class \<Rightarrow> (if 1 < le_val b then fail (- EPROTO) else Inr (if le_val b \<noteq> 0 then ''true'' else ''false''))
      | Signed_class \<Rightarrow> Inr (to_string_int (signed_of (fk_width k) (le_val b)))
      | Unsigned_class \<Rightarrow> Inr (to_string_nat (le_val b))
      | Float_class f \<Rightarrow> Inr (float_print f (le_val b))
      | No_class \<Rightarrow> fail (- ENOTSUP))"

definition Write_float :: "float_format \<Rightarrow> nat \<Rightarrow> string \<Rightarrow> bytes result" where
  "Write_float f w t =
     (if t = [] then fail (- EINVAL)
      else case float_parse f t of None \<Rightarrow> fail (- ERANGE) | Some n \<Rightarrow> Inr (le_bytes w n))"

definition Write_integer :: "(string \<Rightarrow> errc \<times> int \<times> string) \<Rightarrow> int \<Rightarrow> int \<Rightarrow> nat \<Rightarrow> string \<Rightarrow> bytes result" where
  "Write_integer from_chars lo hi w t =
     (if t = [] then fail (- EINVAL)
      else case from_chars t of (ec, n, rest) \<Rightarrow>
        if ec = Result_out_of_range then fail (- ERANGE)
        else if ec \<noteq> Ok_errc \<or> rest \<noteq> [] then fail (- EINVAL)
        else if n < lo \<or> hi < n then fail (- ERANGE)
        else Inr (le_bytes w (pattern_of w n)))"

definition Write_text :: "field_kind \<Rightarrow> string \<Rightarrow> bytes result" where
  "Write_text k t =
     (let w = fk_width k
      in case fk_class k of
        Bool_class \<Rightarrow> (if t \<noteq> ''true'' \<and> t \<noteq> ''false'' then fail (- EINVAL)
                       else Inr [if t = ''true'' then 1 else 0])
      | Signed_class \<Rightarrow> Write_integer from_chars_i64 (- (2 ^ (8 * w - 1))) (2 ^ (8 * w - 1) - 1) w t
      | Unsigned_class \<Rightarrow> Write_integer from_chars_u64 0 (2 ^ (8 * w) - 1) w t
      | Float_class f \<Rightarrow> Write_float f w t
      | No_class \<Rightarrow> fail (- ENOTSUP))"

definition ReadScalar :: "field_kind \<Rightarrow> bytes \<Rightarrow> nat \<Rightarrow> string result" where
  "ReadScalar k bs off =
     (case k of FK_Other n \<Rightarrow> fail (- ENOTSUP) | _ \<Rightarrow> res_bind (read_at bs off (fk_width k)) (Read_text k))"

definition WriteScalar :: "field_kind \<Rightarrow> string \<Rightarrow> bytes \<Rightarrow> nat \<Rightarrow> bytes result" where
  "WriteScalar k t bs off = res_bind (Write_text k t) (write_at bs off)"

section \<open>Decode\<close>

definition Bounds :: "type_field_info \<Rightarrow> nat \<Rightarrow> bool" where
  "Bounds f sz \<longleftrightarrow> tf_offset f \<le> sz \<and> tf_element_size f * tf_array_count f \<le> sz - tf_offset f"

definition element_offset :: "type_field_info \<Rightarrow> nat \<Rightarrow> nat" where
  "element_offset f j = tf_offset f + j * tf_element_size f"

definition decode_field :: "bytes \<Rightarrow> type_field_info \<Rightarrow> field_value result" where
  "decode_field bs f =
     (if \<not> Bounds f (length bs) then fail (- EPROTO)
      else res_bind (Name (tf_kind f)) (\<lambda>type_name.
           res_bind (mapM_res (\<lambda>j. ReadScalar (tf_kind f) bs (element_offset f j)) [0..<tf_array_count f])
             (\<lambda>texts. Inr \<lparr>fv_name = tf_name f, fv_type_name = type_name,
                fv_value = (if tf_array_count f = 1 then hd texts else []), fv_kind = Kind (tf_kind f),
                fv_array_values = (if tf_array_count f = 1 then [] else texts)\<rparr>)))"

definition Decode :: "(type_descriptor \<Rightarrow> bool) \<Rightarrow> type_descriptor \<Rightarrow> dynamic_payload \<Rightarrow> data_snapshot result" where
  "Decode valid d p =
     (if \<not> valid d then fail (- EPROTO)
      else if dp_type_id p \<noteq> td_type_id d then fail (- EPROTOTYPE)
      else if length (dp_bytes p) \<noteq> td_payload_size d then fail (- EMSGSIZE)
      else res_bind
        (mapM_res (\<lambda>i. res_bind (nth_res (td_fields d) i) (decode_field (dp_bytes p))) [0..<td_field_count d])
        (\<lambda>fields. Inr \<lparr>ds_type_name = td_type_name d, ds_sequence = dp_sequence p, ds_timestamp_us = 0,
           ds_fields = fields, ds_type_id = td_type_id d\<rparr>))"

section \<open>Encode\<close>

text \<open>\<open>while(i<d.field_count && field.name!=d.fields[i].name) ++i\<close>.\<close>

function find_field :: "type_descriptor \<Rightarrow> string \<Rightarrow> nat \<Rightarrow> nat result" where
  "find_field d name i =
     (if i < td_field_count d
      then res_bind (nth_res (td_fields d) i)
             (\<lambda>f. if name \<noteq> tf_name f then find_field d name (i + 1) else Inr i)
      else Inr i)"
  by pat_completeness auto
termination
  by (relation "measure (\<lambda>(d, name, i). td_field_count d - i)") auto

declare find_field.simps [simp del]

definition write_element :: "type_field_info \<Rightarrow> field_value \<Rightarrow> nat \<Rightarrow> bytes \<Rightarrow> bytes result" where
  "write_element f x j bs =
     res_bind (if tf_array_count f = 1 then Inr (fv_value x) else nth_res (fv_array_values x) j)
       (\<lambda>t. WriteScalar (tf_kind f) t bs (element_offset f j))"

definition encode_field :: "type_field_info \<Rightarrow> field_value \<Rightarrow> bytes \<Rightarrow> bytes result" where
  "encode_field f x bs =
     (if \<not> Bounds f (length bs) then fail (- EPROTO)
      else res_bind (if fv_kind x \<noteq> Kind (tf_kind f) then fail (- EPROTOTYPE) else Name (tf_kind f)) (\<lambda>type_name.
        if fv_type_name x \<noteq> type_name then fail (- EPROTOTYPE)
        else if 1 < tf_array_count f \<and> (length (fv_array_values x) \<noteq> tf_array_count f \<or> fv_value x \<noteq> [])
             \<or> tf_array_count f = 1 \<and> fv_array_values x \<noteq> [] then fail (- EMSGSIZE)
        else foldM_res (write_element f x) [0..<tf_array_count f] bs))"

primrec encode_fields :: "type_descriptor \<Rightarrow> field_value list \<Rightarrow> bool list \<Rightarrow> bytes \<Rightarrow> bytes result" where
  "encode_fields d [] used bs = Inr bs"
| "encode_fields d (x # xs) used bs =
     res_bind (find_field d (fv_name x) 0) (\<lambda>i.
       if i = td_field_count d \<or> used ! i then fail (- EINVAL)
       else res_bind (nth_res (td_fields d) i) (\<lambda>f.
            res_bind (encode_field f x bs) (encode_fields d xs (used[i := True]))))"

definition Encode :: "(type_descriptor \<Rightarrow> bool) \<Rightarrow> type_descriptor \<Rightarrow> data_snapshot \<Rightarrow> dynamic_payload option
    \<Rightarrow> dynamic_payload result" where
  "Encode valid d input seed =
     (if \<not> valid d then fail (- EPROTO)
      else if ds_type_id input \<noteq> td_type_id d \<or> ds_type_name input \<noteq> td_type_name d then fail (- EPROTOTYPE)
      else if length (ds_fields input) \<noteq> td_field_count d then fail (- EINVAL)
      else if (case seed of None \<Rightarrow> False
               | Some s \<Rightarrow> dp_type_id s \<noteq> td_type_id d \<or> length (dp_bytes s) \<noteq> td_payload_size d)
           then fail (- EPROTOTYPE)
      else let value = (case seed of Some s \<Rightarrow> s
             | None \<Rightarrow> \<lparr>dp_type_id = 0, dp_bytes = replicate (td_payload_size d) 0, dp_sequence = 0\<rparr>)
           in res_bind (encode_fields d (ds_fields input) (replicate (td_field_count d) False) (dp_bytes value))
                (\<lambda>bs. Inr (value\<lparr>dp_type_id := td_type_id d, dp_bytes := bs\<rparr>)))"

section \<open>Memory and scalar laws\<close>

lemma length_le_bytes [simp]: "length (le_bytes w n) = w"
  by (induction w arbitrary: n) auto

lemma le_val_lt: "le_val b < 256 ^ length b"
proof (induction b)
  case (Cons x b)
  have "le_val b + 1 \<le> 256 ^ length b" using Cons by simp
  then have "256 * (le_val b + 1) \<le> 256 * 256 ^ length b" by (rule mult_le_mono2)
  then show ?case using unat_u8_lt[of x] by simp
qed simp

lemma le_bytes_val: "le_bytes (length b) (le_val b) = b"
  by (induction b) (auto simp: unat_u8_lt)

lemma le_val_bytes: "n < 256 ^ w \<Longrightarrow> le_val (le_bytes w n) = n"
  by (induction w arbitrary: n) (auto simp: less_mult_imp_div_less mult.commute unat_of_nat take_bit_eq_mod)

lemma two_pow_bytes: "(2::'a::comm_semiring_1) ^ (8 * w) = 256 ^ w"
  by (simp add: power_mult)

lemma pattern_lt: "pattern_of w i < 256 ^ w"
proof -
  have "i mod 2 ^ (8 * w) < 2 ^ (8 * w)" "0 \<le> i mod 2 ^ (8 * w)" by simp_all
  then have "nat (i mod 2 ^ (8 * w)) < nat (2 ^ (8 * w))" by linarith
  then show ?thesis by (simp add: pattern_of_def two_pow_bytes nat_power_eq)
qed

lemma pattern_signed:
  assumes "n < 256 ^ w"
  shows "pattern_of w (signed_of w n) = n"
proof -
  have n: "int n < 2 ^ (8 * w)" using assms by (simp add: two_pow_bytes flip: of_nat_power_eq_of_nat_cancel_iff)
  then show ?thesis by (simp add: pattern_of_def signed_of_def minus_mod_self2)
qed

lemma signed_pattern:
  assumes "0 < w" and "- (2 ^ (8 * w - 1)) \<le> i" and "i \<le> 2 ^ (8 * w - 1) - 1"
  shows "signed_of w (pattern_of w i) = i"
proof -
  obtain m where m: "8 * w = Suc m" using assms(1) by (cases "8 * w") auto
  show ?thesis
  proof (cases "0 \<le> i")
    case True
    then have "i mod 2 ^ Suc m = i" using assms m by (intro mod_pos_pos_trivial) auto
    moreover have "nat i < 2 ^ m" using True assms m by (simp add: nat_less_iff)
    ultimately show ?thesis using True m by (simp add: pattern_of_def signed_of_def)
  next
    case False
    have "i mod 2 ^ Suc m = (i + 2 ^ Suc m) mod 2 ^ Suc m" by simp
    also have "\<dots> = i + 2 ^ Suc m" using False assms m by (intro mod_pos_pos_trivial) auto
    finally have e: "i mod 2 ^ Suc m = i + 2 ^ Suc m" .
    have "\<not> nat (i + 2 ^ Suc m) < 2 ^ m" using False assms m by (simp add: nat_less_iff)
    with e False assms m show ?thesis by (simp add: pattern_of_def signed_of_def)
  qed
qed

lemma signed_of_range:
  assumes "0 < w" and "n < 256 ^ w"
  shows "- (2 ^ (8 * w - 1)) \<le> signed_of w n \<and> signed_of w n \<le> 2 ^ (8 * w - 1) - 1"
proof -
  obtain m where m: "8 * w = Suc m" using assms(1) by (cases "8 * w") auto
  have n: "n < 2 ^ Suc m" using assms(2) by (simp add: m flip: two_pow_bytes)
  then have "int n < 2 * 2 ^ m" by (metis of_nat_less_numeral_power_cancel_iff power_Suc)
  then show ?thesis using m by (auto simp: signed_of_def)
qed

text \<open>The bytes a scalar text can stand for: all but the infinities and the NaNs.\<close>

definition scalar_finite :: "field_kind \<Rightarrow> bytes \<Rightarrow> bool" where
  "scalar_finite k b = (case fk_class k of Float_class f \<Rightarrow> finite_bits f (le_val b) | _ \<Rightarrow> True)"

section \<open>Laws of the scalar conversions\<close>

lemma fk_width_pos: "fk_class k \<noteq> No_class \<Longrightarrow> 0 < fk_width k"
  by (cases k) (auto simp: fk_class_def fk_width_def)

lemma float_class_cases:
  "fk_class k = Float_class f \<Longrightarrow> f = binary32 \<and> fk_width k = 4 \<or> f = binary64 \<and> fk_width k = 8"
  by (cases k) (auto simp: fk_class_def fk_width_def)

lemma bool_class_width: "fk_class k = Bool_class \<Longrightarrow> fk_width k = 1"
  by (cases k) (auto simp: fk_class_def fk_width_def)

lemma integer_class_width: "fk_class k = Signed_class \<or> fk_class k = Unsigned_class \<Longrightarrow> fk_width k \<le> 8"
  by (cases k) (auto simp: fk_class_def fk_width_def)

lemma Write_integer_Inr_iff:
  "Write_integer fc lo hi w t = Inr b \<longleftrightarrow>
    t \<noteq> [] \<and> (\<exists>n. fc t = (Ok_errc, n, []) \<and> lo \<le> n \<and> n \<le> hi \<and> b = le_bytes w (pattern_of w n))"
  by (auto simp: Write_integer_def split: prod.splits)

lemma to_string_int_not_Nil [simp]: "to_string_int i \<noteq> []"
  by (simp add: to_string_int_def)

lemma float_print_not_Nil: "finite_bits f n \<Longrightarrow> f = binary32 \<or> f = binary64 \<Longrightarrow> float_print f n \<noteq> []"
proof
  assume f: "finite_bits f n" "f = binary32 \<or> f = binary64" and "float_print f n = []"
  moreover have "float_parse f [] = None" by (simp add: float_parse_def parse_float_def parse_sign_def parse_frac_def)
  ultimately show False using read_write_float[OF f] by simp
qed

lemma Write_integer_Undefined: "Write_integer fc lo hi w t \<noteq> Inl Undefined"
  by (simp add: Write_integer_def split: prod.split)

lemma Write_float_Undefined: "Write_float f w t \<noteq> Inl Undefined"
  by (simp add: Write_float_def split: option.split)

lemma Write_text_Undefined: "Write_text k t \<noteq> Inl Undefined"
  by (simp add: Write_text_def Let_def Write_integer_Undefined Write_float_Undefined split: scalar_class.split)

lemma Read_text_Undefined: "Read_text k b \<noteq> Inl Undefined"
  by (simp add: Read_text_def split: scalar_class.split)

lemma Write_float_length: "Write_float f w t = Inr b \<Longrightarrow> length b = w"
  by (auto simp: Write_float_def split: if_splits option.splits)

lemma Write_integer_length: "Write_integer fc lo hi w t = Inr b \<Longrightarrow> length b = w"
  by (auto simp: Write_integer_Inr_iff)

lemma Write_text_length: "Write_text k t = Inr b \<Longrightarrow> length b = fk_width k"
  by (cases "fk_class k")
    (auto simp: Write_text_def Let_def bool_class_width Write_float_length Write_integer_length split: if_splits)

lemma pow63_bound: "0 < w \<Longrightarrow> w \<le> 8 \<Longrightarrow> (2::int) ^ (8 * w - 1) \<le> 2 ^ 63"
  by (rule power_increasing) auto

text \<open>Writing back what was read stores the same bytes.\<close>

lemma Write_Read_text:
  assumes len: "length b = fk_width k" and rd: "Read_text k b = Inr t" and fin: "scalar_finite k b"
  shows "Write_text k t = Inr b"
proof (cases "fk_class k")
  case Bool_class
  obtain x where b: "b = [x]" using len bool_class_width[OF Bool_class] by (auto simp: length_Suc_conv)
  have "unat x \<le> 1" using rd Bool_class b by (simp add: Read_text_def split: if_splits)
  then have "x = 0 \<or> x = 1" by (metis le_Suc_eq One_nat_def le_zero_eq unat_0 unat_1 unsigned_word_eqI)
  then have "x = 0 \<and> t = ''false'' \<or> x = 1 \<and> t = ''true''"
    using rd Bool_class b by (auto simp: Read_text_def)
  with Bool_class b show ?thesis by (auto simp: Write_text_def Let_def)
next
  case Signed_class
  let ?w = "fk_width k" and ?i = "signed_of (fk_width k) (le_val b)"
  have w: "0 < ?w" "?w \<le> 8" using Signed_class fk_width_pos integer_class_width by auto
  have lt: "le_val b < 256 ^ ?w" using le_val_lt[of b] len by simp
  note r = signed_of_range[OF w(1) lt]
  have "from_chars_i64 (to_string_int ?i) = (Ok_errc, ?i, [])"
    using r pow63_bound[OF w] by (intro from_chars_i64_to_string) linarith+
  then have "Write_integer from_chars_i64 (- (2 ^ (8 * ?w - 1))) (2 ^ (8 * ?w - 1) - 1) ?w t
      = Inr (le_bytes ?w (pattern_of ?w ?i))"
    using r rd Signed_class by (subst Write_integer_Inr_iff) (auto simp: Read_text_def)
  then show ?thesis using Signed_class len lt pattern_signed[OF lt] le_bytes_val[of b]
    by (simp add: Write_text_def Let_def)
next
  case Unsigned_class
  let ?w = "fk_width k" and ?n = "le_val b"
  have w: "?w \<le> 8" using Unsigned_class integer_class_width by auto
  have lt: "?n < 256 ^ ?w" using le_val_lt[of b] len by simp
  have "(256::nat) ^ ?w \<le> 256 ^ 8" using w by (intro power_increasing) auto
  then have "?n < 2 ^ 64" using lt by simp
  then have fc: "from_chars_u64 (to_string_nat ?n) = (Ok_errc, int ?n, [])"
    by (simp add: to_string_nat_def from_chars_u64_to_string)
  have hi: "int ?n < 2 ^ (8 * ?w)" using lt by (simp add: two_pow_bytes flip: of_nat_power_eq_of_nat_cancel_iff)
  then have "pattern_of ?w (int ?n) = ?n" by (simp add: pattern_of_def)
  with fc hi have "Write_integer from_chars_u64 0 (2 ^ (8 * ?w) - 1) ?w t = Inr (le_bytes ?w ?n)"
    using rd Unsigned_class by (subst Write_integer_Inr_iff) (auto simp: Read_text_def to_string_nat_def)
  then show ?thesis using Unsigned_class len le_bytes_val[of b] by (simp add: Write_text_def Let_def)
next
  case (Float_class f)
  have f: "finite_bits f (le_val b)" "f = binary32 \<or> f = binary64"
    using fin Float_class float_class_cases[OF Float_class] by (auto simp: scalar_finite_def)
  then show ?thesis
    using rd Float_class len le_bytes_val[of b] float_print_not_Nil[OF f] read_write_float[OF f]
    by (auto simp: Read_text_def Write_text_def Write_float_def Let_def)
next
  case No_class
  with rd show ?thesis by (simp add: Read_text_def)
qed

text \<open>What was written can be read.\<close>

lemma Read_Write_text:
  assumes "Write_text k t = Inr b"
  shows "(\<exists>t'. Read_text k b = Inr t') \<and> scalar_finite k b"
proof (cases "fk_class k")
  case (Float_class f)
  obtain n where n: "float_parse f t = Some n" "b = le_bytes (fk_width k) n"
    using assms Float_class
    by (auto simp: Write_text_def Write_float_def Let_def split: if_splits option.splits)
  have c: "f = binary32 \<and> fk_width k = 4 \<or> f = binary64 \<and> fk_width k = 8" by (rule float_class_cases[OF Float_class])
  have fin: "finite_bits f n"
    using n(1) c by (intro float_parse_finite) (auto simp: binary32_def binary64_def inf_bits_def sign_bit_def)
  then have "n < 256 ^ fk_width k" using c by (auto simp: finite_bits_def binary32_def binary64_def sign_bit_def)
  with fin n Float_class show ?thesis by (simp add: Read_text_def scalar_finite_def le_val_bytes)
next
  case Bool_class
  with assms show ?thesis by (auto simp: Write_text_def Read_text_def scalar_finite_def Let_def split: if_splits)
qed (use assms in \<open>auto simp: Write_text_def Read_text_def scalar_finite_def Let_def\<close>)

text \<open>
  The value stays: an accepted integer text and the text read back denote the same number, a
  boolean keeps its text, and a float is the bits its text rounds to.
\<close>

lemma Read_Write_integer:
  assumes "Write_text k t = Inr b"
  shows "fk_class k = Signed_class \<Longrightarrow> \<exists>n. from_chars_i64 t = (Ok_errc, n, []) \<and> Read_text k b = Inr (to_string_int n)"
    and "fk_class k = Unsigned_class \<Longrightarrow> \<exists>n. from_chars_u64 t = (Ok_errc, n, []) \<and> Read_text k b = Inr (to_string_int n)"
proof -
  assume c: "fk_class k = Signed_class"
  then have w: "0 < fk_width k" by (intro fk_width_pos) simp
  obtain n where "from_chars_i64 t = (Ok_errc, n, [])" "- (2 ^ (8 * fk_width k - 1)) \<le> n"
      "n \<le> 2 ^ (8 * fk_width k - 1) - 1" "b = le_bytes (fk_width k) (pattern_of (fk_width k) n)"
    using assms c by (auto simp: Write_text_def Let_def Write_integer_Inr_iff)
  then show "\<exists>n. from_chars_i64 t = (Ok_errc, n, []) \<and> Read_text k b = Inr (to_string_int n)"
    using c w by (auto simp: Read_text_def le_val_bytes pattern_lt signed_pattern)
next
  assume c: "fk_class k = Unsigned_class"
  obtain n where n: "from_chars_u64 t = (Ok_errc, n, [])" "0 \<le> n"
      "n \<le> 2 ^ (8 * fk_width k) - 1" "b = le_bytes (fk_width k) (pattern_of (fk_width k) n)"
    using assms c by (auto simp: Write_text_def Let_def Write_integer_Inr_iff)
  have "pattern_of (fk_width k) n = nat n" using n by (simp add: pattern_of_def)
  then have "le_val b = nat n" using n(4) pattern_lt[of "fk_width k" n] by (simp add: le_val_bytes)
  with n c show "\<exists>n. from_chars_u64 t = (Ok_errc, n, []) \<and> Read_text k b = Inr (to_string_int n)"
    by (auto simp: Read_text_def to_string_nat_def to_string_int_def)
qed

section \<open>The interface of scalars\<close>

text \<open>
  What fields and payloads rely on: a scalar has a width, its bytes and its text convert into
  each other, and neither conversion touches memory. \<open>load\<close> and \<open>store\<close> place it in a buffer.
\<close>

locale scalar_codec =
  fixes rd :: "'k \<Rightarrow> bytes \<Rightarrow> string result"
    and wr :: "'k \<Rightarrow> string \<Rightarrow> bytes result"
    and width :: "'k \<Rightarrow> nat"
    and fin :: "'k \<Rightarrow> bytes \<Rightarrow> bool"
  assumes rd_defined: "rd k b \<noteq> Inl Undefined"
    and wr_defined: "wr k t \<noteq> Inl Undefined"
    and wr_length: "wr k t = Inr b \<Longrightarrow> length b = width k"
    and wr_rd: "length b = width k \<Longrightarrow> rd k b = Inr t \<Longrightarrow> fin k b \<Longrightarrow> wr k t = Inr b"
    and rd_wr: "wr k t = Inr b \<Longrightarrow> (\<exists>t'. rd k b = Inr t') \<and> fin k b"
begin

definition cell :: "'k \<Rightarrow> bytes \<Rightarrow> nat \<Rightarrow> bytes" where
  "cell k bs off = take (width k) (drop off bs)"

definition load :: "'k \<Rightarrow> bytes \<Rightarrow> nat \<Rightarrow> string result" where
  "load k bs off = res_bind (read_at bs off (width k)) (rd k)"

definition store :: "'k \<Rightarrow> string \<Rightarrow> bytes \<Rightarrow> nat \<Rightarrow> bytes result" where
  "store k t bs off = res_bind (wr k t) (write_at bs off)"

lemma length_cell: "off + width k \<le> length bs \<Longrightarrow> length (cell k bs off) = width k"
  by (simp add: cell_def)

lemma load_cell: "load k bs off = (if off + width k \<le> length bs then rd k (cell k bs off) else Inl Undefined)"
  by (simp add: load_def read_at_def cell_def)

lemma load_defined: "off + width k \<le> length bs \<Longrightarrow> load k bs off \<noteq> Inl Undefined"
  by (simp add: load_cell rd_defined)

lemma store_defined: "off + width k \<le> length bs \<Longrightarrow> store k t bs off \<noteq> Inl Undefined"
  using wr_defined by (auto simp: store_def write_at_def res_simps wr_length split: if_splits)

lemma store_Inr:
  "store k t bs off = Inr bs' \<longleftrightarrow>
    (\<exists>b. wr k t = Inr b \<and> off + width k \<le> length bs \<and> bs' = take off bs @ b @ drop (off + width k) bs)"
  using wr_length by (auto simp: store_def write_at_def res_simps split: if_splits)

lemma store_length: "store k t bs off = Inr bs' \<Longrightarrow> length bs' = length bs"
  by (auto simp: store_Inr wr_length)

lemma store_load:
  assumes "load k bs off = Inr t" and "fin k (cell k bs off)"
  shows "store k t bs off = Inr bs"
proof -
  have le: "off + width k \<le> length bs" and r: "rd k (cell k bs off) = Inr t"
    using assms(1) by (auto simp: load_cell split: if_splits)
  have "wr k t = Inr (cell k bs off)" using wr_rd[OF length_cell[OF le] r assms(2)] .
  moreover have "bs = take off bs @ cell k bs off @ drop (off + width k) bs"
    by (simp add: cell_def) (metis add.commute append_take_drop_id drop_drop)
  ultimately show ?thesis using le by (auto simp: store_Inr)
qed

lemma store_frame:
  assumes "store k t bs off = Inr bs'" and "i < length bs" and "i < off \<or> off + width k \<le> i"
  shows "bs' ! i = bs ! i"
proof -
  obtain b where b: "wr k t = Inr b" "off + width k \<le> length bs"
    "bs' = take off bs @ b @ drop (off + width k) bs" using assms(1) by (auto simp: store_Inr)
  have "length b = width k" using b(1) by (rule wr_length)
  with b assms(2,3) show ?thesis by (auto simp: nth_append)
qed

lemma cell_store:
  assumes "store k t bs off = Inr bs'"
  shows "wr k t = Inr (cell k bs' off)"
proof -
  obtain b where b: "wr k t = Inr b" "off + width k \<le> length bs"
    "bs' = take off bs @ b @ drop (off + width k) bs" using assms by (auto simp: store_Inr)
  have "length b = width k" using b(1) by (rule wr_length)
  with b show ?thesis by (simp add: cell_def)
qed

lemma cell_store_other:
  assumes "store k t bs off = Inr bs'" and "off' + width k' \<le> off \<or> off + width k \<le> off'"
    and "off' + width k' \<le> length bs"
  shows "cell k' bs' off' = cell k' bs off'"
proof (rule nth_equalityI)
  have len: "length bs' = length bs" using assms(1) by (rule store_length)
  show "length (cell k' bs' off') = length (cell k' bs off')" by (simp add: cell_def len)
  fix i assume "i < length (cell k' bs' off')"
  then have i: "i < width k'" "off' + i < length bs" by (auto simp: cell_def len)
  then have "bs' ! (off' + i) = bs ! (off' + i)"
    using assms by (intro store_frame[OF assms(1)]) auto
  with i len show "cell k' bs' off' ! i = cell k' bs off' ! i" by (simp add: cell_def)
qed

lemma load_of_cell:
  assumes "wr k t = Inr (cell k bs off)" and "off + width k \<le> length bs"
  shows "(\<exists>t'. load k bs off = Inr t') \<and> fin k (cell k bs off)"
  using rd_wr[OF assms(1)] assms(2) by (simp add: load_cell)

end

interpretation sc: scalar_codec Read_text Write_text fk_width scalar_finite
  by unfold_locales
    (rule Read_text_Undefined, rule Write_text_Undefined, erule Write_text_length,
      erule (2) Write_Read_text, erule Read_Write_text)

definition fk_known :: "field_kind \<Rightarrow> bool" where
  "fk_known k = (case k of FK_Other n \<Rightarrow> False | _ \<Rightarrow> True)"

lemma ReadScalar_load: "fk_known k \<Longrightarrow> ReadScalar k bs off = sc.load k bs off"
  by (cases k) (simp_all add: ReadScalar_def sc.load_def fk_known_def)

lemma ReadScalar_Inr: "ReadScalar k bs off = Inr t \<Longrightarrow> fk_known k \<and> sc.load k bs off = Inr t"
  by (cases k) (simp_all add: ReadScalar_def sc.load_def fk_known_def)

lemma WriteScalar_store: "WriteScalar k t bs off = sc.store k t bs off"
  by (simp add: WriteScalar_def sc.store_def)

lemma Name_known: "fk_known k \<Longrightarrow> Name k = Inr (kind_names ! fk_code k)"
  by (cases k) (simp_all add: Name_def fk_known_def fk_code_def kind_names_def)

section \<open>Well-formed descriptors\<close>

text \<open>
  What \<open>ValidateTypeDescriptor\<close> documents of an accepted descriptor, as far as the codec uses
  it: the listed fields exist, have a known kind and room for it, and have distinct names;
  \<open>fields_apart\<close> says that their storage does not overlap.
\<close>

definition listed :: "type_descriptor \<Rightarrow> type_field_info list" where
  "listed d = take (td_field_count d) (td_fields d)"

definition layout_ok :: "type_descriptor \<Rightarrow> bool" where
  "layout_ok d \<longleftrightarrow> td_field_count d \<le> length (td_fields d)
     \<and> (\<forall>f \<in> set (listed d). fk_known (tf_kind f) \<and> fk_width (tf_kind f) \<le> tf_element_size f)"

definition names_ok :: "type_descriptor \<Rightarrow> bool" where
  "names_ok d \<longleftrightarrow> distinct (map tf_name (listed d))"

definition field_end :: "type_field_info \<Rightarrow> nat" where
  "field_end f = tf_offset f + tf_element_size f * tf_array_count f"

definition fields_apart :: "type_descriptor \<Rightarrow> bool" where
  "fields_apart d \<longleftrightarrow> (\<forall>i < td_field_count d. \<forall>j < td_field_count d.
     i \<noteq> j \<longrightarrow> field_end (td_fields d ! i) \<le> tf_offset (td_fields d ! j)
           \<or> field_end (td_fields d ! j) \<le> tf_offset (td_fields d ! i))"

definition descriptor_ok :: "type_descriptor \<Rightarrow> bool" where
  "descriptor_ok d \<longleftrightarrow> layout_ok d \<and> names_ok d \<and> fields_apart d"

lemma listed_nth: "layout_ok d \<Longrightarrow> i < td_field_count d \<Longrightarrow> td_fields d ! i \<in> set (listed d)"
  by (auto simp: layout_ok_def listed_def in_set_conv_nth intro!: exI[of _ i])

lemma layout_nth:
  assumes "layout_ok d" and "i < td_field_count d"
  shows "i < length (td_fields d)" "fk_known (tf_kind (td_fields d ! i))"
    "fk_width (tf_kind (td_fields d ! i)) \<le> tf_element_size (td_fields d ! i)"
  using assms listed_nth[OF assms] by (auto simp: layout_ok_def)

text \<open>An element of a field inside the buffer lies inside it, within the field.\<close>

lemma element_inside:
  assumes "j < tf_array_count f" and "w \<le> tf_element_size f"
  shows "tf_offset f \<le> element_offset f j" "element_offset f j + w \<le> field_end f"
proof -
  have "(j + 1) * tf_element_size f \<le> tf_array_count f * tf_element_size f"
    using assms(1) by (intro mult_le_mono1) simp
  with assms(2) show "element_offset f j + w \<le> field_end f"
    by (simp add: element_offset_def field_end_def mult.commute)
qed (simp add: element_offset_def)

lemma Bounds_iff: "Bounds f sz \<longleftrightarrow> field_end f \<le> sz"
  by (auto simp: Bounds_def field_end_def)

lemma element_after:
  assumes "a < b" and "w \<le> tf_element_size f"
  shows "element_offset f a + w \<le> element_offset f b"
proof -
  have "(a + 1) * tf_element_size f \<le> b * tf_element_size f"
    using assms(1) by (intro mult_le_mono1) simp
  with assms(2) show ?thesis by (simp add: element_offset_def)
qed

lemma elements_apart:
  "j \<noteq> l \<Longrightarrow> w \<le> tf_element_size f \<Longrightarrow>
    element_offset f j + w \<le> element_offset f l \<or> element_offset f l + w \<le> element_offset f j"
  using element_after by (metis linorder_neqE_nat)

section \<open>Memory safety\<close>

lemma decode_field_defined:
  assumes "fk_known (tf_kind f)" and "fk_width (tf_kind f) \<le> tf_element_size f"
  shows "decode_field bs f \<noteq> Inl Undefined"
proof
  assume u: "decode_field bs f = Inl Undefined"
  then have b: "field_end f \<le> length bs" by (auto simp: decode_field_def Bounds_iff split: if_splits)
  obtain j where j: "j < tf_array_count f" "ReadScalar (tf_kind f) bs (element_offset f j) = Inl Undefined"
    using u assms(1) by (auto simp: decode_field_def Name_known res_simps split: if_splits dest: mapM_res_Inl_D)
  have "element_offset f j + fk_width (tf_kind f) \<le> length bs"
    using element_inside(2)[OF j(1) assms(2)] b by linarith
  with j(2) assms(1) show False using sc.load_defined by (simp add: ReadScalar_load)
qed

lemma find_field_spec:
  assumes "td_field_count d \<le> length (td_fields d)" and "i \<le> td_field_count d"
  shows "\<exists>r. find_field d name i = Inr r \<and> i \<le> r \<and> r \<le> td_field_count d
    \<and> (r < td_field_count d \<longrightarrow> tf_name (td_fields d ! r) = name)
    \<and> (\<forall>j. i \<le> j \<and> j < r \<longrightarrow> tf_name (td_fields d ! j) \<noteq> name)"
  using assms
proof (induction d name i rule: find_field.induct)
  case (1 d name i)
  show ?case
  proof (cases "i < td_field_count d \<and> name \<noteq> tf_name (td_fields d ! i)")
    case True
    then have f: "nth_res (td_fields d) i = Inr (td_fields d ! i)" using 1(2) by simp
    then have "find_field d name i = find_field d name (i + 1)"
      using True by (subst find_field.simps) simp
    moreover have "\<exists>r. find_field d name (i + 1) = Inr r \<and> i + 1 \<le> r \<and> r \<le> td_field_count d
        \<and> (r < td_field_count d \<longrightarrow> tf_name (td_fields d ! r) = name)
        \<and> (\<forall>j. i + 1 \<le> j \<and> j < r \<longrightarrow> tf_name (td_fields d ! j) \<noteq> name)"
      using 1 True f by (intro 1(1)) auto
    then obtain r where "find_field d name (i + 1) = Inr r" "i + 1 \<le> r" "r \<le> td_field_count d"
      "r < td_field_count d \<longrightarrow> tf_name (td_fields d ! r) = name"
      "\<forall>j. i + 1 \<le> j \<and> j < r \<longrightarrow> tf_name (td_fields d ! j) \<noteq> name" by blast
    moreover have "tf_name (td_fields d ! j) \<noteq> name" if "i \<le> j" "j < r" for j
      using that True \<open>\<forall>j. i + 1 \<le> j \<and> j < r \<longrightarrow> tf_name (td_fields d ! j) \<noteq> name\<close>
      by (cases "j = i") auto
    ultimately show ?thesis by (intro exI[of _ r]) auto
  next
    case False
    then have "find_field d name i = Inr i" using 1(2,3) by (subst find_field.simps) auto
    with False 1(3) show ?thesis by auto
  qed
qed

lemma write_element_defined:
  assumes "field_end f \<le> length bs" and "fk_width (tf_kind f) \<le> tf_element_size f"
    and "j < tf_array_count f" and "tf_array_count f = 1 \<or> tf_array_count f \<le> length (fv_array_values x)"
  shows "write_element f x j bs \<noteq> Inl Undefined"
proof -
  have "element_offset f j + fk_width (tf_kind f) \<le> length bs"
    using element_inside(2)[OF assms(3,2)] assms(1) by linarith
  then show ?thesis
    using assms(3,4) sc.store_defined by (auto simp: write_element_def WriteScalar_store res_simps)
qed

lemma write_element_length: "write_element f x j bs = Inr bs' \<Longrightarrow> length bs' = length bs"
  by (auto simp: write_element_def WriteScalar_store res_simps sc.store_length)

lemma encode_field_length: "encode_field f x bs = Inr bs' \<Longrightarrow> length bs' = length bs"
  by (auto simp: encode_field_def res_simps split: if_splits
      elim!: foldM_res_invariant[where P = "\<lambda>b. length b = length bs"] simp: write_element_length)

lemma encode_field_defined:
  assumes "fk_known (tf_kind f)" and "fk_width (tf_kind f) \<le> tf_element_size f"
  shows "encode_field f x bs \<noteq> Inl Undefined"
proof
  assume u: "encode_field f x bs = Inl Undefined"
  then have b: "field_end f \<le> length bs"
    and c: "\<not> (1 < tf_array_count f \<and> length (fv_array_values x) \<noteq> tf_array_count f)"
    and l: "foldM_res (write_element f x) [0..<tf_array_count f] bs = Inl Undefined"
    using assms(1) by (auto simp: encode_field_def Bounds_iff Name_known res_simps split: if_splits)
  obtain j bs' where j: "j < tf_array_count f" "length bs' = length bs" "write_element f x j bs' = Inl Undefined"
    using foldM_res_Inl[OF l, of "\<lambda>b. length b = length bs"] by (auto simp: write_element_length)
  with b c assms(2) write_element_defined[of f bs' j x] show False by fastforce
qed

lemma encode_fields_defined:
  assumes "layout_ok d"
  shows "encode_fields d xs used bs \<noteq> Inl Undefined"
proof (induction xs arbitrary: used bs)
  case (Cons x xs)
  have c: "td_field_count d \<le> length (td_fields d)" using assms by (simp add: layout_ok_def)
  obtain r where r: "find_field d (fv_name x) 0 = Inr r" "r \<le> td_field_count d"
    using find_field_spec[OF c, of 0] by auto
  show ?case
  proof (cases "r = td_field_count d \<or> used ! r")
    case False
    then have "r < td_field_count d" using r(2) by simp
    note L = layout_nth[OF assms this]
    from L r False Cons encode_field_defined[OF L(2,3)] show ?thesis by (auto simp: res_simps)
  qed (auto simp: r)
qed simp

lemma Decode_defined: "(valid d \<Longrightarrow> layout_ok d) \<Longrightarrow> Decode valid d p \<noteq> Inl Undefined"
proof
  assume L: "valid d \<Longrightarrow> layout_ok d" and u: "Decode valid d p = Inl Undefined"
  then have "mapM_res (\<lambda>i. res_bind (nth_res (td_fields d) i) (decode_field (dp_bytes p))) [0..<td_field_count d]
      = Inl Undefined" and v: "valid d"
    by (auto simp: Decode_def res_simps split: if_splits)
  then obtain i where "i < td_field_count d"
    "res_bind (nth_res (td_fields d) i) (decode_field (dp_bytes p)) = Inl Undefined"
    by (auto dest!: mapM_res_Inl_D)
  then show False using layout_nth[OF L[OF v]] decode_field_defined by (auto simp: res_simps)
qed

lemma Encode_defined: "(valid d \<Longrightarrow> layout_ok d) \<Longrightarrow> Encode valid d s seed \<noteq> Inl Undefined"
  using encode_fields_defined by (auto simp: Encode_def Let_def res_simps)

end
