(* ===== verification/CodecRoundTrip.thy ===== *)
theory CodecRoundTrip
  imports ValueCodec
begin

text \<open>
  The properties of the codec of \<open>ValueCodec\<close>: memory safety, what \<open>Encode\<close> stores and accepts,
  and the two round trips. A payload is followed field by field: a field that \<open>Encode\<close> wrote
  keeps its bytes while the others are written, because their storage is apart, and a decoded
  field is written back onto the bytes it was read from.
\<close>

section \<open>Decode, then Encode over the same payload\<close>

text \<open>The bytes of the scalar at an offset, and: every float of the payload is a finite number.\<close>

definition scalar_bytes :: "field_kind \<Rightarrow> bytes \<Rightarrow> nat \<Rightarrow> bytes" where
  "scalar_bytes k bs off = take (fk_width k) (drop off bs)"

lemma sc_cell: "sc.cell k bs off = scalar_bytes k bs off"
  by (simp add: sc.cell_def scalar_bytes_def)

definition payload_finite :: "type_descriptor \<Rightarrow> dynamic_payload \<Rightarrow> bool" where
  "payload_finite d p \<longleftrightarrow> (\<forall>f \<in> set (listed d). \<forall>j < tf_array_count f.
     scalar_finite (tf_kind f) (scalar_bytes (tf_kind f) (dp_bytes p) (element_offset f j)))"

lemma decode_field_Inr:
  assumes "decode_field bs f = Inr x"
  shows "Bounds f (length bs)" and "Name (tf_kind f) = Inr (fv_type_name x)" and "fv_name x = tf_name f"
    and "fv_kind x = Kind (tf_kind f)"
    and "tf_array_count f = 1 \<Longrightarrow> fv_array_values x = [] \<and> ReadScalar (tf_kind f) bs (element_offset f 0) = Inr (fv_value x)"
    and "tf_array_count f \<noteq> 1 \<Longrightarrow> fv_value x = [] \<and> length (fv_array_values x) = tf_array_count f
      \<and> (\<forall>j < tf_array_count f. ReadScalar (tf_kind f) bs (element_offset f j) = Inr (fv_array_values x ! j))"
  using assms
  by (auto simp: decode_field_def res_simps list_all2_conv_all_nth split: if_splits)

lemma encode_decoded_field:
  assumes "decode_field bs f = Inr x"
    and fin: "\<And>j. j < tf_array_count f \<Longrightarrow> scalar_finite (tf_kind f) (sc.cell (tf_kind f) bs (element_offset f j))"
  shows "encode_field f x bs = Inr bs"
proof -
  note D = decode_field_Inr[OF assms(1)]
  have "write_element f x j bs = Inr bs" if j: "j < tf_array_count f" for j
  proof -
    obtain t where t: "ReadScalar (tf_kind f) bs (element_offset f j) = Inr t"
      "(if tf_array_count f = 1 then Inr (fv_value x) else nth_res (fv_array_values x) j) = Inr t"
      using D(5,6) j by (cases "tf_array_count f = 1") auto
    then show ?thesis
      using sc.store_load[OF conjunct2[OF ReadScalar_Inr[OF t(1)]] fin[OF j]]
      by (simp add: write_element_def WriteScalar_store)
  qed
  then have "foldM_res (write_element f x) [0..<tf_array_count f] bs = Inr bs"
    by (intro foldM_res_same) simp
  with D show ?thesis by (cases "tf_array_count f = 1") (auto simp: encode_field_def)
qed

lemma find_field_distinct:
  assumes "td_field_count d \<le> length (td_fields d)" and "names_ok d" and "i < td_field_count d"
  shows "find_field d (tf_name (td_fields d ! i)) 0 = Inr i"
proof -
  let ?n = "tf_name (td_fields d ! i)"
  obtain r where r: "find_field d ?n 0 = Inr r" "r \<le> td_field_count d"
      "r < td_field_count d \<longrightarrow> tf_name (td_fields d ! r) = ?n"
      "\<forall>j. 0 \<le> j \<and> j < r \<longrightarrow> tf_name (td_fields d ! j) \<noteq> ?n"
    using find_field_spec[OF assms(1), of 0 ?n] by blast
  then have "r \<le> i" by (metis le_less_linear zero_le)
  then have "map tf_name (listed d) ! r = map tf_name (listed d) ! i" "r < length (listed d)" "i < length (listed d)"
    using r assms by (auto simp: listed_def)
  with assms(2) have "r = i" unfolding names_ok_def using nth_eq_iff_index_eq length_map by metis
  with r(1) show ?thesis by simp
qed

lemma Decode_Inr:
  assumes "Decode valid d p = Inr s"
  shows "valid d" "dp_type_id p = td_type_id d" "length (dp_bytes p) = td_payload_size d"
    "ds_type_id s = td_type_id d" "ds_type_name s = td_type_name d" "ds_sequence s = dp_sequence p"
    "td_field_count d \<le> length (td_fields d)"
    "list_all2 (\<lambda>i x. decode_field (dp_bytes p) (td_fields d ! i) = Inr x) [0..<td_field_count d] (ds_fields s)"
proof -
  have l: "list_all2 (\<lambda>i x. res_bind (nth_res (td_fields d) i) (decode_field (dp_bytes p)) = Inr x)
      [0..<td_field_count d] (ds_fields s)"
    using assms by (auto simp: Decode_def res_simps split: if_splits)
  have b: "i < length (td_fields d) \<and> decode_field (dp_bytes p) (td_fields d ! i) = Inr (ds_fields s ! i)"
    if "i < td_field_count d" for i
    using l that by (auto simp: list_all2_conv_all_nth res_simps)
  show "td_field_count d \<le> length (td_fields d)" using b by (meson le_less_linear less_irrefl)
  show "list_all2 (\<lambda>i x. decode_field (dp_bytes p) (td_fields d ! i) = Inr x) [0..<td_field_count d] (ds_fields s)"
    using l b by (auto simp: list_all2_conv_all_nth)
qed (use assms in \<open>auto simp: Decode_def res_simps split: if_splits\<close>)

section \<open>What Encode stores\<close>

text \<open>\<open>x\<close> is stored in field \<open>f\<close>: every element holds the bytes of its text.\<close>

definition stored :: "type_field_info \<Rightarrow> field_value \<Rightarrow> bytes \<Rightarrow> bool" where
  "stored f x bs \<longleftrightarrow> Bounds f (length bs) \<and> Name (tf_kind f) = Inr (fv_type_name x) \<and> fv_name x = tf_name f
     \<and> (\<forall>j < tf_array_count f.
          Write_text (tf_kind f) (if tf_array_count f = 1 then fv_value x else fv_array_values x ! j)
          = Inr (scalar_bytes (tf_kind f) bs (element_offset f j)))"

lemma write_element_cell:
  assumes "write_element f x j bs = Inr bs'"
  shows "sc.store (tf_kind f) (if tf_array_count f = 1 then fv_value x else fv_array_values x ! j) bs
    (element_offset f j) = Inr bs'"
  using assms by (auto simp: write_element_def WriteScalar_store res_simps split: if_splits)

lemma encode_field_stores:
  assumes e: "encode_field f x bs = Inr bs'" and w: "fk_width (tf_kind f) \<le> tf_element_size f"
    and name: "fv_name x = tf_name f"
  shows "stored f x bs'"
proof -
  let ?t = "\<lambda>j. if tf_array_count f = 1 then fv_value x else fv_array_values x ! j"
  let ?k = "tf_kind f"
  have b: "field_end f \<le> length bs" and nm: "Name ?k = Inr (fv_type_name x)"
    and fold: "foldM_res (write_element f x) [0..<tf_array_count f] bs = Inr bs'"
    using e by (auto simp: encode_field_def Bounds_iff res_simps split: if_splits)
  have "foldM_res (write_element f x) [0..<n] bs = Inr c \<Longrightarrow> n \<le> tf_array_count f \<Longrightarrow>
      length c = length bs \<and> (\<forall>j < n. Write_text ?k (?t j) = Inr (sc.cell ?k c (element_offset f j)))" for n c
  proof (induction n arbitrary: c)
    case (Suc n)
    have "foldM_res (write_element f x) ([0..<n] @ [n]) bs = Inr c" using Suc.prems(1) by simp
    then obtain c' where c': "foldM_res (write_element f x) [0..<n] bs = Inr c'" "write_element f x n c' = Inr c"
      by (auto simp: foldM_res_append res_simps)
    note IH = Suc.IH[OF c'(1)]
    note st = write_element_cell[OF c'(2)]
    have "Write_text ?k (?t j) = Inr (sc.cell ?k c (element_offset f j))" if j: "j < Suc n" for j
    proof (cases "j = n")
      case True
      show ?thesis unfolding True by (rule sc.cell_store[OF st])
    next
      case False
      have "element_offset f j + fk_width ?k \<le> length c'"
        using element_inside(2)[of j f "fk_width ?k"] w j Suc.prems(2) b IH by linarith
      then have "sc.cell ?k c (element_offset f j) = sc.cell ?k c' (element_offset f j)"
        using elements_apart[OF False w] by (intro sc.cell_store_other[OF st]) auto
      with IH Suc.prems(2) False j show ?thesis by simp
    qed
    with IH Suc.prems(2) sc.store_length[OF st] show ?case by simp
  qed simp
  from this[OF fold] show ?thesis
    using b nm name by (simp add: stored_def Bounds_iff sc_cell)
qed

text \<open>A write into one field leaves what lies apart from it.\<close>

lemma encode_field_frame:
  assumes e: "encode_field f x bs = Inr bs'" and w: "fk_width (tf_kind f) \<le> tf_element_size f"
    and i: "i < length bs" "i < tf_offset f \<or> field_end f \<le> i"
  shows "bs' ! i = bs ! i"
proof -
  have fold: "foldM_res (write_element f x) [0..<tf_array_count f] bs = Inr bs'"
    using e by (auto simp: encode_field_def res_simps split: if_splits)
  have "length bs' = length bs \<and> bs' ! i = bs ! i"
  proof (rule foldM_res_invariant[OF fold, of "\<lambda>c. length c = length bs \<and> c ! i = bs ! i"])
    fix j c c' assume j: "j \<in> set [0..<tf_array_count f]" and c: "length c = length bs \<and> c ! i = bs ! i"
      and wr: "write_element f x j c = Inr c'"
    have "c' ! i = c ! i"
      using element_inside[of j f "fk_width (tf_kind f)"] w j i c
      by (intro sc.store_frame[OF write_element_cell[OF wr]]) auto
    with c write_element_length[OF wr] show "length c' = length bs \<and> c' ! i = bs ! i" by simp
  qed simp
  then show ?thesis ..
qed

lemma stored_other:
  assumes st: "stored g y bs" and e: "encode_field f x bs = Inr bs'"
    and wf: "fk_width (tf_kind f) \<le> tf_element_size f" and wg: "fk_width (tf_kind g) \<le> tf_element_size g"
    and apart: "field_end f \<le> tf_offset g \<or> field_end g \<le> tf_offset f"
  shows "stored g y bs'"
proof -
  have len: "length bs' = length bs" using e by (rule encode_field_length)
  have "sc.cell (tf_kind g) bs' (element_offset g j) = sc.cell (tf_kind g) bs (element_offset g j)"
    if j: "j < tf_array_count g" for j
  proof (rule nth_equalityI)
    show "length (sc.cell (tf_kind g) bs' (element_offset g j)) = length (sc.cell (tf_kind g) bs (element_offset g j))"
      by (simp add: sc.cell_def len)
    fix i assume "i < length (sc.cell (tf_kind g) bs' (element_offset g j))"
    then have i: "i < fk_width (tf_kind g)" "element_offset g j + i < length bs" by (auto simp: sc.cell_def len)
    then have "bs' ! (element_offset g j + i) = bs ! (element_offset g j + i)"
      using element_inside[OF j wg] apart by (intro encode_field_frame[OF e wf]) auto
    with i len show "sc.cell (tf_kind g) bs' (element_offset g j) ! i = sc.cell (tf_kind g) bs (element_offset g j) ! i"
      by (simp add: sc.cell_def)
  qed
  with st len show ?thesis by (simp add: stored_def sc_cell)
qed

lemma encode_fields_step:
  assumes "encode_fields d (x # xs) used bs = Inr bs'" and "layout_ok d"
  obtains i b where "i < td_field_count d" "\<not> used ! i" "fv_name x = tf_name (td_fields d ! i)"
    "encode_field (td_fields d ! i) x bs = Inr b" "encode_fields d xs (used[i := True]) b = Inr bs'"
proof -
  have c: "td_field_count d \<le> length (td_fields d)" using assms(2) by (simp add: layout_ok_def)
  obtain r where r: "find_field d (fv_name x) 0 = Inr r" "r \<le> td_field_count d"
    "r < td_field_count d \<longrightarrow> tf_name (td_fields d ! r) = fv_name x"
    using find_field_spec[OF c, of 0 "fv_name x"] by blast
  with assms(1) c that[of r] show thesis by (auto simp: res_simps split: if_splits)
qed

lemma encode_fields_spec:
  assumes "descriptor_ok d"
  shows "encode_fields d xs used bs = Inr bs' \<Longrightarrow> length used = td_field_count d \<Longrightarrow>
    (\<And>i. i < td_field_count d \<Longrightarrow> used ! i \<Longrightarrow> \<exists>x \<in> Y. stored (td_fields d ! i) x bs) \<Longrightarrow>
    length (filter Not used) = length xs \<Longrightarrow>
    length bs' = length bs \<and> (\<forall>i < td_field_count d. \<exists>x \<in> Y \<union> set xs. stored (td_fields d ! i) x bs')"
proof (induction xs arbitrary: used bs Y)
  case Nil
  then have "\<forall>i < td_field_count d. used ! i" by (auto simp: filter_empty_conv)
  with Nil show ?case by auto
next
  case (Cons x xs)
  have L: "layout_ok d" "fields_apart d" using assms by (simp_all add: descriptor_ok_def)
  obtain i b where i: "i < td_field_count d" "\<not> used ! i" "fv_name x = tf_name (td_fields d ! i)"
    and e: "encode_field (td_fields d ! i) x bs = Inr b" and r: "encode_fields d xs (used[i := True]) b = Inr bs'"
    by (rule encode_fields_step[OF Cons.prems(1) L(1)])
  note w = layout_nth(3)[OF L(1)]
  have "length (filter Not (used[i := True])) = length xs"
    using length_filter_Not_update[of i used] i Cons.prems(2,4) by simp
  moreover have "\<exists>y \<in> insert x Y. stored (td_fields d ! l) y b"
    if l: "l < td_field_count d" "(used[i := True]) ! l" for l
  proof (cases "l = i")
    case True
    then show ?thesis using encode_field_stores[OF e w[OF i(1)] i(3)] by auto
  next
    case False
    then obtain y where y: "y \<in> Y" "stored (td_fields d ! l) y bs" using Cons.prems(3)[OF l(1)] l by auto
    have "stored (td_fields d ! l) y b"
      using L(2) l(1) i(1) False
      by (intro stored_other[OF y(2) e w[OF i(1)] w[OF l(1)]]) (auto simp: fields_apart_def)
    with y show ?thesis by auto
  qed
  ultimately have "length bs' = length b \<and>
      (\<forall>i < td_field_count d. \<exists>y \<in> insert x Y \<union> set xs. stored (td_fields d ! i) y bs')"
    using Cons.prems(2) by (intro Cons.IH[OF r]) auto
  then show ?case using encode_field_length[OF e] by simp
qed

lemma encode_fields_frame:
  assumes "layout_ok d" and "\<And>f. f \<in> set (listed d) \<Longrightarrow> k < tf_offset f \<or> field_end f \<le> k"
  shows "encode_fields d xs used bs = Inr bs' \<Longrightarrow> k < length bs \<Longrightarrow> bs' ! k = bs ! k"
proof (induction xs arbitrary: used bs)
  case (Cons x xs)
  obtain i b where i: "i < td_field_count d"
    and e: "encode_field (td_fields d ! i) x bs = Inr b" and r: "encode_fields d xs (used[i := True]) b = Inr bs'"
    by (rule encode_fields_step[OF Cons.prems(1) assms(1)])
  have "b ! k = bs ! k"
    using assms(2)[OF listed_nth[OF assms(1) i]] Cons.prems(2)
    by (intro encode_field_frame[OF e layout_nth(3)[OF assms(1) i]]) auto
  with Cons.IH[OF r] Cons.prems(2) encode_field_length[OF e] show ?case by simp
qed simp

text \<open>The bytes \<open>Encode\<close> starts from.\<close>

definition seed_bytes :: "type_descriptor \<Rightarrow> dynamic_payload option \<Rightarrow> bytes" where
  "seed_bytes d seed = (case seed of Some s \<Rightarrow> dp_bytes s | None \<Rightarrow> replicate (td_payload_size d) 0)"

lemma Encode_Inr:
  assumes "Encode valid d s seed = Inr p"
  shows "valid d" "dp_type_id p = td_type_id d" "length (ds_fields s) = td_field_count d"
    "length (seed_bytes d seed) = td_payload_size d"
    "encode_fields d (ds_fields s) (replicate (td_field_count d) False) (seed_bytes d seed) = Inr (dp_bytes p)"
    "dp_sequence p = (case seed of Some q \<Rightarrow> dp_sequence q | None \<Rightarrow> 0)"
  using assms by (auto simp: Encode_def Let_def seed_bytes_def res_simps split: if_splits option.splits)

section \<open>Infinities and NaNs\<close>

lemma Write_Read_text_nonfinite:
  assumes len: "length b = fk_width k" and rd: "Read_text k b = Inr t" and nf: "\<not> scalar_finite k b"
  shows "Write_text k t = fail (- ERANGE)"
proof (cases "fk_class k")
  case (Float_class f)
  have c: "f = binary32 \<and> fk_width k = 4 \<or> f = binary64 \<and> fk_width k = 8"
    by (rule float_class_cases[OF Float_class])
  let ?n = "le_val b"
  have lt: "?n < 2 * sign_bit f"
    using le_val_lt[of b] len c by (auto simp: sign_bit_def binary32_def binary64_def)
  with nf Float_class have nfin: "inf_bits f \<le> ?n mod sign_bit f"
    by (simp add: scalar_finite_def finite_bits_def)
  have pm: "print_mag f m \<in> {''nan'', ''inf''}" if "inf_bits f \<le> m" for m
    using that by (simp add: print_mag_def)
  have "?n mod sign_bit f = (if sign_bit f \<le> ?n then ?n - sign_bit f else ?n)"
    using lt by (simp add: le_mod_geq)
  then have "t \<in> {''nan'', ''inf'', ''-nan'', ''-inf''}"
    using pm[of "?n - sign_bit f"] pm[of ?n] nfin rd Float_class
    by (auto simp: Read_text_def float_print_def split: if_splits)
  moreover have "parse_float ''nan'' = None" "parse_float ''inf'' = None"
    "parse_float ''-nan'' = None" "parse_float ''-inf'' = None" by code_simp+
  ultimately show ?thesis
    using Float_class by (auto simp: Write_text_def Write_float_def float_parse_def Let_def)
qed (use nf in \<open>simp_all add: scalar_finite_def\<close>)

lemma foldM_res_first_error:
  assumes "\<And>x. x \<in> set xs \<Longrightarrow> f x s = Inr s \<or> f x s = Inl e" and "\<exists>x \<in> set xs. f x s = Inl e"
  shows "foldM_res f xs s = Inl e"
  using assms
proof (induction xs)
  case (Cons x xs)
  show ?case
  proof (cases "f x s = Inl e")
    case False
    then have "f x s = Inr s" using Cons.prems(1)[of x] by simp
    moreover have "\<exists>y \<in> set xs. f y s = Inl e" using Cons.prems(2) False by auto
    ultimately show ?thesis using Cons.IH Cons.prems(1) by simp
  qed simp
qed simp

definition field_finite :: "bytes \<Rightarrow> type_field_info \<Rightarrow> bool" where
  "field_finite bs f \<longleftrightarrow> (\<forall>j < tf_array_count f.
     scalar_finite (tf_kind f) (sc.cell (tf_kind f) bs (element_offset f j)))"

lemma encode_decoded_field_iff:
  assumes "decode_field bs f = Inr x"
  shows "encode_field f x bs = (if field_finite bs f then Inr bs else fail (- ERANGE))"
proof (cases "field_finite bs f")
  case True
  then show ?thesis using encode_decoded_field[OF assms] by (simp add: field_finite_def)
next
  case False
  note D = decode_field_Inr[OF assms]
  have we: "write_element f x j bs =
      (if scalar_finite (tf_kind f) (sc.cell (tf_kind f) bs (element_offset f j)) then Inr bs else fail (- ERANGE))"
    if j: "j < tf_array_count f" for j
  proof -
    let ?o = "element_offset f j"
    obtain t where t: "ReadScalar (tf_kind f) bs ?o = Inr t"
      "(if tf_array_count f = 1 then Inr (fv_value x) else nth_res (fv_array_values x) j) = Inr t"
      using D(5,6) j by (cases "tf_array_count f = 1") auto
    have l: "sc.load (tf_kind f) bs ?o = Inr t" using ReadScalar_Inr[OF t(1)] ..
    have le: "?o + fk_width (tf_kind f) \<le> length bs" and r: "Read_text (tf_kind f) (sc.cell (tf_kind f) bs ?o) = Inr t"
      using l by (auto simp: sc.load_cell split: if_splits)
    have "sc.store (tf_kind f) t bs ?o = fail (- ERANGE)" if "\<not> scalar_finite (tf_kind f) (sc.cell (tf_kind f) bs ?o)"
      using Write_Read_text_nonfinite[OF sc.length_cell[OF le] r that] by (simp add: sc.store_def)
    with t show ?thesis using sc.store_load[OF l] by (simp add: write_element_def WriteScalar_store)
  qed
  have "foldM_res (write_element f x) [0..<tf_array_count f] bs = fail (- ERANGE)"
    unfolding fail_def
    by (rule foldM_res_first_error) (use False we in \<open>auto simp: field_finite_def fail_def split: if_splits\<close>)
  with False D show ?thesis by (cases "tf_array_count f = 1") (auto simp: encode_field_def)
qed

lemma encode_decoded_fields_iff:
  assumes c: "td_field_count d \<le> length (td_fields d)" and n: "names_ok d"
    and dec: "list_all2 (\<lambda>i x. decode_field bs (td_fields d ! i) = Inr x) [k..<td_field_count d] xs"
    and "k \<le> td_field_count d"
  shows "encode_fields d xs (replicate k True @ replicate (td_field_count d - k) False) bs =
    (if \<forall>i. k \<le> i \<and> i < td_field_count d \<longrightarrow> field_finite bs (td_fields d ! i) then Inr bs else fail (- ERANGE))"
  using dec assms(4)
proof (induction xs arbitrary: k rule: list.induct)
  case (Cons x xs)
  then have k: "k < td_field_count d" by (cases "k < td_field_count d") auto
  then have dx: "decode_field bs (td_fields d ! k) = Inr x"
    and rest: "list_all2 (\<lambda>i x. decode_field bs (td_fields d ! i) = Inr x) [Suc k..<td_field_count d] xs"
    using Cons.prems by (auto simp: upt_conv_Cons)
  have "find_field d (fv_name x) 0 = Inr k"
    using find_field_distinct[OF c n k] decode_field_Inr(3)[OF dx] by simp
  moreover note encode_decoded_field_iff[OF dx]
  moreover have "(replicate k True @ replicate (td_field_count d - k) False)[k := True]
      = replicate (Suc k) True @ replicate (td_field_count d - Suc k) False"
  proof -
    obtain m where "td_field_count d - k = Suc m" "td_field_count d - Suc k = m" using k by (metis Suc_diff_Suc)
    then show ?thesis by (simp add: list_update_append replicate_app_Cons_same)
  qed
  moreover have "(replicate k True @ replicate (td_field_count d - k) False) ! k = False"
    using k by (simp add: nth_append)
  moreover have "(\<forall>i. k \<le> i \<and> i < td_field_count d \<longrightarrow> field_finite bs (td_fields d ! i)) \<longleftrightarrow>
      field_finite bs (td_fields d ! k) \<and> (\<forall>i. Suc k \<le> i \<and> i < td_field_count d \<longrightarrow> field_finite bs (td_fields d ! i))"
    using k by (metis Suc_leD Suc_leI le_neq_implies_less order_refl)
  ultimately show ?case using Cons.IH[OF rest] k c by simp
qed auto

lemma payload_finite_iff:
  assumes "td_field_count d \<le> length (td_fields d)"
  shows "payload_finite d p \<longleftrightarrow> (\<forall>i. 0 \<le> i \<and> i < td_field_count d \<longrightarrow> field_finite (dp_bytes p) (td_fields d ! i))"
proof -
  have "set (listed d) = (\<lambda>i. td_fields d ! i) ` {i. i < td_field_count d}"
    using nth_image[OF assms] by (simp add: listed_def atLeast0LessThan lessThan_def)
  then show ?thesis by (auto simp: payload_finite_def field_finite_def sc_cell)
qed

lemma stored_decodes:
  assumes "stored f x bs" and "fk_known (tf_kind f)" and "fk_width (tf_kind f) \<le> tf_element_size f"
  shows "\<exists>y. decode_field bs f = Inr y" and "field_finite bs f"
proof -
  let ?k = "tf_kind f"
  have b: "field_end f \<le> length bs" using assms(1) by (simp add: stored_def Bounds_iff)
  have r: "(\<exists>t. ReadScalar ?k bs (element_offset f j) = Inr t)
      \<and> scalar_finite ?k (sc.cell ?k bs (element_offset f j))" if "j < tf_array_count f" for j
  proof -
    have "element_offset f j + fk_width ?k \<le> length bs"
      using element_inside(2)[OF that assms(3)] b by linarith
    then show ?thesis
      using sc.load_of_cell assms(1,2) that by (auto simp: stored_def sc_cell ReadScalar_load)
  qed
  then show "field_finite bs f" by (simp add: field_finite_def)
  obtain ts where "mapM_res (\<lambda>j. ReadScalar ?k bs (element_offset f j)) [0..<tf_array_count f] = Inr ts"
    using r mapM_res_ex[of "[0..<tf_array_count f]" "\<lambda>j. ReadScalar ?k bs (element_offset f j)"] by auto
  then show "\<exists>y. decode_field bs f = Inr y"
    using b assms(2) by (simp add: decode_field_def Bounds_iff Name_known)
qed

lemma encoded_decodes:
  assumes ok: "valid d" "descriptor_ok d" and len: "length (dp_bytes p) = td_payload_size d" "dp_type_id p = td_type_id d"
    and st: "\<forall>i < td_field_count d. \<exists>x. stored (td_fields d ! i) x (dp_bytes p)"
  shows "(\<exists>s. Decode valid d p = Inr s) \<and> payload_finite d p"
proof -
  have L: "layout_ok d" using ok(2) by (simp add: descriptor_ok_def)
  have f: "\<exists>y. decode_field (dp_bytes p) (td_fields d ! i) = Inr y" "field_finite (dp_bytes p) (td_fields d ! i)"
    if "i < td_field_count d" for i
    using st that stored_decodes layout_nth[OF L that] by blast+
  have "\<exists>xs. mapM_res (\<lambda>i. res_bind (nth_res (td_fields d) i) (decode_field (dp_bytes p))) [0..<td_field_count d]
      = Inr xs"
    using f layout_nth(1)[OF L] by (intro mapM_res_ex) simp
  then have "\<exists>s. Decode valid d p = Inr s" using ok(1) len by (auto simp: Decode_def)
  then show ?thesis using f(2) L payload_finite_iff[of d p] by (simp add: layout_ok_def)
qed

lemma Encode_Decode_result:
  assumes "Decode valid d p = Inr s" and "names_ok d"
  shows "Encode valid d s (Some p) = (if payload_finite d p then Inr p else fail (- ERANGE))"
proof -
  note D = Decode_Inr[OF assms(1)]
  have "encode_fields d (ds_fields s) (replicate (td_field_count d) False) (dp_bytes p)
      = (if payload_finite d p then Inr (dp_bytes p) else fail (- ERANGE))"
    using encode_decoded_fields_iff[OF D(7) assms(2) D(8)] payload_finite_iff[OF D(7), of p] by simp
  with D show ?thesis by (simp add: Encode_def Let_def list_all2_lengthD[OF D(8), symmetric])
qed

section \<open>Properties\<close>

text \<open>
  C25. Memory safety: over a descriptor whose listed fields exist, have a known kind and elements
  no smaller than the kind (what \<open>ValidateTypeDescriptor\<close> checks), no byte outside the payload
  and no element past the end of a vector is touched, for any payload, any edited snapshot and
  any seed, valid or not.
\<close>

theorem codec_memory_safe:
  assumes "valid d \<Longrightarrow> layout_ok d"
  shows "Decode valid d p \<noteq> Inl Undefined \<and> Encode valid d s seed \<noteq> Inl Undefined"
  using Decode_defined[OF assms] Encode_defined[OF assms] by blast

text \<open>
  C1. Round trip: encoding a decoded snapshot over the payload it came from gives that payload
  back, bit for bit, for every descriptor with distinct field names; the only payloads that do
  not come back are those with an infinity or a NaN, which \<open>Encode\<close> rejects with \<open>-ERANGE\<close>.
\<close>

theorem codec_round_trip:
  assumes "Decode valid d p = Inr s" and "names_ok d"
  shows "Encode valid d s (Some p) = (if payload_finite d p then Inr p else fail (- ERANGE))"
  by (rule Encode_Decode_result[OF assms])

text \<open>
  C19. What \<open>Encode\<close> stores: a payload of the descriptor's size and type in which every field of
  the descriptor holds, element by element, the bytes of the texts of an input field with its
  name and type name, and every byte outside the fields is the byte of the seed (zero without).
\<close>

theorem encode_stores_input:
  assumes "valid d \<Longrightarrow> descriptor_ok d" and "Encode valid d s seed = Inr p"
  shows "length (dp_bytes p) = td_payload_size d \<and> dp_type_id p = td_type_id d
    \<and> (\<forall>i < td_field_count d. \<exists>x \<in> set (ds_fields s). stored (td_fields d ! i) x (dp_bytes p))
    \<and> (\<forall>k < td_payload_size d. (\<forall>f \<in> set (listed d). k < tf_offset f \<or> field_end f \<le> k) \<longrightarrow>
         dp_bytes p ! k = seed_bytes d seed ! k)"
proof -
  note E = Encode_Inr[OF assms(2)]
  have ok: "descriptor_ok d" "layout_ok d" using assms(1) E(1) by (auto simp: descriptor_ok_def)
  have "length (dp_bytes p) = length (seed_bytes d seed) \<and>
      (\<forall>i < td_field_count d. \<exists>x \<in> {} \<union> set (ds_fields s). stored (td_fields d ! i) x (dp_bytes p))"
    by (rule encode_fields_spec[OF ok(1) E(5)]) (use E(3) in auto)
  then show ?thesis
    using E(2,4) encode_fields_frame[OF ok(2) _ E(5)] by simp
qed

text \<open>
  C34. What \<open>Encode\<close> accepts, \<open>Decode\<close> reads: the snapshot read back exists, and encoding it
  again over the payload changes nothing.
\<close>

theorem encode_then_decode:
  assumes "valid d \<Longrightarrow> descriptor_ok d" and "Encode valid d s seed = Inr p"
  shows "\<exists>s'. Decode valid d p = Inr s' \<and> Encode valid d s' (Some p) = Inr p"
proof -
  note E = Encode_Inr[OF assms(2)]
  have ok: "descriptor_ok d" "names_ok d" using assms(1) E(1) by (auto simp: descriptor_ok_def)
  have st: "length (dp_bytes p) = length (seed_bytes d seed) \<and>
      (\<forall>i < td_field_count d. \<exists>x \<in> {} \<union> set (ds_fields s). stored (td_fields d ! i) x (dp_bytes p))"
    by (rule encode_fields_spec[OF ok(1) E(5)]) (use E(3) in auto)
  then obtain s' where s': "Decode valid d p = Inr s'" and fin: "payload_finite d p"
    using encoded_decodes[of valid d p] E(1,2,4) ok(1) by fastforce
  have "Encode valid d s' (Some p) = Inr p" using Encode_Decode_result[OF s' ok(2)] fin by simp
  with s' show ?thesis by blast
qed

text \<open>
  What \<open>Encode\<close> accepts: the names of the input fields are exactly the names of the
  descriptor, each once and in any order; an unknown, repeated or missing field is refused.
\<close>

theorem encode_field_names:
  assumes "valid d \<Longrightarrow> descriptor_ok d" and "Encode valid d s seed = Inr p"
  shows "mset (map fv_name (ds_fields s)) = mset (map tf_name (listed d))"
proof -
  note E = Encode_Inr[OF assms(2)]
  have ok: "descriptor_ok d" "names_ok d" "layout_ok d" using assms(1) E(1) by (auto simp: descriptor_ok_def)
  have st: "length (dp_bytes p) = length (seed_bytes d seed) \<and>
      (\<forall>i < td_field_count d. \<exists>x \<in> {} \<union> set (ds_fields s). stored (td_fields d ! i) x (dp_bytes p))"
    by (rule encode_fields_spec[OF ok(1) E(5)]) (use E(3) in auto)
  have len: "length (listed d) = td_field_count d" using ok(3) by (simp add: layout_ok_def listed_def)
  have "\<exists>x \<in> set (ds_fields s). fv_name x = tf_name f" if f: "f \<in> set (listed d)" for f
    using f st len by (auto simp: in_set_conv_nth) (auto simp: listed_def stored_def)
  then have "set (map tf_name (listed d)) \<subseteq> set (map fv_name (ds_fields s))" by (auto simp: image_iff) metis
  then show ?thesis
    using ok(2) E(3) len by (intro mset_eq_of_distinct_subset) (auto simp: names_ok_def)
qed

section \<open>Witnesses\<close>

text \<open>A descriptor with padding, an array and every class of scalar, and a payload of it.\<close>

definition sample_descriptor :: type_descriptor where
  "sample_descriptor = \<lparr>td_type_id = 7, td_type_name = ''sample'', td_payload_size = 12, td_field_count = 4,
     td_fields = [\<lparr>tf_name = ''on'', tf_kind = FK_BOOL, tf_offset = 0, tf_element_size = 1, tf_array_count = 1\<rparr>,
       \<lparr>tf_name = ''n'', tf_kind = FK_INT16, tf_offset = 2, tf_element_size = 2, tf_array_count = 2\<rparr>,
       \<lparr>tf_name = ''u'', tf_kind = FK_UINT8, tf_offset = 6, tf_element_size = 1, tf_array_count = 1\<rparr>,
       \<lparr>tf_name = ''f'', tf_kind = FK_FLOAT32, tf_offset = 8, tf_element_size = 4, tf_array_count = 1\<rparr>]\<rparr>"

definition sample_payload :: dynamic_payload where
  "sample_payload = \<lparr>dp_type_id = 7, dp_bytes = [1, 170, 254, 255, 3, 0, 200, 85, 0, 0, 192, 63], dp_sequence = 9\<rparr>"

definition sample_snapshot :: data_snapshot where
  "sample_snapshot = \<lparr>ds_type_name = ''sample'', ds_sequence = 9, ds_timestamp_us = 0, ds_fields =
     [\<lparr>fv_name = ''on'', fv_type_name = ''bool'', fv_value = ''true'', fv_kind = BOOLEAN, fv_array_values = []\<rparr>,
      \<lparr>fv_name = ''n'', fv_type_name = ''int16'', fv_value = [], fv_kind = SIGNED_INTEGER, fv_array_values = [''-2'', ''3'']\<rparr>,
      \<lparr>fv_name = ''u'', fv_type_name = ''uint8'', fv_value = ''200'', fv_kind = UNSIGNED_INTEGER, fv_array_values = []\<rparr>,
      \<lparr>fv_name = ''f'', fv_type_name = ''float32'', fv_value = ''1.5'', fv_kind = FLOATING_POINT, fv_array_values = []\<rparr>],
     ds_type_id = 7\<rparr>"

lemma sample_ok: "descriptor_ok sample_descriptor" "layout_ok sample_descriptor" "names_ok sample_descriptor"
  by code_simp+

lemma sample_decodes: "Decode descriptor_ok sample_descriptor sample_payload = Inr sample_snapshot"
  by code_simp

lemma sample_finite: "payload_finite sample_descriptor sample_payload"
  by (simp add: payload_finite_def listed_def sample_descriptor_def sample_payload_def scalar_finite_def
      fk_class_def scalar_bytes_def finite_bits_def binary32_def inf_bits_def sign_bit_def fk_width_def
      element_offset_def)

lemma sample_encodes: "Encode descriptor_ok sample_descriptor sample_snapshot (Some sample_payload) = Inr sample_payload"
  using Encode_Decode_result[OF sample_decodes sample_ok(3)] sample_finite by simp

theorem codec_memory_safe_witness:
  "Decode descriptor_ok sample_descriptor sample_payload \<noteq> Inl Undefined
    \<and> Encode descriptor_ok sample_descriptor sample_snapshot None \<noteq> Inl Undefined"
  by (rule codec_memory_safe) (rule sample_ok)

theorem codec_round_trip_witness:
  "Encode descriptor_ok sample_descriptor sample_snapshot (Some sample_payload) = Inr sample_payload"
  using codec_round_trip[OF sample_decodes sample_ok(3)] sample_finite by simp

theorem encode_stores_input_witness: "length (dp_bytes sample_payload) = 12"
  using encode_stores_input[OF _ sample_encodes] by (simp add: sample_descriptor_def sample_ok)

theorem encode_then_decode_witness:
  "\<exists>s'. Decode descriptor_ok sample_descriptor sample_payload = Inr s'
    \<and> Encode descriptor_ok sample_descriptor s' (Some sample_payload) = Inr sample_payload"
  by (rule encode_then_decode[OF _ sample_encodes]) assumption

theorem encode_field_names_witness:
  "mset (map fv_name (ds_fields sample_snapshot)) = mset (map tf_name (listed sample_descriptor))"
  by (rule encode_field_names[OF _ sample_encodes]) assumption

end
