(* ===== verification/ToolBackend.thy ===== *)
theory ToolBackend
  imports ToolModel
begin

text \<open>
  \<open>include/kcf_tool/backend/tool_backend.hpp\<close>: the abstract backend the user interface calls,
  as a record of its virtual functions over a state \<open>'s\<close>, with the implementations the class
  itself gives and, from \<open>src/backend/kcf_backend_stub.cpp\<close>, the backend of a build without the
  framework. A callback argument is not used by any modelled implementation and is dropped.

  The locale \<open>parameter_store\<close> is what the parameter editor relies on: a candidate is stored
  exactly when it validates, a refused one changes nothing, and reading gives back what was
  stored. \<open>MockBackend\<close> interprets it.
\<close>

section \<open>The virtual functions\<close>

record 's tool_backend =
  tb_ConfigureLocalGateway :: "'s \<Rightarrow> string \<Rightarrow> bool \<Rightarrow> unit result \<times> 's"
  tb_GetLocalGatewaySnapshot :: "'s \<Rightarrow> local_gateway_snapshot"
  tb_ConfigureNetwork :: "'s \<Rightarrow> network_options \<Rightarrow> bool \<Rightarrow> unit result \<times> 's"
  tb_GetNetworkOptions :: "'s \<Rightarrow> network_options"
  tb_SubmitRemote :: "'s \<Rightarrow> remote_command \<Rightarrow> remote_reply \<times> 's"
  tb_GetNetworkSnapshot :: "'s \<Rightarrow> network_snapshot"
  tb_GetConnectionState :: "'s \<Rightarrow> backend_connection_state"
  tb_GetApplicationInfo :: "'s \<Rightarrow> application_info"
  tb_GetElements :: "'s \<Rightarrow> element_info list"
  tb_GetTopics :: "'s \<Rightarrow> topic_info list"
  tb_GetParameters :: "'s \<Rightarrow> parameter_info list"
  tb_GetTopicInfo :: "'s \<Rightarrow> string \<Rightarrow> topic_info result"
  tb_ReadTopicLatest_name :: "'s \<Rightarrow> string \<Rightarrow> data_snapshot result \<times> 's"
  tb_StartTopicMonitor :: "'s \<Rightarrow> string \<Rightarrow> unit result"
  tb_StopTopicMonitor :: "'s \<Rightarrow> string \<Rightarrow> unit result"
  tb_GetParameter_name :: "'s \<Rightarrow> string \<Rightarrow> parameter_info result"
  tb_SetParameter_name :: "'s \<Rightarrow> string \<Rightarrow> string \<Rightarrow> unit result \<times> 's"
  tb_Refresh :: "'s \<Rightarrow> unit result \<times> 's"
  tb_GetApplications :: "'s \<Rightarrow> application_info list"
  tb_StartTopicEcho :: "'s \<Rightarrow> endpoint_identity \<Rightarrow> unit result \<times> 's"
  tb_ReadTopicEcho :: "'s \<Rightarrow> data_snapshot result \<times> 's"
  tb_StopTopicEcho :: "'s \<Rightarrow> 's"
  tb_PrepareTopicRead :: "'s \<Rightarrow> endpoint_identity \<Rightarrow> unit result \<times> 's"
  tb_CloseTopicRead :: "'s \<Rightarrow> 's"
  tb_ReadTopicLatest_id :: "'s \<Rightarrow> endpoint_identity \<Rightarrow> data_snapshot result \<times> 's"
  tb_GetParameter_id :: "'s \<Rightarrow> endpoint_identity \<Rightarrow> data_snapshot result"
  tb_ValidateParameter :: "'s \<Rightarrow> endpoint_identity \<Rightarrow> data_snapshot \<Rightarrow> unit result"
  tb_SetParameter_id :: "'s \<Rightarrow> endpoint_identity \<Rightarrow> data_snapshot \<Rightarrow> unit result \<times> 's"
  tb_GetTypeTemplate :: "'s \<Rightarrow> runtime_identity \<Rightarrow> u64 \<Rightarrow> data_snapshot result"
  tb_QueryServices :: "'s \<Rightarrow> service_info list"
  tb_ValidateService :: "'s \<Rightarrow> endpoint_identity \<Rightarrow> data_snapshot \<Rightarrow> unit result"
  tb_CallService :: "'s \<Rightarrow> endpoint_identity \<Rightarrow> data_snapshot \<Rightarrow> u32 \<Rightarrow> u32 \<Rightarrow> data_snapshot result \<times> 's"

text \<open>
  A derived class: its overrides replace the defaults in \<open>tool_defaults\<close>, which are given the
  pure virtual \<open>GetApplicationInfo\<close> that \<open>GetApplications\<close> calls. The pure virtual functions are
  stood for by their failing values and every derived class replaces them.
\<close>

definition tool_defaults :: "('s \<Rightarrow> application_info) \<Rightarrow> 's tool_backend" where
  "tool_defaults GetApplicationInfo = \<lparr>
     tb_ConfigureLocalGateway = \<lambda>s path enabled. (fail (- ENOTSUP), s),
     tb_GetLocalGatewaySnapshot = \<lambda>s. local_gateway_snapshot0,
     tb_ConfigureNetwork = \<lambda>s options enabled. (fail (- ENOTSUP), s),
     tb_GetNetworkOptions = \<lambda>s. network_options0,
     tb_SubmitRemote = \<lambda>s command. (RemoteUnavailable (- ENOTSUP), s),
     tb_GetNetworkSnapshot = \<lambda>s. network_snapshot0,
     tb_GetConnectionState = \<lambda>s. DISCONNECTED,
     tb_GetApplicationInfo = GetApplicationInfo,
     tb_GetElements = \<lambda>s. [],
     tb_GetTopics = \<lambda>s. [],
     tb_GetParameters = \<lambda>s. [],
     tb_GetTopicInfo = \<lambda>s name. fail (- ENOTSUP),
     tb_ReadTopicLatest_name = \<lambda>s name. (fail (- ENOTSUP), s),
     tb_StartTopicMonitor = \<lambda>s name. fail (- ENOTSUP),
     tb_StopTopicMonitor = \<lambda>s name. fail (- ENOTSUP),
     tb_GetParameter_name = \<lambda>s name. fail (- ENOTSUP),
     tb_SetParameter_name = \<lambda>s name value. (fail (- ENOTSUP), s),
     tb_Refresh = \<lambda>s. (fail (- ENOTSUP), s),
     tb_GetApplications = \<lambda>s. [GetApplicationInfo s],
     tb_StartTopicEcho = \<lambda>s ident. (fail (- ENOTSUP), s),
     tb_ReadTopicEcho = \<lambda>s. (fail (- ENOTSUP), s),
     tb_StopTopicEcho = \<lambda>s. s,
     tb_PrepareTopicRead = \<lambda>s ident. (fail (- ENOTSUP), s),
     tb_CloseTopicRead = \<lambda>s. s,
     tb_ReadTopicLatest_id = \<lambda>s ident. (fail (- ENOTSUP), s),
     tb_GetParameter_id = \<lambda>s ident. fail (- ENOTSUP),
     tb_ValidateParameter = \<lambda>s ident value. fail (- ENOTSUP),
     tb_SetParameter_id = \<lambda>s ident value. (fail (- ENOTSUP), s),
     tb_GetTypeTemplate = \<lambda>s runtime type. fail (- ENOTSUP),
     tb_QueryServices = \<lambda>s. [],
     tb_ValidateService = \<lambda>s ident request. fail (- ENOTSUP),
     tb_CallService = \<lambda>s ident request timeout retries. (fail (- ENOTSUP), s)\<rparr>"

text \<open>
  The stub overrides every function; it has no state. Only \<open>GetApplicationInfo\<close> and
  \<open>GetApplications\<close> differ from the values above.
\<close>

definition stub_application :: application_info where
  "stub_application = application_info0\<lparr>ai_state := ''DISCONNECTED''\<rparr>"

definition stub_backend :: "unit tool_backend" where
  "stub_backend = (tool_defaults (\<lambda>s. stub_application))\<lparr>tb_GetApplications := \<lambda>s. []\<rparr>"

section \<open>The return codes\<close>

text \<open>
  "int operations return 0 or negative errno": no operation of the backend returns a positive
  code or runs into undefined behaviour.
\<close>

definition code_ok :: "'a result \<Rightarrow> bool" where
  "code_ok r \<longleftrightarrow> (case r of Inr _ \<Rightarrow> True | Inl (Errno c) \<Rightarrow> c < 0 | Inl Undefined \<Rightarrow> False)"

named_theorems code_ok_intros \<open>rules that establish \<open>code_ok\<close>\<close>

lemma code_ok_simps [simp]:
  "code_ok (Inr x)" "code_ok (fail c) \<longleftrightarrow> c < 0" "code_ok (Inl (Errno c)) \<longleftrightarrow> c < 0" "\<not> code_ok (Inl Undefined)"
  by (simp_all add: code_ok_def fail_def)

lemma code_ok_bind [code_ok_intros]:
  "code_ok m \<Longrightarrow> (\<And>x. m = Inr x \<Longrightarrow> code_ok (f x)) \<Longrightarrow> code_ok (res_bind m f)"
  by (cases m) (simp_all add: code_ok_def)

definition backend_codes_ok :: "'s tool_backend \<Rightarrow> 's \<Rightarrow> bool" where
  "backend_codes_ok b s \<longleftrightarrow>
     (\<forall>path e. code_ok (fst (tb_ConfigureLocalGateway b s path e)))
   \<and> (\<forall>opts e. code_ok (fst (tb_ConfigureNetwork b s opts e)))
   \<and> (\<forall>c. rp_error (fst (tb_SubmitRemote b s c)) \<le> 0)
   \<and> (\<forall>name. code_ok (tb_GetTopicInfo b s name))
   \<and> (\<forall>name. code_ok (fst (tb_ReadTopicLatest_name b s name)))
   \<and> (\<forall>name. code_ok (tb_StartTopicMonitor b s name))
   \<and> (\<forall>name. code_ok (tb_StopTopicMonitor b s name))
   \<and> (\<forall>name. code_ok (tb_GetParameter_name b s name))
   \<and> (\<forall>name v. code_ok (fst (tb_SetParameter_name b s name v)))
   \<and> code_ok (fst (tb_Refresh b s))
   \<and> (\<forall>i. code_ok (fst (tb_StartTopicEcho b s i)))
   \<and> code_ok (fst (tb_ReadTopicEcho b s))
   \<and> (\<forall>i. code_ok (fst (tb_PrepareTopicRead b s i)))
   \<and> (\<forall>i. code_ok (fst (tb_ReadTopicLatest_id b s i)))
   \<and> (\<forall>i. code_ok (tb_GetParameter_id b s i))
   \<and> (\<forall>i v. code_ok (tb_ValidateParameter b s i v))
   \<and> (\<forall>i v. code_ok (fst (tb_SetParameter_id b s i v)))
   \<and> (\<forall>r t. code_ok (tb_GetTypeTemplate b s r t))
   \<and> (\<forall>i r. code_ok (tb_ValidateService b s i r))
   \<and> (\<forall>i r t n. code_ok (fst (tb_CallService b s i r t n)))"

lemma stub_codes: "backend_codes_ok stub_backend s"
  by (simp add: backend_codes_ok_def stub_backend_def tool_defaults_def RemoteUnavailable_def)

section \<open>The parameter contract\<close>

locale parameter_store =
  fixes get :: "'s \<Rightarrow> 'i \<Rightarrow> 'v result"
    and validate :: "'s \<Rightarrow> 'i \<Rightarrow> 'v \<Rightarrow> unit result"
    and put :: "'s \<Rightarrow> 'i \<Rightarrow> 'v \<Rightarrow> unit result \<times> 's"
    and content :: "'v \<Rightarrow> string"
  assumes put_code: "fst (put s i v) = validate s i v"
    and put_refused: "validate s i v = Inl e \<Longrightarrow> snd (put s i v) = s"
    and get_put: "validate s i v = Inr () \<Longrightarrow> \<exists>w. get (snd (put s i v)) i = Inr w \<and> content w = content v"
    and get_put_other: "j \<noteq> i \<Longrightarrow> get (snd (put s i v)) j = get s j"
    and validate_put: "validate (snd (put s i v)) j w = validate s j w"
begin

text \<open>A history of writes, each one accepted or refused.\<close>

definition put_all :: "('i \<times> 'v) list \<Rightarrow> 's \<Rightarrow> 's" where
  "put_all = fold (\<lambda>(i, v) s. snd (put s i v))"

lemma put_all_simps [simp]:
  "put_all [] s = s" "put_all ((i, v) # ops) s = put_all ops (snd (put s i v))"
  by (simp_all add: put_all_def)

lemma put_all_append: "put_all (ops @ ops') s = put_all ops' (put_all ops s)"
  by (simp add: put_all_def)

lemma validate_put_all: "validate (put_all ops s) j w = validate s j w"
  by (induction ops arbitrary: s) (auto simp: validate_put)

text \<open>The last write of \<open>ops\<close> to \<open>j\<close> that validates.\<close>

definition last_accepted :: "'s \<Rightarrow> ('i \<times> 'v) list \<Rightarrow> 'i \<Rightarrow> 'v option" where
  "last_accepted s ops j =
     map_option snd (List.find (\<lambda>(i, v). i = j \<and> validate s i v = Inr ()) (rev ops))"

lemma last_accepted_snoc:
  "last_accepted s (ops @ [(i, v)]) j =
    (if i = j \<and> validate s i v = Inr () then Some v else last_accepted s ops j)"
  by (auto simp: last_accepted_def)

lemma get_put_all:
  "case last_accepted s ops j of
     Some v \<Rightarrow> \<exists>w. get (put_all ops s) j = Inr w \<and> content w = content v
   | None \<Rightarrow> get (put_all ops s) j = get s j"
proof (induction ops rule: rev_induct)
  case Nil
  then show ?case by (simp add: last_accepted_def)
next
  case (snoc op ops)
  obtain i v where op: "op = (i, v)" by (cases op)
  let ?t = "put_all ops s"
  have t: "put_all (ops @ [op]) s = snd (put ?t i v)" by (simp add: op put_all_append)
  show ?case
  proof (cases "i = j \<and> validate s i v = Inr ()")
    case True
    then have i: "i = j" and v: "validate s i v = Inr ()" by auto
    then have "last_accepted s (ops @ [op]) j = Some v" by (simp add: op last_accepted_snoc)
    moreover have "validate ?t i v = Inr ()" using v by (simp add: validate_put_all)
    then have "\<exists>w. get (snd (put ?t i v)) i = Inr w \<and> content w = content v" by (rule get_put)
    ultimately show ?thesis using i by (simp add: t)
  next
    case False
    then have "get (snd (put ?t i v)) j = get ?t j"
      using get_put_other[of j i ?t v] put_refused[of ?t i v]
      by (cases "validate s i v") (auto simp: validate_put_all)
    moreover have "last_accepted s (ops @ [op]) j = last_accepted s ops j"
      using False by (auto simp: op last_accepted_snoc)
    ultimately show ?thesis using snoc by (simp only: t)
  qed
qed

end

end
