(* ===== verification/MockBackend.thy ===== *)
theory MockBackend
  imports ToolBackend
begin

text \<open>
  \<open>src/backend/mock_backend.cpp\<close>: the in-memory backend the tool runs with when no framework is
  present. The state is the five data members of the class; an operation that changes it
  returns the new state, and the overloads by name and by identity carry a suffix.

  The interpretation of \<open>parameter_store\<close> at the end of the parameter section is the contract
  of \<open>ToolBackend\<close> for parameters: a candidate is stored exactly when it validates, and reading
  gives back what was stored.
\<close>

section \<open>State\<close>

record mock_state =
  mb_echo_active :: bool
  mb_echo_identity :: endpoint_identity
  mb_elements :: "element_info list"
  mb_topics :: "topic_info list"
  mb_parameters :: "parameter_info list"

definition mock_element :: "string \<Rightarrow> int \<Rightarrow> string \<Rightarrow> element_info" where
  "mock_element name pid executable = \<lparr>el_name = name, el_pid = pid, el_executable = executable,
     el_mode = ''SUPERVISED'', el_state = ''RUNNING'', el_heartbeat = 0, el_runtime_error = 0,
     el_identity = runtime_identity0, el_supervisor = runtime_identity0, el_application_name = [],
     el_heartbeat_available = False\<rparr>"

definition mock_topic :: "string \<Rightarrow> string \<Rightarrow> nat \<Rightarrow> string list \<Rightarrow> string list \<Rightarrow> double \<Rightarrow> u64 \<Rightarrow> topic_info" where
  "mock_topic name type_name sz pubs subs hz sequence = \<lparr>ti_name = name, ti_type_name = type_name,
     ti_payload_size = sz, ti_publishers = pubs, ti_subscribers = subs, ti_frequency_hz = hz,
     ti_sequence = sequence, ti_identity = endpoint_identity0, ti_role = [], ti_type_id = 0,
     ti_diagnostic_type_name = [], ti_frequency_available = False, ti_sequence_available = False\<rparr>"

definition mock_parameter :: "string \<Rightarrow> string \<Rightarrow> string \<Rightarrow> bool \<Rightarrow> parameter_info" where
  "mock_parameter name type_name value writable = \<lparr>pi_name = name, pi_type_name = type_name,
     pi_value = value, pi_writable = writable, pi_identity = endpoint_identity0, pi_role = [],
     pi_payload_size = 0, pi_type_id = 0, pi_diagnostic_type_name = [], pi_snapshot = data_snapshot0,
     pi_text_editable = True\<rparr>"

definition Mock_GetApplicationInfo :: application_info where
  "Mock_GetApplicationInfo = \<lparr>ai_name = ''mecanum'', ai_state = ''RUNNING'',
     ai_supervisor = \<lparr>ri_pid = 12000, ri_process_start_ticks = 1\<rparr>, ai_revision = 1,
     ai_managed_element_count = 3\<rparr>"

text \<open>The constructor: the member initialisers, then its three loops.\<close>

definition mock_elements0 :: "element_info list" where
  "mock_elements0 =
     map (\<lambda>e. e\<lparr>el_identity := \<lparr>ri_pid = el_pid e, ri_process_start_ticks = 1\<rparr>,
                el_supervisor := \<lparr>ri_pid = 12000, ri_process_start_ticks = 1\<rparr>,
                el_application_name := ai_name Mock_GetApplicationInfo, el_heartbeat_available := True\<rparr>)
       [mock_element ''motor'' 12001 ''kcf_mecanum_motor'',
        mock_element ''imu'' 12002 ''kcf_mecanum_imu'',
        mock_element ''lidar'' 12003 ''kcf_mecanum_lidar'']"

definition mock_topics0 :: "topic_info list" where
  "mock_topics0 =
     map (\<lambda>(i, t). t\<lparr>ti_identity := mk_endpoint (12001 + int i) 1 (word_of_nat (i + 1)),
                     ti_role := ''PUBLISHER'', ti_type_id := 0x4d4f434b0000 + word_of_nat i + 1,
                     ti_frequency_available := True, ti_sequence_available := True\<rparr>)
       (enumerate 0
         [mock_topic ''/kcf_mecanum_motor_command'' ''mecanum::VelocityCommand'' 24 [''navigation''] [''motor'']
            50 1000,
          mock_topic ''/kcf_mecanum_motor_odometry'' ''mecanum::OdometryData'' 64 [''motor''] [''localization'']
            (rnd64 (667 / 10)) 10452,
          mock_topic ''/kcf_mecanum_imu'' ''mecanum::ImuData'' 48 [''imu''] [] 100 2000])"

definition mock_parameters0 :: "parameter_info list" where
  "mock_parameters0 =
     map (\<lambda>(i, p). p\<lparr>pi_identity := mk_endpoint 12001 1 (100 + word_of_nat i), pi_role := ''OWNER'',
                     pi_diagnostic_type_name := pi_type_name p,
                     pi_type_id := (if i < 2 then 0x4d4f434b1000 + word_of_nat i + 1 else 0),
                     pi_payload_size := (if i = 0 then 8 else if i = 1 then 4 else 0)\<rparr>)
       (enumerate 0
         [mock_parameter ''/mecanum/motor/wheel_radius_mm'' ''double'' ''41.0'' True,
          mock_parameter ''/mecanum/motor/odom_period_ms'' ''uint32'' ''15'' True,
          mock_parameter ''/mecanum/motor/serial_port'' ''string'' ''/dev/ttyUSB1'' False])"

definition mock_init :: mock_state where
  "mock_init = \<lparr>mb_echo_active = False, mb_echo_identity = endpoint_identity0, mb_elements = mock_elements0,
     mb_topics = mock_topics0, mb_parameters = mock_parameters0\<rparr>"

section \<open>Listing\<close>

definition Mock_GetConnectionState :: "mock_state \<Rightarrow> backend_connection_state" where
  "Mock_GetConnectionState s = CONNECTED"

definition Mock_GetElements :: "mock_state \<Rightarrow> element_info list" where
  "Mock_GetElements s = mb_elements s"

definition Mock_GetTopics :: "mock_state \<Rightarrow> topic_info list" where
  "Mock_GetTopics s = mb_topics s"

definition Mock_GetParameters :: "mock_state \<Rightarrow> parameter_info list" where
  "Mock_GetParameters s = mb_parameters s"

definition Mock_GetTopicInfo :: "mock_state \<Rightarrow> string \<Rightarrow> topic_info result" where
  "Mock_GetTopicInfo s name =
     (case List.find (\<lambda>t. ti_name t = name) (mb_topics s) of Some t \<Rightarrow> Inr t | None \<Rightarrow> fail (- ENOENT))"

definition Mock_GetParameter_name :: "mock_state \<Rightarrow> string \<Rightarrow> parameter_info result" where
  "Mock_GetParameter_name s name =
     (case List.find (\<lambda>p. pi_name p = name) (mb_parameters s) of Some p \<Rightarrow> Inr p | None \<Rightarrow> fail (- ENOENT))"

definition Mock_StartTopicMonitor :: "mock_state \<Rightarrow> string \<Rightarrow> unit result" where
  "Mock_StartTopicMonitor s name = fail (- ENOTSUP)"

definition Mock_StopTopicMonitor :: "mock_state \<Rightarrow> string \<Rightarrow> unit result" where
  "Mock_StopTopicMonitor s name = fail (- ENOTSUP)"

section \<open>Topics and the echo session\<close>

text \<open>The sample of a topic whose sequence has just been incremented.\<close>

definition mock_sample :: "topic_info \<Rightarrow> data_snapshot" where
  "mock_sample t = data_snapshot0\<lparr>ds_type_id := ti_type_id t, ds_type_name := ti_type_name t,
     ds_sequence := ti_sequence t,
     ds_fields :=
       [\<lparr>fv_name = ''sequence'', fv_type_name = ''uint64'', fv_value = to_string_u64 (ti_sequence t),
         fv_kind = UNSIGNED_INTEGER, fv_array_values = []\<rparr>,
        \<lparr>fv_name = ''x'', fv_type_name = ''float32'',
         fv_value = to_string_u64 (ei_registration_id (ti_identity t)) @ ''.25'',
         fv_kind = FLOATING_POINT, fv_array_values = []\<rparr>,
        \<lparr>fv_name = ''values'', fv_type_name = ''float32'', fv_value = [], fv_kind = FLOATING_POINT,
         fv_array_values = [''2'', ''4'', ''6'', ''8'']\<rparr>]\<rparr>"

definition bump_sequence :: "topic_info \<Rightarrow> topic_info" where
  "bump_sequence t = t\<lparr>ti_sequence := ti_sequence t + 1\<rparr>"

definition Mock_ReadTopicLatest_id :: "mock_state \<Rightarrow> endpoint_identity \<Rightarrow> data_snapshot result \<times> mock_state" where
  "Mock_ReadTopicLatest_id s ident =
     (case List.find (\<lambda>t. endpoint_identity_eq (ti_identity t) ident) (mb_topics s) of
        Some t \<Rightarrow> (Inr (mock_sample (bump_sequence t)),
          s\<lparr>mb_topics := update_first (\<lambda>t. endpoint_identity_eq (ti_identity t) ident) bump_sequence (mb_topics s)\<rparr>)
      | None \<Rightarrow> (fail (- ENOENT), s))"

definition Mock_ReadTopicLatest_name :: "mock_state \<Rightarrow> string \<Rightarrow> data_snapshot result \<times> mock_state" where
  "Mock_ReadTopicLatest_name s name =
     (case List.find (\<lambda>t. ti_name t = name) (mb_topics s) of
        Some t \<Rightarrow> Mock_ReadTopicLatest_id s (ti_identity t)
      | None \<Rightarrow> (fail (- ENOENT), s))"

definition Mock_StopTopicEcho :: "mock_state \<Rightarrow> mock_state" where
  "Mock_StopTopicEcho s = s\<lparr>mb_echo_active := False, mb_echo_identity := endpoint_identity0\<rparr>"

definition Mock_StartTopicEcho :: "mock_state \<Rightarrow> endpoint_identity \<Rightarrow> unit result \<times> mock_state" where
  "Mock_StartTopicEcho s ident =
     (let s = Mock_StopTopicEcho s
      in if \<exists>t \<in> set (mb_topics s). endpoint_identity_eq (ti_identity t) ident
         then (Inr (), s\<lparr>mb_echo_identity := ident, mb_echo_active := True\<rparr>)
         else (fail (- ENOENT), s))"

definition Mock_ReadTopicEcho :: "mock_state \<Rightarrow> data_snapshot result \<times> mock_state" where
  "Mock_ReadTopicEcho s =
     (if \<not> mb_echo_active s then (fail (- EBADF), s) else Mock_ReadTopicLatest_id s (mb_echo_identity s))"

definition Mock_PrepareTopicRead :: "mock_state \<Rightarrow> endpoint_identity \<Rightarrow> unit result \<times> mock_state" where
  "Mock_PrepareTopicRead s ident = Mock_StartTopicEcho s ident"

definition Mock_CloseTopicRead :: "mock_state \<Rightarrow> mock_state" where
  "Mock_CloseTopicRead s = Mock_StopTopicEcho s"

definition Mock_Refresh :: "mock_state \<Rightarrow> unit result \<times> mock_state" where
  "Mock_Refresh s =
     (let s = Mock_StopTopicEcho s
      in (Inr (), s\<lparr>mb_elements := map (\<lambda>e. if el_state e = ''RUNNING'' then e\<lparr>el_heartbeat := el_heartbeat e + 1\<rparr> else e)
            (mb_elements s)\<rparr>))"

section \<open>Parameters\<close>

definition mock_find_parameter :: "mock_state \<Rightarrow> endpoint_identity \<Rightarrow> parameter_info option" where
  "mock_find_parameter s ident = List.find (\<lambda>p. endpoint_identity_eq (pi_identity p) ident) (mb_parameters s)"

definition Mock_GetParameter_id :: "mock_state \<Rightarrow> endpoint_identity \<Rightarrow> data_snapshot result" where
  "Mock_GetParameter_id s ident =
     (case mock_find_parameter s ident of
        None \<Rightarrow> fail (- ENOENT)
      | Some p \<Rightarrow>
          if pi_type_id p = 0 then fail (- ENOTSUP)
          else Inr (data_snapshot0\<lparr>ds_type_id := pi_type_id p, ds_type_name := pi_type_name p,
            ds_fields := [\<lparr>fv_name = ''value'',
              fv_type_name = (if pi_type_name p = ''double'' then ''float64'' else ''uint32''),
              fv_value = pi_value p,
              fv_kind = (if pi_type_name p = ''double'' then FLOATING_POINT else UNSIGNED_INTEGER),
              fv_array_values = []\<rparr>]\<rparr>))"

text \<open>The two text checks at the end of \<open>ValidateParameter\<close>.\<close>

definition mock_check_uint32 :: "string \<Rightarrow> unit result" where
  "mock_check_uint32 t =
     (case from_chars_u64 t of (ec, n, rest) \<Rightarrow>
        if ec = Result_out_of_range \<or> 2 ^ 32 - 1 < n then fail (- ERANGE)
        else if ec \<noteq> Ok_errc \<or> rest \<noteq> [] then fail (- EINVAL)
        else Inr ())"

definition mock_check_double :: "string \<Rightarrow> unit result" where
  "mock_check_double t = (case float_parse binary64 t of None \<Rightarrow> fail (- EINVAL) | Some n \<Rightarrow> Inr ())"

definition Mock_ValidateParameter :: "mock_state \<Rightarrow> endpoint_identity \<Rightarrow> data_snapshot \<Rightarrow> unit result" where
  "Mock_ValidateParameter s ident value =
     (case mock_find_parameter s ident of
        None \<Rightarrow> fail (- ENOENT)
      | Some p \<Rightarrow>
          if \<not> pi_writable p then fail (- EPERM)
          else if pi_type_id p = 0 then fail (- ENOTSUP)
          else res_bind (Mock_GetParameter_id s ident) (\<lambda>schema.
            if ds_type_id value \<noteq> ds_type_id schema \<or> ds_type_name value \<noteq> ds_type_name schema
            then fail (- EPROTOTYPE)
            else if length (ds_fields value) \<noteq> 1 then fail (- EINVAL)
            else res_bind (nth_res (ds_fields value) 0) (\<lambda>f.
                 res_bind (nth_res (ds_fields schema) 0) (\<lambda>expected.
                   if fv_name f \<noteq> fv_name expected then fail (- EINVAL)
                   else if fv_type_name f \<noteq> fv_type_name expected \<or> fv_kind f \<noteq> fv_kind expected
                   then fail (- EPROTOTYPE)
                   else if fv_array_values f \<noteq> [] then fail (- EMSGSIZE)
                   else if fv_type_name f = ''uint32'' then mock_check_uint32 (fv_value f)
                   else mock_check_double (fv_value f)))))"

definition Mock_SetParameter_id :: "mock_state \<Rightarrow> endpoint_identity \<Rightarrow> data_snapshot \<Rightarrow> unit result \<times> mock_state" where
  "Mock_SetParameter_id s ident value =
     (case Mock_ValidateParameter s ident value of
        Inl e \<Rightarrow> (Inl e, s)
      | Inr _ \<Rightarrow>
          (case mock_find_parameter s ident of
             None \<Rightarrow> (fail (- ENOENT), s)
           | Some p \<Rightarrow>
               (case nth_res (ds_fields value) 0 of
                  Inl e \<Rightarrow> (Inl e, s)
                | Inr f \<Rightarrow> (Inr (), s\<lparr>mb_parameters := update_first
                    (\<lambda>p. endpoint_identity_eq (pi_identity p) ident) (pi_value_update (\<lambda>_. fv_value f))
                    (mb_parameters s)\<rparr>))))"

definition Mock_SetParameter_name :: "mock_state \<Rightarrow> string \<Rightarrow> string \<Rightarrow> unit result \<times> mock_state" where
  "Mock_SetParameter_name s name value =
     (case List.find (\<lambda>p. pi_name p = name) (mb_parameters s) of
        None \<Rightarrow> (fail (- ENOENT), s)
      | Some p \<Rightarrow>
          if \<not> pi_writable p then (fail (- EPERM), s)
          else (Inr (), s\<lparr>mb_parameters :=
            update_first (\<lambda>p. pi_name p = name) (pi_value_update (\<lambda>_. value)) (mb_parameters s)\<rparr>))"

section \<open>Services\<close>

definition Mock_QueryServices :: "service_info list" where
  "Mock_QueryServices =
     map (\<lambda>i. \<lparr>si_identity = mk_endpoint 12001 1 (900 + word_of_nat i),
                si_name = (if i \<noteq> 0 then ''/mock/subtract'' else ''/mock/add''), si_port = 0,
                si_service_id = word_of_nat (i + 1), si_request_size = 8, si_response_size = 4,
                si_request_type_id = 0x6d0101, si_response_type_id = 0x6d0102,
                si_diagnostic_request_type_name = ''mock.AddRequest'',
                si_diagnostic_response_type_name = ''mock.AddResponse''\<rparr>) [0..<2]"

definition int32_field :: "string \<Rightarrow> field_value" where
  "int32_field name = \<lparr>fv_name = name, fv_type_name = ''int32'', fv_value = ''0'', fv_kind = SIGNED_INTEGER,
     fv_array_values = []\<rparr>"

definition Mock_GetTypeTemplate :: "runtime_identity \<Rightarrow> u64 \<Rightarrow> data_snapshot result" where
  "Mock_GetTypeTemplate ident type =
     (if \<not> runtime_identity_eq ident \<lparr>ri_pid = 12001, ri_process_start_ticks = 1\<rparr> then fail (- ENOENT)
      else if type = 0x6d0101
        then Inr (data_snapshot0\<lparr>ds_type_id := type, ds_type_name := ''mock.AddRequest'',
               ds_fields := [int32_field ''a'', int32_field ''b'']\<rparr>)
      else if type = 0x6d0102
        then Inr (data_snapshot0\<lparr>ds_type_id := type, ds_type_name := ''mock.AddResponse'',
               ds_fields := [int32_field ''result'']\<rparr>)
      else fail (- ENOENT))"

text \<open>The loop over the request fields, with the two flags \<open>used\<close>.\<close>

primrec validate_request_fields :: "field_value list \<Rightarrow> bool \<times> bool \<Rightarrow> unit result" where
  "validate_request_fields [] used = Inr ()"
| "validate_request_fields (f # fs) used =
     (if \<not> (fv_name f = ''a'' \<or> fv_name f = ''b'') \<or> (if fv_name f = ''a'' then fst used else snd used)
      then fail (- EINVAL)
      else if fv_kind f \<noteq> SIGNED_INTEGER \<or> fv_type_name f \<noteq> ''int32'' then fail (- EPROTOTYPE)
      else if fv_array_values f \<noteq> [] then fail (- EMSGSIZE)
      else case from_chars_i64 (fv_value f) of (ec, n, rest) \<Rightarrow>
        if ec = Result_out_of_range \<or> n < - (2 ^ 31) \<or> 2 ^ 31 - 1 < n then fail (- ERANGE)
        else if ec \<noteq> Ok_errc \<or> rest \<noteq> [] then fail (- EINVAL)
        else validate_request_fields fs
               (if fv_name f = ''a'' then (True, snd used) else (fst used, True)))"

definition Mock_ValidateService :: "endpoint_identity \<Rightarrow> data_snapshot \<Rightarrow> unit result" where
  "Mock_ValidateService ident request =
     (if \<not> (\<exists>s \<in> set Mock_QueryServices. endpoint_identity_eq (si_identity s) ident) then fail (- ENOENT)
      else if ds_type_id request \<noteq> 0x6d0101 \<or> ds_type_name request \<noteq> ''mock.AddRequest'' then fail (- EPROTOTYPE)
      else if length (ds_fields request) \<noteq> 2 then fail (- EINVAL)
      else validate_request_fields (ds_fields request) (False, False))"

definition read_operand :: "field_value \<Rightarrow> int \<times> int \<Rightarrow> int \<times> int" where
  "read_operand f ab =
     (case from_chars_i64 (fv_value f) of (ec, n, rest) \<Rightarrow>
        if ec \<noteq> Ok_errc then ab else if fv_name f = ''a'' then (n, snd ab) else (fst ab, n))"

definition Mock_CallService :: "endpoint_identity \<Rightarrow> data_snapshot \<Rightarrow> data_snapshot result" where
  "Mock_CallService ident request =
     res_bind (Mock_ValidateService ident request) (\<lambda>_.
       let ab = fold read_operand (ds_fields request) (0, 0);
           total = (if ei_registration_id ident = 900 then fst ab + snd ab else fst ab - snd ab)
       in if total < - (2 ^ 31) \<or> 2 ^ 31 - 1 < total then fail (- ERANGE)
          else let response = out_param (Mock_GetTypeTemplate (ei_runtime ident) 0x6d0102) data_snapshot0
               in res_bind (nth_res (ds_fields response) 0) (\<lambda>f.
                    Inr (response\<lparr>ds_fields := (ds_fields response)[0 := f\<lparr>fv_value := to_string_int total\<rparr>]\<rparr>)))"

section \<open>The class\<close>

definition mock_backend :: "mock_state tool_backend" where
  "mock_backend = (tool_defaults (\<lambda>s. Mock_GetApplicationInfo))\<lparr>
     tb_GetConnectionState := Mock_GetConnectionState,
     tb_GetElements := Mock_GetElements,
     tb_GetTopics := Mock_GetTopics,
     tb_GetParameters := Mock_GetParameters,
     tb_GetTopicInfo := Mock_GetTopicInfo,
     tb_ReadTopicLatest_name := Mock_ReadTopicLatest_name,
     tb_StartTopicMonitor := Mock_StartTopicMonitor,
     tb_StopTopicMonitor := Mock_StopTopicMonitor,
     tb_GetParameter_name := Mock_GetParameter_name,
     tb_SetParameter_name := Mock_SetParameter_name,
     tb_Refresh := Mock_Refresh,
     tb_StartTopicEcho := Mock_StartTopicEcho,
     tb_ReadTopicEcho := Mock_ReadTopicEcho,
     tb_StopTopicEcho := Mock_StopTopicEcho,
     tb_PrepareTopicRead := Mock_PrepareTopicRead,
     tb_CloseTopicRead := Mock_CloseTopicRead,
     tb_ReadTopicLatest_id := Mock_ReadTopicLatest_id,
     tb_GetParameter_id := Mock_GetParameter_id,
     tb_ValidateParameter := Mock_ValidateParameter,
     tb_SetParameter_id := Mock_SetParameter_id,
     tb_GetTypeTemplate := \<lambda>s. Mock_GetTypeTemplate,
     tb_QueryServices := \<lambda>s. Mock_QueryServices,
     tb_ValidateService := \<lambda>s. Mock_ValidateService,
     tb_CallService := \<lambda>s ident request timeout retries. (Mock_CallService ident request, s)\<rparr>"

section \<open>Parameters keep their contract\<close>

definition snapshot_text :: "data_snapshot \<Rightarrow> string" where
  "snapshot_text v = fv_value (hd (ds_fields v))"

lemma mock_find_update_same:
  "List.find (\<lambda>p. pi_identity p = i) (update_first (\<lambda>p. pi_identity p = i) (pi_value_update f) ps)
    = map_option (pi_value_update f) (List.find (\<lambda>p. pi_identity p = i) ps)"
  by (rule find_update_first_same) simp

lemma mock_find_update_other:
  "j \<noteq> i \<Longrightarrow> List.find (\<lambda>p. pi_identity p = j) (update_first (\<lambda>p. pi_identity p = i) (pi_value_update f) ps)
    = List.find (\<lambda>p. pi_identity p = j) ps"
  by (rule find_update_first_other) auto

lemma Validate_field:
  "Mock_ValidateParameter s i v = Inr () \<Longrightarrow>
    \<exists>p f. mock_find_parameter s i = Some p \<and> pi_type_id p \<noteq> 0 \<and> ds_fields v = [f]"
  by (auto simp: Mock_ValidateParameter_def res_simps length_Suc_conv split: option.splits if_splits)

lemma Set_Inr:
  assumes "Mock_ValidateParameter s i v = Inr ()" and "ds_fields v = [f]" and "mock_find_parameter s i = Some p"
  shows "Mock_SetParameter_id s i v = (Inr (), s\<lparr>mb_parameters :=
    update_first (\<lambda>p. pi_identity p = i) (pi_value_update (\<lambda>_. fv_value f)) (mb_parameters s)\<rparr>)"
  using assms by (simp add: Mock_SetParameter_id_def)

lemma Set_cases:
  "(\<exists>e. Mock_ValidateParameter s i v = Inl e \<and> Mock_SetParameter_id s i v = (Inl e, s)) \<or>
   (\<exists>p f. Mock_ValidateParameter s i v = Inr () \<and> mock_find_parameter s i = Some p \<and> pi_type_id p \<noteq> 0
      \<and> ds_fields v = [f] \<and> Mock_SetParameter_id s i v = (Inr (), s\<lparr>mb_parameters :=
         update_first (\<lambda>p. pi_identity p = i) (pi_value_update (\<lambda>_. fv_value f)) (mb_parameters s)\<rparr>))"
proof (cases "Mock_ValidateParameter s i v")
  case (Inl e)
  then show ?thesis by (simp add: Mock_SetParameter_id_def)
next
  case (Inr u)
  then show ?thesis using Validate_field[of s i v] Set_Inr[of s i v] by auto
qed

text \<open>Validation looks at the schema of the parameter only, not at its value.\<close>

definition same_schema :: "parameter_info option \<Rightarrow> parameter_info option \<Rightarrow> bool" where
  "same_schema a b \<longleftrightarrow> (case (a, b) of (None, None) \<Rightarrow> True
     | (Some p, Some q) \<Rightarrow> pi_writable p = pi_writable q \<and> pi_type_id p = pi_type_id q \<and> pi_type_name p = pi_type_name q
     | _ \<Rightarrow> False)"

lemma Validate_same_schema:
  assumes "same_schema (mock_find_parameter s i) (mock_find_parameter s' i)"
  shows "Mock_ValidateParameter s i v = Mock_ValidateParameter s' i v"
  using assms
  by (cases "mock_find_parameter s i"; cases "mock_find_parameter s' i")
    (simp_all add: same_schema_def Mock_ValidateParameter_def Mock_GetParameter_id_def)

lemma Set_same_schema: "same_schema (mock_find_parameter (snd (Mock_SetParameter_id s i v)) j) (mock_find_parameter s j)"
  using Set_cases[of s i v]
  by (cases "j = i"; cases "mock_find_parameter s j")
    (auto simp: same_schema_def mock_find_parameter_def mock_find_update_same mock_find_update_other)

interpretation mp: parameter_store Mock_GetParameter_id Mock_ValidateParameter Mock_SetParameter_id snapshot_text
proof unfold_locales
  fix s i j v w e
  show "fst (Mock_SetParameter_id s i v) = Mock_ValidateParameter s i v"
    using Set_cases[of s i v] by auto
  show "snd (Mock_SetParameter_id s i v) = s" if "Mock_ValidateParameter s i v = Inl e"
    using Set_cases[of s i v] that by auto
  show "\<exists>w. Mock_GetParameter_id (snd (Mock_SetParameter_id s i v)) i = Inr w \<and> snapshot_text w = snapshot_text v"
    if "Mock_ValidateParameter s i v = Inr ()"
    using Set_cases[of s i v] that
    by (auto simp: Mock_GetParameter_id_def mock_find_parameter_def mock_find_update_same snapshot_text_def)
  show "Mock_GetParameter_id (snd (Mock_SetParameter_id s i v)) j = Mock_GetParameter_id s j" if "j \<noteq> i"
    using Set_cases[of s i v] that
    by (auto simp: Mock_GetParameter_id_def mock_find_parameter_def mock_find_update_other)
  show "Mock_ValidateParameter (snd (Mock_SetParameter_id s i v)) j w = Mock_ValidateParameter s j w"
    by (rule Validate_same_schema, rule Set_same_schema)
qed

text \<open>A history of \<open>SetParameter\<close> calls, and the last one to \<open>j\<close> that validates.\<close>

definition mock_write_all :: "(endpoint_identity \<times> data_snapshot) list \<Rightarrow> mock_state \<Rightarrow> mock_state" where
  "mock_write_all = fold (\<lambda>(i, v) s. snd (Mock_SetParameter_id s i v))"

definition mock_last_accepted ::
    "mock_state \<Rightarrow> (endpoint_identity \<times> data_snapshot) list \<Rightarrow> endpoint_identity \<Rightarrow> data_snapshot option" where
  "mock_last_accepted s ops j =
     map_option snd (List.find (\<lambda>(i, v). i = j \<and> Mock_ValidateParameter s i v = Inr ()) (rev ops))"

text \<open>
  C20. Parameters by identity are a store: after any history of writes, accepted or refused, a
  parameter reads as the text of the last write to it that validates, and as before where there
  is none; validation itself never depends on the values written.
\<close>

theorem mock_parameter_history:
  "(case mock_last_accepted s ops j of
      Some v \<Rightarrow> \<exists>w. Mock_GetParameter_id (mock_write_all ops s) j = Inr w \<and> snapshot_text w = snapshot_text v
    | None \<Rightarrow> Mock_GetParameter_id (mock_write_all ops s) j = Mock_GetParameter_id s j)
   \<and> Mock_ValidateParameter (mock_write_all ops s) j w = Mock_ValidateParameter s j w"
proof -
  have e: "mock_write_all = mp.put_all" "mock_last_accepted = mp.last_accepted"
    by (simp_all add: fun_eq_iff mock_write_all_def mock_last_accepted_def mp.put_all_def mp.last_accepted_def)
  show ?thesis unfolding e using mp.get_put_all mp.validate_put_all by blast
qed

section \<open>The arithmetic services\<close>

text \<open>A request field that holds the 32-bit integer \<open>n\<close>.\<close>

definition int32_operand :: "field_value \<Rightarrow> int \<Rightarrow> bool" where
  "int32_operand f n \<longleftrightarrow> fv_kind f = SIGNED_INTEGER \<and> fv_type_name f = ''int32'' \<and> fv_array_values f = []
     \<and> from_chars_i64 (fv_value f) = (Ok_errc, n, []) \<and> - (2 ^ 31) \<le> n \<and> n \<le> 2 ^ 31 - 1"

definition add_service :: endpoint_identity where "add_service = mk_endpoint 12001 1 900"
definition subtract_service :: endpoint_identity where "subtract_service = mk_endpoint 12001 1 901"

text \<open>A well-formed request to one of the two services with operands \<open>x\<close> and \<open>y\<close>, in any order.\<close>

definition mock_request_ok :: "endpoint_identity \<Rightarrow> data_snapshot \<Rightarrow> int \<Rightarrow> int \<Rightarrow> bool" where
  "mock_request_ok i req x y \<longleftrightarrow> (i = add_service \<or> i = subtract_service)
     \<and> ds_type_id req = 0x6d0101 \<and> ds_type_name req = ''mock.AddRequest''
     \<and> (\<exists>f g. (ds_fields req = [f, g] \<or> ds_fields req = [g, f]) \<and> fv_name f = ''a'' \<and> fv_name g = ''b''
          \<and> int32_operand f x \<and> int32_operand g y)"

definition mock_response :: "int \<Rightarrow> data_snapshot" where
  "mock_response t = data_snapshot0\<lparr>ds_type_id := 0x6d0102, ds_type_name := ''mock.AddResponse'',
     ds_fields := [(int32_field ''result'')\<lparr>fv_value := to_string_int t\<rparr>]\<rparr>"

lemma validate_request_Cons:
  "validate_request_fields (f # fs) used = Inr () \<longleftrightarrow>
    (fv_name f = ''a'' \<and> \<not> fst used \<or> fv_name f = ''b'' \<and> \<not> snd used) \<and> (\<exists>n. int32_operand f n)
    \<and> validate_request_fields fs (if fv_name f = ''a'' then (True, snd used) else (fst used, True)) = Inr ()"
  by (cases "from_chars_i64 (fv_value f)") (auto simp: int32_operand_def)

lemma int32_operand_unique: "int32_operand f m \<Longrightarrow> int32_operand f n \<Longrightarrow> m = n"
  by (simp add: int32_operand_def)

lemma services: "(\<exists>s \<in> set Mock_QueryServices. si_identity s = i) \<longleftrightarrow> i = add_service \<or> i = subtract_service"
  by (auto simp: Mock_QueryServices_def add_service_def subtract_service_def upt_rec numeral_2_eq_2)

lemma Validate_service_iff: "Mock_ValidateService i req = Inr () \<longleftrightarrow> (\<exists>x y. mock_request_ok i req x y)"
proof -
  have "validate_request_fields (ds_fields req) (False, False) = Inr () \<longleftrightarrow>
      (\<exists>x y f g. (ds_fields req = [f, g] \<or> ds_fields req = [g, f]) \<and> fv_name f = ''a'' \<and> fv_name g = ''b''
          \<and> int32_operand f x \<and> int32_operand g y)" if l: "length (ds_fields req) = 2"
  proof -
    obtain f g where fg: "ds_fields req = [f, g]" using l by (auto simp: length_Suc_conv numeral_2_eq_2)
    show ?thesis unfolding fg by (auto simp: validate_request_Cons simp del: validate_request_fields.simps(2))
  qed
  then show ?thesis
    by (cases "length (ds_fields req) = 2")
      (auto simp: Mock_ValidateService_def mock_request_ok_def services)
qed

lemma read_operand_int32:
  "int32_operand f n \<Longrightarrow> read_operand f ab = (if fv_name f = ''a'' then (n, snd ab) else (fst ab, n))"
  by (simp add: read_operand_def int32_operand_def)

lemma CallService_request:
  assumes "mock_request_ok i req x y"
  shows "Mock_CallService i req =
    (let t = if i = add_service then x + y else x - y
     in if - (2 ^ 31) \<le> t \<and> t \<le> 2 ^ 31 - 1 then Inr (mock_response t) else fail (- ERANGE))"
proof -
  obtain f g where fg: "ds_fields req = [f, g] \<or> ds_fields req = [g, f]" "fv_name f = ''a''" "fv_name g = ''b''"
      "int32_operand f x" "int32_operand g y"
    and i: "i = add_service \<or> i = subtract_service"
    using assms by (auto simp: mock_request_ok_def)
  have ab: "fold read_operand (ds_fields req) (0, 0) = (x, y)"
    using fg by (auto simp: read_operand_int32)
  have v: "Mock_ValidateService i req = Inr ()" using assms Validate_service_iff by blast
  have "to_string_int 0 = ''0''" by code_simp
  then have t: "Mock_GetTypeTemplate (ei_runtime i) 0x6d0102 = Inr (mock_response 0)"
    using i by (auto simp: Mock_GetTypeTemplate_def add_service_def subtract_service_def mk_endpoint_def
        mock_response_def int32_field_def)
  have r: "(ei_registration_id i = 900) = (i = add_service)"
    using i by (auto simp: add_service_def subtract_service_def mk_endpoint_def)
  show ?thesis
    by (auto simp: Mock_CallService_def v ab t r Let_def out_param_def mock_response_def)
qed

text \<open>
  The mock services compute: a call returns a response exactly when the request is well
  formed for one of the two services and the sum (for \<open>/mock/add\<close>) or the difference (for
  \<open>/mock/subtract\<close>) of its operands, whatever their order in the request, is a 32-bit integer;
  the response is then that integer in decimal.
\<close>

theorem mock_call_service:
  "Mock_CallService i req = Inr r \<longleftrightarrow>
    (\<exists>x y t. mock_request_ok i req x y \<and> t = (if i = add_service then x + y else x - y)
      \<and> - (2 ^ 31) \<le> t \<and> t \<le> 2 ^ 31 - 1 \<and> r = mock_response t)"
proof (cases "\<exists>x y. mock_request_ok i req x y")
  case True
  then obtain x y where xy: "mock_request_ok i req x y" by blast
  have uniq: "x' = x \<and> y' = y" if "mock_request_ok i req x' y'" for x' y'
    using xy that by (auto simp: mock_request_ok_def dest: int32_operand_unique)
  let ?t = "\<lambda>x y. if i = add_service then x + y else x - y"
  have "Mock_CallService i req = Inr r \<longleftrightarrow> - (2 ^ 31) \<le> ?t x y \<and> ?t x y \<le> 2 ^ 31 - 1 \<and> r = mock_response (?t x y)"
    unfolding CallService_request[OF xy] Let_def by simp blast
  then show ?thesis using xy uniq by blast
next
  case False
  then have "Mock_CallService i req \<noteq> Inr r"
    using Validate_service_iff[of i req] by (auto simp: Mock_CallService_def res_simps)
  with False show ?thesis by blast
qed

section \<open>Return codes\<close>

lemma validate_request_codes: "code_ok (validate_request_fields fs used)"
  by (induction fs arbitrary: used) (auto split: prod.split)

lemma Validate_service_codes: "code_ok (Mock_ValidateService i r)"
  by (simp add: Mock_ValidateService_def validate_request_codes)

lemma CallService_codes: "code_ok (Mock_CallService i r)"
proof (cases "\<exists>x y. mock_request_ok i r x y")
  case True
  then obtain x y where "mock_request_ok i r x y" by blast
  from CallService_request[OF this] show ?thesis by (simp add: Let_def)
next
  case False
  then obtain e where "Mock_ValidateService i r = Inl e" using Validate_service_iff[of i r]
    by (cases "Mock_ValidateService i r") auto
  then show ?thesis using Validate_service_codes[of i r] by (cases e) (simp_all add: Mock_CallService_def)
qed

lemma Validate_parameter_codes: "code_ok (Mock_ValidateParameter s i v)"
proof -
  have "code_ok (mock_check_uint32 t)" "code_ok (mock_check_double t)" for t
    by (simp_all add: mock_check_uint32_def mock_check_double_def split: prod.split option.split)
  then show ?thesis
    by (auto simp: Mock_ValidateParameter_def Mock_GetParameter_id_def split: option.split)
qed

lemma Set_parameter_codes: "code_ok (fst (Mock_SetParameter_id s i v))"
  using Validate_parameter_codes by (simp add: mp.put_code)

lemma ReadLatest_codes: "code_ok (fst (Mock_ReadTopicLatest_id s i))"
  by (simp add: Mock_ReadTopicLatest_id_def split: option.split)

text \<open>
  Error codes: no operation of the mock backend or of the backend built without the
  framework returns a positive code or meets undefined behaviour, in any state and for any
  argument.
\<close>

theorem backend_error_codes: "backend_codes_ok mock_backend s \<and> backend_codes_ok stub_backend u"
  using Validate_parameter_codes Set_parameter_codes ReadLatest_codes CallService_codes Validate_service_codes
  by (simp add: stub_codes)
    (auto simp: backend_codes_ok_def mock_backend_def tool_defaults_def RemoteUnavailable_def
      Mock_GetTopicInfo_def Mock_ReadTopicLatest_name_def Mock_StartTopicMonitor_def
      Mock_StopTopicMonitor_def Mock_GetParameter_name_def Mock_SetParameter_name_def Mock_Refresh_def
      Mock_StartTopicEcho_def Mock_ReadTopicEcho_def Mock_PrepareTopicRead_def Let_def
      Mock_GetParameter_id_def Mock_GetTypeTemplate_def split: option.splits)

section \<open>Reachable states and the echo session\<close>

datatype mock_op = MRead_id endpoint_identity | MRead_name string | MStart endpoint_identity | MEcho | MStop
  | MPrepare endpoint_identity | MClose | MSet_id endpoint_identity data_snapshot | MSet_name string string
  | MRefresh

fun mock_step :: "mock_op \<Rightarrow> mock_state \<Rightarrow> mock_state" where
  "mock_step (MRead_id i) s = snd (Mock_ReadTopicLatest_id s i)"
| "mock_step (MRead_name n) s = snd (Mock_ReadTopicLatest_name s n)"
| "mock_step (MStart i) s = snd (Mock_StartTopicEcho s i)"
| "mock_step MEcho s = snd (Mock_ReadTopicEcho s)"
| "mock_step MStop s = Mock_StopTopicEcho s"
| "mock_step (MPrepare i) s = snd (Mock_PrepareTopicRead s i)"
| "mock_step MClose s = Mock_CloseTopicRead s"
| "mock_step (MSet_id i v) s = snd (Mock_SetParameter_id s i v)"
| "mock_step (MSet_name n t) s = snd (Mock_SetParameter_name s n t)"
| "mock_step MRefresh s = snd (Mock_Refresh s)"

inductive mock_reach :: "mock_state \<Rightarrow> bool" where
  reach_init: "mock_reach mock_init"
| reach_step: "mock_reach s \<Longrightarrow> mock_reach (mock_step op s)"

definition topic_ids :: "mock_state \<Rightarrow> endpoint_identity list" where
  "topic_ids s = map ti_identity (mb_topics s)"

text \<open>What no operation changes of a parameter, and its value where it is not writable.\<close>

definition parameter_schema :: "parameter_info \<Rightarrow> string \<times> string \<times> bool \<times> endpoint_identity \<times> u64 \<times> string option" where
  "parameter_schema p = (pi_name p, pi_type_name p, pi_writable p, pi_identity p, pi_type_id p,
     if pi_writable p then None else Some (pi_value p))"

definition mock_inv :: "mock_state \<Rightarrow> bool" where
  "mock_inv s \<longleftrightarrow> topic_ids s = topic_ids mock_init
     \<and> map parameter_schema (mb_parameters s) = map parameter_schema (mb_parameters mock_init)
     \<and> (if mb_echo_active s then mb_echo_identity s \<in> set (topic_ids mock_init) else mb_echo_identity s = endpoint_identity0)"

lemma topic_ids_frame [simp]:
  "topic_ids (s\<lparr>mb_parameters := ps\<rparr>) = topic_ids s"
  "topic_ids (s\<lparr>mb_elements := es\<rparr>) = topic_ids s"
  "topic_ids (s\<lparr>mb_echo_identity := j\<rparr>) = topic_ids s"
  "topic_ids (s\<lparr>mb_echo_active := b\<rparr>) = topic_ids s"
  by (simp_all add: topic_ids_def)

lemma mock_init_inv: "mock_inv mock_init"
  by (simp add: mock_inv_def mock_init_def)

lemma ReadLatest_frame:
  "topic_ids (snd (Mock_ReadTopicLatest_id s i)) = topic_ids s"
  "mb_parameters (snd (Mock_ReadTopicLatest_id s i)) = mb_parameters s"
  "mb_echo_active (snd (Mock_ReadTopicLatest_id s i)) = mb_echo_active s"
  "mb_echo_identity (snd (Mock_ReadTopicLatest_id s i)) = mb_echo_identity s"
  by (auto simp: Mock_ReadTopicLatest_id_def topic_ids_def map_update_first bump_sequence_def split: option.split)

lemma ReadLatest_inv: "mock_inv s \<Longrightarrow> mock_inv (snd (Mock_ReadTopicLatest_id s i))"
  by (simp add: mock_inv_def ReadLatest_frame)

lemma StopEcho_inv: "mock_inv s \<Longrightarrow> mock_inv (Mock_StopTopicEcho s)"
  by (simp add: Mock_StopTopicEcho_def mock_inv_def)

lemma StartEcho_inv: "mock_inv s \<Longrightarrow> mock_inv (snd (Mock_StartTopicEcho s i))"
proof -
  assume inv: "mock_inv s"
  have e: "(\<exists>t \<in> set (mb_topics s). ti_identity t = i) \<longleftrightarrow> i \<in> set (topic_ids s)"
    by (auto simp: topic_ids_def)
  show ?thesis
  proof (cases "i \<in> set (topic_ids s)")
    case True
    then have "snd (Mock_StartTopicEcho s i) = s\<lparr>mb_echo_active := True, mb_echo_identity := i\<rparr>"
      using e by (simp add: Mock_StartTopicEcho_def Mock_StopTopicEcho_def Let_def)
    with True inv show ?thesis by (simp add: mock_inv_def)
  next
    case False
    then have "snd (Mock_StartTopicEcho s i) = Mock_StopTopicEcho s"
      using e by (simp add: Mock_StartTopicEcho_def Mock_StopTopicEcho_def Let_def)
    with StopEcho_inv[OF inv] show ?thesis by simp
  qed
qed

lemma update_schema:
  assumes "\<And>p. p \<in> set ps \<Longrightarrow> q p \<Longrightarrow> List.find q ps = Some p \<Longrightarrow> pi_writable p"
  shows "map parameter_schema (update_first q (pi_value_update f) ps) = map parameter_schema ps"
  using assms by (induction ps) (auto simp: parameter_schema_def split: if_splits)

lemma Validate_writable:
  "Mock_ValidateParameter s i v = Inr () \<Longrightarrow> mock_find_parameter s i = Some p \<Longrightarrow> pi_writable p"
  by (simp add: Mock_ValidateParameter_def split: if_splits)

lemma Set_inv: "mock_inv s \<Longrightarrow> mock_inv (snd (Mock_SetParameter_id s i v))"
proof -
  assume inv: "mock_inv s"
  from Set_cases[of s i v] show ?thesis
  proof
    assume "\<exists>e. Mock_ValidateParameter s i v = Inl e \<and> Mock_SetParameter_id s i v = (Inl e, s)"
    with inv show ?thesis by auto
  next
    assume "\<exists>p f. Mock_ValidateParameter s i v = Inr () \<and> mock_find_parameter s i = Some p \<and> pi_type_id p \<noteq> 0
      \<and> ds_fields v = [f] \<and> Mock_SetParameter_id s i v = (Inr (), s\<lparr>mb_parameters :=
         update_first (\<lambda>p. pi_identity p = i) (pi_value_update (\<lambda>_. fv_value f)) (mb_parameters s)\<rparr>)"
    then obtain p f where p: "Mock_ValidateParameter s i v = Inr ()" "mock_find_parameter s i = Some p"
      and "ds_fields v = [f]"
      and e: "Mock_SetParameter_id s i v = (Inr (), s\<lparr>mb_parameters :=
         update_first (\<lambda>p. pi_identity p = i) (pi_value_update (\<lambda>_. fv_value f)) (mb_parameters s)\<rparr>)" by blast
    have "map parameter_schema (update_first (\<lambda>p. pi_identity p = i) (pi_value_update (\<lambda>_. fv_value f)) (mb_parameters s))
        = map parameter_schema (mb_parameters s)"
      using Validate_writable[OF p] p(2) by (intro update_schema) (simp add: mock_find_parameter_def)
    with inv show ?thesis by (simp add: e mock_inv_def)
  qed
qed

lemma Set_name_inv: "mock_inv s \<Longrightarrow> mock_inv (snd (Mock_SetParameter_name s n t))"
proof -
  assume inv: "mock_inv s"
  show ?thesis
  proof (cases "\<exists>p. List.find (\<lambda>p. pi_name p = n) (mb_parameters s) = Some p \<and> pi_writable p")
    case True
    then have "map parameter_schema (update_first (\<lambda>p. pi_name p = n) (pi_value_update (\<lambda>_. t)) (mb_parameters s))
        = map parameter_schema (mb_parameters s)"
      by (intro update_schema) auto
    with inv True show ?thesis by (auto simp: Mock_SetParameter_name_def mock_inv_def)
  next
    case False
    then show ?thesis using inv by (auto simp: Mock_SetParameter_name_def split: option.split)
  qed
qed

lemma Refresh_inv: "mock_inv s \<Longrightarrow> mock_inv (snd (Mock_Refresh s))"
  by (simp add: Mock_Refresh_def Mock_StopTopicEcho_def mock_inv_def Let_def)

lemmas mock_op_inv = ReadLatest_inv StopEcho_inv StartEcho_inv Set_inv Set_name_inv Refresh_inv

lemma mock_step_inv: "mock_inv s \<Longrightarrow> mock_inv (mock_step op s)"
  by (cases op)
    (auto simp: mock_op_inv Mock_ReadTopicLatest_name_def Mock_ReadTopicEcho_def Mock_PrepareTopicRead_def
      Mock_CloseTopicRead_def split: option.split)

lemma mock_reach_inv: "mock_reach s \<Longrightarrow> mock_inv s"
  by (induction rule: mock_reach.induct) (auto intro: mock_init_inv mock_step_inv)

lemma ReadLatest_known:
  "i \<in> set (topic_ids s) \<Longrightarrow> \<exists>v. fst (Mock_ReadTopicLatest_id s i) = Inr v"
proof -
  assume "i \<in> set (topic_ids s)"
  then obtain t where "t \<in> set (mb_topics s)" "ti_identity t = i" by (auto simp: topic_ids_def)
  then have "\<exists>u. List.find (\<lambda>t. ti_identity t = i) (mb_topics s) = Some u" by (intro find_ex)
  then show ?thesis by (auto simp: Mock_ReadTopicLatest_id_def)
qed

text \<open>
  Invariant of the mock backend, over every sequence of its operations: the topics keep their
  identities, the parameters their schema, a read-only parameter its value, and the echo session
  is either closed and cleared or open on an existing topic; so reading an open session always
  returns a sample and reading a closed one always returns \<open>-EBADF\<close>.
\<close>

theorem mock_invariant:
  assumes "mock_reach s"
  shows "topic_ids s = topic_ids mock_init
    \<and> map parameter_schema (mb_parameters s) = map parameter_schema mock_parameters0
    \<and> (if mb_echo_active s then \<exists>v. fst (Mock_ReadTopicEcho s) = Inr v
       else mb_echo_identity s = endpoint_identity0 \<and> fst (Mock_ReadTopicEcho s) = fail (- EBADF))"
  using mock_reach_inv[OF assms] ReadLatest_known[of "mb_echo_identity s" s]
  by (auto simp: mock_inv_def Mock_ReadTopicEcho_def mock_init_def)

theorem mock_invariant_witness:
  "topic_ids (mock_step (MStart (mk_endpoint 12001 1 1)) mock_init) = topic_ids mock_init"
  using mock_invariant[OF reach_step[OF reach_init]] by blast

text \<open>\<open>n\<close> consecutive reads of the session: their results and the state after them.\<close>

fun echo_reads :: "nat \<Rightarrow> mock_state \<Rightarrow> data_snapshot result list \<times> mock_state" where
  "echo_reads 0 s = ([], s)"
| "echo_reads (Suc n) s =
     (let r = Mock_ReadTopicEcho s; rs = echo_reads n (snd r) in (fst r # fst rs, snd rs))"

lemma ReadEcho_next:
  assumes "mb_echo_active s" and "List.find (\<lambda>t. ti_identity t = mb_echo_identity s) (mb_topics s) = Some t"
  shows "fst (Mock_ReadTopicEcho s) = Inr (mock_sample (bump_sequence t))"
    and "mb_echo_active (snd (Mock_ReadTopicEcho s))"
    and "mb_echo_identity (snd (Mock_ReadTopicEcho s)) = mb_echo_identity s"
    and "List.find (\<lambda>t. ti_identity t = mb_echo_identity s) (mb_topics (snd (Mock_ReadTopicEcho s))) = Some (bump_sequence t)"
  using assms
  by (auto simp: Mock_ReadTopicEcho_def Mock_ReadTopicLatest_id_def find_update_first_same bump_sequence_def)

lemma echo_reads_sequence:
  assumes "mb_echo_active s" and "List.find (\<lambda>t. ti_identity t = mb_echo_identity s) (mb_topics s) = Some t"
  shows "fst (echo_reads n s) = map (\<lambda>k. Inr (mock_sample (t\<lparr>ti_sequence := ti_sequence t + word_of_nat (Suc k)\<rparr>))) [0..<n]"
  using assms
proof (induction n arbitrary: s t)
  case (Suc n)
  note N = ReadEcho_next[OF Suc.prems]
  have f: "List.find (\<lambda>u. ti_identity u = mb_echo_identity (snd (Mock_ReadTopicEcho s)))
      (mb_topics (snd (Mock_ReadTopicEcho s))) = Some (bump_sequence t)"
    using N(4) by (simp only: N(3))
  have "fst (echo_reads (Suc n) s)
      = Inr (mock_sample (bump_sequence t)) # fst (echo_reads n (snd (Mock_ReadTopicEcho s)))"
    by (simp add: Let_def N(1))
  also have "\<dots> = map (\<lambda>k. Inr (mock_sample (t\<lparr>ti_sequence := ti_sequence t + word_of_nat (Suc k)\<rparr>))) [0..<Suc n]"
    unfolding Suc.IH[OF N(2) f] map_upt_Suc by (simp add: bump_sequence_def add.assoc)
  finally show ?case .
qed simp

text \<open>
  The echo session follows one topic: after a session is opened, its \<open>k\<close>-th read returns the
  sample of that topic with the sequence number advanced by \<open>k\<close> (wrapping at 64 bits), and none
  is skipped or repeated.
\<close>

theorem mock_echo_sequence:
  assumes "fst (Mock_StartTopicEcho s i) = Inr ()"
  shows "\<exists>t \<in> set (mb_topics s). ti_identity t = i
    \<and> fst (echo_reads n (snd (Mock_StartTopicEcho s i)))
      = map (\<lambda>k. Inr (mock_sample (t\<lparr>ti_sequence := ti_sequence t + word_of_nat (Suc k)\<rparr>))) [0..<n]"
proof -
  have ex: "\<exists>t \<in> set (mb_topics s). ti_identity t = i"
    using assms by (auto simp: Mock_StartTopicEcho_def Let_def Mock_StopTopicEcho_def split: if_splits)
  then obtain t' where t': "t' \<in> set (mb_topics s)" "ti_identity t' = i" by blast
  obtain t where t: "List.find (\<lambda>t. ti_identity t = i) (mb_topics s) = Some t"
    using find_ex[of t' "mb_topics s" "\<lambda>t. ti_identity t = i", OF t'] by blast
  have m: "t \<in> set (mb_topics s)" "ti_identity t = i" using find_Some_D[OF t] by simp_all
  let ?s = "snd (Mock_StartTopicEcho s i)"
  have s: "mb_echo_active ?s" "mb_echo_identity ?s = i" "mb_topics ?s = mb_topics s"
    using ex by (auto simp: Mock_StartTopicEcho_def Let_def Mock_StopTopicEcho_def)
  have r: "fst (echo_reads n ?s)
      = map (\<lambda>k. Inr (mock_sample (t\<lparr>ti_sequence := ti_sequence t + word_of_nat (Suc k)\<rparr>))) [0..<n]"
    by (rule echo_reads_sequence[OF s(1)]) (use s t in simp)
  show ?thesis by (rule bexI[where x = t], rule conjI, rule m(2), rule r, rule m(1))
qed

theorem mock_echo_sequence_witness:
  "\<exists>t \<in> set (mb_topics mock_init). ti_identity t = mk_endpoint 12001 1 1"
proof -
  have "fst (Mock_StartTopicEcho mock_init (mk_endpoint 12001 1 1)) = Inr ()"
    by (simp add: Mock_StartTopicEcho_def Mock_StopTopicEcho_def mock_init_def mock_topics0_def mock_topic_def
        mk_endpoint_def Let_def)
  from mock_echo_sequence[OF this, of 1] show ?thesis by blast
qed

end
