(* ===== verification/OrdMap.thy ===== *)
theory OrdMap
  imports Prelude
begin

text \<open>
  The two containers of the C++ library whose order the code relies on: \<open>std::map\<close>, as an
  association list kept sorted by key, and \<open>std::sort\<close>.

  The locale \<open>ordered_map\<close> is the interface the components use (assign, emplace, find, the
  entries in key order); it is interpreted at the end on the list implementation.
\<close>

section \<open>std::map\<close>

type_synonym ('k, 'v) omap = "('k \<times> 'v) list"

text \<open>\<open>m[k] = v\<close>.\<close>

fun om_put :: "'k::linorder \<Rightarrow> 'v \<Rightarrow> ('k, 'v) omap \<Rightarrow> ('k, 'v) omap" where
  "om_put k v [] = [(k, v)]"
| "om_put k v ((k', v') # m) =
     (if k < k' then (k, v) # (k', v') # m
      else if k = k' then (k, v) # m
      else (k', v') # om_put k v m)"

text \<open>\<open>m.emplace(k, v)\<close>: nothing is stored when the key is present.\<close>

definition om_emplace :: "'k::linorder \<Rightarrow> 'v \<Rightarrow> ('k, 'v) omap \<Rightarrow> ('k, 'v) omap" where
  "om_emplace k v m = (case map_of m k of None \<Rightarrow> om_put k v m | Some _ \<Rightarrow> m)"

definition om_erase :: "'k \<Rightarrow> ('k, 'v) omap \<Rightarrow> ('k, 'v) omap" where
  "om_erase k m = filter (\<lambda>e. fst e \<noteq> k) m"

definition om_wf :: "('k::linorder, 'v) omap \<Rightarrow> bool" where
  "om_wf m \<longleftrightarrow> sorted_wrt (<) (map fst m)"

lemma om_wf_Nil [simp]: "om_wf []"
  by (simp add: om_wf_def)

lemma om_wf_Cons: "om_wf ((k, v) # m) \<longleftrightarrow> (\<forall>e \<in> set m. k < fst e) \<and> om_wf m"
  by (auto simp: om_wf_def)

lemma om_wf_distinct: "om_wf m \<Longrightarrow> distinct (map fst m)"
  by (simp add: om_wf_def strict_sorted_iff)

lemma fst_set_om_put: "fst ` set (om_put k v m) = insert k (fst ` set m)"
  by (induction k v m rule: om_put.induct) auto

lemma om_put_wf: "om_wf m \<Longrightarrow> om_wf (om_put k v m)"
proof (induction k v m rule: om_put.induct)
  case (1 k v)
  then show ?case by (simp add: om_wf_def)
next
  case (2 k v k' v' m)
  show ?case
  proof (cases "k < k' \<or> k = k'")
    case True
    with 2 show ?thesis by (auto simp: om_wf_Cons)
  next
    case False
    then have "k' < k" by auto
    moreover have "\<forall>x \<in> fst ` set m. k' < x" using 2 by (auto simp: om_wf_Cons)
    ultimately have "\<forall>x \<in> fst ` set (om_put k v m). k' < x" by (auto simp: fst_set_om_put)
    with 2 False show ?thesis by (auto simp: om_wf_Cons)
  qed
qed

lemma om_get_put [simp]: "map_of (om_put k v m) = (map_of m)(k \<mapsto> v)"
  by (induction k v m rule: om_put.induct) (auto simp: fun_eq_iff)

lemma om_emplace_wf: "om_wf m \<Longrightarrow> om_wf (om_emplace k v m)"
  by (simp add: om_emplace_def om_put_wf split: option.split)

lemma om_get_emplace [simp]:
  "map_of (om_emplace k v m) = (map_of m)(k \<mapsto> (case map_of m k of None \<Rightarrow> v | Some w \<Rightarrow> w))"
  by (auto simp: om_emplace_def fun_eq_iff split: option.splits)

lemma om_erase_wf: "om_wf m \<Longrightarrow> om_wf (om_erase k m)"
  by (induction m) (auto simp: om_erase_def om_wf_def)

lemma om_get_erase [simp]: "map_of (om_erase k m) = (map_of m)(k := None)"
  by (induction m) (auto simp: om_erase_def fun_eq_iff)

lemma om_entry_iff: "om_wf m \<Longrightarrow> (k, v) \<in> set m \<longleftrightarrow> map_of m k = Some v"
  by (simp add: om_wf_distinct)

text \<open>Two maps with the same lookups are the same map: iteration order is fixed by the keys.\<close>

lemma om_ext: "om_wf m \<Longrightarrow> om_wf n \<Longrightarrow> map_of m = map_of n \<Longrightarrow> m = n"
proof (induction m arbitrary: n)
  case Nil
  then show ?case by (cases n) (auto simp: fun_eq_iff split: if_splits)
next
  case (Cons e m)
  obtain k v where e: "e = (k, v)" by (cases e)
  have key: "\<exists>w. map_of n k = Some w" using Cons.prems(3)[symmetric] e by simp
  then obtain k' v' n' where n: "n = (k', v') # n'" by (cases n) auto
  have lt: "\<forall>x \<in> set m. k < fst x" "\<forall>x \<in> set n'. k' < fst x"
    using Cons.prems e n by (auto simp: om_wf_Cons)
  have "k = k'"
  proof (rule ccontr)
    assume ne: "k \<noteq> k'"
    have "map_of n' k \<noteq> None" using key n ne by simp
    then have "k' < k" using lt(2) by (auto simp: map_of_eq_None_iff)
    moreover have "map_of (e # m) k' = Some v'" using fun_cong[OF Cons.prems(3), of k'] n by simp
    then have "map_of m k' \<noteq> None" using e ne by (auto split: if_splits)
    then have "k < k'" using lt(1) by (auto simp: map_of_eq_None_iff)
    ultimately show False by simp
  qed
  moreover have "v = v'" using fun_cong[OF Cons.prems(3), of k] e n \<open>k = k'\<close> by simp
  moreover have "map_of m = map_of n'"
  proof
    fix x
    have "map_of m k = None" "map_of n' k' = None"
      using lt by (auto simp: map_of_eq_None_iff)
    then show "map_of m x = map_of n' x"
      using fun_cong[OF Cons.prems(3), of x] e n \<open>k = k'\<close> by (auto split: if_splits)
  qed
  ultimately show ?case using Cons e n by (auto simp: om_wf_Cons)
qed

section \<open>The interface\<close>

locale ordered_map =
  fixes empty :: "'m"
    and put :: "'k::linorder \<Rightarrow> 'v \<Rightarrow> 'm \<Rightarrow> 'm"
    and emplace :: "'k \<Rightarrow> 'v \<Rightarrow> 'm \<Rightarrow> 'm"
    and get :: "'m \<Rightarrow> 'k \<Rightarrow> 'v option"
    and entries :: "'m \<Rightarrow> ('k \<times> 'v) list"
    and inv :: "'m \<Rightarrow> bool"
  assumes inv_empty: "inv empty"
    and inv_put: "inv m \<Longrightarrow> inv (put k v m)"
    and inv_emplace: "inv m \<Longrightarrow> inv (emplace k v m)"
    and get_empty: "get empty = (\<lambda>_. None)"
    and get_put: "inv m \<Longrightarrow> get (put k v m) = (get m)(k \<mapsto> v)"
    and get_emplace: "inv m \<Longrightarrow>
      get (emplace k v m) = (get m)(k \<mapsto> (case get m k of None \<Rightarrow> v | Some w \<Rightarrow> w))"
    and entries_get: "inv m \<Longrightarrow> (k, v) \<in> set (entries m) \<longleftrightarrow> get m k = Some v"
    and entries_sorted: "inv m \<Longrightarrow> sorted_wrt (<) (map fst (entries m))"
begin

definition put_all :: "('k \<times> 'v) list \<Rightarrow> 'm \<Rightarrow> 'm" where
  "put_all = fold (\<lambda>(k, v) m. put k v m)"

definition emplace_all :: "('k \<times> 'v) list \<Rightarrow> 'm \<Rightarrow> 'm" where
  "emplace_all = fold (\<lambda>(k, v) m. emplace k v m)"

lemma emplace_all_simps [simp]:
  "emplace_all [] m = m" "emplace_all ((k, v) # kvs) m = emplace_all kvs (emplace k v m)"
  by (simp_all add: emplace_all_def)

lemma put_all_simps [simp]:
  "put_all [] m = m" "put_all ((k, v) # kvs) m = put_all kvs (put k v m)"
  by (simp_all add: put_all_def)

lemma inv_emplace_all: "inv m \<Longrightarrow> inv (emplace_all kvs m)"
  by (induction kvs arbitrary: m) (auto simp: inv_emplace)

lemma inv_put_all: "inv m \<Longrightarrow> inv (put_all kvs m)"
  by (induction kvs arbitrary: m) (auto simp: inv_put)

lemma get_emplace_all:
  "inv m \<Longrightarrow> get (emplace_all kvs m) k = (case get m k of Some w \<Rightarrow> Some w | None \<Rightarrow> map_of kvs k)"
  by (induction kvs arbitrary: m) (auto simp: inv_emplace get_emplace split: option.splits)

lemma get_put_all: "inv m \<Longrightarrow> get (put_all kvs m) = get m ++ map_of (rev kvs)"
  by (induction kvs arbitrary: m) (auto simp: inv_put get_put map_add_def fun_eq_iff split: option.splits)

lemma entries_distinct: "inv m \<Longrightarrow> distinct (map fst (entries m))"
  using entries_sorted by (simp add: strict_sorted_iff)

end

interpretation om: ordered_map "[]" om_put om_emplace map_of "\<lambda>m. m" om_wf
  by unfold_locales
    (auto simp: om_put_wf om_emplace_wf om_wf_distinct om_wf_def[symmetric] split: option.split)

section \<open>std::sort\<close>

text \<open>
  \<open>std::sort\<close> promises a permutation of its input whose keys are in order, and nothing about
  the order of elements with equal keys. \<open>std_sorted key xs ys\<close> says that \<open>ys\<close> is a possible
  result; the model uses the stable \<open>sort_key\<close>, which is one, and the only one where the keys
  are distinct.
\<close>

definition std_sorted :: "('a \<Rightarrow> 'k::linorder) \<Rightarrow> 'a list \<Rightarrow> 'a list \<Rightarrow> bool" where
  "std_sorted key xs ys \<longleftrightarrow> mset ys = mset xs \<and> sorted (map key ys)"

lemma std_sorted_sort_key: "std_sorted key xs (sort_key key xs)"
  by (simp add: std_sorted_def)

lemma std_sorted_unique:
  assumes "std_sorted key xs ys" and "std_sorted key xs zs" and "distinct (map key xs)"
  shows "ys = zs"
proof -
  have ms: "mset ys = mset zs" and sy: "sorted (map key ys)" and sz: "sorted (map key zs)"
    using assms by (auto simp: std_sorted_def)
  have "mset (map key ys) = mset (map key xs)" using assms(1) by (simp add: std_sorted_def)
  then have d: "distinct (map key ys)" using assms(3) by (metis mset_eq_imp_distinct_iff)
  have "map key ys = map key zs"
    using sy sz ms by (metis mset_map properties_for_sort)
  moreover have "inj_on key (set ys \<union> set zs)"
    using d mset_eq_setD[OF ms] by (simp add: distinct_map)
  ultimately show ?thesis by (simp add: inj_on_map_eq_map)
qed

lemma sort_key_mset_cong:
  assumes "mset xs = mset ys" and "distinct (map key xs)"
  shows "sort_key key xs = sort_key key ys"
proof (rule std_sorted_unique[OF std_sorted_sort_key _ assms(2)])
  show "std_sorted key xs (sort_key key ys)" using assms(1) by (simp add: std_sorted_def)
qed

end
