(* ===== verification/NetworkRates.thy ===== *)
theory NetworkRates
  imports ToolModel OrdMap
begin

text \<open>
  \<open>src/backend/network_rates.hpp\<close>: \<open>NetworkRateTracker::Observe\<close>, which turns the counters of two
  observations of a route into rates. A time point is its count of nanoseconds, the array of
  nine counters a list, the map \<open>history_\<close> an ordered map, which this theory uses through the
  interface of \<open>OrdMap\<close>.

  The lemmas follow the tracker over a whole trace of observations: a history entry is the
  memory of an unbroken run of observations of its route.
\<close>

section \<open>Keys and counters\<close>

type_synonym rate_endpoint = "string \<times> string \<times> int \<times> u64 \<times> u64"
type_synonym rate_key =
  "string \<times> string \<times> u64 \<times> rate_endpoint \<times> rate_endpoint \<times> u64 \<times> u64 \<times> u64 \<times> bool"

definition rate_identity :: "route_endpoint_identity \<Rightarrow> rate_endpoint" where
  "rate_identity e = (rei_host_id e, rei_boot_id e, rei_pid e, rei_start_ticks e, rei_registration_id e)"

definition rate_values :: "remote_route \<Rightarrow> u64 list" where
  "rate_values r = [rr_packets_sent r, rr_packets_received r, rr_samples_published r, rr_dropped r,
     rr_duplicate r, rr_out_of_order r, rr_missed_sequence r, rr_malformed r, rr_local_samples_skipped r]"

definition rate_key :: "remote_network_diagnostics \<Rightarrow> remote_route \<Rightarrow> rate_key" where
  "rate_key d r = (rnd_gateway_host d, rnd_gateway_boot d, rnd_gateway_session d,
     rate_identity (rr_source r), rate_identity (rr_destination r), rr_source_session r,
     rr_destination_session r, rr_route_id r, rr_sending r)"

record rate_history =
  h_baseline :: "u64 list"
  h_latest :: "u64 list"
  h_start :: int
  h_last :: int

type_synonym rate_map = "(rate_key, rate_history) omap"

section \<open>Observe\<close>

text \<open>\<open>std::chrono::duration<double>(ns).count()\<close> and the quotient of a counter by it.\<close>

definition ns_to_seconds :: "int \<Rightarrow> double" where
  "ns_to_seconds ns = rnd64 (rnd64 (of_int ns) / 1000000000)"

definition per_second :: "u64 \<Rightarrow> double \<Rightarrow> double" where
  "per_second n interval = rnd64 (rnd64 (of_nat (unat n)) / interval)"

definition snapshot_success :: "remote_network_diagnostics \<Rightarrow> bool" where
  "snapshot_success d \<longleftrightarrow> rnd_status d = DIAG_VALID \<or> rnd_status d = DIAG_TRUNCATED"

definition rate_comparable :: "rate_history option \<Rightarrow> u64 list \<Rightarrow> int \<Rightarrow> bool" where
  "rate_comparable old counters now =
     (case old of None \<Rightarrow> False
      | Some h \<Rightarrow> h_last h < now \<and> \<not> (\<exists>i < 9. counters ! i < h_latest h ! i))"

definition counter_delta :: "u64 list \<Rightarrow> network_counter_delta" where
  "counter_delta delta = \<lparr>ncd_packets_sent = delta ! 0, ncd_packets_received = delta ! 1,
     ncd_samples_published = delta ! 2, ncd_dropped = delta ! 3, ncd_duplicate = delta ! 4,
     ncd_out_of_order = delta ! 5, ncd_missed_sequence = delta ! 6, ncd_malformed = delta ! 7,
     ncd_local_samples_skipped = delta ! 8\<rparr>"

text \<open>The rates of a route that is measured, and the history entry it leaves.\<close>

definition measure_route :: "rate_history option \<Rightarrow> u64 list \<Rightarrow> int \<Rightarrow> network_route_rates \<times> rate_history" where
  "measure_route old counters now =
     (let fresh = \<lparr>h_baseline = counters, h_latest = counters, h_start = now, h_last = now\<rparr>;
          rates = network_route_rates0\<lparr>nrr_status := RATE_MEASURING\<rparr>
      in if \<not> rate_comparable old counters now then (rates, fresh)
         else let h = (the old)\<lparr>h_latest := counters, h_last := now\<rparr>;
                  interval = ns_to_seconds (now - h_start h);
                  rates = rates\<lparr>nrr_interval_seconds := interval\<rparr>
              in if 500 * 1000000 \<le> now - h_start h
                 then let delta = map (\<lambda>i. counters ! i - h_baseline h ! i) [0..<9]
                      in (rates\<lparr>nrr_status := RATE_VALID, nrr_delta := counter_delta delta,
                            nrr_send_hz := per_second (delta ! 0) interval,
                            nrr_receive_hz := per_second (delta ! 1) interval,
                            nrr_proxy_publish_hz := per_second (delta ! 2) interval,
                            nrr_local_skipped_per_second := per_second (delta ! 8) interval\<rparr>, fresh)
                 else (rates, h))"

primrec observe_routes :: "remote_network_diagnostics \<Rightarrow> rate_map \<Rightarrow> int \<Rightarrow> remote_route list \<Rightarrow> rate_map
    \<Rightarrow> remote_route list \<times> rate_map" where
  "observe_routes d history now [] nxt = ([], nxt)"
| "observe_routes d history now (r # rs) nxt =
     (if \<not> snapshot_success d \<or> rr_state r \<noteq> 1
      then (let out = observe_routes d history now rs nxt
            in (r\<lparr>rr_rates := network_route_rates0\<rparr> # fst out, snd out))
      else (let m = measure_route (map_of history (rate_key d r)) (rate_values r) now;
                out = observe_routes d history now rs (om_emplace (rate_key d r) (snd m) nxt)
            in (r\<lparr>rr_rates := fst m\<rparr> # fst out, snd out)))"

definition Observe :: "rate_map \<Rightarrow> remote_network_diagnostics \<Rightarrow> int \<Rightarrow> remote_network_diagnostics \<times> rate_map" where
  "Observe history snapshot now =
     (let out = observe_routes snapshot history now (rnd_routes snapshot) []
      in (snapshot\<lparr>rnd_routes := fst out\<rparr>, snd out))"

section \<open>Unbroken runs of observations\<close>

text \<open>In a successful snapshot the route \<open>k\<close> is ACTIVE with the counters \<open>c\<close>.\<close>

definition active_in :: "remote_network_diagnostics \<Rightarrow> rate_key \<Rightarrow> u64 list \<Rightarrow> bool" where
  "active_in d k c \<longleftrightarrow> snapshot_success d
     \<and> (\<exists>r \<in> set (rnd_routes d). rr_state r = 1 \<and> rate_key d r = k \<and> rate_values r = c)"

text \<open>
  A trace lists the observations with their times, the newest first. \<open>unbroken k T c0 t0 c t\<close>: from
  the observation at \<open>t0\<close>, where the counters of \<open>k\<close> were \<open>c0\<close>, to the newest one at \<open>t\<close>, where
  they are \<open>c\<close>, every observation of the trace has \<open>k\<close> ACTIVE, the times increase strictly and
  no counter decreases.
\<close>

type_synonym trace = "(int \<times> remote_network_diagnostics) list"

inductive unbroken :: "rate_key \<Rightarrow> trace \<Rightarrow> u64 list \<Rightarrow> int \<Rightarrow> u64 list \<Rightarrow> int \<Rightarrow> bool" for k where
  unbroken_start: "active_in d k c \<Longrightarrow> unbroken k ((t, d) # T) c t c t"
| unbroken_step: "unbroken k T c0 t0 c t \<Longrightarrow> active_in d k c' \<Longrightarrow> t < t' \<Longrightarrow> list_all2 (\<le>) c c' \<Longrightarrow>
    unbroken k ((t', d) # T) c0 t0 c' t'"

inductive_cases unbroken_NilE: "unbroken k [] c0 t0 c t"
inductive_cases unbroken_ConsE: "unbroken k (o1 # T) c0 t0 c t"

lemma active_length: "active_in d k c \<Longrightarrow> length c = 9"
  by (auto simp: active_in_def rate_values_def)

lemma unbroken_facts: "unbroken k T c0 t0 c t \<Longrightarrow> t0 \<le> t \<and> list_all2 (\<le>) c0 c \<and> length c = 9 \<and> length c0 = 9"
proof (induction rule: unbroken.induct)
  case (unbroken_start d c t T)
  then show ?case by (simp add: active_length list_all2_refl)
next
  case (unbroken_step T c0 t0 c t d c' t')
  have "list_all2 (\<le>) c0 c'"
    by (rule list_all2_trans[of "(\<le>)" "(\<le>)" "(\<le>)" c0 c c']) (use unbroken_step in auto)
  with unbroken_step show ?case by (auto simp: active_length)
qed

text \<open>The tracker over a trace: its history after it.\<close>

fun run_trace :: "trace \<Rightarrow> rate_map" where
  "run_trace [] = []"
| "run_trace ((t, d) # T) = snd (Observe (run_trace T) d t)"

definition history_ok :: "trace \<Rightarrow> rate_map \<Rightarrow> bool" where
  "history_ok T m \<longleftrightarrow> om_wf m \<and> (\<forall>k h. map_of m k = Some h \<longrightarrow>
     unbroken k T (h_baseline h) (h_start h) (h_latest h) (h_last h))"

lemma comparable_unbroken:
  assumes "history_ok T m" and "rate_comparable (map_of m k) c now" and "active_in d k c"
  obtains h where "map_of m k = Some h" "unbroken k ((now, d) # T) (h_baseline h) (h_start h) c now"
proof -
  obtain h where h: "map_of m k = Some h" "h_last h < now" "\<forall>i < 9. \<not> c ! i < h_latest h ! i"
    using assms(2) by (auto simp: rate_comparable_def split: option.splits)
  have u: "unbroken k T (h_baseline h) (h_start h) (h_latest h) (h_last h)"
    using assms(1) h(1) unfolding history_ok_def by blast
  have "list_all2 (\<le>) (h_latest h) c"
    using h(3) unbroken_facts[OF u] active_length[OF assms(3)]
    by (simp add: list_all2_conv_all_nth linorder_not_less)
  then have "unbroken k ((now, d) # T) (h_baseline h) (h_start h) c now"
    using u h(2) assms(3) by (intro unbroken_step)
  with h(1) that show thesis by blast
qed

text \<open>What a measured route gets, and the entry it leaves, over the trace extended by its snapshot.\<close>

definition measured :: "rate_key \<Rightarrow> trace \<Rightarrow> u64 list \<Rightarrow> int \<Rightarrow> network_route_rates \<Rightarrow> bool" where
  "measured k T c now rates \<longleftrightarrow>
     (case nrr_status rates of
        RATE_INVALID \<Rightarrow> False
      | RATE_MEASURING \<Rightarrow> nrr_delta rates = network_counter_delta0 \<and> nrr_send_hz rates = 0
          \<and> nrr_receive_hz rates = 0 \<and> nrr_proxy_publish_hz rates = 0 \<and> nrr_local_skipped_per_second rates = 0
      | RATE_VALID \<Rightarrow> (\<exists>c0 t0. unbroken k T c0 t0 c now \<and> 500 * 1000000 \<le> now - t0
          \<and> nrr_interval_seconds rates = ns_to_seconds (now - t0)
          \<and> (\<forall>i < 9. c0 ! i \<le> c ! i)
          \<and> nrr_delta rates = counter_delta (map (\<lambda>i. word_of_nat (unat (c ! i) - unat (c0 ! i))) [0..<9])
          \<and> nrr_send_hz rates = per_second (ncd_packets_sent (nrr_delta rates)) (nrr_interval_seconds rates)
          \<and> nrr_receive_hz rates = per_second (ncd_packets_received (nrr_delta rates)) (nrr_interval_seconds rates)
          \<and> nrr_proxy_publish_hz rates
              = per_second (ncd_samples_published (nrr_delta rates)) (nrr_interval_seconds rates)
          \<and> nrr_local_skipped_per_second rates
              = per_second (ncd_local_samples_skipped (nrr_delta rates)) (nrr_interval_seconds rates)))"

lemma word_diff_nat: "(a :: u64) \<le> b \<Longrightarrow> b - a = word_of_nat (unat b - unat a)"
  by (simp add: of_nat_diff word_le_nat_alt)

lemma measure_route_ok:
  assumes ok: "history_ok T m" and act: "active_in d k c" and eq: "measure_route (map_of m k) c now = (rates, h)"
  shows "measured k ((now, d) # T) c now rates"
    and "unbroken k ((now, d) # T) (h_baseline h) (h_start h) (h_latest h) (h_last h)"
proof -
  let ?T = "(now, d) # T"
  have fresh: "unbroken k ?T c now c now" using act by (rule unbroken_start)
  have "measured k ?T c now rates \<and> unbroken k ?T (h_baseline h) (h_start h) (h_latest h) (h_last h)"
  proof (cases "rate_comparable (map_of m k) c now")
    case False
    with eq fresh show ?thesis
      by (auto simp: measure_route_def Let_def measured_def network_route_rates0_def)
  next
    case True
    obtain g where g: "map_of m k = Some g" and u: "unbroken k ?T (h_baseline g) (h_start g) c now"
      by (rule comparable_unbroken[OF ok True act])
    show ?thesis
    proof (cases "500 * 1000000 \<le> now - h_start g")
      case short: False
      with eq True g u show ?thesis
        by (auto simp: measure_route_def Let_def measured_def network_route_rates0_def)
    next
      case long: True
      have le: "\<forall>i < 9. h_baseline g ! i \<le> c ! i"
        using unbroken_facts[OF u] by (auto simp: list_all2_conv_all_nth)
      then have delta: "map (\<lambda>i. c ! i - h_baseline g ! i) [0..<9]
          = map (\<lambda>i. word_of_nat (unat (c ! i) - unat (h_baseline g ! i))) [0..<9]"
        by (intro map_cong) (auto simp: word_diff_nat)
      let ?delta = "map (\<lambda>i. c ! i - h_baseline g ! i) [0..<9]"
      have rates: "rates = network_route_rates0\<lparr>nrr_status := RATE_VALID,
            nrr_interval_seconds := ns_to_seconds (now - h_start g), nrr_delta := counter_delta ?delta,
            nrr_send_hz := per_second (?delta ! 0) (ns_to_seconds (now - h_start g)),
            nrr_receive_hz := per_second (?delta ! 1) (ns_to_seconds (now - h_start g)),
            nrr_proxy_publish_hz := per_second (?delta ! 2) (ns_to_seconds (now - h_start g)),
            nrr_local_skipped_per_second := per_second (?delta ! 8) (ns_to_seconds (now - h_start g))\<rparr>"
        and h: "h = \<lparr>h_baseline = c, h_latest = c, h_start = now, h_last = now\<rparr>"
        using eq True g long by (auto simp: measure_route_def Let_def simp del: upt.simps list.map nth_map)
      have "nrr_delta rates = counter_delta (map (\<lambda>i. word_of_nat (unat (c ! i) - unat (h_baseline g ! i))) [0..<9])"
        unfolding rates by (simp only: delta) simp
      then have "measured k ?T c now rates"
        using u long le by (auto simp: measured_def rates counter_delta_def simp del: upt.simps intro!: exI)
      with fresh h show ?thesis by simp
    qed
  qed
  then show "measured k ?T c now rates"
    and "unbroken k ?T (h_baseline h) (h_start h) (h_latest h) (h_last h)" by simp_all
qed

text \<open>Every route of the snapshot, and the entries collected so far.\<close>

definition route_measured :: "trace \<Rightarrow> remote_network_diagnostics \<Rightarrow> int \<Rightarrow> remote_route \<Rightarrow> bool" where
  "route_measured T d now r \<longleftrightarrow>
     (if snapshot_success d \<and> rr_state r = 1
      then measured (rate_key d r) ((now, d) # T) (rate_values r) now (rr_rates r)
      else rr_rates r = network_route_rates0)"

lemma rates_frame [simp]:
  "rate_key d (r\<lparr>rr_rates := x\<rparr>) = rate_key d r" "rate_values (r\<lparr>rr_rates := x\<rparr>) = rate_values r"
  by (simp_all add: rate_key_def rate_values_def)

lemma history_ok_emplace:
  assumes "history_ok T m" and "unbroken k T (h_baseline h) (h_start h) (h_latest h) (h_last h)"
  shows "history_ok T (om_emplace k h m)"
proof -
  have "om_wf (om_emplace k h m)" using assms(1) by (intro om.inv_emplace) (simp add: history_ok_def)
  moreover have "unbroken j T (h_baseline g) (h_start g) (h_latest g) (h_last g)"
    if g: "map_of (om_emplace k h m) j = Some g" for j g
  proof (cases "map_of m j")
    case None
    then have "j = k \<and> g = h" using g by (auto split: if_splits option.splits)
    with assms(2) show ?thesis by simp
  next
    case (Some g')
    then have "g' = g" using g by (auto split: if_splits option.splits)
    with Some assms(1) show ?thesis unfolding history_ok_def by blast
  qed
  ultimately show ?thesis unfolding history_ok_def by blast
qed

lemma observe_routes_ok:
  assumes ok: "history_ok T m"
  shows "set rs \<subseteq> set (rnd_routes d) \<Longrightarrow> history_ok ((now, d) # T) nxt \<Longrightarrow>
    observe_routes d m now rs nxt = (rs', nxt') \<Longrightarrow>
    history_ok ((now, d) # T) nxt' \<and> (\<forall>r \<in> set rs'. route_measured T d now r)
    \<and> map (\<lambda>r. r\<lparr>rr_rates := network_route_rates0\<rparr>) rs' = map (\<lambda>r. r\<lparr>rr_rates := network_route_rates0\<rparr>) rs"
proof (induction rs arbitrary: nxt rs' nxt')
  case (Cons r rs)
  show ?case
  proof (cases "snapshot_success d \<and> rr_state r = 1")
    case False
    obtain rs1 nxt1 where o: "observe_routes d m now rs nxt = (rs1, nxt1)" by (cases "observe_routes d m now rs nxt")
    have "rs' = r\<lparr>rr_rates := network_route_rates0\<rparr> # rs1" "nxt' = nxt1"
      using Cons.prems(3) False o by (auto simp: Let_def)
    with Cons.IH[OF _ Cons.prems(2) o] Cons.prems(1) False show ?thesis
      by (auto simp: route_measured_def)
  next
    case True
    let ?k = "rate_key d r" and ?c = "rate_values r"
    obtain rates h where mr: "measure_route (map_of m ?k) ?c now = (rates, h)"
      by (cases "measure_route (map_of m ?k) ?c now")
    have act: "active_in d ?k ?c" using True Cons.prems(1) unfolding active_in_def by auto
    note M = measure_route_ok[OF ok act mr]
    obtain rs1 nxt1 where o: "observe_routes d m now rs (om_emplace ?k h nxt) = (rs1, nxt1)"
      by (cases "observe_routes d m now rs (om_emplace ?k h nxt)")
    have e: "rs' = r\<lparr>rr_rates := rates\<rparr> # rs1" "nxt' = nxt1"
      using Cons.prems(3) True o mr by (auto simp: Let_def)
    have "route_measured T d now (r\<lparr>rr_rates := rates\<rparr>)" using M(1) True by (simp add: route_measured_def)
    moreover note Cons.IH[OF _ history_ok_emplace[OF Cons.prems(2) M(2)] o]
    ultimately show ?thesis using Cons.prems(1) e by auto
  qed
qed simp

lemma history_ok_empty: "history_ok T []"
  by (simp add: history_ok_def)

lemma Observe_ok:
  assumes "history_ok T m" and "Observe m d now = (d', m')"
  shows "history_ok ((now, d) # T) m'" and "\<forall>r \<in> set (rnd_routes d'). route_measured T d now r"
    and "map (\<lambda>r. r\<lparr>rr_rates := network_route_rates0\<rparr>) (rnd_routes d')
      = map (\<lambda>r. r\<lparr>rr_rates := network_route_rates0\<rparr>) (rnd_routes d)"
proof -
  obtain rs' m1 where o1: "observe_routes d m now (rnd_routes d) [] = (rs', m1)"
    by (cases "observe_routes d m now (rnd_routes d) []")
  then have o: "observe_routes d m now (rnd_routes d) [] = (rs', m')" and d': "d' = d\<lparr>rnd_routes := rs'\<rparr>"
    using assms(2) by (simp_all add: Observe_def Let_def)
  from observe_routes_ok[OF assms(1) subset_refl history_ok_empty o] d'
  show "history_ok ((now, d) # T) m'" "\<forall>r \<in> set (rnd_routes d'). route_measured T d now r"
    "map (\<lambda>r. r\<lparr>rr_rates := network_route_rates0\<rparr>) (rnd_routes d')
      = map (\<lambda>r. r\<lparr>rr_rates := network_route_rates0\<rparr>) (rnd_routes d)" by simp_all
qed

lemma run_trace_ok: "history_ok T (run_trace T)"
proof (induction T)
  case Nil
  show ?case by (simp add: history_ok_empty)
next
  case (Cons o1 T)
  obtain t d where o1: "o1 = (t, d)" by (cases o1)
  obtain d' m' where e: "Observe (run_trace T) d t = (d', m')" by (cases "Observe (run_trace T) d t")
  from Observe_ok(1)[OF Cons e] show ?case by (simp add: o1 e)
qed

text \<open>
  C8. Rates are measured over unbroken runs only: after any trace \<open>T\<close> of observations, the next
  observation gives a route a rate (\<open>VALID\<close>) only when a run of consecutive successful snapshots,
  ending with it, has the route ACTIVE throughout with strictly increasing times and no
  decreasing counter, is at least 500 ms long, and the deltas are the differences of the
  counters at its two ends as natural numbers (no wrap-around), the rates their quotients by the
  length of the run. An ACTIVE route is otherwise \<open>MEASURING\<close> with no rates, and a route that is
  not ACTIVE, or is in a failed snapshot, has none at all.
\<close>

theorem rates_over_unbroken_runs:
  "\<forall>r \<in> set (rnd_routes (fst (Observe (run_trace T) d now))). route_measured T d now r"
  using Observe_ok(2)[OF run_trace_ok, of T d now] by (cases "Observe (run_trace T) d now") simp

text \<open>
  Observing changes nothing but the rates: the routes, in their order, with all their other
  members, and every other member of the snapshot stay as they were.
\<close>

theorem observe_only_rates:
  "map (\<lambda>r. r\<lparr>rr_rates := network_route_rates0\<rparr>) (rnd_routes (fst (Observe m d now)))
     = map (\<lambda>r. r\<lparr>rr_rates := network_route_rates0\<rparr>) (rnd_routes d)
   \<and> (fst (Observe m d now))\<lparr>rnd_routes := rnd_routes d\<rparr> = d"
proof -
  have "map (\<lambda>r. r\<lparr>rr_rates := network_route_rates0\<rparr>) (fst (observe_routes d m now rs nxt))
      = map (\<lambda>r. r\<lparr>rr_rates := network_route_rates0\<rparr>) rs" for rs nxt
    by (induction rs arbitrary: nxt) (auto simp: Let_def)
  then show ?thesis by (simp add: Observe_def Let_def)
qed

theorem rates_over_unbroken_runs_witness:
  "\<exists>d. snapshot_success d \<and> (\<forall>r \<in> set (rnd_routes (fst (Observe (run_trace []) d 1))). route_measured [] d 1 r)"
  by (rule exI[of _ "remote_network_diagnostics0\<lparr>rnd_status := DIAG_VALID\<rparr>"], rule conjI,
      simp add: snapshot_success_def, rule rates_over_unbroken_runs)

end
