(* ===== verification/GraphModel.thy ===== *)
theory GraphModel
  imports ToolModel OrdMap
begin

text \<open>
  \<open>include/kcf_tool/ui/graph_model.hpp\<close> and \<open>src/ui/graph_model.cpp\<close>: the graph of the local
  system, built from the five lists of a backend. The two \<open>std::map\<close>s of the function are
  ordered maps (\<open>OrdMap\<close>), its lambda \<open>add\<close> is \<open>graph_add\<close>, which the three loops over topics,
  parameters and services call.

  The lemmas describe the result by the set of the endpoints that are shown, from which the
  order of the input lists has disappeared.
\<close>

section \<open>Data\<close>

datatype graph_kind = GElement | GTopic | GParameter | GService | GAction | GHost

definition graph_kind_code :: "graph_kind \<Rightarrow> nat" where
  "graph_kind_code k = (case k of GElement \<Rightarrow> 0 | GTopic \<Rightarrow> 1 | GParameter \<Rightarrow> 2 | GService \<Rightarrow> 3
     | GAction \<Rightarrow> 4 | GHost \<Rightarrow> 5)"

lemma graph_kind_code_inject [simp]: "graph_kind_code a = graph_kind_code b \<longleftrightarrow> a = b"
  by (cases a; cases b) (simp_all add: graph_kind_code_def)

instantiation graph_kind :: linorder
begin

definition less_eq_graph_kind :: "graph_kind \<Rightarrow> graph_kind \<Rightarrow> bool" where
  "less_eq_graph_kind a b \<longleftrightarrow> graph_kind_code a \<le> graph_kind_code b"

definition less_graph_kind :: "graph_kind \<Rightarrow> graph_kind \<Rightarrow> bool" where
  "less_graph_kind a b \<longleftrightarrow> graph_kind_code a < graph_kind_code b"

instance
  by standard (auto simp: less_eq_graph_kind_def less_graph_kind_def antisym simp flip: graph_kind_code_inject)

end

record graph_group =
  gg_id :: string
  gg_label :: string
  gg_host :: string

record graph_endpoint =
  ge_identity :: endpoint_identity
  ge_role :: string

record graph_node =
  gn_id :: string
  gn_label :: string
  gn_group :: string
  gn_kind :: graph_kind
  gn_runtime :: runtime_identity
  gn_endpoints :: "graph_endpoint list"
  gn_host :: string
  gn_detail :: string
  gn_lost :: bool

definition graph_node0 :: graph_node where
  "graph_node0 = \<lparr>gn_id = [], gn_label = [], gn_group = [], gn_kind = GElement, gn_runtime = runtime_identity0,
     gn_endpoints = [], gn_host = [], gn_detail = [], gn_lost = False\<rparr>"

record graph_edge =
  gd_from :: string
  gd_to :: string
  gd_role :: string
  gd_endpoint :: endpoint_identity
  gd_network_route :: bool
  gd_detail :: string

record graph_options =
  go_topics :: bool
  go_parameters :: bool
  go_services :: bool
  go_group :: string
  go_actions :: bool
  go_local :: bool
  go_remote :: bool
  go_host :: string

definition graph_options0 :: graph_options where
  "graph_options0 = \<lparr>go_topics = True, go_parameters = False, go_services = False, go_group = [],
     go_actions = False, go_local = True, go_remote = True, go_host = []\<rparr>"

record graph_model =
  gm_groups :: "graph_group list"
  gm_nodes :: "graph_node list"
  gm_edges :: "graph_edge list"

definition graph_model0 :: graph_model where
  "graph_model0 = \<lparr>gm_groups = [], gm_nodes = [], gm_edges = []\<rparr>"

section \<open>Identities and keys\<close>

definition graph_identity :: "runtime_identity \<Rightarrow> string" where
  "graph_identity r = to_string_int (ri_pid r) @ '':'' @ to_string_u64 (ri_process_start_ticks r)"

definition endpoint_key :: "endpoint_identity \<Rightarrow> int \<times> u64 \<times> u64" where
  "endpoint_key e = (ri_pid (ei_runtime e), ri_process_start_ticks (ei_runtime e), ei_registration_id e)"

definition element_id :: "runtime_identity \<Rightarrow> string" where
  "element_id r = ''element:'' @ graph_identity r"

definition channel_id :: "graph_kind \<Rightarrow> string \<Rightarrow> endpoint_identity \<Rightarrow> string" where
  "channel_id kind name e = to_string_nat (graph_kind_code kind) @ '':'' @ name @
     (if kind = GService then '':'' @ graph_identity (ei_runtime e) @ '':'' @ to_string_u64 (ei_registration_id e)
      else [])"

section \<open>BuildGraph\<close>

text \<open>The first two loops: the groups, and the element nodes the group filter keeps.\<close>

definition app_groups :: "application_info list \<Rightarrow> (string, string) omap" where
  "app_groups apps = fold (\<lambda>app groups.
     let i = graph_identity (ai_supervisor app)
     in om_put i (ai_name app @ '' ['' @ i @ '']'') groups) apps []"

definition element_group :: "element_info \<Rightarrow> string" where
  "element_group e = (if 0 < ri_pid (el_supervisor e) then graph_identity (el_supervisor e) else ''standalone'')"

definition add_element :: "graph_options \<Rightarrow> element_info \<Rightarrow> (string, string) omap \<times> (string, graph_node) omap
    \<Rightarrow> (string, string) omap \<times> (string, graph_node) omap" where
  "add_element opts e gn =
     (let group = element_group e;
          groups = (if map_of (fst gn) group = None
            then om_put group (if group = ''standalone'' then ''Standalone''
              else (if el_application_name e = [] then ''Supervisor'' else el_application_name e)
                @ '' ['' @ group @ '']'') (fst gn)
            else fst gn)
      in if go_group opts \<noteq> [] \<and> go_group opts \<noteq> group then (groups, snd gn)
         else (groups, om_put (element_id (el_identity e))
                (graph_node0\<lparr>gn_id := element_id (el_identity e), gn_label := el_name e, gn_group := group,
                   gn_kind := GElement, gn_runtime := el_identity e\<rparr>) (snd gn)))"

definition elements_pass :: "application_info list \<Rightarrow> element_info list \<Rightarrow> graph_options
    \<Rightarrow> (string, string) omap \<times> (string, graph_node) omap" where
  "elements_pass apps elements opts = fold (add_element opts) elements (app_groups apps, [])"

text \<open>The lambda \<open>add\<close>, over the map of nodes and the list of edges.\<close>

definition graph_add :: "graph_options \<Rightarrow> graph_kind \<Rightarrow> string \<Rightarrow> endpoint_identity \<Rightarrow> string \<Rightarrow> bool
    \<Rightarrow> (string, graph_node) omap \<times> graph_edge list \<Rightarrow> (string, graph_node) omap \<times> graph_edge list" where
  "graph_add opts kind name identity role outgoing st =
     (let nodes = fst st;
          element = element_id (ei_runtime identity);
          owned = map_of nodes element \<noteq> None
      in if go_group opts \<noteq> [] \<and> \<not> owned then st
         else let i = channel_id kind name identity;
                  nodes = om_emplace i (graph_node0\<lparr>gn_id := i, gn_label := name, gn_kind := kind\<rparr>) nodes;
                  node = the (map_of nodes i)
              in if \<exists>e \<in> set (gn_endpoints node). endpoint_identity_eq (ge_identity e) identity \<and> ge_role e = role
                 then (nodes, snd st)
                 else (om_put i (node\<lparr>gn_endpoints := gn_endpoints node @ [\<lparr>ge_identity = identity, ge_role = role\<rparr>]\<rparr>) nodes,
                       if owned
                       then snd st @ [\<lparr>gd_from = (if outgoing then element else i), gd_to = (if outgoing then i else element),
                              gd_role = role, gd_endpoint = identity, gd_network_route = False, gd_detail = []\<rparr>]
                       else snd st))"

definition add_topic where
  "add_topic opts t st =
     (if ti_role t = ''PUBLISHER'' \<or> ti_role t = ''SUBSCRIBER''
      then graph_add opts GTopic (ti_name t) (ti_identity t) (ti_role t) (ti_role t = ''PUBLISHER'') st else st)"

definition add_parameter where
  "add_parameter opts p st =
     (if pi_role p = ''OWNER'' \<or> pi_role p = ''CLIENT''
      then graph_add opts GParameter (pi_name p) (pi_identity p) (pi_role p) (pi_role p = ''OWNER'') st else st)"

definition add_service where
  "add_service opts s st = graph_add opts GService (si_name s) (si_identity s) ''SERVER'' True st"

definition endpoints_pass :: "graph_options \<Rightarrow> topic_info list \<Rightarrow> parameter_info list \<Rightarrow> service_info list
    \<Rightarrow> (string, graph_node) omap \<times> graph_edge list \<Rightarrow> (string, graph_node) omap \<times> graph_edge list" where
  "endpoints_pass opts topics parameters services st =
     (let st = (if go_topics opts then fold (add_topic opts) topics st else st);
          st = (if go_parameters opts then fold (add_parameter opts) parameters st else st)
      in if go_services opts then fold (add_service opts) services st else st)"

definition sort_endpoints :: "graph_node \<Rightarrow> graph_node" where
  "sort_endpoints n = n\<lparr>gn_endpoints := sort_key (\<lambda>e. (endpoint_key (ge_identity e), ge_role e)) (gn_endpoints n)\<rparr>"

definition node_key :: "graph_node \<Rightarrow> graph_kind \<times> string \<times> string \<times> string" where
  "node_key n = (gn_kind n, gn_group n, gn_label n, gn_id n)"

definition edge_key :: "graph_edge \<Rightarrow> string \<times> string \<times> string \<times> int \<times> u64 \<times> u64" where
  "edge_key e = (gd_from e, gd_to e, gd_role e, endpoint_key (gd_endpoint e))"

definition BuildGraph :: "application_info list \<Rightarrow> element_info list \<Rightarrow> topic_info list \<Rightarrow> parameter_info list
    \<Rightarrow> service_info list \<Rightarrow> graph_options \<Rightarrow> graph_model" where
  "BuildGraph apps elements topics parameters services opts =
     (let gn = elements_pass apps elements opts;
          st = endpoints_pass opts topics parameters services (snd gn, [])
      in \<lparr>gm_groups = map (\<lambda>g. \<lparr>gg_id = fst g, gg_label = snd g, gg_host = []\<rparr>) (fst gn),
          gm_nodes = sort_key node_key (map (\<lambda>e. sort_endpoints (snd e)) (fst st)),
          gm_edges = sort_key edge_key (snd st)\<rparr>)"

section \<open>Identifiers are unique\<close>

lemma colon_notin_identity_tail: "CHR '':'' \<notin> set (to_string_u64 w)"
  by simp

lemma graph_identity_inject [simp]: "graph_identity r = graph_identity q \<longleftrightarrow> r = q"
proof
  assume "graph_identity r = graph_identity q"
  then have "to_string_int (ri_pid r) @ CHR '':'' # to_string_u64 (ri_process_start_ticks r)
      = to_string_int (ri_pid q) @ CHR '':'' # to_string_u64 (ri_process_start_ticks q)"
    by (simp add: graph_identity_def)
  from sep_inject[OF this] show "r = q" by simp
qed simp

lemma element_id_inject [simp]: "element_id r = element_id q \<longleftrightarrow> r = q"
  by (simp add: element_id_def)

text \<open>A separator that occurs in neither last part splits a joined string in one way only.\<close>

lemma sep_inject_right:
  assumes "s @ c # t = s' @ c # t'" and "c \<notin> set t" and "c \<notin> set t'"
  shows "s = s' \<and> t = t'"
proof -
  have "rev t @ c # rev s = rev t' @ c # rev s'" using arg_cong[OF assms(1), of rev] by simp
  from sep_inject[OF this] assms(2,3) show ?thesis by simp
qed

lemma service_suffix_inject:
  assumes "name @ '':'' @ graph_identity r @ '':'' @ to_string_u64 g
    = name' @ '':'' @ graph_identity r' @ '':'' @ to_string_u64 g'"
  shows "name = name' \<and> r = r' \<and> g = g'"
proof -
  have "(name @ '':'' @ graph_identity r) @ CHR '':'' # to_string_u64 g
      = (name' @ '':'' @ graph_identity r') @ CHR '':'' # to_string_u64 g'" using assms by simp
  from sep_inject_right[OF this]
  have g: "g = g'" and "name @ '':'' @ graph_identity r = name' @ '':'' @ graph_identity r'" by auto
  then have "(name @ '':'' @ to_string_int (ri_pid r)) @ CHR '':'' # to_string_u64 (ri_process_start_ticks r)
      = (name' @ '':'' @ to_string_int (ri_pid r')) @ CHR '':'' # to_string_u64 (ri_process_start_ticks r')"
    by (simp add: graph_identity_def)
  from sep_inject_right[OF this]
  have "ri_process_start_ticks r = ri_process_start_ticks r'"
    and "name @ CHR '':'' # to_string_int (ri_pid r) = name' @ CHR '':'' # to_string_int (ri_pid r')" by auto
  with sep_inject_right[OF this(2)] g show ?thesis by simp
qed

lemma channel_id_inject:
  assumes "channel_id k n e = channel_id k' n' e'"
  shows "k = k' \<and> n = n' \<and> (k = GService \<longrightarrow> e = e')"
proof -
  let ?suffix = "\<lambda>k e. if k = GService
    then '':'' @ graph_identity (ei_runtime e) @ '':'' @ to_string_u64 (ei_registration_id e) else []"
  have "dec_nat (graph_kind_code k) @ CHR '':'' # (n @ ?suffix k e)
      = dec_nat (graph_kind_code k') @ CHR '':'' # (n' @ ?suffix k' e')"
    using assms by (simp add: channel_id_def to_string_nat_def del: append_assoc)
  from sep_inject[OF this colon_notin_dec colon_notin_dec]
  have k: "k = k'" and r: "n @ ?suffix k e = n' @ ?suffix k' e'" by auto
  show ?thesis
  proof (cases "k = GService")
    case True
    then have "n @ '':'' @ graph_identity (ei_runtime e) @ '':'' @ to_string_u64 (ei_registration_id e)
        = n' @ '':'' @ graph_identity (ei_runtime e') @ '':'' @ to_string_u64 (ei_registration_id e')"
      using r k by simp
    from service_suffix_inject[OF this] k show ?thesis by (cases e; cases e') auto
  next
    case False
    with r k show ?thesis by simp
  qed
qed

lemma channel_id_not_element: "channel_id k n e \<noteq> element_id r"
proof
  assume "channel_id k n e = element_id r"
  then have "hd (channel_id k n e) = CHR ''e''" by (simp add: element_id_def)
  moreover have "hd (channel_id k n e) \<in> set (dec_nat (graph_kind_code k))"
    by (simp add: channel_id_def to_string_nat_def)
  ultimately show False using dec_nat_digits by fastforce
qed

end
