(* ===== verification/GraphBuild.thy ===== *)
theory GraphBuild
  imports GraphModel
begin

text \<open>
  What \<open>BuildGraph\<close> of \<open>GraphModel\<close> computes. The three loops are one fold over the endpoints
  (\<open>graph_items\<close>); its invariant \<open>pass_inv\<close> says what the node map and the edge list hold after the
  endpoints of a set, so that two runs over the same set sort to the same lists.
\<close>

section \<open>Endpoints as items\<close>

text \<open>
  What a loop passes to \<open>add\<close>: kind, name, identity and role. The direction of the edge follows
  from the role.
\<close>

datatype graph_item =
  GraphItem (it_kind: graph_kind) (it_name: string) (it_identity: endpoint_identity) (it_role: string)

definition outgoing_role :: "string \<Rightarrow> bool" where
  "outgoing_role role \<longleftrightarrow> role = ''PUBLISHER'' \<or> role = ''OWNER'' \<or> role = ''SERVER''"

definition graph_items :: "graph_options \<Rightarrow> topic_info list \<Rightarrow> parameter_info list \<Rightarrow> service_info list \<Rightarrow> graph_item list" where
  "graph_items opts topics parameters services =
     (if go_topics opts then map (\<lambda>t. GraphItem GTopic (ti_name t) (ti_identity t) (ti_role t))
        (filter (\<lambda>t. ti_role t = ''PUBLISHER'' \<or> ti_role t = ''SUBSCRIBER'') topics) else [])
   @ (if go_parameters opts then map (\<lambda>p. GraphItem GParameter (pi_name p) (pi_identity p) (pi_role p))
        (filter (\<lambda>p. pi_role p = ''OWNER'' \<or> pi_role p = ''CLIENT'') parameters) else [])
   @ (if go_services opts then map (\<lambda>s. GraphItem GService (si_name s) (si_identity s) ''SERVER'') services else [])"

definition add_item :: "graph_options \<Rightarrow> graph_item \<Rightarrow> (string, graph_node) omap \<times> graph_edge list
    \<Rightarrow> (string, graph_node) omap \<times> graph_edge list" where
  "add_item opts i st = graph_add opts (it_kind i) (it_name i) (it_identity i) (it_role i) (outgoing_role (it_role i)) st"

lemma fold_add_topics:
  "fold (add_topic opts) topics st = fold (add_item opts) (map (\<lambda>t. GraphItem GTopic (ti_name t) (ti_identity t) (ti_role t))
     (filter (\<lambda>t. ti_role t = ''PUBLISHER'' \<or> ti_role t = ''SUBSCRIBER'') topics)) st"
  by (induction topics arbitrary: st) (auto simp: add_topic_def add_item_def outgoing_role_def)

lemma fold_add_parameters:
  "fold (add_parameter opts) parameters st = fold (add_item opts) (map (\<lambda>p. GraphItem GParameter (pi_name p) (pi_identity p) (pi_role p))
     (filter (\<lambda>p. pi_role p = ''OWNER'' \<or> pi_role p = ''CLIENT'') parameters)) st"
  by (induction parameters arbitrary: st) (auto simp: add_parameter_def add_item_def outgoing_role_def)

lemma fold_add_services:
  "fold (add_service opts) services st = fold (add_item opts) (map (\<lambda>s. GraphItem GService (si_name s) (si_identity s) ''SERVER'') services) st"
  by (induction services arbitrary: st) (auto simp: add_service_def add_item_def outgoing_role_def)

lemma endpoints_pass_items:
  "endpoints_pass opts topics parameters services st = fold (add_item opts) (graph_items opts topics parameters services) st"
  by (simp add: endpoints_pass_def graph_items_def Let_def fold_add_topics fold_add_parameters fold_add_services)

definition item_id :: "graph_item \<Rightarrow> string" where
  "item_id i = channel_id (it_kind i) (it_name i) (it_identity i)"

definition item_runtime :: "graph_item \<Rightarrow> runtime_identity" where
  "item_runtime i = ei_runtime (it_identity i)"

definition item_endpoint :: "graph_item \<Rightarrow> graph_endpoint" where
  "item_endpoint i = \<lparr>ge_identity = it_identity i, ge_role = it_role i\<rparr>"

definition item_node :: "graph_item \<Rightarrow> graph_node" where
  "item_node i = graph_node0\<lparr>gn_id := item_id i, gn_label := it_name i, gn_kind := it_kind i\<rparr>"

definition item_edge :: "graph_item \<Rightarrow> graph_edge" where
  "item_edge i =
     (let element = element_id (item_runtime i); out = outgoing_role (it_role i)
      in \<lparr>gd_from = (if out then element else item_id i), gd_to = (if out then item_id i else element),
          gd_role = it_role i, gd_endpoint = it_identity i, gd_network_route = False, gd_detail = []\<rparr>)"

text \<open>The owner is among the element nodes; the item passes the group filter.\<close>

definition item_owned :: "(string, graph_node) omap \<Rightarrow> graph_item \<Rightarrow> bool" where
  "item_owned nodes0 i \<longleftrightarrow> map_of nodes0 (element_id (item_runtime i)) \<noteq> None"

definition item_visible :: "graph_options \<Rightarrow> (string, graph_node) omap \<Rightarrow> graph_item \<Rightarrow> bool" where
  "item_visible opts nodes0 i \<longleftrightarrow> go_group opts = [] \<or> item_owned nodes0 i"

lemma item_id_not_element [simp]: "item_id i \<noteq> element_id r" "element_id r \<noteq> item_id i"
  using channel_id_not_element[of "it_kind i" "it_name i" "it_identity i" r] by (simp_all add: item_id_def)

lemma item_id_inject:
  "item_id i = item_id j \<Longrightarrow> it_kind i = it_kind j \<and> it_name i = it_name j"
  unfolding item_id_def using channel_id_inject by blast

lemma item_inject: "item_id i = item_id j \<Longrightarrow> item_endpoint i = item_endpoint j \<Longrightarrow> i = j"
  using item_id_inject[of i j] by (auto simp: item_endpoint_def graph_item.expand)

lemma item_node_id: "item_id i = item_id j \<Longrightarrow> item_node i = item_node j"
  using item_id_inject[of i j] by (simp add: item_node_def)

lemma item_edge_inject: "item_edge i = item_edge j \<longleftrightarrow> i = j"
proof
  assume e: "item_edge i = item_edge j"
  then have "it_role i = it_role j" "it_identity i = it_identity j"
    by (auto simp: item_edge_def Let_def)
  moreover from this e have "item_id i = item_id j" by (auto simp: item_edge_def Let_def split: if_splits)
  ultimately show "i = j" by (intro item_inject) (simp_all add: item_endpoint_def)
qed simp

section \<open>The invariant of the loops\<close>

definition shown_items :: "graph_options \<Rightarrow> (string, graph_node) omap \<Rightarrow> graph_item list \<Rightarrow> graph_item set" where
  "shown_items opts nodes0 items = {i \<in> set items. item_visible opts nodes0 i}"

definition keys_element :: "(string, graph_node) omap \<Rightarrow> bool" where
  "keys_element nodes0 \<longleftrightarrow> (\<forall>x. map_of nodes0 x \<noteq> None \<longrightarrow> (\<exists>r. x = element_id r))"

definition pass_inv :: "(string, graph_node) omap \<Rightarrow> graph_item set \<Rightarrow> (string, graph_node) omap \<times> graph_edge list \<Rightarrow> bool" where
  "pass_inv nodes0 V st \<longleftrightarrow> om_wf (fst st)
     \<and> (\<forall>r. map_of (fst st) (element_id r) = map_of nodes0 (element_id r))
     \<and> (\<forall>x. map_of (fst st) x \<noteq> None \<longrightarrow> (\<exists>r. x = element_id r) \<or> (\<exists>i \<in> V. item_id i = x))
     \<and> (\<forall>i \<in> V. \<exists>eps. map_of (fst st) (item_id i) = Some ((item_node i)\<lparr>gn_endpoints := eps\<rparr>)
          \<and> distinct eps \<and> set eps = item_endpoint ` {j \<in> V. item_id j = item_id i})
     \<and> distinct (snd st) \<and> set (snd st) = item_edge ` {i \<in> V. item_owned nodes0 i}"

lemma add_item_alt:
  "add_item opts i st =
     (let owned = map_of (fst st) (element_id (item_runtime i)) \<noteq> None
      in if go_group opts \<noteq> [] \<and> \<not> owned then st
         else let nodes = om_emplace (item_id i) (item_node i) (fst st);
                  node = the (map_of nodes (item_id i))
              in if item_endpoint i \<in> set (gn_endpoints node) then (nodes, snd st)
                 else (om_put (item_id i) (node\<lparr>gn_endpoints := gn_endpoints node @ [item_endpoint i]\<rparr>) nodes,
                       if owned then snd st @ [item_edge i] else snd st))"
proof -
  have ep: "(\<exists>e \<in> set eps. endpoint_identity_eq (ge_identity e) x \<and> ge_role e = r) \<longleftrightarrow> \<lparr>ge_identity = x, ge_role = r\<rparr> \<in> set eps"
    for eps :: "graph_endpoint list" and x r
    by (metis endpoint_identity_eq graph_endpoint.select_convs graph_endpoint.surjective unit.exhaust)
  show ?thesis
    unfolding add_item_def graph_add_def item_runtime_def item_id_def item_node_def item_endpoint_def item_edge_def
    by (simp only: ep Let_def)
qed

lemma item_node_endpoints [simp]: "gn_endpoints (item_node i) = []"
  by (simp add: item_node_def graph_node0_def)

text \<open>Adding to a channel that is already there, and to a new one.\<close>

lemma pass_inv_extend:
  assumes inv: "pass_inv nodes0 V st" and new: "i \<notin> V"
    and node: "map_of (fst st) (item_id i) = None \<and> eps = [] \<or>
      map_of (fst st) (item_id i) = Some ((item_node i)\<lparr>gn_endpoints := eps\<rparr>)"
    and eps: "distinct eps" "set eps = item_endpoint ` {j \<in> V. item_id j = item_id i}"
    and wf: "om_wf nodes'" and nodes': "map_of nodes' = (map_of (fst st))(item_id i \<mapsto>
      (item_node i)\<lparr>gn_endpoints := eps @ [item_endpoint i]\<rparr>)"
  shows "pass_inv nodes0 (insert i V) (nodes', if item_owned nodes0 i then snd st @ [item_edge i] else snd st)"
proof -
  have ep: "item_endpoint i \<notin> set eps" using eps(2) new by (auto dest: item_inject[OF sym])
  have same: "{j \<in> insert i V. item_id j = item_id i} = insert i {j \<in> V. item_id j = item_id i}" by auto
  have chan: "\<exists>eps'. map_of nodes' (item_id j) = Some ((item_node j)\<lparr>gn_endpoints := eps'\<rparr>)
      \<and> distinct eps' \<and> set eps' = item_endpoint ` {l \<in> insert i V. item_id l = item_id j}"
    if j: "j \<in> insert i V" for j
  proof (cases "item_id j = item_id i")
    case True
    then have "map_of nodes' (item_id j) = Some ((item_node j)\<lparr>gn_endpoints := eps @ [item_endpoint i]\<rparr>)"
      using item_node_id[OF True] by (simp add: nodes')
    moreover have "set (eps @ [item_endpoint i]) = item_endpoint ` {l \<in> insert i V. item_id l = item_id j}"
      unfolding True same using eps(2) by auto
    moreover have "distinct (eps @ [item_endpoint i])" using eps(1) ep by simp
    ultimately show ?thesis by blast
  next
    case False
    then have "{l \<in> insert i V. item_id l = item_id j} = {l \<in> V. item_id l = item_id j}" by auto
    moreover have "j \<in> V" using j False by auto
    ultimately show ?thesis using inv False by (simp add: pass_inv_def nodes')
  qed
  have edge: "item_edge i \<notin> set (snd st)"
    using inv new item_edge_inject by (auto simp: pass_inv_def)
  have owned: "{j \<in> insert i V. item_owned nodes0 j} =
      (if item_owned nodes0 i then insert i {j \<in> V. item_owned nodes0 j} else {j \<in> V. item_owned nodes0 j})" by auto
  show ?thesis
    unfolding pass_inv_def fst_conv snd_conv
  proof (intro conjI)
    show "\<forall>r. map_of nodes' (element_id r) = map_of nodes0 (element_id r)"
      using inv by (simp add: pass_inv_def nodes')
    show "\<forall>x. map_of nodes' x \<noteq> None \<longrightarrow> (\<exists>r. x = element_id r) \<or> (\<exists>j \<in> insert i V. item_id j = x)"
      using inv by (auto simp: pass_inv_def nodes')
    show "\<forall>j \<in> insert i V. \<exists>eps'. map_of nodes' (item_id j) = Some ((item_node j)\<lparr>gn_endpoints := eps'\<rparr>)
      \<and> distinct eps' \<and> set eps' = item_endpoint ` {l \<in> insert i V. item_id l = item_id j}"
      using chan by blast
    show "distinct (if item_owned nodes0 i then snd st @ [item_edge i] else snd st)"
      using inv edge by (simp add: pass_inv_def)
    show "set (if item_owned nodes0 i then snd st @ [item_edge i] else snd st)
        = item_edge ` {j \<in> insert i V. item_owned nodes0 j}"
      unfolding owned using inv by (simp add: pass_inv_def)
  qed (rule wf)
qed

lemma add_item_inv:
  assumes inv: "pass_inv nodes0 V st"
  shows "pass_inv nodes0 (if item_visible opts nodes0 i then insert i V else V) (add_item opts i st)"
proof -
  have ow: "map_of (fst st) (element_id (item_runtime i)) \<noteq> None \<longleftrightarrow> item_owned nodes0 i"
    using inv by (simp add: pass_inv_def item_owned_def)
  have wf: "om_wf (fst st)" using inv by (simp add: pass_inv_def)
  show ?thesis
  proof (cases "item_visible opts nodes0 i")
    case False
    then show ?thesis using inv ow by (simp add: add_item_alt item_visible_def Let_def)
  next
    case vis: True
    show ?thesis
    proof (cases "\<exists>j \<in> V. item_id j = item_id i")
      case False
      then have none: "map_of (fst st) (item_id i) = None"
        using inv unfolding pass_inv_def by (metis item_id_not_element(1))
      have e: "add_item opts i st =
          (om_put (item_id i) ((item_node i)\<lparr>gn_endpoints := [] @ [item_endpoint i]\<rparr>) (om_emplace (item_id i) (item_node i) (fst st)),
           if item_owned nodes0 i then snd st @ [item_edge i] else snd st)"
        using vis none ow by (auto simp: add_item_alt Let_def item_visible_def)
      have "pass_inv nodes0 (insert i V) (add_item opts i st)"
        unfolding e
        by (rule pass_inv_extend[OF inv, where eps = "[]"])
          (use False none wf in \<open>auto simp: om.inv_put om.inv_emplace\<close>)
      with vis show ?thesis by simp
    next
      case True
      then obtain j where j: "j \<in> V" "item_id j = item_id i" by blast
      obtain eps where eps: "map_of (fst st) (item_id i) = Some ((item_node i)\<lparr>gn_endpoints := eps\<rparr>)"
        "distinct eps" "set eps = item_endpoint ` {l \<in> V. item_id l = item_id i}"
        using inv j item_node_id[OF j(2)] unfolding pass_inv_def by metis
      have em: "om_emplace (item_id i) (item_node i) (fst st) = fst st" using eps(1) by (simp add: om_emplace_def)
      show ?thesis
      proof (cases "item_endpoint i \<in> set eps")
        case True
        then have "i \<in> V" using eps(3) by (auto dest: item_inject[OF sym])
        moreover have "add_item opts i st = st"
          using vis ow em eps(1) True by (auto simp: add_item_alt Let_def item_visible_def)
        ultimately show ?thesis using vis inv by (simp add: insert_absorb)
      next
        case False
        then have "i \<notin> V" using eps(3) by auto
        have e: "add_item opts i st =
            (om_put (item_id i) ((item_node i)\<lparr>gn_endpoints := eps @ [item_endpoint i]\<rparr>) (fst st),
             if item_owned nodes0 i then snd st @ [item_edge i] else snd st)"
          using vis ow em eps(1) False by (auto simp: add_item_alt Let_def item_visible_def)
        have "pass_inv nodes0 (insert i V) (add_item opts i st)"
          unfolding e
          by (rule pass_inv_extend[OF inv \<open>i \<notin> V\<close>, where eps = eps])
            (use eps wf in \<open>auto simp: om.inv_put\<close>)
        with vis show ?thesis by simp
      qed
    qed
  qed
qed

lemma add_items_inv:
  "pass_inv nodes0 V st \<Longrightarrow> pass_inv nodes0 (V \<union> shown_items opts nodes0 items) (fold (add_item opts) items st)"
proof (induction items arbitrary: V st)
  case Nil
  then show ?case by (simp add: shown_items_def)
next
  case (Cons i items)
  have "(if item_visible opts nodes0 i then insert i V else V) \<union> shown_items opts nodes0 items
      = V \<union> shown_items opts nodes0 (i # items)"
    by (auto simp: shown_items_def)
  with Cons.IH[OF add_item_inv[OF Cons.prems, of opts i]] show ?case by simp
qed

lemma pass_inv_start: "om_wf nodes0 \<Longrightarrow> keys_element nodes0 \<Longrightarrow> pass_inv nodes0 {} (nodes0, [])"
  by (auto simp: pass_inv_def keys_element_def)

section \<open>The element nodes\<close>

text \<open>The elements the group filter keeps; the last one of an identity is the node.\<close>

definition kept_elements :: "graph_options \<Rightarrow> element_info list \<Rightarrow> element_info list" where
  "kept_elements opts elements = filter (\<lambda>e. go_group opts = [] \<or> element_group e = go_group opts) elements"

definition element_node :: "element_info \<Rightarrow> graph_node" where
  "element_node e = graph_node0\<lparr>gn_id := element_id (el_identity e), gn_label := el_name e,
     gn_group := element_group e, gn_kind := GElement, gn_runtime := el_identity e\<rparr>"

definition element_nodes :: "graph_options \<Rightarrow> element_info list \<Rightarrow> (string, graph_node) omap" where
  "element_nodes opts elements = om.put_all (map (\<lambda>e. (element_id (el_identity e), element_node e)) (kept_elements opts elements)) []"

lemma elements_pass_nodes:
  "snd (fold (add_element opts) elements gn) =
    om.put_all (map (\<lambda>e. (element_id (el_identity e), element_node e)) (kept_elements opts elements)) (snd gn)"
  by (induction elements arbitrary: gn)
    (auto simp: add_element_def kept_elements_def element_node_def Let_def)

lemma elements_pass_snd: "snd (elements_pass apps elements opts) = element_nodes opts elements"
  by (simp add: elements_pass_def element_nodes_def elements_pass_nodes)

lemma element_nodes_wf: "om_wf (element_nodes opts elements)"
  by (simp add: element_nodes_def om.inv_put_all)

lemma element_nodes_get:
  "map_of (element_nodes opts elements) =
    map_of (rev (map (\<lambda>e. (element_id (el_identity e), element_node e)) (kept_elements opts elements)))"
  by (simp add: element_nodes_def om.get_put_all)

lemma element_nodes_Some:
  "map_of (element_nodes opts elements) x = Some n \<Longrightarrow>
    \<exists>e \<in> set (kept_elements opts elements). x = element_id (el_identity e) \<and> n = element_node e"
  unfolding element_nodes_get by (drule map_of_SomeD) auto

lemma element_nodes_keys:
  "map_of (element_nodes opts elements) x \<noteq> None \<longleftrightarrow> (\<exists>e \<in> set (kept_elements opts elements). x = element_id (el_identity e))"
  unfolding element_nodes_get by (force simp: map_of_eq_None_iff image_image)

lemma keys_element_nodes: "keys_element (element_nodes opts elements)"
  using element_nodes_Some by (fastforce simp: keys_element_def)

text \<open>The items that are shown, and those whose owner is shown, in terms of the inputs alone.\<close>

definition has_owner :: "graph_options \<Rightarrow> element_info list \<Rightarrow> graph_item \<Rightarrow> bool" where
  "has_owner opts elements i \<longleftrightarrow> (\<exists>e \<in> set (kept_elements opts elements). el_identity e = item_runtime i)"

definition shown :: "graph_options \<Rightarrow> element_info list \<Rightarrow> topic_info list \<Rightarrow> parameter_info list \<Rightarrow> service_info list
    \<Rightarrow> graph_item set" where
  "shown opts elements topics parameters services =
     {i \<in> set (graph_items opts topics parameters services). go_group opts = [] \<or> has_owner opts elements i}"

lemma item_owned_elements: "item_owned (element_nodes opts elements) i \<longleftrightarrow> has_owner opts elements i"
proof -
  have "item_owned (element_nodes opts elements) i \<longleftrightarrow>
      (\<exists>e \<in> set (kept_elements opts elements). element_id (item_runtime i) = element_id (el_identity e))"
    unfolding item_owned_def by (rule element_nodes_keys)
  then show ?thesis unfolding has_owner_def element_id_inject by metis
qed

lemma shown_items_elements:
  "shown_items opts (element_nodes opts elements) (graph_items opts topics parameters services)
    = shown opts elements topics parameters services"
  by (simp add: shown_items_def shown_def item_visible_def item_owned_elements)

text \<open>The state after the three loops.\<close>

definition graph_state :: "element_info list \<Rightarrow> topic_info list \<Rightarrow> parameter_info list \<Rightarrow> service_info list \<Rightarrow> graph_options
    \<Rightarrow> (string, graph_node) omap \<times> graph_edge list" where
  "graph_state elements topics parameters services opts =
     endpoints_pass opts topics parameters services (element_nodes opts elements, [])"

lemma graph_state_inv:
  "pass_inv (element_nodes opts elements) (shown opts elements topics parameters services)
    (graph_state elements topics parameters services opts)"
  using add_items_inv[OF pass_inv_start[OF element_nodes_wf[of opts elements] keys_element_nodes], of opts
      "graph_items opts topics parameters services"]
  by (simp add: graph_state_def endpoints_pass_items shown_items_elements)

lemma BuildGraph_state:
  "gm_nodes (BuildGraph apps elements topics parameters services opts)
     = sort_key node_key (map (\<lambda>e. sort_endpoints (snd e)) (fst (graph_state elements topics parameters services opts)))"
  "gm_edges (BuildGraph apps elements topics parameters services opts)
     = sort_key edge_key (snd (graph_state elements topics parameters services opts))"
  by (simp_all add: BuildGraph_def Let_def graph_state_def elements_pass_snd)

section \<open>The result is determined by what is shown\<close>

definition endpoint_sort_key :: "graph_endpoint \<Rightarrow> (int \<times> u64 \<times> u64) \<times> string" where
  "endpoint_sort_key e = (endpoint_key (ge_identity e), ge_role e)"

lemma endpoint_key_inject [simp]: "endpoint_key a = endpoint_key b \<longleftrightarrow> a = b"
  by (cases a; cases b; cases "ei_runtime a"; cases "ei_runtime b") (auto simp: endpoint_key_def)

lemma endpoint_sort_key_inject: "endpoint_sort_key a = endpoint_sort_key b \<longleftrightarrow> a = b"
  by (cases a; cases b) (auto simp: endpoint_sort_key_def)

lemma sort_endpoints_alt:
  "sort_endpoints n = n\<lparr>gn_endpoints := sort_key endpoint_sort_key (gn_endpoints n)\<rparr>"
  by (simp add: sort_endpoints_def endpoint_sort_key_def[abs_def])

lemma sort_key_set_cong:
  assumes "set xs = set ys" and "distinct xs" and "distinct ys" and "\<And>a b. key a = key b \<longleftrightarrow> a = b"
  shows "sort_key key xs = sort_key key ys"
proof (rule sort_key_mset_cong)
  show "mset xs = mset ys" using assms(1-3) set_eq_iff_mset_eq_distinct by blast
  show "distinct (map key xs)" using assms(2,4) by (simp add: distinct_map inj_on_def)
qed

lemma pass_inv_sorted_nodes:
  assumes "pass_inv nodes0 V st" and "pass_inv nodes0 V st'" and k0: "keys_element nodes0"
  shows "map (\<lambda>e. (fst e, sort_endpoints (snd e))) (fst st) = map (\<lambda>e. (fst e, sort_endpoints (snd e))) (fst st')"
proof -
  let ?f = "\<lambda>m. map (\<lambda>e. (fst e, sort_endpoints (snd e))) m"
  have get: "map_of (?f m) = (\<lambda>x. map_option sort_endpoints (map_of m x))" for m :: "(string, graph_node) omap"
    by (induction m) auto
  have wf: "om_wf (?f m)" if "om_wf m" for m :: "(string, graph_node) omap"
    using that by (simp add: om_wf_def comp_def)
  have same: "map_option sort_endpoints (map_of (fst st) x) = map_option sort_endpoints (map_of (fst st') x)" for x
  proof -
    consider (elem) r where "x = element_id r" | (chan) i where "i \<in> V" "x = item_id i"
      | (none) "\<forall>r. x \<noteq> element_id r" "\<forall>i \<in> V. x \<noteq> item_id i" by blast
    then show ?thesis
    proof cases
      case elem
      then show ?thesis using assms(1,2) by (simp add: pass_inv_def)
    next
      case chan
      obtain a where a: "map_of (fst st) x = Some ((item_node i)\<lparr>gn_endpoints := a\<rparr>)" "distinct a"
          "set a = item_endpoint ` {j \<in> V. item_id j = item_id i}"
        using assms(1) chan unfolding pass_inv_def by blast
      obtain b where b: "map_of (fst st') x = Some ((item_node i)\<lparr>gn_endpoints := b\<rparr>)" "distinct b"
          "set b = item_endpoint ` {j \<in> V. item_id j = item_id i}"
        using assms(2) chan unfolding pass_inv_def by blast
      have "sort_key endpoint_sort_key a = sort_key endpoint_sort_key b"
        using a b endpoint_sort_key_inject by (intro sort_key_set_cong) auto
      with a(1) b(1) show ?thesis by (simp add: sort_endpoints_alt)
    next
      case none
      then have "map_of (fst st) x = None" "map_of (fst st') x = None"
        using assms(1,2) unfolding pass_inv_def by metis+
      then show ?thesis by simp
    qed
  qed
  show ?thesis
    by (rule om_ext) (use assms(1,2) wf get same in \<open>auto simp: pass_inv_def\<close>)
qed

lemma edge_key_item: "edge_key (item_edge i) = edge_key (item_edge j) \<longleftrightarrow> i = j"
proof
  assume "edge_key (item_edge i) = edge_key (item_edge j)"
  then have "item_edge i = item_edge j"
    by (auto simp: edge_key_def item_edge_def Let_def)
  then show "i = j" by (simp add: item_edge_inject)
qed simp

lemma pass_inv_sorted_edges:
  assumes "pass_inv nodes0 V st" and "pass_inv nodes0 V st'"
  shows "sort_key edge_key (snd st) = sort_key edge_key (snd st')"
proof (rule sort_key_mset_cong)
  have d: "distinct (snd st)" "distinct (snd st')"
    and e: "set (snd st) = item_edge ` {i \<in> V. item_owned nodes0 i}" "set (snd st') = set (snd st)"
    using assms by (simp_all add: pass_inv_def)
  show "mset (snd st) = mset (snd st')" using d e(2) set_eq_iff_mset_eq_distinct by metis
  have "inj_on edge_key (set (snd st))"
    unfolding e(1) by (rule inj_onI) (auto simp: edge_key_item)
  with d(1) show "distinct (map edge_key (snd st))" by (simp add: distinct_map)
qed

lemma graph_state_determined:
  assumes "shown opts elements topics parameters services = shown opts elements topics' parameters' services'"
  shows "gm_nodes (BuildGraph apps elements topics parameters services opts)
      = gm_nodes (BuildGraph apps elements topics' parameters' services' opts)"
    and "gm_edges (BuildGraph apps elements topics parameters services opts)
      = gm_edges (BuildGraph apps elements topics' parameters' services' opts)"
proof -
  note i = graph_state_inv[of opts elements topics parameters services]
  note i' = graph_state_inv[of opts elements topics' parameters' services', folded assms]
  have "map snd (map (\<lambda>e. (fst e, sort_endpoints (snd e))) (fst (graph_state elements topics parameters services opts)))
      = map snd (map (\<lambda>e. (fst e, sort_endpoints (snd e))) (fst (graph_state elements topics' parameters' services' opts)))"
    using pass_inv_sorted_nodes[OF i i' keys_element_nodes] by simp
  then show "gm_nodes (BuildGraph apps elements topics parameters services opts)
      = gm_nodes (BuildGraph apps elements topics' parameters' services' opts)"
    by (simp add: BuildGraph_state comp_def)
  show "gm_edges (BuildGraph apps elements topics parameters services opts)
      = gm_edges (BuildGraph apps elements topics' parameters' services' opts)"
    using pass_inv_sorted_edges[OF i i'] by (simp add: BuildGraph_state)
qed

lemma shown_set_cong:
  "set topics = set topics' \<Longrightarrow> set parameters = set parameters' \<Longrightarrow> set services = set services' \<Longrightarrow>
    shown opts elements topics parameters services = shown opts elements topics' parameters' services'"
  by (auto simp: shown_def graph_items_def)

lemma node_in_graph:
  "n \<in> set (gm_nodes (BuildGraph apps elements topics parameters services opts)) \<longleftrightarrow>
    (\<exists>x m. map_of (fst (graph_state elements topics parameters services opts)) x = Some m \<and> n = sort_endpoints m)"
proof -
  have "om_wf (fst (graph_state elements topics parameters services opts))"
    using graph_state_inv by (auto simp: pass_inv_def)
  then have "(\<exists>x m. map_of (fst (graph_state elements topics parameters services opts)) x = Some m \<and> n = sort_endpoints m)
      \<longleftrightarrow> (\<exists>x m. (x, m) \<in> set (fst (graph_state elements topics parameters services opts)) \<and> n = sort_endpoints m)"
    by (simp add: om_entry_iff)
  also have "\<dots> \<longleftrightarrow> n \<in> (\<lambda>e. sort_endpoints (snd e)) ` set (fst (graph_state elements topics parameters services opts))"
    by (force simp: image_iff)
  finally show ?thesis by (simp add: BuildGraph_state)
qed

lemma sort_endpoints_fields [simp]:
  "gn_id (sort_endpoints n) = gn_id n" "gn_kind (sort_endpoints n) = gn_kind n" "gn_group (sort_endpoints n) = gn_group n"
  "gn_label (sort_endpoints n) = gn_label n" "gn_runtime (sort_endpoints n) = gn_runtime n"
  "set (gn_endpoints (sort_endpoints n)) = set (gn_endpoints n)"
  "distinct (gn_endpoints (sort_endpoints n)) = distinct (gn_endpoints n)"
  by (simp_all add: sort_endpoints_def)

lemma element_node_sorted: "sort_endpoints (element_node e) = element_node e"
  by (simp add: sort_endpoints_def element_node_def graph_node0_def)

lemma graph_nodes_cases:
  assumes "n \<in> set (gm_nodes (BuildGraph apps elements topics parameters services opts))"
  shows "(\<exists>e \<in> set (kept_elements opts elements). n = element_node e)
    \<or> (\<exists>i \<in> shown opts elements topics parameters services. n\<lparr>gn_endpoints := []\<rparr> = item_node i \<and> gn_id n = item_id i
        \<and> distinct (gn_endpoints n)
        \<and> set (gn_endpoints n) = item_endpoint ` {j \<in> shown opts elements topics parameters services. item_id j = gn_id n})"
proof -
  let ?st = "graph_state elements topics parameters services opts" and ?V = "shown opts elements topics parameters services"
  note inv = graph_state_inv[of opts elements topics parameters services, unfolded pass_inv_def]
  obtain x m where m: "map_of (fst ?st) x = Some m" "n = sort_endpoints m" using assms node_in_graph by blast
  have "(\<exists>r. x = element_id r) \<or> (\<exists>i \<in> ?V. item_id i = x)" using inv m(1) by blast
  then show ?thesis
  proof
    assume "\<exists>r. x = element_id r"
    then have "map_of (element_nodes opts elements) x = Some m" using inv m(1) by auto
    from element_nodes_Some[OF this] m(2) show ?thesis by (auto simp: element_node_sorted)
  next
    assume "\<exists>i \<in> ?V. item_id i = x"
    then obtain i where i: "i \<in> ?V" "item_id i = x" by blast
    obtain eps where eps: "m = (item_node i)\<lparr>gn_endpoints := eps\<rparr>" "distinct eps"
        "set eps = item_endpoint ` {j \<in> ?V. item_id j = item_id i}"
      using inv i m(1) by fastforce
    have id: "gn_id (item_node i) = item_id i" by (simp add: item_node_def)
    have "n\<lparr>gn_endpoints := []\<rparr> = item_node i"
      unfolding m(2) eps(1) by (simp add: sort_endpoints_def item_node_def graph_node0_def)
    then show ?thesis using i(1) eps id m(2) by (intro disjI2 bexI[of _ i]) simp_all
  qed
qed

lemma state_node_id:
  assumes "map_of (fst (graph_state elements topics parameters services opts)) x = Some m"
  shows "gn_id m = x"
proof -
  let ?st = "graph_state elements topics parameters services opts" and ?V = "shown opts elements topics parameters services"
  note inv = graph_state_inv[of opts elements topics parameters services, unfolded pass_inv_def]
  have "(\<exists>r. x = element_id r) \<or> (\<exists>i \<in> ?V. item_id i = x)" using inv assms by blast
  then show ?thesis
  proof
    assume "\<exists>r. x = element_id r"
    then have "map_of (element_nodes opts elements) x = Some m" using inv assms by auto
    from element_nodes_Some[OF this] show ?thesis by (auto simp: element_node_def)
  next
    assume "\<exists>i \<in> ?V. item_id i = x"
    then show ?thesis using inv assms by (fastforce simp: item_node_def)
  qed
qed

lemma graph_node_ids:
  "gn_id ` set (gm_nodes (BuildGraph apps elements topics parameters services opts))
     = (\<lambda>e. element_id (el_identity e)) ` set (kept_elements opts elements)
       \<union> item_id ` shown opts elements topics parameters services"
proof -
  let ?st = "graph_state elements topics parameters services opts" and ?V = "shown opts elements topics parameters services"
  note inv = graph_state_inv[of opts elements topics parameters services, unfolded pass_inv_def]
  have "gn_id ` set (gm_nodes (BuildGraph apps elements topics parameters services opts)) = {x. map_of (fst ?st) x \<noteq> None}"
  proof (rule set_eqI, rule iffI)
    fix x assume "x \<in> gn_id ` set (gm_nodes (BuildGraph apps elements topics parameters services opts))"
    then obtain n where n: "n \<in> set (gm_nodes (BuildGraph apps elements topics parameters services opts))" "x = gn_id n" by blast
    obtain y m where m: "map_of (fst ?st) y = Some m" "n = sort_endpoints m" using n(1) node_in_graph by blast
    with n(2) state_node_id[OF m(1)] show "x \<in> {x. map_of (fst ?st) x \<noteq> None}" by simp
  next
    fix x assume "x \<in> {x. map_of (fst ?st) x \<noteq> None}"
    then obtain m where m: "map_of (fst ?st) x = Some m" by auto
    then have "sort_endpoints m \<in> set (gm_nodes (BuildGraph apps elements topics parameters services opts))"
      using node_in_graph by blast
    then show "x \<in> gn_id ` set (gm_nodes (BuildGraph apps elements topics parameters services opts))"
      using state_node_id[OF m] by (intro image_eqI) simp_all
  qed
  also have "\<dots> = {x. map_of (element_nodes opts elements) x \<noteq> None} \<union> item_id ` ?V"
  proof (rule set_eqI)
    fix x
    consider r where "x = element_id r" | i where "i \<in> ?V" "x = item_id i"
      | "\<forall>r. x \<noteq> element_id r" "\<forall>i \<in> ?V. x \<noteq> item_id i" by blast
    then show "x \<in> {x. map_of (fst ?st) x \<noteq> None} \<longleftrightarrow>
        x \<in> {x. map_of (element_nodes opts elements) x \<noteq> None} \<union> item_id ` ?V"
    proof cases
      case 1
      then show ?thesis using inv by auto
    next
      case 2
      then show ?thesis using inv by fastforce
    next
      case 3
      then show ?thesis using inv keys_element_nodes[of opts elements] unfolding keys_element_def
        by (metis (no_types, lifting) Un_iff imageE mem_Collect_eq)
    qed
  qed
  also have "{x. map_of (element_nodes opts elements) x \<noteq> None} = (\<lambda>e. element_id (el_identity e)) ` set (kept_elements opts elements)"
    using element_nodes_keys by blast
  finally show ?thesis .
qed

lemma graph_node_ids_distinct:
  "distinct (map gn_id (gm_nodes (BuildGraph apps elements topics parameters services opts)))"
proof -
  let ?st = "graph_state elements topics parameters services opts" and ?V = "shown opts elements topics parameters services"
  note inv = graph_state_inv[of opts elements topics parameters services, unfolded pass_inv_def]
  have id: "gn_id (snd e) = fst e" if e: "e \<in> set (fst ?st)" for e
  proof (rule state_node_id)
    show "map_of (fst ?st) (fst e) = Some (snd e)" using inv e by (simp add: om_wf_distinct)
  qed
  have "map gn_id (map (\<lambda>e. sort_endpoints (snd e)) (fst ?st)) = map fst (fst ?st)"
    using id by simp
  then have "distinct (map gn_id (map (\<lambda>e. sort_endpoints (snd e)) (fst ?st)))"
    using inv by (simp only: om_wf_distinct)
  moreover have "mset (map gn_id (gm_nodes (BuildGraph apps elements topics parameters services opts)))
      = mset (map gn_id (map (\<lambda>e. sort_endpoints (snd e)) (fst ?st)))"
    by (simp only: BuildGraph_state mset_map mset_sort)
  ultimately show ?thesis using mset_eq_imp_distinct_iff by blast
qed

lemma graph_edge_set:
  "set (gm_edges (BuildGraph apps elements topics parameters services opts))
     = item_edge ` {i \<in> shown opts elements topics parameters services. has_owner opts elements i}"
  using graph_state_inv[of opts elements topics parameters services]
  by (simp add: BuildGraph_state pass_inv_def item_owned_elements)

lemma graph_edges_distinct:
  "distinct (gm_edges (BuildGraph apps elements topics parameters services opts))"
  using graph_state_inv[of opts elements topics parameters services]
  by (simp add: BuildGraph_state pass_inv_def)

lemma graph_edge_ends:
  assumes d: "d \<in> set (gm_edges (BuildGraph apps elements topics parameters services opts))"
  shows "gd_from d \<in> gn_id ` set (gm_nodes (BuildGraph apps elements topics parameters services opts))
    \<and> gd_to d \<in> gn_id ` set (gm_nodes (BuildGraph apps elements topics parameters services opts))"
proof -
  let ?ids = "gn_id ` set (gm_nodes (BuildGraph apps elements topics parameters services opts))"
  obtain i where i: "d = item_edge i" "i \<in> shown opts elements topics parameters services" "has_owner opts elements i"
    using d unfolding graph_edge_set by blast
  have "item_id i \<in> ?ids" using i(2) by (simp add: graph_node_ids)
  moreover obtain e where "e \<in> set (kept_elements opts elements)" "el_identity e = item_runtime i"
    using i(3) by (auto simp: has_owner_def)
  then have "element_id (item_runtime i) \<in> ?ids" unfolding graph_node_ids by (metis (mono_tags) UnI1 image_eqI)
  ultimately show ?thesis using i(1) by (simp add: item_edge_def Let_def)
qed

lemma graph_edges_local:
  "d \<in> set (gm_edges (BuildGraph apps elements topics parameters services opts)) \<Longrightarrow> \<not> gd_network_route d"
  by (auto simp: graph_edge_set item_edge_def Let_def)

lemma graph_nodes_local:
  assumes "n \<in> set (gm_nodes (BuildGraph apps elements topics parameters services opts))"
  shows "gn_host n = []"
  using graph_nodes_cases[OF assms]
proof
  assume "\<exists>e \<in> set (kept_elements opts elements). n = element_node e"
  then show ?thesis by (auto simp: element_node_def graph_node0_def)
next
  assume "\<exists>i \<in> shown opts elements topics parameters services. n\<lparr>gn_endpoints := []\<rparr> = item_node i \<and> gn_id n = item_id i
      \<and> distinct (gn_endpoints n)
      \<and> set (gn_endpoints n) = item_endpoint ` {j \<in> shown opts elements topics parameters services. item_id j = gn_id n}"
  then obtain i where "n\<lparr>gn_endpoints := []\<rparr> = item_node i" by blast
  from arg_cong[OF this, of gn_host] show ?thesis by (simp add: item_node_def graph_node0_def)
qed

section \<open>Properties\<close>

text \<open>
  C17. Determinism: the graph does not depend on the order in which discovery lists topics,
  parameters and services, nor on repeated entries; only the sets of the three lists matter.
\<close>

theorem graph_order_independent:
  assumes "set topics = set topics'" and "set parameters = set parameters'" and "set services = set services'"
  shows "BuildGraph apps elements topics parameters services opts = BuildGraph apps elements topics' parameters' services' opts"
proof -
  note S = graph_state_determined[OF shown_set_cong[OF assms], where apps = apps and elements = elements and opts = opts]
  have "gm_groups (BuildGraph apps elements topics parameters services opts)
      = gm_groups (BuildGraph apps elements topics' parameters' services' opts)"
    by (simp add: BuildGraph_def Let_def)
  with S show ?thesis by (intro graph_model.equality) simp_all
qed

text \<open>
  C24. The edges, exactly: one for every shown endpoint whose owner is a shown element, none
  twice and no other, drawn from the owner for a publisher, an owner or a server and to it for a
  subscriber or a client.
\<close>

theorem graph_edges_exact:
  "distinct (gm_edges (BuildGraph apps elements topics parameters services opts))
   \<and> set (gm_edges (BuildGraph apps elements topics parameters services opts))
     = item_edge ` {i \<in> shown opts elements topics parameters services. has_owner opts elements i}"
  using graph_edges_distinct graph_edge_set by blast

text \<open>
  The nodes, exactly: element nodes for the kept elements and one node per channel or service
  registration that is shown; a channel node lists, without repetition, exactly the shown
  endpoints of its channel; every kept element identity and every shown endpoint has its node.
\<close>

theorem graph_nodes_exact:
  "(\<forall>n \<in> set (gm_nodes (BuildGraph apps elements topics parameters services opts)).
      (\<exists>e \<in> set (kept_elements opts elements). n = element_node e)
    \<or> (\<exists>i \<in> shown opts elements topics parameters services. n\<lparr>gn_endpoints := []\<rparr> = item_node i
        \<and> distinct (gn_endpoints n)
        \<and> set (gn_endpoints n) = item_endpoint ` {j \<in> shown opts elements topics parameters services. item_id j = gn_id n}))
   \<and> gn_id ` set (gm_nodes (BuildGraph apps elements topics parameters services opts))
     = (\<lambda>e. element_id (el_identity e)) ` set (kept_elements opts elements)
       \<union> item_id ` shown opts elements topics parameters services"
proof (intro conjI ballI)
  fix n assume "n \<in> set (gm_nodes (BuildGraph apps elements topics parameters services opts))"
  from graph_nodes_cases[OF this]
  show "(\<exists>e \<in> set (kept_elements opts elements). n = element_node e)
    \<or> (\<exists>i \<in> shown opts elements topics parameters services. n\<lparr>gn_endpoints := []\<rparr> = item_node i
        \<and> distinct (gn_endpoints n)
        \<and> set (gn_endpoints n) = item_endpoint ` {j \<in> shown opts elements topics parameters services. item_id j = gn_id n})"
    by (rule disj_forward) (assumption, elim bexE conjE, rule bexI, intro conjI, assumption+)
qed (rule graph_node_ids)

text \<open>
  Edges connect nodes of the graph, and node ids are unique: both ends of every edge are ids
  of nodes, and no two nodes share an id.
\<close>

theorem graph_well_formed:
  "distinct (map gn_id (gm_nodes (BuildGraph apps elements topics parameters services opts)))
   \<and> (\<forall>d \<in> set (gm_edges (BuildGraph apps elements topics parameters services opts)).
        gd_from d \<in> gn_id ` set (gm_nodes (BuildGraph apps elements topics parameters services opts))
      \<and> gd_to d \<in> gn_id ` set (gm_nodes (BuildGraph apps elements topics parameters services opts)))"
  using graph_edge_ends graph_node_ids_distinct by blast

text \<open>
  The group filter: with a group chosen, every element node is of that group, and every other
  node and every edge belongs to an element of that group.
\<close>

theorem graph_group_filter:
  assumes "go_group opts \<noteq> []"
  shows "(\<forall>n \<in> set (gm_nodes (BuildGraph apps elements topics parameters services opts)).
      (if gn_kind n = GElement then gn_group n = go_group opts
       else \<forall>p \<in> set (gn_endpoints n). \<exists>e \<in> set elements.
              el_identity e = ei_runtime (ge_identity p) \<and> element_group e = go_group opts))
    \<and> (\<forall>d \<in> set (gm_edges (BuildGraph apps elements topics parameters services opts)).
         \<exists>e \<in> set elements. el_identity e = ei_runtime (gd_endpoint d) \<and> element_group e = go_group opts)"
proof (intro conjI ballI)
  fix n assume "n \<in> set (gm_nodes (BuildGraph apps elements topics parameters services opts))"
  from graph_nodes_cases[OF this]
  show "if gn_kind n = GElement then gn_group n = go_group opts
       else \<forall>p \<in> set (gn_endpoints n). \<exists>e \<in> set elements.
              el_identity e = ei_runtime (ge_identity p) \<and> element_group e = go_group opts"
  proof
    assume "\<exists>e \<in> set (kept_elements opts elements). n = element_node e"
    with assms show ?thesis by (auto simp: kept_elements_def element_node_def)
  next
    assume "\<exists>i \<in> shown opts elements topics parameters services. n\<lparr>gn_endpoints := []\<rparr> = item_node i \<and> gn_id n = item_id i
        \<and> distinct (gn_endpoints n)
        \<and> set (gn_endpoints n) = item_endpoint ` {j \<in> shown opts elements topics parameters services. item_id j = gn_id n}"
    then obtain i where i: "i \<in> shown opts elements topics parameters services" "n\<lparr>gn_endpoints := []\<rparr> = item_node i"
      and eps: "set (gn_endpoints n) = item_endpoint ` {j \<in> shown opts elements topics parameters services. item_id j = gn_id n}"
      by blast
    have "gn_kind (n\<lparr>gn_endpoints := []\<rparr>) = it_kind i" unfolding i(2) by (simp add: item_node_def)
    then have "gn_kind n \<noteq> GElement" using i(1) by (auto simp: shown_def graph_items_def split: if_splits)
    with eps assms show ?thesis
      by (auto simp: shown_def has_owner_def kept_elements_def item_endpoint_def item_runtime_def)
  qed
next
  fix d assume "d \<in> set (gm_edges (BuildGraph apps elements topics parameters services opts))"
  then obtain i where "d = item_edge i" "has_owner opts elements i" unfolding graph_edge_set by blast
  with assms show "\<exists>e \<in> set elements. el_identity e = ei_runtime (gd_endpoint d) \<and> element_group e = go_group opts"
    by (auto simp: has_owner_def kept_elements_def item_edge_def item_runtime_def Let_def)
qed

text \<open>A sample system of one element with a topic and a parameter.\<close>

definition sample_elements :: "element_info list" where
  "sample_elements = [\<lparr>el_name = ''motor'', el_pid = 7, el_executable = [], el_mode = [], el_state = [],
     el_heartbeat = 0, el_runtime_error = 0, el_identity = \<lparr>ri_pid = 7, ri_process_start_ticks = 9\<rparr>,
     el_supervisor = \<lparr>ri_pid = 5, ri_process_start_ticks = 3\<rparr>, el_application_name = ''app'',
     el_heartbeat_available = False\<rparr>]"

definition sample_topic :: topic_info where
  "sample_topic = \<lparr>ti_name = ''/odom'', ti_type_name = [], ti_payload_size = 0, ti_publishers = [],
     ti_subscribers = [], ti_frequency_hz = 0, ti_sequence = 0, ti_identity = mk_endpoint 7 9 1,
     ti_role = ''PUBLISHER'', ti_type_id = 0, ti_diagnostic_type_name = [], ti_frequency_available = False,
     ti_sequence_available = False\<rparr>"

theorem graph_well_formed_witness:
  "distinct (map gn_id (gm_nodes (BuildGraph [] sample_elements [sample_topic] [] [] graph_options0)))"
  using graph_well_formed by blast

theorem graph_nodes_exact_witness:
  "''element:7:9'' \<in> gn_id ` set (gm_nodes (BuildGraph [] sample_elements [sample_topic] [] [] graph_options0))"
proof -
  have "''element:7:9'' \<in> (\<lambda>e. element_id (el_identity e)) ` set (kept_elements graph_options0 sample_elements)"
    by code_simp
  then show ?thesis using graph_nodes_exact[of "[]" sample_elements "[sample_topic]" "[]" "[]" graph_options0] by blast
qed

theorem graph_group_filter_witness:
  "filter (\<lambda>n. gn_kind n = GElement \<and> gn_group n \<noteq> ''5:3'')
     (gm_nodes (BuildGraph [] sample_elements [] [] [] (graph_options0\<lparr>go_group := ''5:3''\<rparr>))) = []"
  using graph_group_filter[of "graph_options0\<lparr>go_group := ''5:3''\<rparr>" "[]" sample_elements "[]" "[]" "[]"]
  by (fastforce simp: filter_empty_conv split: if_splits)

theorem graph_order_independent_witness:
  "BuildGraph [] sample_elements [sample_topic, sample_topic] [] [] graph_options0
    = BuildGraph [] sample_elements [sample_topic] [] [] graph_options0"
  by (rule graph_order_independent) simp_all

end
