(* ===== verification/RemoteGraph.thy ===== *)
theory RemoteGraph
  imports GraphModel
begin

text \<open>
  \<open>src/ui/network_graph_model.cpp\<close>: the remote half of the graph. \<open>AddRemoteGraph\<close> appends the
  hosts of a network snapshot to a local graph and \<open>AddVerifiedRoutes\<close> draws an edge between two
  hosts only where both gateways report the same route as active. The system clock is the argument
  \<open>now\<close> (Unix milliseconds, unsigned as in \<open>FreshDiagnostics\<close>).

  The lemmas first describe the added nodes and edges by the endpoints that are shown, then the
  map of evidence by the observations it was filled from.
\<close>

section \<open>Text\<close>

abbreviation (input) nl :: string where "nl \<equiv> [CHR 0x0A]"

text \<open>\<open>std::fixed << std::setprecision(2)\<close>: two decimals, a tie to the even one, as glibc prints.\<close>

definition fixed2 :: "double \<Rightarrow> string" where
  "fixed2 x = (let q = quotient_of \<bar>x\<bar>; n = rne (nat (fst q * 100)) (nat (snd q))
     in (if x < 0 then ''-'' else []) @ dec_nat (n div 100) @ ''.'' @ dec_nat (n div 10 mod 10) @ dec_nat (n mod 10))"

definition EndpointKey :: "route_endpoint_identity \<Rightarrow> string" where
  "EndpointKey e = rei_host_id e @ '':'' @ rei_boot_id e @ '':'' @ to_string_int (rei_pid e) @ '':''
     @ to_string_u64 (rei_start_ticks e) @ '':'' @ to_string_u64 (rei_registration_id e)"

definition remote_id :: "remote_endpoint \<Rightarrow> string" where
  "remote_id e = ''remote-endpoint:'' @ re_id e"

definition runtime_id :: "remote_endpoint \<Rightarrow> string" where
  "runtime_id e = ''remote-runtime:'' @ re_runtime_id e"

section \<open>Verified routes\<close>

definition MatchesEndpoint :: "remote_host \<Rightarrow> remote_endpoint \<Rightarrow> remote_route \<Rightarrow> bool" where
  "MatchesEndpoint host endpoint r =
     (let publisher = re_role endpoint = ''PUBLISHER'' \<and> rr_sending r;
          subscriber = re_role endpoint = ''SUBSCRIBER'' \<and> \<not> rr_sending r
      in if re_kind endpoint \<noteq> ''T'' \<or> (\<not> publisher \<and> \<not> subscriber) then False
         else let loc = (if publisher then rr_source r else rr_destination r)
              in EndpointKey loc = re_id endpoint \<and> rei_host_id loc = rh_id host \<and> rei_boot_id loc = rh_boot_id host
                 \<and> (if publisher then rr_source_session r else rr_destination_session r) = rh_session host)"

definition FreshDiagnostics :: "remote_host \<Rightarrow> u64 \<Rightarrow> bool" where
  "FreshDiagnostics h now =
     (let d = rh_diagnostics h
      in rh_state h = ''ONLINE'' \<and> rh_compatibility h = ''COMPATIBLE'' \<and> rh_metadata_ready h
       \<and> (rnd_status d = DIAG_VALID \<or> rnd_status d = DIAG_TRUNCATED)
       \<and> rnd_gateway_host d = rh_id h \<and> rnd_gateway_boot d = rh_boot_id h \<and> rnd_gateway_session d = rh_session h
       \<and> rnd_observed_at_unix_ms d \<noteq> 0 \<and> rnd_observed_at_unix_ms d \<le> now \<and> now - rnd_observed_at_unix_ms d \<le> 10000)"

type_synonym route_key = "string \<times> string \<times> u64 \<times> u64 \<times> u64"

datatype evidence = Evidence (ev_send: "remote_route option") (ev_receive: "remote_route option")

definition route_key :: "remote_route \<Rightarrow> route_key" where
  "route_key r = (EndpointKey (rr_source r), EndpointKey (rr_destination r), rr_source_session r,
     rr_destination_session r, rr_route_id r)"

definition visible_topics :: "graph_node list \<Rightarrow> string list" where
  "visible_topics nodes = map gn_id (filter (\<lambda>n. gn_kind n = GTopic \<and> gn_host n \<noteq> []) nodes)"

definition registered :: "string list \<Rightarrow> remote_host \<Rightarrow> remote_route \<Rightarrow> bool" where
  "registered visible h r \<longleftrightarrow>
     (\<exists>e \<in> set (rh_endpoints h). MatchesEndpoint h e r \<and> remote_id e \<in> set visible)"

definition record_side :: "remote_route \<Rightarrow> evidence option \<Rightarrow> evidence" where
  "record_side r slot = (let pair = (case slot of None \<Rightarrow> Evidence None None | Some p \<Rightarrow> p)
     in if rr_sending r then Evidence (Some r) (ev_receive pair) else Evidence (ev_send pair) (Some r))"

definition add_evidence :: "string list \<Rightarrow> remote_host \<Rightarrow> remote_route \<Rightarrow> (route_key, evidence) omap \<Rightarrow> (route_key, evidence) omap" where
  "add_evidence visible h r ev =
     (if rr_state r \<noteq> 1 then ev
      else if \<not> registered visible h r then ev
      else om_put (route_key r) (record_side r (map_of ev (route_key r))) ev)"

definition host_evidence :: "u64 \<Rightarrow> string list \<Rightarrow> remote_host \<Rightarrow> (route_key, evidence) omap \<Rightarrow> (route_key, evidence) omap" where
  "host_evidence now visible h ev =
     (if \<not> FreshDiagnostics h now then ev
      else fold (add_evidence visible h) (rnd_routes (rh_diagnostics h)) ev)"

definition edge_rate :: "string \<Rightarrow> network_route_rates \<Rightarrow> double \<Rightarrow> string" where
  "edge_rate label rates v = nl @ label @ '': '' @
     (if nrr_status rates = RATE_MEASURING then ''Measuring''
      else if nrr_status rates = RATE_VALID then fixed2 v else ''Unavailable'')"

definition verified_edge :: "remote_route \<Rightarrow> remote_route \<Rightarrow> graph_edge" where
  "verified_edge r receive =
     \<lparr>gd_from = ''remote-endpoint:'' @ EndpointKey (rr_source r), gd_to = ''remote-endpoint:'' @ EndpointKey (rr_destination r),
      gd_role = ''Verified network route'', gd_endpoint = endpoint_identity0, gd_network_route = True,
      gd_detail = ''Verified ACTIVE network route / route_id='' @ to_string_u64 (rr_route_id r)
        @ edge_rate ''Network Send Hz'' (rr_rates r) (nrr_send_hz (rr_rates r))
        @ edge_rate ''Network Receive Hz'' (rr_rates receive) (nrr_receive_hz (rr_rates receive))
        @ nl @ ''Both observations within 10 s at graph refresh; measurement intervals are independent.''\<rparr>"

definition evidence_edges :: "route_key \<times> evidence \<Rightarrow> graph_edge list" where
  "evidence_edges entry = (case snd entry of
     Evidence (Some r) (Some receive) \<Rightarrow> [verified_edge r receive] | _ \<Rightarrow> [])"

definition AddVerifiedRoutes :: "u64 \<Rightarrow> graph_model \<Rightarrow> network_snapshot \<Rightarrow> graph_model" where
  "AddVerifiedRoutes now model network =
     (let ev = fold (host_evidence now (visible_topics (gm_nodes model))) (ns_hosts network) []
      in model\<lparr>gm_edges := gm_edges model @ concat (map evidence_edges ev)\<rparr>)"

section \<open>Topic diagnostics\<close>

definition RouteState :: "u8 \<Rightarrow> string" where
  "RouteState state = (if state = 0 then ''WAITING_SUBSCRIBER'' else if state = 1 then ''ACTIVE''
     else if state = 2 then ''REJECTED'' else if state = 3 then ''CLOSED'' else ''UNKNOWN'')"

definition route_rate :: "remote_route \<Rightarrow> string \<Rightarrow> double \<Rightarrow> string" where
  "route_rate r label v = label @ '': '' @
     (if rr_state r \<noteq> 1 \<or> nrr_status (rr_rates r) = RATE_INVALID then ''Unavailable''
      else if nrr_status (rr_rates r) = RATE_MEASURING then ''Measuring'' else fixed2 v) @ nl"

definition route_text :: "remote_endpoint \<Rightarrow> nat \<Rightarrow> remote_route \<Rightarrow> string" where
  "route_text endpoint number r =
     nl @ ''Route '' @ dec_nat number @ '' (route_id='' @ to_string_u64 (rr_route_id r) @ '')'' @ nl @ ''Topic: '' @ rr_name r
   @ nl @ ''State: '' @ RouteState (rr_state r) @ '' ('' @ dec_nat (unat (rr_state r)) @ '')''
   @ nl @ ''Sending: '' @ (if rr_sending r then ''true'' else ''false'')
   @ nl @ ''Source: '' @ EndpointKey (rr_source r) @ '' / session '' @ to_string_u64 (rr_source_session r)
   @ nl @ ''Destination: '' @ EndpointKey (rr_destination r) @ '' / session '' @ to_string_u64 (rr_destination_session r)
   @ nl @ ''Error: '' @ to_string_int (rr_error r) @ '' / reason: '' @ dec_nat (unat (rr_reason r)) @ nl
   @ (if re_role endpoint = ''PUBLISHER'' \<and> rr_sending r
      then route_rate r ''Network Send Hz'' (nrr_send_hz (rr_rates r))
         @ route_rate r ''Local Skipped/s'' (nrr_local_skipped_per_second (rr_rates r))
      else route_rate r ''Network Receive Hz'' (nrr_receive_hz (rr_rates r))
         @ route_rate r ''Proxy Publish Hz'' (nrr_proxy_publish_hz (rr_rates r))
         @ ''Proxy Publish is not application subscriber processing rate.'' @ nl)
   @ (if rr_state r = 1 \<and> nrr_status (rr_rates r) = RATE_VALID
      then ''Measured interval (s): '' @ fixed2 (nrr_interval_seconds (rr_rates r)) @ nl else [])
   @ ''Counters: packets_sent='' @ to_string_u64 (rr_packets_sent r) @ '', packets_received='' @ to_string_u64 (rr_packets_received r)
   @ '', samples_published='' @ to_string_u64 (rr_samples_published r)
   @ nl @ ''local_samples_skipped='' @ to_string_u64 (rr_local_samples_skipped r)
   @ '', dropped='' @ to_string_u64 (rr_dropped r) @ '', duplicate='' @ to_string_u64 (rr_duplicate r)
   @ '', out_of_order='' @ to_string_u64 (rr_out_of_order r) @ '', missed_sequence='' @ to_string_u64 (rr_missed_sequence r)
   @ '', malformed='' @ to_string_u64 (rr_malformed r) @ nl"

text \<open>The loop over the routes, with its counter of matching ones.\<close>

fun route_texts :: "remote_host \<Rightarrow> remote_endpoint \<Rightarrow> nat \<Rightarrow> remote_route list \<Rightarrow> nat \<times> string" where
  "route_texts host endpoint number [] = (number, [])"
| "route_texts host endpoint number (r # rs) =
     (if \<not> MatchesEndpoint host endpoint r then route_texts host endpoint number rs
      else let rest = route_texts host endpoint (Suc number) rs
           in (fst rest, route_text endpoint (Suc number) r @ snd rest))"

definition status_text :: "remote_network_diagnostics \<Rightarrow> string option" where
  "status_text d = (case rnd_status d of
     DIAG_UNAVAILABLE \<Rightarrow> Some ''Unavailable: Diagnostics Client API unavailable in this build''
   | DIAG_UNSUPPORTED \<Rightarrow> Some ''Unavailable: NETWORK_DIAGNOSTICS capability unsupported / disabled''
   | DIAG_INCOMPATIBLE \<Rightarrow> Some ''Unavailable: incompatible Gateway''
   | DIAG_PENDING \<Rightarrow> Some ''Pending: awaiting first Diagnostics observation''
   | DIAG_LOST \<Rightarrow> Some ''Unavailable: Gateway LOST''
   | DIAG_ERROR \<Rightarrow> Some (''Unavailable: Query error '' @ to_string_int (rnd_error d))
   | DIAG_TIMEOUT \<Rightarrow> Some (''Unavailable: Query timeout '' @ to_string_int (rnd_error d))
   | DIAG_VALID \<Rightarrow> None | DIAG_TRUNCATED \<Rightarrow> None)"

definition diagnostics_report :: "remote_host \<Rightarrow> remote_endpoint \<Rightarrow> string" where
  "diagnostics_report host endpoint =
     (let d = rh_diagnostics host;
          partial = rnd_truncated d \<or> rnd_status d = DIAG_TRUNCATED;
          texts = route_texts host endpoint 0 (rnd_routes d)
      in ''Gateway: '' @ rnd_gateway_host d @ '' / '' @ rnd_gateway_boot d @ '' / session '' @ to_string_u64 (rnd_gateway_session d)
       @ nl @ ''Observation time (Unix ms): '' @ to_string_u64 (rnd_observed_at_unix_ms d)
       @ nl @ ''Routes included/total: '' @ to_string_nat (length (rnd_routes d)) @ ''/'' @ dec_nat (unat (rnd_total_routes d)) @ nl
       @ (if partial then ''Truncated snapshot: omitted routes are unknown, not absent.'' @ nl else [])
       @ snd texts
       @ (if fst texts = 0
          then if partial then ''No matching route in partial snapshot; absence is unknown.''
               else ''No matching diagnostics route for this endpoint.''
          else []))"

definition TopicDiagnostics :: "remote_host \<Rightarrow> remote_endpoint \<Rightarrow> string" where
  "TopicDiagnostics host endpoint =
     (let d = rh_diagnostics host
      in nl @ nl @ ''Network Topic Diagnostics (manual Refresh)'' @ nl @
         (if rh_state host \<noteq> ''ONLINE'' then ''Unavailable: Gateway '' @ rh_state host
          else if rh_compatibility host \<noteq> ''COMPATIBLE'' then ''Unavailable: incompatible Gateway''
          else case status_text d of Some text \<Rightarrow> text
          | None \<Rightarrow>
            if rnd_gateway_host d \<noteq> rh_id host \<or> rnd_gateway_boot d \<noteq> rh_boot_id host \<or> rnd_gateway_session d \<noteq> rh_session host
            then ''Unavailable: stale Gateway identity/session''
            else diagnostics_report host endpoint))"

section \<open>AddRemoteGraph\<close>

definition host_description :: "network_snapshot \<Rightarrow> remote_host \<Rightarrow> string" where
  "host_description network host =
     ''REMOTE Host '' @ rh_label host @ nl @ ''Host: '' @ rh_id host @ nl @ ''Boot: '' @ rh_boot_id host
   @ nl @ ''Address: '' @ rh_address host @ nl @ rh_state host @ nl @ ''Compatibility: '' @ rh_compatibility host
   @ nl @ ''Framework: '' @ rh_framework_version host @ nl @ ''Network: '' @ rh_network_version host
   @ nl @ ''Capabilities: '' @ rh_capabilities host @ nl @ ''Session: '' @ to_string_u64 (rh_session host)
   @ nl @ ''Metadata revision: '' @ to_string_u64 (rh_revision host)
   @ nl @ ''Metadata ready: '' @ (if rh_metadata_ready host then ''yes'' else ''no'')
   @ nl @ ''Last announce age (snapshot ms): '' @ to_string_u64 (rh_age_ms host) @ nl @ ns_route_status network"

definition host_heading :: "network_snapshot \<Rightarrow> remote_host \<Rightarrow> graph_node" where
  "host_heading network host = graph_node0\<lparr>gn_id := ''remote-host:'' @ rh_id host,
     gn_label := rh_label host @ '' '' @ rh_state host @ '' ''
       @ (if rh_compatibility host = ''COMPATIBLE'' then rh_compatibility host else ''INCOMPATIBLE: '' @ rh_compatibility host)
       @ '' FW '' @ rh_framework_version host @ '' Net '' @ rh_network_version host,
     gn_kind := GHost, gn_host := rh_id host, gn_detail := host_description network host,
     gn_lost := rh_state host = ''LOST''\<rparr>"

definition remote_group :: "remote_endpoint \<Rightarrow> string" where
  "remote_group e = ''remote-app:'' @ re_application_id e"

definition remote_element :: "network_snapshot \<Rightarrow> remote_host \<Rightarrow> remote_endpoint \<Rightarrow> graph_node" where
  "remote_element network host e = graph_node0\<lparr>gn_id := runtime_id e, gn_label := re_element e, gn_group := remote_group e,
     gn_kind := GElement, gn_host := rh_id host, gn_lost := rh_state host = ''LOST'',
     gn_detail := host_description network host @ nl @ ''Application: '' @ re_application e
       @ nl @ ''Application identity: '' @ re_application_id e @ nl @ ''Element: '' @ re_element e
       @ nl @ ''Runtime: '' @ re_runtime_id e @ nl @ ''Runtime liveness is not announced separately''\<rparr>"

definition remote_label :: "remote_endpoint \<Rightarrow> string" where
  "remote_label e = re_kind e @ '': '' @ re_name e @ '' ['' @ re_role e @ '']''
     @ (if re_diagnostic e = [] then [] else '' [PAIR WARNING]'')"

definition remote_kind :: "remote_endpoint \<Rightarrow> graph_kind" where
  "remote_kind e = (if re_kind e = ''T'' then GTopic else if re_kind e = ''P'' then GParameter
     else if re_kind e = ''S'' then GService else GAction)"

definition remote_node :: "network_snapshot \<Rightarrow> remote_host \<Rightarrow> remote_endpoint \<Rightarrow> graph_node" where
  "remote_node network host e = graph_node0\<lparr>gn_id := remote_id e, gn_label := remote_label e, gn_kind := remote_kind e,
     gn_group := remote_group e, gn_host := rh_id host, gn_lost := rh_state host = ''LOST'',
     gn_detail := host_description network host @ nl @ ''Application: '' @ re_application e @ nl @ ''Element: '' @ re_element e
       @ nl @ ''Endpoint identity: '' @ re_id e @ nl @ remote_label e @ nl @ ''Scope: '' @ re_scope e @ nl @ re_type e
       @ nl @ ''Pair compatibility diagnostics (not routes):'' @ nl
       @ (if re_diagnostic e = [] then ''Not assessed / no incompatible pair observed'' else re_diagnostic e)
       @ nl @ ''Proxy status: not exposed by Discovery; publisher role alone does not identify a proxy''
       @ (if re_kind e = ''T'' then TopicDiagnostics host e else [])\<rparr>"

definition ownership_edges :: "remote_endpoint \<Rightarrow> graph_edge list" where
  "ownership_edges e =
     (if re_role e = ''PUBLISHER'' \<or> re_role e = ''OWNER'' \<or> re_role e = ''SERVER''
      then [\<lparr>gd_from = runtime_id e, gd_to = remote_id e, gd_role = re_role e @ '' metadata ownership'',
             gd_endpoint = endpoint_identity0, gd_network_route = False, gd_detail = []\<rparr>]
      else if re_kind e = ''T'' \<or> re_kind e = ''P''
      then [\<lparr>gd_from = remote_id e, gd_to = runtime_id e, gd_role = re_role e @ '' metadata ownership'',
             gd_endpoint = endpoint_identity0, gd_network_route = False, gd_detail = []\<rparr>]
      else [])"

definition kind_hidden :: "graph_options \<Rightarrow> remote_endpoint \<Rightarrow> bool" where
  "kind_hidden options e \<longleftrightarrow>
     (re_kind e = ''T'' \<and> \<not> go_topics options) \<or> (re_kind e = ''P'' \<and> \<not> go_parameters options)
   \<or> (re_kind e = ''S'' \<and> \<not> go_services options) \<or> (re_kind e = ''A'' \<and> \<not> go_actions options)"

record remote_pass =
  rps_nodes :: "(string, graph_node) omap"
  rps_groups :: "(string, string) omap"
  rps_edges :: "graph_edge list"

definition add_remote_endpoint :: "graph_options \<Rightarrow> network_snapshot \<Rightarrow> remote_host \<Rightarrow> remote_endpoint \<Rightarrow> remote_pass \<Rightarrow> remote_pass" where
  "add_remote_endpoint options network host e st =
     (let group = remote_group e;
          st = st\<lparr>rps_groups := om_put group (re_application e @ '' ['' @ re_application_id e @ '']'') (rps_groups st)\<rparr>
      in if go_group options \<noteq> [] \<and> go_group options \<noteq> group then st
         else let st = st\<lparr>rps_nodes := om_emplace (runtime_id e) (remote_element network host e) (rps_nodes st)\<rparr>
              in if kind_hidden options e then st
                 else st\<lparr>rps_nodes := om_emplace (remote_id e) (remote_node network host e) (rps_nodes st),
                         rps_edges := rps_edges st @ ownership_edges e\<rparr>)"

definition add_host :: "graph_options \<Rightarrow> network_snapshot \<Rightarrow> remote_host \<Rightarrow> graph_model \<Rightarrow> graph_model" where
  "add_host options network host model =
     (if go_host options \<noteq> [] \<and> go_host options \<noteq> rh_id host then model
      else let st = fold (add_remote_endpoint options network host) (rh_endpoints host)
                 \<lparr>rps_nodes = [], rps_groups = [], rps_edges = gm_edges model\<rparr>
           in \<lparr>gm_groups = gm_groups model @ map (\<lambda>g. \<lparr>gg_id = fst g, gg_label = snd g, gg_host = rh_id host\<rparr>) (rps_groups st),
               gm_nodes = gm_nodes model
                 @ (if go_group options = [] \<or> map_of (rps_groups st) (go_group options) \<noteq> None
                    then [host_heading network host] else [])
                 @ map snd (rps_nodes st),
               gm_edges = rps_edges st\<rparr>)"

definition AddRemoteGraph :: "u64 \<Rightarrow> graph_model \<Rightarrow> network_snapshot \<Rightarrow> graph_options \<Rightarrow> graph_model" where
  "AddRemoteGraph now model network options =
     (let model = (if \<not> go_local options \<or> (go_host options \<noteq> [] \<and> go_host options \<noteq> ''local'') then graph_model0 else model)
      in if \<not> go_remote options then model
         else AddVerifiedRoutes now (fold (add_host options network) (ns_hosts network) model) network)"

end
