(* ===== verification/RemoteProps.thy ===== *)
theory RemoteProps
  imports RemoteGraph GraphBuild
begin

text \<open>
  What \<open>AddRemoteGraph\<close> of \<open>RemoteGraph\<close> adds. Every host contributes lists that depend on that
  host alone (\<open>host_nodes\<close>, \<open>host_edges\<close>), so the result is the local part followed by the
  contributions of the hosts that are shown. The evidence map is then read back as a search through
  the list of observations that filled it.
\<close>

section \<open>The contribution of one host\<close>

definition host_shown :: "graph_options \<Rightarrow> remote_host \<Rightarrow> bool" where
  "host_shown options h \<longleftrightarrow> go_host options = [] \<or> go_host options = rh_id h"

definition in_group :: "graph_options \<Rightarrow> remote_endpoint \<Rightarrow> bool" where
  "in_group options e \<longleftrightarrow> go_group options = [] \<or> go_group options = remote_group e"

definition endpoint_shown :: "graph_options \<Rightarrow> remote_endpoint \<Rightarrow> bool" where
  "endpoint_shown options e \<longleftrightarrow> in_group options e \<and> \<not> kind_hidden options e"

definition host_pass :: "graph_options \<Rightarrow> network_snapshot \<Rightarrow> remote_host \<Rightarrow> remote_pass" where
  "host_pass options network host = fold (add_remote_endpoint options network host) (rh_endpoints host)
     \<lparr>rps_nodes = [], rps_groups = [], rps_edges = []\<rparr>"

definition host_groups :: "graph_options \<Rightarrow> network_snapshot \<Rightarrow> remote_host \<Rightarrow> graph_group list" where
  "host_groups options network host =
     map (\<lambda>g. \<lparr>gg_id = fst g, gg_label = snd g, gg_host = rh_id host\<rparr>) (rps_groups (host_pass options network host))"

definition host_nodes :: "graph_options \<Rightarrow> network_snapshot \<Rightarrow> remote_host \<Rightarrow> graph_node list" where
  "host_nodes options network host =
     (if go_group options = [] \<or> map_of (rps_groups (host_pass options network host)) (go_group options) \<noteq> None
      then [host_heading network host] else [])
     @ map snd (rps_nodes (host_pass options network host))"

definition host_edges :: "graph_options \<Rightarrow> remote_host \<Rightarrow> graph_edge list" where
  "host_edges options host = concat (map ownership_edges (filter (endpoint_shown options) (rh_endpoints host)))"

lemma pass_frame:
  "fold (add_remote_endpoint options network host) es \<lparr>rps_nodes = ns, rps_groups = gs, rps_edges = ds\<rparr>
   = (let st = fold (add_remote_endpoint options network host) es \<lparr>rps_nodes = ns, rps_groups = gs, rps_edges = []\<rparr>
      in st\<lparr>rps_edges := ds @ concat (map ownership_edges (filter (endpoint_shown options) es))\<rparr>)"
proof (induction es arbitrary: ns gs ds)
  case (Cons e es)
  define st where "st = add_remote_endpoint options network host e \<lparr>rps_nodes = ns, rps_groups = gs, rps_edges = []\<rparr>"
  have step: "add_remote_endpoint options network host e \<lparr>rps_nodes = ns, rps_groups = gs, rps_edges = ds\<rparr>
      = \<lparr>rps_nodes = rps_nodes st, rps_groups = rps_groups st,
         rps_edges = ds @ (if endpoint_shown options e then ownership_edges e else [])\<rparr>" for ds
    by (auto simp: st_def add_remote_endpoint_def endpoint_shown_def in_group_def Let_def)
  show ?case
    by (simp only: fold_simps step Cons.IH[of _ _ "ds @ _"] Cons.IH[of _ _ "[] @ _"]) (simp add: Let_def)
qed simp

lemma add_host_lists:
  "add_host options network host model =
     (if host_shown options host
      then \<lparr>gm_groups = gm_groups model @ host_groups options network host,
            gm_nodes = gm_nodes model @ host_nodes options network host,
            gm_edges = gm_edges model @ host_edges options host\<rparr>
      else model)"
proof -
  have "fold (add_remote_endpoint options network host) (rh_endpoints host)
      \<lparr>rps_nodes = [], rps_groups = [], rps_edges = gm_edges model\<rparr>
    = (host_pass options network host)\<lparr>rps_edges := gm_edges model @ host_edges options host\<rparr>"
    by (subst pass_frame) (simp add: host_pass_def host_edges_def Let_def)
  then show ?thesis
    by (simp add: add_host_def host_shown_def host_groups_def host_nodes_def Let_def)
qed

definition shown_hosts :: "graph_options \<Rightarrow> network_snapshot \<Rightarrow> remote_host list" where
  "shown_hosts options network = (if go_remote options then filter (host_shown options) (ns_hosts network) else [])"

lemma fold_add_host:
  "fold (add_host options network) hosts model =
     (let hs = filter (host_shown options) hosts
      in \<lparr>gm_groups = gm_groups model @ concat (map (host_groups options network) hs),
          gm_nodes = gm_nodes model @ concat (map (host_nodes options network) hs),
          gm_edges = gm_edges model @ concat (map (host_edges options) hs)\<rparr>)"
  by (induction hosts arbitrary: model) (auto simp: add_host_lists Let_def)

definition local_part :: "graph_options \<Rightarrow> graph_model \<Rightarrow> graph_model" where
  "local_part options model =
     (if go_local options \<and> (go_host options = [] \<or> go_host options = ''local'') then model else graph_model0)"

definition remote_edges :: "u64 \<Rightarrow> graph_model \<Rightarrow> network_snapshot \<Rightarrow> graph_options \<Rightarrow> graph_edge list" where
  "remote_edges now model network options =
     concat (map evidence_edges (fold (host_evidence now (visible_topics (gm_nodes (AddRemoteGraph now model network options))))
       (ns_hosts network) []))"

lemma AddRemoteGraph_nodes:
  "gm_nodes (AddRemoteGraph now model network options)
   = gm_nodes (local_part options model) @ concat (map (host_nodes options network) (shown_hosts options network))"
  by (auto simp: AddRemoteGraph_def local_part_def shown_hosts_def AddVerifiedRoutes_def fold_add_host Let_def)

lemma AddRemoteGraph_groups:
  "gm_groups (AddRemoteGraph now model network options)
   = gm_groups (local_part options model) @ concat (map (host_groups options network) (shown_hosts options network))"
  by (auto simp: AddRemoteGraph_def local_part_def shown_hosts_def AddVerifiedRoutes_def fold_add_host Let_def)

lemma AddRemoteGraph_edges:
  "gm_edges (AddRemoteGraph now model network options)
   = gm_edges (local_part options model) @ concat (map (host_edges options) (shown_hosts options network))
     @ (if go_remote options then remote_edges now model network options else [])"
proof (cases "go_remote options")
  case True
  have "gm_nodes (AddRemoteGraph now model network options)
      = gm_nodes (fold (add_host options network) (ns_hosts network) (local_part options model))"
    by (simp add: AddRemoteGraph_nodes shown_hosts_def True fold_add_host Let_def)
  with True show ?thesis
    by (auto simp: remote_edges_def AddRemoteGraph_def local_part_def shown_hosts_def AddVerifiedRoutes_def fold_add_host Let_def)
next
  case False
  then show ?thesis by (simp add: AddRemoteGraph_def local_part_def shown_hosts_def)
qed

section \<open>The nodes and groups of a host\<close>

text \<open>A node of the pass stands for an endpoint that is shown or for the runtime of one.\<close>

definition pass_node :: "graph_options \<Rightarrow> network_snapshot \<Rightarrow> remote_host \<Rightarrow> remote_endpoint list \<Rightarrow> graph_node \<Rightarrow> bool" where
  "pass_node options network host es n \<longleftrightarrow>
     (\<exists>e \<in> set es. in_group options e \<and> n = remote_element network host e)
   \<or> (\<exists>e \<in> set es. endpoint_shown options e \<and> n = remote_node network host e)"

definition pass_ok :: "graph_options \<Rightarrow> network_snapshot \<Rightarrow> remote_host \<Rightarrow> remote_endpoint list \<Rightarrow> remote_pass \<Rightarrow> bool" where
  "pass_ok options network host es st \<longleftrightarrow>
     (\<forall>entry \<in> set (rps_nodes st). gn_id (snd entry) = fst entry \<and> pass_node options network host es (snd entry))
   \<and> fst ` set (rps_nodes st) = runtime_id ` {e \<in> set es. in_group options e} \<union> remote_id ` {e \<in> set es. endpoint_shown options e}
   \<and> fst ` set (rps_groups st) = remote_group ` set es"

lemma set_om_put: "set (om_put k v m) \<subseteq> insert (k, v) (set m)"
  by (induction k v m rule: om_put.induct) auto

lemma set_om_emplace: "set (om_emplace k v m) \<subseteq> insert (k, v) (set m)"
  using set_om_put[of k v m] by (cases "map_of m k") (auto simp: om_emplace_def)

lemma fst_set_om_emplace: "fst ` set (om_emplace k v m) = insert k (fst ` set m)"
proof (cases "map_of m k")
  case None
  then show ?thesis by (simp add: om_emplace_def fst_set_om_put)
next
  case (Some w)
  then have "k \<in> fst ` set m" by (force dest: map_of_SomeD)
  with Some show ?thesis by (simp add: om_emplace_def insert_absorb)
qed

lemma remote_node_ids [simp]:
  "gn_id (remote_element network host e) = runtime_id e" "gn_id (remote_node network host e) = remote_id e"
  by (simp_all add: remote_element_def remote_node_def)

lemma pass_step:
  assumes "pass_ok options network host es st"
  shows "pass_ok options network host (es @ [e]) (add_remote_endpoint options network host e st)"
proof -
  have mono: "pass_node options network host (es @ [e]) n" if "pass_node options network host es n" for n
    using that unfolding pass_node_def by auto
  have el: "in_group options e \<Longrightarrow> pass_node options network host (es @ [e]) (remote_element network host e)"
    and nd: "endpoint_shown options e \<Longrightarrow> pass_node options network host (es @ [e]) (remote_node network host e)"
    unfolding pass_node_def by auto
  let ?A = "\<lambda>m. om_emplace (runtime_id e) (remote_element network host e) m"
  let ?B = "\<lambda>m. om_emplace (remote_id e) (remote_node network host e) m"
  have groups: "rps_groups (add_remote_endpoint options network host e st)
      = om_put (remote_group e) (re_application e @ '' ['' @ re_application_id e @ '']'') (rps_groups st)"
    by (simp add: add_remote_endpoint_def Let_def)
  have nodes: "rps_nodes (add_remote_endpoint options network host e st)
      = (if in_group options e then if endpoint_shown options e then ?B (?A (rps_nodes st)) else ?A (rps_nodes st)
         else rps_nodes st)"
    by (auto simp: add_remote_endpoint_def Let_def in_group_def endpoint_shown_def)
  have "\<forall>entry \<in> set (rps_nodes (add_remote_endpoint options network host e st)).
      gn_id (snd entry) = fst entry \<and> pass_node options network host (es @ [e]) (snd entry)"
    using assms mono el nd unfolding nodes pass_ok_def
    by (auto dest!: subsetD[OF set_om_emplace])
  moreover have "fst ` set (rps_nodes (add_remote_endpoint options network host e st))
      = runtime_id ` {e' \<in> set (es @ [e]). in_group options e'} \<union> remote_id ` {e' \<in> set (es @ [e]). endpoint_shown options e'}"
    using assms unfolding nodes pass_ok_def
    by (auto simp: fst_set_om_emplace endpoint_shown_def)
  moreover have "fst ` set (rps_groups (add_remote_endpoint options network host e st)) = remote_group ` set (es @ [e])"
    using assms by (simp add: groups pass_ok_def fst_set_om_put)
  ultimately show ?thesis by (simp add: pass_ok_def)
qed

lemma pass_ok_fold:
  "pass_ok options network host es0 st \<Longrightarrow>
    pass_ok options network host (es0 @ es) (fold (add_remote_endpoint options network host) es st)"
proof (induction es arbitrary: es0 st)
  case (Cons e es)
  from Cons.IH[OF pass_step[OF Cons.prems]] show ?case by simp
qed simp

lemma host_pass_ok: "pass_ok options network host (rh_endpoints host) (host_pass options network host)"
  using pass_ok_fold[of options network host "[]" "\<lparr>rps_nodes = [], rps_groups = [], rps_edges = []\<rparr>" "rh_endpoints host"]
  by (simp add: host_pass_def pass_ok_def)

lemma host_nodes_cases:
  assumes "n \<in> set (host_nodes options network host)"
  shows "n = host_heading network host \<or> pass_node options network host (rh_endpoints host) n"
  using assms host_pass_ok[of options network host]
  by (auto simp: host_nodes_def pass_ok_def split: if_splits)

lemma host_node_ids:
  "runtime_id ` {e \<in> set (rh_endpoints host). in_group options e}
     \<union> remote_id ` {e \<in> set (rh_endpoints host). endpoint_shown options e} \<subseteq> gn_id ` set (host_nodes options network host)"
proof -
  have ok: "pass_ok options network host (rh_endpoints host) (host_pass options network host)" by (rule host_pass_ok)
  have "fst ` set (rps_nodes (host_pass options network host)) \<subseteq> gn_id ` set (host_nodes options network host)"
  proof
    fix k assume "k \<in> fst ` set (rps_nodes (host_pass options network host))"
    then obtain entry where e: "entry \<in> set (rps_nodes (host_pass options network host))" "k = fst entry" by blast
    have "gn_id (snd entry) = fst entry" using ok e(1) unfolding pass_ok_def by blast
    moreover have "snd entry \<in> set (host_nodes options network host)" using e(1) by (simp add: host_nodes_def)
    ultimately show "k \<in> gn_id ` set (host_nodes options network host)" using e(2) by (metis imageI)
  qed
  with ok show ?thesis by (simp add: pass_ok_def)
qed

lemma host_edges_ends:
  assumes "d \<in> set (host_edges options host)"
  obtains e where "e \<in> set (rh_endpoints host)" "endpoint_shown options e" "d \<in> set (ownership_edges e)"
    "{gd_from d, gd_to d} = {runtime_id e, remote_id e}" "\<not> gd_network_route d"
proof -
  obtain e where e: "e \<in> set (rh_endpoints host)" "endpoint_shown options e" "d \<in> set (ownership_edges e)"
    using assms by (auto simp: host_edges_def)
  from e(3) have "{gd_from d, gd_to d} = {runtime_id e, remote_id e}" "\<not> gd_network_route d"
    by (auto simp: ownership_edges_def split: if_splits)
  with e show ?thesis by (rule that)
qed

section \<open>The evidence\<close>

text \<open>The observations the loops look at, in their order.\<close>

definition observations :: "u64 \<Rightarrow> string list \<Rightarrow> remote_host list \<Rightarrow> remote_route list" where
  "observations now visible hosts = concat (map (\<lambda>h.
     if FreshDiagnostics h now
     then filter (\<lambda>r. rr_state r = 1 \<and> registered visible h r) (rnd_routes (rh_diagnostics h)) else []) hosts)"

definition store_evidence :: "remote_route \<Rightarrow> (route_key, evidence) omap \<Rightarrow> (route_key, evidence) omap" where
  "store_evidence r ev = om_put (route_key r) (record_side r (map_of ev (route_key r))) ev"

lemma fold_host_evidence:
  "fold (host_evidence now visible) hosts ev = fold store_evidence (observations now visible hosts) ev"
proof -
  have routes: "fold (add_evidence visible h) rs ev
      = fold store_evidence (filter (\<lambda>r. rr_state r = 1 \<and> registered visible h r) rs) ev" for h rs ev
    by (induction rs arbitrary: ev) (auto simp: add_evidence_def store_evidence_def)
  show ?thesis
    by (induction hosts arbitrary: ev) (auto simp: host_evidence_def observations_def routes)
qed

definition last_report :: "bool \<Rightarrow> route_key \<Rightarrow> remote_route list \<Rightarrow> remote_route option" where
  "last_report sending k obs = List.find (\<lambda>r. route_key r = k \<and> rr_sending r = sending) (rev obs)"

lemma last_report_snoc:
  "last_report sending k (obs @ [r])
   = (if route_key r = k \<and> rr_sending r = sending then Some r else last_report sending k obs)"
  by (simp add: last_report_def)

lemma last_report_D:
  "last_report sending k obs = Some r \<Longrightarrow> r \<in> set obs \<and> route_key r = k \<and> rr_sending r = sending"
  by (auto simp: last_report_def dest: find_Some_D)

lemma last_report_None:
  "last_report sending k obs = None \<longleftrightarrow> (\<forall>r \<in> set obs. \<not> (route_key r = k \<and> rr_sending r = sending))"
  by (auto simp: last_report_def find_None_iff)

lemma evidence_lookup:
  "om_wf (fold store_evidence obs []) \<and>
   map_of (fold store_evidence obs []) k
   = (if last_report True k obs = None \<and> last_report False k obs = None then None
      else Some (Evidence (last_report True k obs) (last_report False k obs)))"
proof (induction obs arbitrary: k rule: rev_induct)
  case Nil
  then show ?case by (simp add: last_report_def)
next
  case (snoc r obs)
  let ?m = "fold store_evidence obs []"
  have wf: "om_wf ?m" and get: "map_of ?m j = (if last_report True j obs = None \<and> last_report False j obs = None then None
      else Some (Evidence (last_report True j obs) (last_report False j obs)))" for j
    using snoc.IH by blast+
  have "om_wf (store_evidence r ?m)" using wf by (simp add: store_evidence_def om_put_wf)
  moreover have "map_of (store_evidence r ?m) k
      = (if k = route_key r then Some (record_side r (map_of ?m k)) else map_of ?m k)"
    by (simp add: store_evidence_def)
  moreover have "record_side r (map_of ?m (route_key r))
      = Evidence (last_report True (route_key r) (obs @ [r])) (last_report False (route_key r) (obs @ [r]))"
    by (auto simp: get record_side_def last_report_snoc)
  ultimately show ?case by (auto simp: get last_report_snoc)
qed

definition confirmed :: "remote_route list \<Rightarrow> route_key \<Rightarrow> bool" where
  "confirmed obs k \<longleftrightarrow> last_report True k obs \<noteq> None \<and> last_report False k obs \<noteq> None"

definition key_ends :: "route_key \<Rightarrow> string \<times> string" where
  "key_ends k = (''remote-endpoint:'' @ fst k, ''remote-endpoint:'' @ fst (snd k))"

definition edge_ends :: "graph_edge \<Rightarrow> string \<times> string" where
  "edge_ends d = (gd_from d, gd_to d)"

text \<open>One edge per confirmed key, in key order, with the last report of either side.\<close>

lemma evidence_edges_map:
  assumes "om_wf ev" and "\<And>k. map_of ev k = (if last_report True k obs = None \<and> last_report False k obs = None then None
      else Some (Evidence (last_report True k obs) (last_report False k obs)))"
  shows "concat (map evidence_edges ev)
    = map (\<lambda>k. verified_edge (the (last_report True k obs)) (the (last_report False k obs))) (filter (confirmed obs) (map fst ev))"
proof -
  have "evidence_edges e = (if confirmed obs (fst e)
      then [verified_edge (the (last_report True (fst e) obs)) (the (last_report False (fst e) obs))] else [])"
    if "e \<in> set ev" for e
  proof -
    obtain k v where e: "e = (k, v)" by (cases e)
    have "map_of ev k = Some v" using om_entry_iff[OF assms(1), of k v] that e by simp
    then have "v = Evidence (last_report True k obs) (last_report False k obs)" using assms(2)[of k] by (simp split: if_splits)
    then show ?thesis by (auto simp: e evidence_edges_def confirmed_def split: option.splits)
  qed
  then show ?thesis by (induction ev) auto
qed

lemma verified_edge_ends:
  assumes "confirmed obs k"
  shows "edge_ends (verified_edge (the (last_report True k obs)) (the (last_report False k obs))) = key_ends k"
proof -
  obtain s where "last_report True k obs = Some s" using assms by (auto simp: confirmed_def)
  with last_report_D[OF this] show ?thesis
    by (auto simp: edge_ends_def verified_edge_def key_ends_def route_key_def)
qed

lemma remote_edges_keys:
  fixes now model network options
  defines "obs \<equiv> observations now (visible_topics (gm_nodes (AddRemoteGraph now model network options))) (ns_hosts network)"
  shows "\<exists>ks. distinct ks \<and> set ks = {k. confirmed obs k} \<and> remote_edges now model network options
    = map (\<lambda>k. verified_edge (the (last_report True k obs)) (the (last_report False k obs))) ks"
proof -
  let ?ev = "fold store_evidence obs []"
  have wf: "om_wf ?ev" and get: "map_of ?ev k = (if last_report True k obs = None \<and> last_report False k obs = None then None
      else Some (Evidence (last_report True k obs) (last_report False k obs)))" for k
    using evidence_lookup by blast+
  have "set (map fst ?ev) \<supseteq> {k. confirmed obs k}"
  proof
    fix k assume "k \<in> {k. confirmed obs k}"
    then have "map_of ?ev k \<noteq> None" by (simp add: get confirmed_def)
    then show "k \<in> set (map fst ?ev)" by (simp add: map_of_eq_None_iff)
  qed
  then have "set (filter (confirmed obs) (map fst ?ev)) = {k. confirmed obs k}" by auto
  moreover have "distinct (filter (confirmed obs) (map fst ?ev))" by (intro distinct_filter om_wf_distinct wf)
  moreover have "remote_edges now model network options = concat (map evidence_edges ?ev)"
    by (simp add: remote_edges_def fold_host_evidence obs_def)
  then have "remote_edges now model network options
      = map (\<lambda>k. verified_edge (the (last_report True k obs)) (the (last_report False k obs))) (filter (confirmed obs) (map fst ?ev))"
    by (simp only: evidence_edges_map[OF wf get])
  ultimately show ?thesis by blast
qed


text \<open>Both ends of a confirmed route are visible topic nodes.\<close>

lemma observations_iff:
  "r \<in> set (observations now visible hosts) \<longleftrightarrow>
    (\<exists>h \<in> set hosts. FreshDiagnostics h now \<and> r \<in> set (rnd_routes (rh_diagnostics h)) \<and> rr_state r = 1 \<and> registered visible h r)"
  by (auto simp: observations_def)

lemma registered_visible:
  "registered visible h r \<Longrightarrow>
    ''remote-endpoint:'' @ EndpointKey (if rr_sending r then rr_source r else rr_destination r) \<in> set visible"
  by (auto simp: registered_def MatchesEndpoint_def Let_def remote_id_def split: if_splits)

lemma report_visible:
  assumes "last_report sending k (observations now visible hosts) = Some r"
  shows "(if sending then fst (key_ends k) else snd (key_ends k)) \<in> set visible"
  using last_report_D[OF assms] registered_visible[of visible _ r]
  by (auto simp: observations_iff key_ends_def route_key_def)

lemma visible_topics_ids: "set (visible_topics nodes) \<subseteq> gn_id ` set nodes"
  by (auto simp: visible_topics_def)

lemma remote_edges_ends:
  assumes "d \<in> set (remote_edges now model network options)"
  shows "gd_network_route d \<and> {gd_from d, gd_to d} \<subseteq> gn_id ` set (gm_nodes (AddRemoteGraph now model network options))"
proof -
  let ?vis = "visible_topics (gm_nodes (AddRemoteGraph now model network options))"
  let ?obs = "observations now ?vis (ns_hosts network)"
  obtain ks where ks: "set ks = {k. confirmed ?obs k}" "remote_edges now model network options
      = map (\<lambda>k. verified_edge (the (last_report True k ?obs)) (the (last_report False k ?obs))) ks"
    using remote_edges_keys[of now model network options] by blast
  then obtain k where k: "confirmed ?obs k" "d = verified_edge (the (last_report True k ?obs)) (the (last_report False k ?obs))"
    using assms by auto
  from k(1) obtain s r where "last_report True k ?obs = Some s" "last_report False k ?obs = Some r"
    by (auto simp: confirmed_def)
  from this[THEN report_visible] have "fst (key_ends k) \<in> set ?vis" "snd (key_ends k) \<in> set ?vis" by simp_all
  moreover have "edge_ends d = key_ends k" using verified_edge_ends[OF k(1)] k(2) by simp
  ultimately have "{gd_from d, gd_to d} \<subseteq> set ?vis" by (metis edge_ends_def empty_subsetI fst_conv insert_subset snd_conv)
  moreover have "gd_network_route d" using k(2) by (simp add: verified_edge_def)
  ultimately show ?thesis using visible_topics_ids by blast
qed

lemma observations_no_remote:
  assumes "\<not> go_remote options" and "\<And>n. n \<in> set (gm_nodes model) \<Longrightarrow> gn_host n = []"
  shows "observations now (visible_topics (gm_nodes (AddRemoteGraph now model network options))) hosts = []"
proof -
  have "visible_topics (gm_nodes (AddRemoteGraph now model network options)) = []"
    using assms by (auto simp: AddRemoteGraph_nodes shown_hosts_def local_part_def visible_topics_def filter_empty_conv graph_model0_def)
  then show ?thesis by (auto simp: observations_def registered_def)
qed

section \<open>Properties\<close>

text \<open>
  One side of the route \<open>k\<close> is reported: a host that is fresh and compatible lists an active route
  with that key, sending or receiving, which one of its own registered topic endpoints takes part
  in, and that endpoint is a node of the graph.
\<close>

definition reported :: "u64 \<Rightarrow> network_snapshot \<Rightarrow> graph_model \<Rightarrow> bool \<Rightarrow> route_key \<Rightarrow> bool" where
  "reported now network g sending k \<longleftrightarrow>
     (\<exists>h \<in> set (ns_hosts network). \<exists>r \<in> set (rnd_routes (rh_diagnostics h)). \<exists>e \<in> set (rh_endpoints h). \<exists>n \<in> set (gm_nodes g).
        FreshDiagnostics h now \<and> rr_state r = 1 \<and> rr_sending r = sending \<and> route_key r = k \<and> MatchesEndpoint h e r
      \<and> gn_id n = remote_id e \<and> gn_kind n = GTopic \<and> gn_host n \<noteq> [])"

lemma last_report_reported:
  "last_report sending k (observations now (visible_topics (gm_nodes g)) (ns_hosts network)) \<noteq> None
    \<longleftrightarrow> reported now network g sending k"
proof -
  have vis: "x \<in> set (visible_topics (gm_nodes g)) \<longleftrightarrow> (\<exists>n \<in> set (gm_nodes g). gn_id n = x \<and> gn_kind n = GTopic \<and> gn_host n \<noteq> [])" for x
    by (auto simp: visible_topics_def)
  have "last_report sending k (observations now (visible_topics (gm_nodes g)) (ns_hosts network)) \<noteq> None
    \<longleftrightarrow> (\<exists>r. r \<in> set (observations now (visible_topics (gm_nodes g)) (ns_hosts network)) \<and> route_key r = k \<and> rr_sending r = sending)"
    unfolding last_report_None by blast
  also have "\<dots> \<longleftrightarrow> reported now network g sending k"
    unfolding observations_iff registered_def vis reported_def
    by (rule iffI; elim exE bexE conjE; intro exI bexI conjI; assumption)
  finally show ?thesis .
qed

text \<open>
  C10. No inferred network edges: over a local graph the edges marked as network routes are, one for
  each, exactly the routes that both ends report as active: the sending side by one fresh host and
  the receiving side, with the same endpoints, sessions and route id, by a fresh host as well.
\<close>

theorem verified_routes_exact:
  "\<exists>ks. distinct ks
     \<and> set ks = {k. reported now network (AddRemoteGraph now (BuildGraph apps elements topics parameters services opts) network options) True k
                  \<and> reported now network (AddRemoteGraph now (BuildGraph apps elements topics parameters services opts) network options) False k}
     \<and> map edge_ends (filter gd_network_route
           (gm_edges (AddRemoteGraph now (BuildGraph apps elements topics parameters services opts) network options)))
       = map key_ends ks"
proof -
  let ?m = "BuildGraph apps elements topics parameters services opts"
  let ?g = "AddRemoteGraph now ?m network options"
  let ?obs = "observations now (visible_topics (gm_nodes ?g)) (ns_hosts network)"
  have conf: "confirmed ?obs k \<longleftrightarrow> reported now network ?g True k \<and> reported now network ?g False k" for k
    unfolding confirmed_def last_report_reported ..
  have "filter gd_network_route (gm_edges (local_part options ?m)) = []"
    by (auto simp: local_part_def filter_empty_conv graph_model0_def graph_edges_local)
  moreover have "filter gd_network_route (concat (map (host_edges options) (shown_hosts options network))) = []"
    by (auto simp: filter_empty_conv elim: host_edges_ends)
  moreover have "filter gd_network_route (remote_edges now ?m network options) = remote_edges now ?m network options"
    using remote_edges_ends by (auto simp: filter_id_conv)
  ultimately have edges: "filter gd_network_route (gm_edges ?g)
      = (if go_remote options then remote_edges now ?m network options else [])"
    by (simp add: AddRemoteGraph_edges)
  show ?thesis
  proof (cases "go_remote options")
    case True
    obtain ks where ks: "distinct ks" "set ks = {k. confirmed ?obs k}" "remote_edges now ?m network options
        = map (\<lambda>k. verified_edge (the (last_report True k ?obs)) (the (last_report False k ?obs))) ks"
      using remote_edges_keys[of now ?m network options] by blast
    have "map edge_ends (filter gd_network_route (gm_edges ?g)) = map key_ends ks"
      using ks(2) by (simp add: edges True ks(3) verified_edge_ends)
    with ks(1,2) conf show ?thesis by blast
  next
    case False
    have "?obs = []" by (rule observations_no_remote[OF False graph_nodes_local])
    then have "\<not> confirmed ?obs k" for k by (simp add: confirmed_def last_report_def)
    then have "{k. reported now network ?g True k \<and> reported now network ?g False k} = {}" by (simp add: conf)
    with False show ?thesis by (intro exI[of _ "[]"]) (simp add: edges)
  qed
qed

text \<open>
  The whole graph is closed: both ends of every edge, local, ownership or network route, are ids
  of nodes of the graph, whatever the options hide.
\<close>

theorem remote_graph_closed:
  "gd_from ` set (gm_edges (AddRemoteGraph now (BuildGraph apps elements topics parameters services opts) network options))
   \<union> gd_to ` set (gm_edges (AddRemoteGraph now (BuildGraph apps elements topics parameters services opts) network options))
   \<subseteq> gn_id ` set (gm_nodes (AddRemoteGraph now (BuildGraph apps elements topics parameters services opts) network options))"
proof -
  let ?m = "BuildGraph apps elements topics parameters services opts"
  let ?g = "AddRemoteGraph now ?m network options"
  have "{gd_from d, gd_to d} \<subseteq> gn_id ` set (gm_nodes ?g)" if d: "d \<in> set (gm_edges ?g)" for d
  proof -
    consider (loc) "d \<in> set (gm_edges (local_part options ?m))"
      | (host) h where "h \<in> set (shown_hosts options network)" "d \<in> set (host_edges options h)"
      | (route) "d \<in> set (remote_edges now ?m network options)"
      using d by (auto simp: AddRemoteGraph_edges split: if_splits)
    then show ?thesis
    proof cases
      case loc
      then have "local_part options ?m = ?m" "d \<in> set (gm_edges ?m)"
        by (auto simp: local_part_def graph_model0_def split: if_splits)
      with graph_edge_ends[OF this(2)] show ?thesis by (auto simp: AddRemoteGraph_nodes)
    next
      case host
      from host(2) obtain e where e: "e \<in> set (rh_endpoints h)" "endpoint_shown options e"
          "{gd_from d, gd_to d} = {runtime_id e, remote_id e}" by (rule host_edges_ends)
      then have "{gd_from d, gd_to d} \<subseteq> gn_id ` set (host_nodes options network h)"
        using host_node_ids[of h options network] by (auto simp: endpoint_shown_def)
      then show ?thesis using host(1) by (auto simp: AddRemoteGraph_nodes image_UN)
    next
      case route
      then show ?thesis using remote_edges_ends by blast
    qed
  qed
  then show ?thesis by blast
qed

text \<open>
  Scope: the local part comes first and unchanged (or is dropped, by the options), and what
  follows belongs to shown hosts: every added node carries the id of such a host and is lost exactly
  when the host is, nodes of endpoints obey the group and kind filters, and every added edge that is
  no network route stays within one registration of one shown host.
\<close>

theorem remote_graph_scope:
  "\<exists>gs ns es routes. AddRemoteGraph now model network options =
      \<lparr>gm_groups = gm_groups (local_part options model) @ gs, gm_nodes = gm_nodes (local_part options model) @ ns,
       gm_edges = gm_edges (local_part options model) @ es @ routes\<rparr>
   \<and> (\<forall>n \<in> set ns. \<exists>h \<in> set (shown_hosts options network).
        gn_host n = rh_id h \<and> gn_lost n = (rh_state h = ''LOST'')
      \<and> (gn_kind n = GHost \<or> (\<exists>e \<in> set (rh_endpoints h). gn_group n = remote_group e \<and> in_group options e
            \<and> (gn_kind n = GElement \<or> gn_kind n = remote_kind e \<and> \<not> kind_hidden options e))))
   \<and> (\<forall>d \<in> set es. \<not> gd_network_route d \<and> (\<exists>h \<in> set (shown_hosts options network). \<exists>e \<in> set (rh_endpoints h).
        {gd_from d, gd_to d} = {runtime_id e, remote_id e}))
   \<and> (\<forall>d \<in> set routes. gd_network_route d)"
proof (intro exI conjI)
  let ?ns = "concat (map (host_nodes options network) (shown_hosts options network))"
  let ?es = "concat (map (host_edges options) (shown_hosts options network))"
  let ?routes = "if go_remote options then remote_edges now model network options else []"
  show "AddRemoteGraph now model network options =
      \<lparr>gm_groups = gm_groups (local_part options model) @ concat (map (host_groups options network) (shown_hosts options network)),
       gm_nodes = gm_nodes (local_part options model) @ ?ns, gm_edges = gm_edges (local_part options model) @ ?es @ ?routes\<rparr>"
    by (rule graph_model.equality) (simp_all add: AddRemoteGraph_nodes AddRemoteGraph_edges AddRemoteGraph_groups)
  show "\<forall>n \<in> set ?ns. \<exists>h \<in> set (shown_hosts options network).
        gn_host n = rh_id h \<and> gn_lost n = (rh_state h = ''LOST'')
      \<and> (gn_kind n = GHost \<or> (\<exists>e \<in> set (rh_endpoints h). gn_group n = remote_group e \<and> in_group options e
            \<and> (gn_kind n = GElement \<or> gn_kind n = remote_kind e \<and> \<not> kind_hidden options e)))"
  proof
    fix n assume "n \<in> set ?ns"
    then obtain h where h: "h \<in> set (shown_hosts options network)" "n \<in> set (host_nodes options network h)" by auto
    from host_nodes_cases[OF h(2)] have "gn_host n = rh_id h \<and> gn_lost n = (rh_state h = ''LOST'')
      \<and> (gn_kind n = GHost \<or> (\<exists>e \<in> set (rh_endpoints h). gn_group n = remote_group e \<and> in_group options e
            \<and> (gn_kind n = GElement \<or> gn_kind n = remote_kind e \<and> \<not> kind_hidden options e)))"
      by (auto simp: pass_node_def host_heading_def remote_element_def remote_node_def endpoint_shown_def)
    with h(1) show "\<exists>h \<in> set (shown_hosts options network).
        gn_host n = rh_id h \<and> gn_lost n = (rh_state h = ''LOST'')
      \<and> (gn_kind n = GHost \<or> (\<exists>e \<in> set (rh_endpoints h). gn_group n = remote_group e \<and> in_group options e
            \<and> (gn_kind n = GElement \<or> gn_kind n = remote_kind e \<and> \<not> kind_hidden options e)))" by (rule bexI[rotated])
  qed
  show "\<forall>d \<in> set ?es. \<not> gd_network_route d \<and> (\<exists>h \<in> set (shown_hosts options network). \<exists>e \<in> set (rh_endpoints h).
        {gd_from d, gd_to d} = {runtime_id e, remote_id e})"
    by (auto elim!: host_edges_ends intro!: bexI)
  show "\<forall>d \<in> set ?routes. gd_network_route d" using remote_edges_ends by auto
qed


section \<open>Rates that are not valid\<close>

text \<open>
  \<open>blank_network\<close> erases every rate that must not be shown: all the rates of a route that is not
  active, and the figures of a measurement that is not valid.
\<close>

definition blank_route :: "remote_route \<Rightarrow> remote_route" where
  "blank_route r =
     (if rr_state r \<noteq> 1 then r\<lparr>rr_rates := network_route_rates0\<rparr>
      else if nrr_status (rr_rates r) \<noteq> RATE_VALID
      then r\<lparr>rr_rates := network_route_rates0\<lparr>nrr_status := nrr_status (rr_rates r)\<rparr>\<rparr>
      else r)"

definition blank_host :: "remote_host \<Rightarrow> remote_host" where
  "blank_host h = h\<lparr>rh_diagnostics := (rh_diagnostics h)\<lparr>rnd_routes := map blank_route (rnd_routes (rh_diagnostics h))\<rparr>\<rparr>"

definition blank_network :: "network_snapshot \<Rightarrow> network_snapshot" where
  "blank_network n = n\<lparr>ns_hosts := map blank_host (ns_hosts n)\<rparr>"

definition blank_evidence :: "evidence \<Rightarrow> evidence" where
  "blank_evidence v = Evidence (map_option blank_route (ev_send v)) (map_option blank_route (ev_receive v))"

lemma blank_route_fields [simp]:
  "rr_state (blank_route r) = rr_state r" "rr_sending (blank_route r) = rr_sending r"
  "rr_source (blank_route r) = rr_source r" "rr_destination (blank_route r) = rr_destination r"
  "rr_source_session (blank_route r) = rr_source_session r" "rr_name (blank_route r) = rr_name r"
  "rr_destination_session (blank_route r) = rr_destination_session r" "rr_route_id (blank_route r) = rr_route_id r"
  "rr_error (blank_route r) = rr_error r" "rr_reason (blank_route r) = rr_reason r"
  "rr_packets_sent (blank_route r) = rr_packets_sent r" "rr_packets_received (blank_route r) = rr_packets_received r"
  "rr_samples_published (blank_route r) = rr_samples_published r" "rr_dropped (blank_route r) = rr_dropped r"
  "rr_duplicate (blank_route r) = rr_duplicate r" "rr_out_of_order (blank_route r) = rr_out_of_order r"
  "rr_missed_sequence (blank_route r) = rr_missed_sequence r" "rr_malformed (blank_route r) = rr_malformed r"
  "rr_local_samples_skipped (blank_route r) = rr_local_samples_skipped r"
  by (simp_all add: blank_route_def)

lemma blank_rates_valid: "rr_state r = 1 \<Longrightarrow> nrr_status (rr_rates r) = RATE_VALID \<Longrightarrow> blank_route r = r"
  by (simp add: blank_route_def)

lemma blank_rates_status [simp]: "rr_state r = 1 \<Longrightarrow> nrr_status (rr_rates (blank_route r)) = nrr_status (rr_rates r)"
  by (simp add: blank_route_def)

lemma blank_host_fields [simp]:
  "rh_id (blank_host h) = rh_id h" "rh_boot_id (blank_host h) = rh_boot_id h" "rh_label (blank_host h) = rh_label h"
  "rh_address (blank_host h) = rh_address h" "rh_state (blank_host h) = rh_state h"
  "rh_framework_version (blank_host h) = rh_framework_version h" "rh_network_version (blank_host h) = rh_network_version h"
  "rh_compatibility (blank_host h) = rh_compatibility h" "rh_capabilities (blank_host h) = rh_capabilities h"
  "rh_session (blank_host h) = rh_session h" "rh_revision (blank_host h) = rh_revision h" "rh_age_ms (blank_host h) = rh_age_ms h"
  "rh_metadata_ready (blank_host h) = rh_metadata_ready h" "rh_endpoints (blank_host h) = rh_endpoints h"
  "rh_diagnostics (blank_host h) = (rh_diagnostics h)\<lparr>rnd_routes := map blank_route (rnd_routes (rh_diagnostics h))\<rparr>"
  by (simp_all add: blank_host_def)

lemma blank_matches [simp]:
  "MatchesEndpoint (blank_host h) e r = MatchesEndpoint h e r" "MatchesEndpoint h e (blank_route r) = MatchesEndpoint h e r"
  by (simp_all only: MatchesEndpoint_def blank_host_fields blank_route_fields)

lemma blank_fresh [simp]: "FreshDiagnostics (blank_host h) now = FreshDiagnostics h now"
  by (simp add: FreshDiagnostics_def Let_def)

lemma blank_registered [simp]:
  "registered visible (blank_host h) r = registered visible h r" "registered visible h (blank_route r) = registered visible h r"
  by (simp_all add: registered_def)

lemma route_rate_blank:
  "(rr_state r = 1 \<and> nrr_status (rr_rates r) = RATE_VALID \<longrightarrow> v = w) \<Longrightarrow> route_rate (blank_route r) label v = route_rate r label w"
  by (cases "nrr_status (rr_rates r)"; cases "rr_state r = 1") (auto simp: route_rate_def)

lemma route_text_blank [simp]: "route_text e number (blank_route r) = route_text e number r"
proof -
  have rate: "route_rate (blank_route r) label (f (rr_rates (blank_route r))) = route_rate r label (f (rr_rates r))" for label f
    by (rule route_rate_blank) (simp add: blank_rates_valid)
  have interval: "(if rr_state r = 1 \<and> nrr_status (rr_rates (blank_route r)) = RATE_VALID
      then ''Measured interval (s): '' @ fixed2 (nrr_interval_seconds (rr_rates (blank_route r))) @ nl else [])
    = (if rr_state r = 1 \<and> nrr_status (rr_rates r) = RATE_VALID
      then ''Measured interval (s): '' @ fixed2 (nrr_interval_seconds (rr_rates r)) @ nl else [])"
    by (cases "rr_state r = 1") (auto simp: blank_rates_valid)
  show ?thesis by (simp only: route_text_def rate interval blank_route_fields)
qed

lemma route_texts_blank: "route_texts (blank_host h) e number (map blank_route rs) = route_texts h e number rs"
  by (induction rs arbitrary: number) (simp_all add: Let_def)

lemma TopicDiagnostics_blank [simp]: "TopicDiagnostics (blank_host h) e = TopicDiagnostics h e"
proof -
  have "diagnostics_report (blank_host h) e = diagnostics_report h e"
    by (simp add: diagnostics_report_def route_texts_blank Let_def)
  moreover have "status_text (rh_diagnostics (blank_host h)) = status_text (rh_diagnostics h)"
    by (simp add: status_text_def split: diagnostics_state.split)
  ultimately show ?thesis by (auto simp: TopicDiagnostics_def Let_def split: option.split)
qed

lemma blank_nodes [simp]:
  "host_heading (blank_network network) (blank_host h) = host_heading network h"
  "remote_element (blank_network network) (blank_host h) e = remote_element network h e"
  "remote_node (blank_network network) (blank_host h) e = remote_node network h e"
  by (simp_all add: host_heading_def remote_element_def remote_node_def host_description_def blank_network_def)

lemma blank_add_host: "add_host options (blank_network network) (blank_host h) = add_host options network h"
proof -
  have "add_remote_endpoint options (blank_network network) (blank_host h) = add_remote_endpoint options network h"
    by (intro ext) (simp add: add_remote_endpoint_def Let_def)
  then show ?thesis by (intro ext) (simp add: add_host_def Let_def)
qed

lemma blank_observations:
  "observations now visible (map blank_host hosts) = map blank_route (observations now visible hosts)"
  by (induction hosts) (auto simp: observations_def filter_map o_def)

definition blank_entry :: "route_key \<times> evidence \<Rightarrow> route_key \<times> evidence" where
  "blank_entry p = (fst p, blank_evidence (snd p))"

lemma om_put_blank: "om_put k (blank_evidence v) (map blank_entry m) = map blank_entry (om_put k v m)"
  by (induction k v m rule: om_put.induct) (auto simp: blank_entry_def)

lemma map_of_blank: "map_of (map blank_entry m) k = map_option blank_evidence (map_of m k)"
  by (induction m) (auto simp: blank_entry_def)

lemma store_evidence_blank: "store_evidence (blank_route r) (map blank_entry ev) = map blank_entry (store_evidence r ev)"
proof -
  have "record_side (blank_route r) (map_option blank_evidence slot) = blank_evidence (record_side r slot)" for slot
    by (cases slot; cases "rr_sending r") (simp_all add: record_side_def blank_evidence_def Let_def)
  moreover have "route_key (blank_route r) = route_key r" by (simp add: route_key_def)
  ultimately show ?thesis by (simp add: store_evidence_def map_of_blank om_put_blank)
qed

lemma fold_evidence_blank:
  "fold store_evidence (map blank_route obs) (map blank_entry ev) = map blank_entry (fold store_evidence obs ev)"
  by (induction obs arbitrary: ev) (simp_all add: store_evidence_blank)

lemma edge_rate_blank:
  "rr_state r = 1 \<Longrightarrow>
    edge_rate label (rr_rates (blank_route r)) (f (rr_rates (blank_route r))) = edge_rate label (rr_rates r) (f (rr_rates r))"
  by (cases "nrr_status (rr_rates r)") (simp_all add: edge_rate_def blank_rates_valid)

lemma verified_edge_blank:
  "rr_state s = 1 \<Longrightarrow> rr_state r = 1 \<Longrightarrow> verified_edge (blank_route s) (blank_route r) = verified_edge s r"
  by (simp add: verified_edge_def edge_rate_blank)

lemma evidence_edges_blank:
  assumes "\<And>r. r \<in> set obs \<Longrightarrow> rr_state r = 1"
  shows "concat (map evidence_edges (fold store_evidence (map blank_route obs) []))
    = concat (map evidence_edges (fold store_evidence obs []))"
proof -
  let ?ev = "fold store_evidence obs []"
  have "evidence_edges (blank_entry p) = evidence_edges p" if p: "p \<in> set ?ev" for p
  proof -
    obtain k v where kv: "p = (k, v)" by (cases p)
    have "map_of ?ev k = Some v" using om_entry_iff[of ?ev k v] evidence_lookup[of obs k] p kv by blast
    then have v: "v = Evidence (last_report True k obs) (last_report False k obs)"
      using evidence_lookup[of obs k] by (simp split: if_splits)
    have "rr_state r = 1" if "last_report b k obs = Some r" for b r
      using assms last_report_D[OF that] by blast
    then show ?thesis
      by (auto simp: kv v blank_entry_def blank_evidence_def evidence_edges_def verified_edge_blank split: option.split)
  qed
  then have same: "map (\<lambda>p. evidence_edges (blank_entry p)) ?ev = map evidence_edges ?ev" by simp
  have ev: "fold store_evidence (map blank_route obs) [] = map blank_entry ?ev"
    using fold_evidence_blank[of obs "[]"] by simp
  show ?thesis by (simp only: ev map_map o_def same)
qed

text \<open>
  No rate is shown that is not a current measurement: the graph, with every label, node detail
  and edge detail in it, is the same when the rates of all inactive routes and the figures of all
  invalid or unfinished measurements are erased from the snapshot.
\<close>

theorem no_invalid_rate_shown:
  "AddRemoteGraph now model (blank_network network) options = AddRemoteGraph now model network options"
proof -
  have hosts: "fold (add_host options (blank_network network)) (ns_hosts (blank_network network)) m
      = fold (add_host options network) (ns_hosts network) m" for m
    by (simp add: blank_network_def fold_map o_def blank_add_host[unfolded blank_network_def])
  have routes: "AddVerifiedRoutes now m (blank_network network) = AddVerifiedRoutes now m network" for m
  proof -
    let ?obs = "observations now (visible_topics (gm_nodes m)) (ns_hosts network)"
    have "rr_state r = 1" if "r \<in> set ?obs" for r using that by (auto simp: observations_iff)
    from evidence_edges_blank[OF this] show ?thesis
      by (simp add: AddVerifiedRoutes_def fold_host_evidence blank_network_def blank_observations Let_def)
  qed
  show ?thesis by (simp add: AddRemoteGraph_def hosts routes)
qed

section \<open>A concrete snapshot\<close>

definition sample_host :: "string \<Rightarrow> string \<Rightarrow> remote_route list \<Rightarrow> remote_endpoint list \<Rightarrow> remote_host" where
  "sample_host ident state routes endpoints = \<lparr>rh_id = ident, rh_boot_id = ''b'', rh_label = ident, rh_address = ''10.0.0.1:1'',
     rh_state = state, rh_framework_version = ''5.5.0'', rh_network_version = ''1.0'', rh_compatibility = ''COMPATIBLE'',
     rh_capabilities = [], rh_session = 7, rh_revision = 1, rh_age_ms = 10, rh_metadata_ready = True,
     rh_endpoints = endpoints,
     rh_diagnostics = remote_network_diagnostics0\<lparr>rnd_status := DIAG_VALID, rnd_gateway_host := ident,
       rnd_gateway_boot := ''b'', rnd_gateway_session := 7, rnd_observed_at_unix_ms := 1000, rnd_routes := routes\<rparr>\<rparr>"

theorem remote_graph_scope_witness:
  "gn_host ` set (gm_nodes (AddRemoteGraph 0 graph_model0
     (network_snapshot0\<lparr>ns_hosts := [sample_host ''h1'' ''ONLINE'' [] [], sample_host ''h2'' ''LOST'' [] []]\<rparr>)
     (graph_options0\<lparr>go_host := ''h2''\<rparr>))) \<subseteq> {''h2''}"
  using remote_graph_scope[of 0 graph_model0
    "network_snapshot0\<lparr>ns_hosts := [sample_host ''h1'' ''ONLINE'' [] [], sample_host ''h2'' ''LOST'' [] []]\<rparr>"
    "graph_options0\<lparr>go_host := ''h2''\<rparr>"]
  by (auto simp: local_part_def shown_hosts_def host_shown_def graph_options0_def graph_model0_def sample_host_def)

end
