(* ===== verification/GatewayRead.thy ===== *)
theory GatewayRead
  imports GatewayJson
begin

text \<open>
  What the readers of \<open>GatewayJson\<close> accept: \<open>peers_ok\<close> lists every condition a peer list satisfies
  once it has been read, and \<open>peers_json\<close> writes such a list in the format of the gateway. Each
  reader has a lemma for what it returns and one for reading back what was written.
\<close>

section \<open>Escaped text\<close>

text \<open>The metadata bytes of the gateway, each escaped as the code point of the same number.\<close>

definition escape_char :: "char \<Rightarrow> string" where
  "escape_char c = (let n = (of_char c :: nat) in if n < 128 then [c] else [char_of (0xc0 + n div 64), char_of (0x80 + n mod 64)])"

definition escape :: "string \<Rightarrow> string" where
  "escape s = concat (map escape_char s)"

lemma escape_simps [simp]: "escape [] = []" "escape (c # cs) = escape_char c @ escape cs"
  by (simp_all add: escape_def)

lemma six_bits: "m < 64 \<Longrightarrow> (128::nat) OR m = 128 + m \<and> (192::nat) OR m = 192 + m \<and> (128 + m) AND 63 = m"
proof -
  have "\<forall>m \<in> set [0..<64]. (128::nat) OR m = 128 + m \<and> (192::nat) OR m = 192 + m \<and> (128 + m) AND 63 = m"
    by code_simp
  then show "m < 64 \<Longrightarrow> ?thesis" by simp
qed

lemma of_char_lt: "(of_char c :: nat) < 256"
  by simp

lemma text_bytes_escape: "text_bytes (escape bs) = Inr bs"
proof (induction bs)
  case (Cons c bs)
  define n where "n = (of_char c :: nat)"
  have n: "n < 256" "char_of n = c" by (simp_all add: n_def)
  show ?case
  proof (cases "n < 128")
    case True
    then show ?thesis using Cons by (simp add: escape_char_def n_def[symmetric])
  next
    case False
    have m: "n mod 64 < 64" "n mod 64 \<le> 63" by (simp, presburger)
    have q: "n div 64 = 2 \<or> n div 64 = 3" using False n(1) by auto
    have oc: "(of_char (char_of (0xc0 + n div 64) :: char) :: nat) = 0xc0 + n div 64"
      "(of_char (char_of (0x80 + n mod 64) :: char) :: nat) = 0x80 + n mod 64"
      using q m by (auto simp: of_char_mod_256 simp del: mod_less_divisor)
    have "push_bit 6 ((0xc0 + n div 64) AND 3) OR ((0x80 + n mod 64) AND 63) = n"
    proof -
      have dm: "n = 64 * (n div 64) + n mod 64" by simp
      from q show ?thesis
      proof
        assume "n div 64 = 2"
        with dm show ?thesis using six_bits[OF m(1)] by (simp add: push_bit_eq_mult)
      next
        assume "n div 64 = 3"
        with dm show ?thesis using six_bits[OF m(1)] by (simp add: push_bit_eq_mult)
      qed
    qed
    then show ?thesis
      using False Cons q m by (auto simp: escape_char_def n_def[symmetric] oc Let_def Require_def n(2))
  qed
qed simp

lemma text_bytes_only_escaped: "text_bytes s = Inr bs \<Longrightarrow> s = escape bs"
proof (induction s arbitrary: bs rule: text_bytes.induct)
  case (2 c cs)
  show ?case
  proof (cases "(of_char c :: nat) < 128")
    case True
    with 2 obtain bs' where "text_bytes cs = Inr bs'" "bs = c # bs'" by (auto simp: res_simps)
    with 2(1)[OF True] True show ?thesis by (simp add: escape_char_def)
  next
    case False
    then obtain d ds where cs: "cs = d # ds" using 2(3) by (cases cs) auto
    define m where "m = (of_char d :: nat) - 128"
    obtain bs' where b: "text_bytes ds = Inr bs'" and c: "(of_char c :: nat) = 0xc2 \<or> (of_char c :: nat) = 0xc3"
      and d: "0x80 \<le> (of_char d :: nat)" "(of_char d :: nat) \<le> 0xbf"
      and bs: "bs = char_of (push_bit 6 ((of_char c :: nat) AND 3) OR ((of_char d :: nat) AND 63)) # bs'"
      using 2(3) False cs by (auto simp: res_simps Require_def Let_def)
    have od: "(of_char d :: nat) = 128 + m" "m < 64" using d by (simp_all add: m_def)
    have dm: "(128 + m) div 64 = 2" "(128 + m) mod 64 = m" "(192 + m) div 64 = 3" "(192 + m) mod 64 = m"
      using od(2) div_mult_self3[of 64 m 2] div_mult_self3[of 64 m 3] mod_mult_self3[of 2 64 m] mod_mult_self3[of 3 64 m] by simp_all
    have ds: "ds = escape bs'" using 2(2)[OF False cs refl refl] b by simp
    have cd: "char_of (of_char c :: nat) = c" "char_of (of_char d :: nat) = d" by simp_all
    have "escape_char (char_of (push_bit 6 ((of_char c :: nat) AND 3) OR ((of_char d :: nat) AND 63))) = [c, d]"
    proof -
      have nat_c: "of_char (char_of k :: char) = (k :: nat)" if "k < 256" for k using that by (simp add: of_char_mod_256)
      from c show ?thesis
      proof
        assume "(of_char c :: nat) = 0xc2"
        with od cd show ?thesis using six_bits[OF od(2)] by (simp add: escape_char_def nat_c push_bit_eq_mult Let_def dm)
      next
        assume "(of_char c :: nat) = 0xc3"
        with od cd show ?thesis using six_bits[OF od(2)] by (simp add: escape_char_def nat_c push_bit_eq_mult Let_def dm)
      qed
    qed
    then show ?thesis by (simp add: bs cs ds)
  qed
qed simp

lemma text_bytes_iff: "text_bytes s = Inr bs \<longleftrightarrow> s = escape bs"
  using text_bytes_escape text_bytes_only_escaped by blast

section \<open>Scalars\<close>

lemma Require_simps [simp]: "Require True = Inr ()" "Require False = fail (- EPROTO)"
  by (simp_all add: Require_def)

lemma Require_iff [res_simps]: "Require b = Inr u \<longleftrightarrow> b"
  by (simp add: Require_def guard_Inr_iff)

definition json_u64 :: "u64 \<Rightarrow> json" where
  "json_u64 v = JString (to_string_u64 v)"

definition json_int :: "int \<Rightarrow> json" where
  "json_int v = (if v < 0 then JSigned v else JUnsigned (word_of_int v))"

lemma Decimal_json [simp]: "Decimal (json_u64 v) = Inr v"
proof -
  have lt: "unat v < 2 ^ 64" using unsigned_less[of v] by simp
  then have "length (dec_nat (unat v)) \<le> 20" by (subst length_dec_nat_le) simp_all
  then show ?thesis
    using lt by (simp add: Decimal_def JString_of_def json_u64_def to_string_u64_def from_chars_u64_to_string)
qed

lemma Integer_json [simp]:
  assumes "low \<le> v" "v \<le> high" "high < 2 ^ 63"
  shows "Integer (json_int v) low high = Inr v"
proof (cases "v < 0")
  case True
  with assms show ?thesis by (simp add: Integer_def json_int_def)
next
  case False
  have u: "uint (word_of_int v :: u64) = v" "uint (word_of_int high :: u64) = high"
    using False assms by (simp_all add: uint_word_of_int)
  have "sint (word_of_int v :: u64) = v" using False assms by (simp add: sint_uint u signed_take_bit_int_eq_self)
  moreover have "(word_of_int v :: u64) \<le> word_of_int high" using assms by (simp add: word_le_def u)
  ultimately show ?thesis using False assms by (simp add: Integer_def json_int_def)
qed

lemma Integer_range: "Integer j low high = Inr v \<Longrightarrow> low \<le> v \<and> v \<le> high"
  by (auto simp: Integer_def res_simps split: json.splits)

definition id_ok :: "bool \<Rightarrow> string \<Rightarrow> bool" where
  "id_ok zero s \<longleftrightarrow> length s = 32 \<and> (\<forall>c \<in> set s. lower_hex c) \<and> (zero \<or> s \<noteq> zero_id)"

lemma zero_id_iff: "length s = 32 \<Longrightarrow> s \<noteq> zero_id \<longleftrightarrow> (\<exists>c \<in> set s. c \<noteq> CHR ''0'')"
  by (metis in_set_replicate replicate_eqI zero_id_def)

lemma id_char_lower: "id_char c = Inr d \<Longrightarrow> lower_hex d"
proof -
  have "lower_hex (char_of (of_char c + 32 :: nat))" if "upper_hex c"
  proof -
    have r: "65 \<le> (of_char c :: nat)" "(of_char c :: nat) \<le> 70"
      using that by (simp_all add: upper_hex_def less_eq_char_def)
    then have "(of_char (char_of (of_char c + 32 :: nat) :: char) :: nat) = of_char c + 32" by (simp add: of_char_mod_256)
    with r show ?thesis by (simp add: lower_hex_def less_eq_char_def)
  qed
  then show "id_char c = Inr d \<Longrightarrow> lower_hex d" by (auto simp: id_char_def res_simps split: if_splits)
qed

lemma lower_not_upper: "lower_hex c \<Longrightarrow> \<not> upper_hex c"
  by (auto simp: lower_hex_def upper_hex_def less_eq_char_def)

lemma id_char_same: "lower_hex c \<Longrightarrow> id_char c = Inr c"
  by (simp add: id_char_def lower_not_upper)

lemma Id_ok: "Id j zero = Inr s \<Longrightarrow> id_ok zero s"
proof -
  assume "Id j zero = Inr s"
  then obtain t where t: "length t = 32" "list_all2 (\<lambda>x y. id_char x = Inr y) t s" "zero \<or> (\<exists>c \<in> set s. c \<noteq> CHR ''0'')"
    by (auto simp: Id_def res_simps)
  then have "length s = 32" by (simp add: list_all2_lengthD)
  moreover have "\<forall>c \<in> set s. lower_hex c"
    using t(2) id_char_lower by (fastforce simp: list_all2_conv_all_nth in_set_conv_nth)
  ultimately show ?thesis using t(3) zero_id_iff by (auto simp: id_ok_def)
qed

lemma Id_json [simp]: "id_ok zero s \<Longrightarrow> Id (JString s) zero = Inr s"
proof -
  assume ok: "id_ok zero s"
  have "mapM_res id_char s = Inr (map (\<lambda>c. c) s)"
    using ok by (intro mapM_res_Inr) (simp add: id_ok_def id_char_same)
  with ok show ?thesis using zero_id_iff[of s] by (auto simp: Id_def JString_of_def id_ok_def)
qed

definition text_ok :: "string \<Rightarrow> bool" where
  "text_ok s \<longleftrightarrow> length (escape s) \<le> 8192"

definition json_text :: "string \<Rightarrow> json" where
  "json_text s = JString (escape s)"

lemma Text_json [simp]: "text_ok s \<Longrightarrow> Text (json_text s) = Inr s"
  by (simp add: Text_def json_text_def JString_of_def text_ok_def text_bytes_escape)

lemma Text_ok: "Text j = Inr s \<Longrightarrow> text_ok s"
  by (auto simp: Text_def res_simps text_ok_def text_bytes_iff)

section \<open>Identities\<close>

definition runtime_ok :: "bool \<Rightarrow> route_endpoint_identity \<Rightarrow> bool" where
  "runtime_ok application r \<longleftrightarrow> id_ok application (rei_host_id r) \<and> id_ok application (rei_boot_id r)
     \<and> (if application then 0 else 1) \<le> rei_pid r \<and> rei_pid r \<le> 2147483647
     \<and> (if rei_pid r = 0 then rei_host_id r = zero_id \<and> rei_boot_id r = zero_id \<and> rei_start_ticks r = 0
        else rei_start_ticks r \<noteq> 0 \<and> rei_host_id r \<noteq> zero_id \<and> rei_boot_id r \<noteq> zero_id)"

definition runtime_json :: "route_endpoint_identity \<Rightarrow> json" where
  "runtime_json r = JObject [(''boot'', JString (rei_boot_id r)), (''host'', JString (rei_host_id r)),
     (''pid'', json_int (rei_pid r)), (''start_ticks'', json_u64 (rei_start_ticks r))]"

lemma Field_json [simp]:
  "Field (JObject ((k, v) # m)) key = (if k = key then Inr v else Field (JObject m) key)"
  by (simp add: Field_def)

lemma Runtime_ok: "Runtime j application = Inr r \<Longrightarrow> runtime_ok application r \<and> rei_registration_id r = 0"
  by (auto simp: Runtime_def runtime_ok_def res_simps dest: Id_ok Integer_range split: if_splits)

lemma Runtime_json [simp]:
  "runtime_ok application r \<Longrightarrow> Runtime (runtime_json r) application = Inr (r\<lparr>rei_registration_id := 0\<rparr>)"
  by (cases r) (auto simp: Runtime_def runtime_json_def runtime_ok_def split: if_splits)

definition type_json :: "remote_type_identity \<Rightarrow> json" where
  "type_json t = JObject [(''encoding_id'', json_int (uint (rti_encoding_id t))), (''payload_size'', json_int (uint (rti_payload_size t))),
     (''schema_id'', json_u64 (rti_schema_id t)), (''type_id'', json_u64 (rti_type_id t))]"

lemma uint_u32: "uint (w :: u32) \<le> 4294967295"
  using uint_lt2p[of w] by simp

lemma Type_json [simp]: "Type_of (type_json t) = Inr t"
  by (simp add: Type_of_def type_json_def uint_u32)


section \<open>Endpoints and peers\<close>

definition endpoint_ok :: "string \<Rightarrow> string \<Rightarrow> local_gateway_endpoint \<Rightarrow> bool" where
  "endpoint_ok host boot e \<longleftrightarrow>
     runtime_ok False (le_identity e) \<and> rei_host_id (le_identity e) = host \<and> rei_boot_id (le_identity e) = boot
   \<and> rei_registration_id (le_identity e) \<noteq> 0
   \<and> runtime_ok True (le_application e) \<and> rei_registration_id (le_application e) = 0
   \<and> text_ok (le_host_name e) \<and> text_ok (le_application_name e) \<and> text_ok (le_element_name e) \<and> text_ok (le_name e)
   \<and> le_name e \<noteq> [] \<and> hd (le_name e) = CHR ''/''
   \<and> 1 \<le> uint (le_kind e) \<and> uint (le_kind e) \<le> 4 \<and> 1 \<le> uint (le_role e) \<and> uint (le_role e) \<le> 2 \<and> uint (le_scope e) \<le> 1
   \<and> length (le_groups e) \<le> 64 \<and> (\<forall>g \<in> set (le_groups e). text_ok g)"

definition peer_ok :: "(string \<Rightarrow> bool) \<Rightarrow> local_gateway_peer \<Rightarrow> bool" where
  "peer_ok inet p \<longleftrightarrow>
     id_ok False (lp_host p) \<and> id_ok False (lp_boot p) \<and> lp_session p \<noteq> 0
   \<and> (lp_state p = ''ONLINE'' \<or> lp_state p = ''LOST'') \<and> inet (lp_address p)
   \<and> 1 \<le> uint (lp_metadata_port p) \<and> uint (lp_metadata_port p) \<le> 65535
   \<and> length (lp_endpoints p) \<le> 64 \<and> distinct (map le_identity (lp_endpoints p))
   \<and> (\<forall>e \<in> set (lp_endpoints p). endpoint_ok (lp_host p) (lp_boot p) e)"

definition peers_ok :: "(string \<Rightarrow> bool) \<Rightarrow> local_gateway_peer list \<Rightarrow> bool" where
  "peers_ok inet ps \<longleftrightarrow> length ps \<le> 64 \<and> distinct (map lp_host ps) \<and> (\<forall>p \<in> set ps. peer_ok inet p)"

definition endpoint_json :: "local_gateway_endpoint \<Rightarrow> json" where
  "endpoint_json e = JObject [
     (''application'', runtime_json (le_application e)), (''application_name'', json_text (le_application_name e)),
     (''element_name'', json_text (le_element_name e)), (''feedback_type'', type_json (le_feedback_type e)),
     (''groups'', JArray (map json_text (le_groups e))), (''host_name'', json_text (le_host_name e)),
     (''kind'', json_int (uint (le_kind e))), (''name'', json_text (le_name e)),
     (''registration_id'', json_u64 (rei_registration_id (le_identity e))), (''request_type'', type_json (le_request_type e)),
     (''response_type'', type_json (le_response_type e)), (''role'', json_int (uint (le_role e))),
     (''runtime'', runtime_json (le_identity e)), (''scope'', json_int (uint (le_scope e))),
     (''value_type'', type_json (le_value_type e))]"

definition peer_json :: "local_gateway_peer \<Rightarrow> json" where
  "peer_json p = JObject [
     (''address'', JString (lp_address p)), (''boot'', JString (lp_boot p)),
     (''endpoints'', JArray (map endpoint_json (lp_endpoints p))), (''host'', JString (lp_host p)),
     (''metadata_port'', json_int (uint (lp_metadata_port p))), (''metadata_ready'', JBoolean (lp_metadata_ready p)),
     (''metadata_revision'', json_u64 (lp_metadata_revision p)), (''session'', json_u64 (lp_session p)),
     (''state'', JString (lp_state p))]"

definition peers_json :: "local_gateway_peer list \<Rightarrow> json" where
  "peers_json ps = JObject [(''peers'', JArray (map peer_json ps))]"

lemma JArray_json [simp]: "length xs \<le> n \<Longrightarrow> JArray_of (JArray xs) n = Inr xs"
  by (simp add: JArray_of_def)

lemma JArray_ok: "JArray_of j n = Inr xs \<Longrightarrow> length xs \<le> n"
  by (auto simp: JArray_of_def res_simps split: json.splits)

lemma string_bool_json [simp]: "JString_of (JString s) = Inr s" "Boolean (JBoolean b) = Inr b"
  by (simp_all add: JString_of_def Boolean_def)

text \<open>Within one host and boot the text of an identity determines it.\<close>

lemma identity_text_inject:
  assumes "identity_text a = identity_text b" and "rei_host_id a = rei_host_id b" and "rei_boot_id a = rei_boot_id b"
  shows "a = b"
proof -
  have "to_string_int (rei_pid a) @ CHR '':'' # (to_string_u64 (rei_start_ticks a) @ '':'' @ to_string_u64 (rei_registration_id a))
      = to_string_int (rei_pid b) @ CHR '':'' # (to_string_u64 (rei_start_ticks b) @ '':'' @ to_string_u64 (rei_registration_id b))"
    using assms(1) by (simp add: identity_text_def)
  from sep_inject[OF this] have pid: "rei_pid a = rei_pid b"
    and "to_string_u64 (rei_start_ticks a) @ CHR '':'' # to_string_u64 (rei_registration_id a)
      = to_string_u64 (rei_start_ticks b) @ CHR '':'' # to_string_u64 (rei_registration_id b)" by auto
  from sep_inject[OF this(2)] pid assms(2,3) show ?thesis by simp
qed

lemma u32_small: "1 \<le> v \<Longrightarrow> v \<le> n \<Longrightarrow> n < 2 ^ 32 \<Longrightarrow> uint (word_of_int v :: u32) = v"
  by (simp add: uint_word_of_int)

lemma u32_range:
  assumes "low \<le> v" and "v \<le> high" and "0 \<le> low" and "high < 2 ^ 32"
  shows "uint (word_of_int v :: u32) = v"
  using assms by (simp add: uint_word_of_int)

lemma runtime_ok_registration [simp]: "runtime_ok b (r\<lparr>rei_registration_id := n\<rparr>) = runtime_ok b r"
  by (simp add: runtime_ok_def)

lemma Texts_ok: "mapM_res Text xs = Inr ys \<Longrightarrow> length ys = length xs \<and> (\<forall>y \<in> set ys. text_ok y)"
  by (induction xs arbitrary: ys) (auto simp: res_simps list_all2_Cons1 dest: Text_ok)

lemmas reader_ok = Runtime_ok Id_ok Integer_range Text_ok Texts_ok JArray_ok

text \<open>What one round of the endpoint loop adds.\<close>

lemma read_endpoint_ok:
  assumes "read_endpoint host boot e acc = Inr acc'"
  shows "\<exists>ep. acc' = (identity_text (le_identity ep) # fst acc, snd acc @ [ep])
    \<and> identity_text (le_identity ep) \<notin> set (fst acc) \<and> endpoint_ok host boot ep"
  using assms unfolding read_endpoint_def Let_def res_bind_Inr_iff Require_iff sum.inject
  apply (elim exE conjE)
  apply (drule reader_ok)+
  apply hypsubst
  apply (simp add: endpoint_ok_def u32_range[of 1 _ 4] u32_range[of 1 _ 2] u32_range[of 0 _ 1])
  done

lemma Texts_json: "\<forall>s \<in> set ss. text_ok s \<Longrightarrow> mapM_res Text (map json_text ss) = Inr ss"
  by (induction ss) auto

lemma type_words [simp]: "word_of_int (uint (w :: u32)) = w"
  by simp

lemma read_endpoint_json:
  assumes "endpoint_ok host boot e" and "identity_text (le_identity e) \<notin> set (fst acc)"
  shows "read_endpoint host boot (endpoint_json e) acc = Inr (identity_text (le_identity e) # fst acc, snd acc @ [e])"
proof -
  have same: "(le_identity e)\<lparr>rei_registration_id := 0, rei_registration_id := rei_registration_id (le_identity e)\<rparr> = le_identity e"
    "rei_registration_id (le_application e) = 0 \<Longrightarrow> (le_application e)\<lparr>rei_registration_id := 0\<rparr> = le_application e" by simp_all
  show ?thesis
    using assms same
    by (simp add: read_endpoint_def endpoint_json_def endpoint_ok_def Texts_json Let_def)
qed

text \<open>The whole endpoint loop: texts of the identities on one side, endpoints on the other.\<close>

definition endpoints_read :: "string \<Rightarrow> string \<Rightarrow> string list \<times> local_gateway_endpoint list \<Rightarrow> bool" where
  "endpoints_read host boot acc \<longleftrightarrow> fst acc = rev (map (\<lambda>e. identity_text (le_identity e)) (snd acc))
     \<and> distinct (fst acc) \<and> (\<forall>e \<in> set (snd acc). endpoint_ok host boot e)"

lemma read_endpoints_ok:
  assumes "foldM_res (read_endpoint host boot) js ([], []) = Inr acc"
  shows "endpoints_read host boot acc \<and> length (snd acc) = length js"
proof -
  have "foldM_res (read_endpoint host boot) js acc0 = Inr acc \<Longrightarrow> endpoints_read host boot acc0 \<Longrightarrow>
      endpoints_read host boot acc \<and> length (snd acc) = length (snd acc0) + length js" for js acc0
  proof (induction js arbitrary: acc0)
    case (Cons j js)
    from Cons.prems(1) obtain acc1 where a: "read_endpoint host boot j acc0 = Inr acc1"
      "foldM_res (read_endpoint host boot) js acc1 = Inr acc" by (auto simp: res_simps)
    from read_endpoint_ok[OF a(1)] Cons.prems(2) have "endpoints_read host boot acc1" "length (snd acc1) = Suc (length (snd acc0))"
      by (auto simp: endpoints_read_def)
    with Cons.IH[OF a(2)] show ?case by (auto simp: distinct_rev)
  qed simp
  from this[OF assms] show ?thesis by (auto simp: endpoints_read_def)
qed

lemma read_endpoints_json:
  assumes "\<forall>e \<in> set es. endpoint_ok host boot e" and "distinct (map le_identity es)"
  shows "\<exists>names. foldM_res (read_endpoint host boot) (map endpoint_json es) ([], []) = Inr (names, es)"
proof -
  let ?names = "\<lambda>es. map (\<lambda>e. identity_text (le_identity e)) es"
  have d: "distinct (?names es)"
    unfolding distinct_map using assms
    by (auto simp: endpoint_ok_def distinct_map intro!: inj_onI dest!: identity_text_inject dest: inj_onD)
  have "foldM_res (read_endpoint host boot) (map endpoint_json es) (rev (?names known), known)
      = Inr (rev (?names (known @ es)), known @ es)"
    if "\<forall>e \<in> set es. endpoint_ok host boot e" "distinct (?names (known @ es))" for es known
    using that
  proof (induction es arbitrary: known)
    case (Cons e es)
    have "read_endpoint host boot (endpoint_json e) (rev (?names known), known) = Inr (rev (?names (known @ [e])), known @ [e])"
      using Cons.prems by (subst read_endpoint_json) auto
    moreover have "foldM_res (read_endpoint host boot) (map endpoint_json es) (rev (?names (known @ [e])), known @ [e])
        = Inr (rev (?names ((known @ [e]) @ es)), (known @ [e]) @ es)"
      using Cons.prems by (intro Cons.IH) auto
    ultimately show ?case by simp
  qed simp
  from this[OF assms(1), of "[]"] d show ?thesis by auto
qed

lemma read_peer_ok:
  assumes "read_peer inet j acc = Inr acc'"
  shows "\<exists>p. acc' = (lp_host p # fst acc, snd acc @ [p]) \<and> lp_host p \<notin> set (fst acc) \<and> peer_ok inet p"
proof -
  have dist: "distinct (map le_identity es)" if "endpoints_read host boot (names, es)" for host boot names es
    using that by (auto simp: endpoints_read_def distinct_map inj_on_def)
  from assms show ?thesis
    unfolding read_peer_def res_bind_Inr_iff Require_iff sum.inject
    apply (elim exE conjE)
    apply (drule reader_ok)+
    apply (drule read_endpoints_ok)
    apply hypsubst
    apply (auto simp: peer_ok_def u32_range[of 1 _ 65535] endpoints_read_def distinct_map inj_on_def)
    done
qed

lemma read_peer_json:
  assumes "peer_ok inet p" and "lp_host p \<notin> set (fst acc)"
  shows "read_peer inet (peer_json p) acc = Inr (lp_host p # fst acc, snd acc @ [p])"
proof -
  obtain names where "foldM_res (read_endpoint (lp_host p) (lp_boot p)) (map endpoint_json (lp_endpoints p)) ([], [])
      = Inr (names, lp_endpoints p)"
    using read_endpoints_json[of "lp_endpoints p" "lp_host p" "lp_boot p"] assms(1) by (fastforce simp: peer_ok_def)
  with assms show ?thesis by (auto simp: read_peer_def peer_json_def peer_ok_def)
qed

lemma Peers_ok: "Peers inet j = Inr ps \<Longrightarrow> peers_ok inet ps"
proof -
  assume "Peers inet j = Inr ps"
  then obtain js acc where js: "length js \<le> 64" "foldM_res (read_peer inet) js ([], []) = Inr acc" "ps = snd acc"
    by (auto simp: Peers_def res_simps dest: JArray_ok)
  let ?P = "\<lambda>acc. fst acc = rev (map lp_host (snd acc)) \<and> distinct (fst acc) \<and> (\<forall>p \<in> set (snd acc). peer_ok inet p)"
  have "foldM_res (read_peer inet) js acc0 = Inr acc \<Longrightarrow> ?P acc0 \<Longrightarrow> ?P acc \<and> length (snd acc) = length (snd acc0) + length js" for js acc0
  proof (induction js arbitrary: acc0)
    case (Cons j js)
    from Cons.prems(1) obtain acc1 where a: "read_peer inet j acc0 = Inr acc1" "foldM_res (read_peer inet) js acc1 = Inr acc"
      by (auto simp: res_simps)
    from read_peer_ok[OF a(1)] Cons.prems(2) have "?P acc1" "length (snd acc1) = Suc (length (snd acc0))" by auto
    with Cons.IH[OF a(2)] show ?case by (auto simp: distinct_rev)
  qed (auto simp: distinct_rev)
  from this[OF js(2)] js show ?thesis by (auto simp: peers_ok_def distinct_rev)
qed

lemma Peers_json:
  assumes "peers_ok inet ps"
  shows "Peers inet (peers_json ps) = Inr ps"
proof -
  have "foldM_res (read_peer inet) (map peer_json ps) (rev (map lp_host known), known)
      = Inr (rev (map lp_host (known @ ps)), known @ ps)"
    if "\<forall>p \<in> set ps. peer_ok inet p" "distinct (map lp_host (known @ ps))" for ps known
    using that
  proof (induction ps arbitrary: known)
    case (Cons p ps)
    have "read_peer inet (peer_json p) (rev (map lp_host known), known) = Inr (rev (map lp_host (known @ [p])), known @ [p])"
      using Cons.prems by (subst read_peer_json) auto
    moreover have "foldM_res (read_peer inet) (map peer_json ps) (rev (map lp_host (known @ [p])), known @ [p])
        = Inr (rev (map lp_host ((known @ [p]) @ ps)), (known @ [p]) @ ps)"
      using Cons.prems by (intro Cons.IH) auto
    ultimately show ?case by simp
  qed simp
  from this[of ps "[]"] assms show ?thesis by (simp add: Peers_def peers_json_def peers_ok_def)
qed


section \<open>Properties\<close>

text \<open>
  Metadata texts are decoded exactly: the reader accepts the escape of a byte string of at most
  8192 encoded characters and gives those bytes back; every other document is a protocol error.
\<close>

theorem gateway_text_exact:
  "(Text j = Inr bs) = (j = JString (escape bs) \<and> length (escape bs) \<le> 8192)
   \<and> (Text j \<in> Inl ` UNIV) = (Text j = fail (- EPROTO))"
proof
  show "(Text j = Inr bs) = (j = JString (escape bs) \<and> length (escape bs) \<le> 8192)"
    by (auto simp: Text_def JString_of_def res_simps text_bytes_iff split: json.splits)
  have "proto_only (Text j)" by (rule proto_compound)
  then show "(Text j \<in> Inl ` UNIV) = (Text j = fail (- EPROTO))"
    by (cases "Text j") (auto simp: proto_only_def fail_def)
qed

text \<open>
  C23. The peer reader accepts well-formed peer lists and nothing else: some document is read as
  \<open>ps\<close> exactly when \<open>ps\<close> is well formed (at most 64 peers with different hosts, normalised non-zero
  identities, every endpoint registered on its peer's own host and boot and none twice, all numbers
  in range), and then the document written for \<open>ps\<close> is read as \<open>ps\<close>. Every refusal is a protocol
  error.
\<close>

theorem gateway_peers_exact:
  "(\<exists>j. Peers inet j = Inr ps) = peers_ok inet ps
   \<and> (Peers inet (peers_json ps) = Inr ps) = peers_ok inet ps
   \<and> (Peers inet j \<in> Inl ` UNIV) = (Peers inet j = fail (- EPROTO))"
proof (intro conjI)
  show "(\<exists>j. Peers inet j = Inr ps) = peers_ok inet ps" using Peers_ok Peers_json by blast
  show "(Peers inet (peers_json ps) = Inr ps) = peers_ok inet ps" using Peers_ok Peers_json by blast
  have "proto_only (Peers inet j)" by (rule proto_Peers)
  then show "(Peers inet j \<in> Inl ` UNIV) = (Peers inet j = fail (- EPROTO))"
    by (cases "Peers inet j") (auto simp: proto_only_def fail_def)
qed

text \<open>A peer with one endpoint is well formed.\<close>

definition sample_id :: "char \<Rightarrow> string" where
  "sample_id c = replicate 32 c"

definition sample_type :: remote_type_identity where
  "sample_type = \<lparr>rti_type_id = 1, rti_schema_id = 2, rti_encoding_id = 3, rti_payload_size = 4\<rparr>"

definition sample_peer :: local_gateway_peer where
  "sample_peer = \<lparr>lp_host = sample_id (CHR ''a''), lp_boot = sample_id (CHR ''1''), lp_address = ''10.0.0.2'', lp_state = ''ONLINE'',
     lp_session = 5, lp_metadata_revision = 1, lp_metadata_port = 37651, lp_metadata_ready = True,
     lp_endpoints = [\<lparr>le_identity = \<lparr>rei_host_id = sample_id (CHR ''a''), rei_boot_id = sample_id (CHR ''1''), rei_pid = 7,
         rei_start_ticks = 9, rei_registration_id = 1\<rparr>,
       le_application = \<lparr>rei_host_id = zero_id, rei_boot_id = zero_id, rei_pid = 0, rei_start_ticks = 0, rei_registration_id = 0\<rparr>,
       le_host_name = ''robot'', le_application_name = [], le_element_name = ''imu'', le_name = ''/imu'', le_kind = 1, le_role = 1,
       le_scope = 1, le_value_type = sample_type, le_request_type = sample_type, le_response_type = sample_type,
       le_feedback_type = sample_type, le_groups = [''lab'']\<rparr>]\<rparr>"

lemma sample_peer_ok: "peers_ok (\<lambda>_. True) [sample_peer]"
  by (simp add: peers_ok_def peer_ok_def endpoint_ok_def sample_peer_def sample_id_def zero_id_def runtime_ok_def id_ok_def
      text_ok_def escape_char_def lower_hex_def less_eq_char_def Let_def)

end
