(* ===== verification/GatewayClient.thy ===== *)
theory GatewayClient
  imports GatewayRead ToolBackend
begin

text \<open>
  \<open>src/backend/local_gateway.cpp\<close>, the talking half: the socket loops \<open>Wait\<close> and \<open>Transfer\<close>, one
  request \<open>Query\<close>, the polling cycle of the worker and the client object with its two threads.

  The kernel is a \<open>gw_world\<close>: at every step of a loop (numbered by \<open>gc_time\<close>) it says whether the
  stop flag is set and the deadline has passed, what \<open>poll\<close>, \<open>send\<close> and \<open>recv\<close> return, and what the
  peer has written (\<open>gw_stream\<close>). \<open>recv\<close> gives the next bytes of that stream and \<open>send\<close> takes a
  prefix of the buffer, never more than was asked for; a count of zero is the end of the stream.
  The loops have no bound of their own, so they are partial functions and \<open>None\<close> is not returning. They return
  when the deadline passes, and succeed when the kernel keeps moving bytes (\<open>flowing\<close>) until they are through.
\<close>

section \<open>The kernel and the connection\<close>

datatype moved = Moved nat | MoveFails int
datatype polled = PollReady | PollTimeout | PollFails int

record gw_world =
  gw_stop :: "nat \<Rightarrow> bool"
  gw_expired :: "nat \<Rightarrow> bool"
  gw_poll :: "nat \<Rightarrow> polled"
  gw_send :: "nat \<Rightarrow> moved"
  gw_recv :: "nat \<Rightarrow> moved"
  gw_stream :: bytes
  gw_socket :: int
  gw_connect :: int
  gw_soerror :: "int + int"
  gw_peer :: "nat option"
  gw_euid :: nat

record gw_conn =
  gc_time :: nat
  gc_pos :: nat
  gc_sent :: bytes

definition gw_conn0 :: gw_conn where
  "gw_conn0 = \<lparr>gc_time = 0, gc_pos = 0, gc_sent = []\<rparr>"

definition tick :: "gw_conn \<Rightarrow> gw_conn" where
  "tick s = s\<lparr>gc_time := Suc (gc_time s)\<rparr>"

text \<open>Results that may not be there, because the code has not returned.\<close>

definition gw_bind :: "('a result \<times> 's) option \<Rightarrow> ('a \<Rightarrow> 's \<Rightarrow> ('b result \<times> 's) option) \<Rightarrow> ('b result \<times> 's) option" where
  "gw_bind m f = (case m of None \<Rightarrow> None | Some (Inl e, s) \<Rightarrow> Some (Inl e, s) | Some (Inr x, s) \<Rightarrow> f x s)"

lemma gw_bind_simps [simp]:
  "gw_bind None f = None" "gw_bind (Some (Inl e, s)) f = Some (Inl e, s)" "gw_bind (Some (Inr x, s)) f = f x s"
  "gw_bind (Some (fail c, s)) f = Some (fail c, s)"
  by (simp_all add: gw_bind_def fail_def)

lemma gw_bind_Inr_iff [res_simps]:
  "gw_bind m f = Some (Inr y, t) \<longleftrightarrow> (\<exists>x s. m = Some (Inr x, s) \<and> f x s = Some (Inr y, t))"
  by (auto simp: gw_bind_def split: option.splits sum.splits)

lemma gw_bind_Inl_iff [res_simps]:
  "gw_bind m f = Some (Inl e, t) \<longleftrightarrow> m = Some (Inl e, t) \<or> (\<exists>x s. m = Some (Inr x, s) \<and> f x s = Some (Inl e, t))"
  by (auto simp: gw_bind_def split: option.splits sum.splits)

lemma gw_bind_returns:
  "\<exists>r. m = Some r \<Longrightarrow> (\<And>x s. \<exists>r. f x s = Some r) \<Longrightarrow> \<exists>r. gw_bind m f = Some r"
  by (auto simp: gw_bind_def split: sum.split)

section \<open>The loops\<close>

partial_function (option) Wait :: "gw_world \<Rightarrow> gw_conn \<Rightarrow> (unit result \<times> gw_conn) option" where
  "Wait w s =
     (if gw_stop w (gc_time s) then Some (fail (- ECANCELED), tick s)
      else if gw_expired w (gc_time s) then Some (fail (- ETIMEDOUT), tick s)
      else case gw_poll w (gc_time s) of
        PollReady \<Rightarrow> Some (Inr (), tick s)
      | PollTimeout \<Rightarrow> Wait w (tick s)
      | PollFails e \<Rightarrow> if e \<noteq> EINTR then Some (fail (- e), tick s) else Wait w (tick s))"

text \<open>
  The number of bytes moved at the current step, and the buffer and connection afterwards.
\<close>

definition moved_bytes :: "gw_world \<Rightarrow> bool \<Rightarrow> bytes \<Rightarrow> nat \<Rightarrow> gw_conn \<Rightarrow> nat \<Rightarrow> nat" where
  "moved_bytes w sending buf pos s n =
     (if sending then min n (length buf - pos) else min (min n (length buf - pos)) (length (gw_stream w) - gc_pos s))"

definition move_buf :: "gw_world \<Rightarrow> bool \<Rightarrow> bytes \<Rightarrow> nat \<Rightarrow> gw_conn \<Rightarrow> nat \<Rightarrow> bytes" where
  "move_buf w sending buf pos s m =
     (if sending then buf else take pos buf @ take m (drop (gc_pos s) (gw_stream w)) @ drop (pos + m) buf)"

definition move_conn :: "bool \<Rightarrow> bytes \<Rightarrow> nat \<Rightarrow> gw_conn \<Rightarrow> nat \<Rightarrow> gw_conn" where
  "move_conn sending buf pos s m =
     (if sending then s\<lparr>gc_sent := gc_sent s @ take m (drop pos buf)\<rparr> else s\<lparr>gc_pos := gc_pos s + m\<rparr>)"

partial_function (option) Transfer :: "gw_world \<Rightarrow> bool \<Rightarrow> bytes \<Rightarrow> nat \<Rightarrow> gw_conn \<Rightarrow> (bytes result \<times> gw_conn) option" where
  "Transfer w sending buf pos s =
     (if length buf \<le> pos then Some (Inr buf, s)
      else if gw_stop w (gc_time s) then Some (fail (- ECANCELED), tick s)
      else if gw_expired w (gc_time s) then Some (fail (- ETIMEDOUT), tick s)
      else case (if sending then gw_send w (gc_time s) else gw_recv w (gc_time s)) of
        Moved n \<Rightarrow>
          if moved_bytes w sending buf pos s n = 0 then Some (fail (- ECONNRESET), tick s)
          else Transfer w sending (move_buf w sending buf pos s (moved_bytes w sending buf pos s n))
                 (pos + moved_bytes w sending buf pos s n) (tick (move_conn sending buf pos s (moved_bytes w sending buf pos s n)))
      | MoveFails e \<Rightarrow>
          if e = EINTR then Transfer w sending buf pos (tick s)
          else if e \<noteq> EAGAIN then Some (fail (- e), tick s)
          else case Wait w (tick s) of
            None \<Rightarrow> None
          | Some (r, s') \<Rightarrow> (case r of Inl err \<Rightarrow> Some (Inl err, s') | Inr u \<Rightarrow> Transfer w sending buf pos s'))"

section \<open>One request\<close>

definition U32 :: "bytes \<Rightarrow> u32" where
  "U32 p = foldl (\<lambda>v b. (push_bit 8 v) OR ucast b) 0 (take 4 p)"

definition request_header :: "u8 \<Rightarrow> bytes" where
  "request_header op = [0, 0, 0, 0, 0x4b, 0x43, 0x46, 0x4c, 0, 1, 0, op, 0, 0, 0, 0]"

definition open_socket :: "gw_world \<Rightarrow> string \<Rightarrow> unit result" where
  "open_socket w path =
     (if path = [] \<or> 108 \<le> length path \<or> CHR 0x00 \<in> set path then fail (- EINVAL)
      else if gw_socket w \<noteq> 0 then fail (- gw_socket w) else Inr ())"

definition connect_socket :: "gw_world \<Rightarrow> gw_conn \<Rightarrow> (unit result \<times> gw_conn) option" where
  "connect_socket w s =
     (if gw_connect w = 0 then Some (Inr (), s)
      else if gw_connect w \<noteq> EINPROGRESS then Some (fail (- gw_connect w), s)
      else gw_bind (Wait w s) (\<lambda>_ s. Some (case gw_soerror w of
             Inl e \<Rightarrow> fail (- e) | Inr e \<Rightarrow> if e \<noteq> 0 then fail (- e) else Inr (), s)))"

definition check_peer :: "gw_world \<Rightarrow> unit result" where
  "check_peer w = (case gw_peer w of None \<Rightarrow> fail (- EACCES) | Some uid \<Rightarrow> guard (uid = gw_euid w) (- EACCES))"

definition check_header :: "u8 \<Rightarrow> bytes \<Rightarrow> nat result" where
  "check_header op h =
     (let len = U32 h; code = U32 (drop 12 h)
      in res_bind (Require (len \<le> 1048576 \<and> U32 (drop 4 h) = 0x4b43464c \<and> h ! 8 = 0 \<and> h ! 9 = 1 \<and> h ! 10 = 0 \<and> h ! 11 = op)) (\<lambda>_.
         if code \<noteq> 0 then res_bind (Require (0x80000000 \<le> code \<and> len = 0)) (\<lambda>_. fail (uint code - 0x100000000))
         else res_bind (Require (0 < len)) (\<lambda>_. Inr (unat len))))"

text \<open>
  \<open>Json::parse\<close> with its callback on the nesting depth; \<open>None\<close> stands for an exception, of the
  parser or of the callback, which the caller turns into \<open>-EPROTO\<close> in either case.
\<close>

definition Query :: "((int \<Rightarrow> bool) \<Rightarrow> bytes \<Rightarrow> json option) \<Rightarrow> gw_world \<Rightarrow> string \<Rightarrow> u8 \<Rightarrow> (json result \<times> gw_conn) option" where
  "Query parse w path op =
     gw_bind (Some (open_socket w path, gw_conn0)) (\<lambda>_ s.
     gw_bind (connect_socket w s) (\<lambda>_ s.
     gw_bind (Some (check_peer w, s)) (\<lambda>_ s.
     gw_bind (Transfer w True (request_header op) 0 s) (\<lambda>h s.
     gw_bind (Transfer w False h 0 s) (\<lambda>h s.
     gw_bind (Some (check_header op h, s)) (\<lambda>len s.
     gw_bind (Transfer w False (replicate len 0) 0 s) (\<lambda>body s.
     Some (case parse (\<lambda>depth. depth \<le> 24) body of None \<Rightarrow> fail (- EPROTO) | Some j \<Rightarrow> Inr j, s))))))))"

section \<open>The polling cycle\<close>

definition or_bind :: "'a result option \<Rightarrow> ('a \<Rightarrow> 'b result option) \<Rightarrow> 'b result option" where
  "or_bind m f = (case m of None \<Rightarrow> None | Some (Inl e) \<Rightarrow> Some (Inl e) | Some (Inr x) \<Rightarrow> f x)"

lemma or_bind_simps [simp]:
  "or_bind None f = None" "or_bind (Some (Inl e)) f = Some (Inl e)" "or_bind (Some (Inr x)) f = f x"
  by (simp_all add: or_bind_def)

lemma or_bind_Inr_iff [res_simps]: "or_bind m f = Some (Inr y) \<longleftrightarrow> (\<exists>x. m = Some (Inr x) \<and> f x = Some (Inr y))"
  by (auto simp: or_bind_def split: option.splits sum.splits)

lemma or_bind_Inl_iff [res_simps]:
  "or_bind m f = Some (Inl e) \<longleftrightarrow> m = Some (Inl e) \<or> (\<exists>x. m = Some (Inr x) \<and> f x = Some (Inl e))"
  by (auto simp: or_bind_def split: option.splits sum.splits)

lemma or_bind_returns: "\<exists>r. m = Some r \<Longrightarrow> (\<And>x. \<exists>r. f x = Some r) \<Longrightarrow> \<exists>r. or_bind m f = Some r"
  by (auto simp: or_bind_def split: sum.split)

record gw_cycle =
  cy_first :: gw_world
  cy_second :: gw_world
  cy_third :: gw_world
  cy_wall :: u64

definition cycle_result :: "(string \<Rightarrow> bool) \<Rightarrow> ((int \<Rightarrow> bool) \<Rightarrow> bytes \<Rightarrow> json option) \<Rightarrow> string \<Rightarrow> gw_cycle
    \<Rightarrow> local_gateway_snapshot result option" where
  "cycle_result inet parse path c =
     or_bind (map_option fst (Query parse (cy_first c) path 1)) (\<lambda>j.
     or_bind (Some (Status inet j (local_gateway_snapshot0\<lparr>lgs_socket_path := path\<rparr>))) (\<lambda>next'.
     or_bind (map_option fst (Query parse (cy_second c) path 2)) (\<lambda>j.
     or_bind (Some (Peers inet j)) (\<lambda>peers.
     or_bind (map_option fst (Query parse (cy_third c) path 1)) (\<lambda>j.
     or_bind (Some (Status inet j local_gateway_snapshot0)) (\<lambda>after.
     Some (if lgs_host next' \<noteq> lgs_host after \<or> lgs_boot next' \<noteq> lgs_boot after \<or> lgs_session next' \<noteq> lgs_session after
              \<or> lgs_state next' \<noteq> lgs_state after
           then fail (- ESTALE)
           else Inr (after\<lparr>lgs_socket_path := path, lgs_peers := peers, lgs_connection := GW_READY,
                            lgs_observed_at_unix_ms := cy_wall c\<rparr>))))))))"

text \<open>The two \<open>catch\<close> clauses: nothing of the failed cycle is kept.\<close>

definition cycle_snapshot :: "string \<Rightarrow> local_gateway_snapshot result \<Rightarrow> local_gateway_snapshot" where
  "cycle_snapshot path r = (case r of
     Inr next' \<Rightarrow> next'
   | Inl e \<Rightarrow> local_gateway_snapshot0\<lparr>lgs_socket_path := path, lgs_connection := GW_ERROR,
       lgs_error := (case e of Errno c \<Rightarrow> c | Undefined \<Rightarrow> - EPROTO)\<rparr>)"


section \<open>The loops return\<close>

text \<open>The deadline passes after \<open>T\<close> steps.\<close>

definition deadline :: "gw_world \<Rightarrow> nat \<Rightarrow> bool" where
  "deadline w T \<longleftrightarrow> (\<forall>t \<ge> T. gw_expired w t)"

lemma tick_simps [simp]:
  "gc_time (tick s) = Suc (gc_time s)" "gc_pos (tick s) = gc_pos s" "gc_sent (tick s) = gc_sent s"
  by (simp_all add: tick_def)

lemma move_conn_time [simp]: "gc_time (move_conn sending buf pos s m) = gc_time s"
  by (simp add: move_conn_def)

lemma Wait_returns: "deadline w T \<Longrightarrow> \<exists>r. Wait w s = Some r"
proof (induction "T - gc_time s" arbitrary: s rule: less_induct)
  case less
  show ?case
  proof (cases "gc_time s < T")
    case True
    then have "T - gc_time (tick s) < T - gc_time s" by simp
    from less.hyps[OF this less.prems] show ?thesis by (subst Wait.simps) (simp split: polled.split)
  next
    case False
    with less.prems have "gw_expired w (gc_time s)" by (simp add: deadline_def)
    then show ?thesis by (subst Wait.simps) simp
  qed
qed

lemma Wait_step_raw:
  "Wait w s = Some p \<Longrightarrow> gc_time s < gc_time (snd p) \<and> gc_pos (snd p) = gc_pos s \<and> gc_sent (snd p) = gc_sent s"
proof (rule Wait.raw_induct[of "\<lambda>w s p. gc_time s < gc_time (snd p) \<and> gc_pos (snd p) = gc_pos s \<and> gc_sent (snd p) = gc_sent s"])
  fix W :: "gw_world \<Rightarrow> gw_conn \<Rightarrow> (unit result \<times> gw_conn) option" and w s p
  assume IH: "\<And>w s p. W w s = Some p \<Longrightarrow> gc_time s < gc_time (snd p) \<and> gc_pos (snd p) = gc_pos s \<and> gc_sent (snd p) = gc_sent s"
    and eq: "(if gw_stop w (gc_time s) then Some (fail (- ECANCELED), tick s)
      else if gw_expired w (gc_time s) then Some (fail (- ETIMEDOUT), tick s)
      else case gw_poll w (gc_time s) of
        PollReady \<Rightarrow> Some (Inr (), tick s)
      | PollTimeout \<Rightarrow> W w (tick s)
      | PollFails e \<Rightarrow> if e \<noteq> EINTR then Some (fail (- e), tick s) else W w (tick s)) = Some p"
  from eq show "gc_time s < gc_time (snd p) \<and> gc_pos (snd p) = gc_pos s \<and> gc_sent (snd p) = gc_sent s"
    by (auto split: if_splits polled.splits dest!: IH)
qed

lemma Transfer_returns: "deadline w T \<Longrightarrow> \<exists>r. Transfer w sending buf pos s = Some r"
proof (induction "T - gc_time s" arbitrary: buf pos s rule: less_induct)
  case less
  show ?case
  proof (cases "gc_time s < T")
    case True
    have again: "\<exists>r. Transfer w sending buf' pos' s' = Some r" if "gc_time s < gc_time s'" for buf' pos' s'
      using less.hyps[of s' buf' pos'] less.prems that True by simp
    have after_wait: "\<exists>p. (case r of Inl err \<Rightarrow> Some (Inl err, s') | Inr u \<Rightarrow> Transfer w sending buf pos s') = Some p"
      if "Wait w (tick s) = Some (r, s')" for r s'
      using again[of s' buf pos] Wait_step_raw[OF that] by (cases r) auto
    obtain wr ws where w: "Wait w (tick s) = Some (wr, ws)" using Wait_returns[OF less.prems, of "tick s"] by auto
    show ?thesis
      using again after_wait[OF w]
      by (subst Transfer.simps) (auto simp: w split: moved.split)
  next
    case False
    with less.prems have "gw_expired w (gc_time s)" by (simp add: deadline_def)
    then show ?thesis by (subst Transfer.simps) simp
  qed
qed


section \<open>What the loops transfer\<close>

text \<open>Case analysis of one finished call: the recursive call, if any, is made from a later step.\<close>

lemma moved_bytes_le:
  "moved_bytes w sending buf pos s n \<le> length buf - pos"
  "\<not> sending \<Longrightarrow> moved_bytes w sending buf pos s n \<le> length (gw_stream w) - gc_pos s"
  by (auto simp: moved_bytes_def)

text \<open>An induction rule for finished transfers: one case per way to return or to go on.\<close>

lemma Transfer_induct [consumes 1, case_names finished failed_io failed_wait moved again]:
  assumes "Transfer w sending buf pos s = Some p"
    and "\<And>buf pos s. length buf \<le> pos \<Longrightarrow> P buf pos s (Inr buf, s)"
    and "\<And>buf pos s c. pos < length buf \<Longrightarrow> c \<in> {- ECANCELED, - ETIMEDOUT, - ECONNRESET} \<or>
          (if sending then gw_send w (gc_time s) else gw_recv w (gc_time s)) = MoveFails (- c) \<Longrightarrow> P buf pos s (fail c, tick s)"
    and "\<And>buf pos s e s'. pos < length buf \<Longrightarrow> Wait w (tick s) = Some (Inl e, s') \<Longrightarrow> P buf pos s (Inl e, s')"
    and "\<And>buf pos s n p m. pos < length buf \<Longrightarrow> m = moved_bytes w sending buf pos s n \<Longrightarrow> 0 < m \<Longrightarrow>
          P (move_buf w sending buf pos s m) (pos + m) (tick (move_conn sending buf pos s m)) p \<Longrightarrow> P buf pos s p"
    and "\<And>buf pos s s' p. pos < length buf \<Longrightarrow> gc_pos s' = gc_pos s \<Longrightarrow> gc_sent s' = gc_sent s \<Longrightarrow> P buf pos s' p \<Longrightarrow> P buf pos s p"
  shows "P buf pos s p"
proof -
  have "Transfer W S buf pos s = Some p \<Longrightarrow> W = w \<longrightarrow> S = sending \<longrightarrow> P buf pos s p" for W S buf pos s p
  proof (rule Transfer.raw_induct[of "\<lambda>W S buf pos s p. W = w \<longrightarrow> S = sending \<longrightarrow> P buf pos s p"], intro impI)
    fix T :: "gw_world \<Rightarrow> bool \<Rightarrow> bytes \<Rightarrow> nat \<Rightarrow> gw_conn \<Rightarrow> (bytes result \<times> gw_conn) option" and W S buf pos s p
    assume IH: "\<And>W S buf pos s p. T W S buf pos s = Some p \<Longrightarrow> W = w \<longrightarrow> S = sending \<longrightarrow> P buf pos s p"
      and eq: "(if length buf \<le> pos then Some (Inr buf, s)
        else if gw_stop W (gc_time s) then Some (fail (- ECANCELED), tick s)
        else if gw_expired W (gc_time s) then Some (fail (- ETIMEDOUT), tick s)
        else case (if S then gw_send W (gc_time s) else gw_recv W (gc_time s)) of
          Moved n \<Rightarrow>
            if moved_bytes W S buf pos s n = 0 then Some (fail (- ECONNRESET), tick s)
            else T W S (move_buf W S buf pos s (moved_bytes W S buf pos s n))
                   (pos + moved_bytes W S buf pos s n) (tick (move_conn S buf pos s (moved_bytes W S buf pos s n)))
        | MoveFails e \<Rightarrow>
            if e = EINTR then T W S buf pos (tick s)
            else if e \<noteq> EAGAIN then Some (fail (- e), tick s)
            else case Wait W (tick s) of
              None \<Rightarrow> None
            | Some (r, s') \<Rightarrow> (case r of Inl err \<Rightarrow> Some (Inl err, s') | Inr u \<Rightarrow> T W S buf pos s')) = Some p"
      and "W = w" "S = sending"
    note eq = eq[unfolded \<open>W = w\<close> \<open>S = sending\<close>]
    have IH: "T w sending buf pos s = Some p \<Longrightarrow> P buf pos s p" for buf pos s p using IH by blast
    show "P buf pos s p"
    proof (cases "length buf \<le> pos \<or> gw_stop w (gc_time s) \<or> gw_expired w (gc_time s)")
      case True
      with eq show ?thesis using assms(2)[of buf pos s] assms(3)[of pos buf _ s] by (auto split: if_splits)
    next
      case False
      then have lt: "pos < length buf" by simp
      show ?thesis
      proof (cases "if sending then gw_send w (gc_time s) else gw_recv w (gc_time s)")
        case (Moved n)
        with eq False IH show ?thesis
          using assms(3)[OF lt, of _ s] assms(5)[OF lt refl, of s n p] by (auto split: if_splits)
      next
        case (MoveFails e)
        consider "e = EINTR" | "e \<noteq> EINTR" "e \<noteq> EAGAIN" | "e = EAGAIN" by blast
        then show ?thesis
        proof cases
          case 1
          with eq False MoveFails have "T w sending buf pos (tick s) = Some p" by simp
          from assms(6)[OF lt _ _ IH[OF this]] show ?thesis by simp
        next
          case 2
          with eq False MoveFails have "p = (fail (- e), tick s)" by simp
          with assms(3)[OF lt, of "- e" s] MoveFails show ?thesis by simp
        next
          case 3
          with eq False MoveFails obtain r s' where w: "Wait w (tick s) = Some (r, s')"
            and p: "(case r of Inl err \<Rightarrow> Some (Inl err, s') | Inr u \<Rightarrow> T w sending buf pos s') = Some p"
            by (auto split: option.splits)
          show ?thesis
          proof (cases r)
            case (Inl err)
            with p w assms(4)[OF lt] show ?thesis by auto
          next
            case (Inr u)
            with p have "P buf pos s' p" using IH by simp
            with assms(6)[OF lt, of s' s] Wait_step_raw[OF w] show ?thesis by simp
          qed
        qed
      qed
    qed
  qed
  with assms(1) show ?thesis by blast
qed

lemma Transfer_receives:
  assumes "Transfer w False buf pos s = Some (Inr bs, s')" and "pos \<le> length buf"
  shows "bs = take pos buf @ take (length buf - pos) (drop (gc_pos s) (gw_stream w)) \<and> length bs = length buf
    \<and> gc_pos s' = gc_pos s + (length buf - pos) \<and> gc_sent s' = gc_sent s"
proof -
  have "fst p = Inr bs \<longrightarrow> pos \<le> length buf \<longrightarrow>
      bs = take pos buf @ take (length buf - pos) (drop (gc_pos s) (gw_stream w)) \<and> length bs = length buf
    \<and> gc_pos (snd p) = gc_pos s + (length buf - pos) \<and> gc_sent (snd p) = gc_sent s"
    if "Transfer w False buf pos s = Some p" for p
    using that
  proof (induction rule: Transfer_induct)
    case (moved buf pos s n p m)
    have m: "m \<le> length buf - pos" "m \<le> length (gw_stream w) - gc_pos s" using moved.hyps moved_bytes_le by blast+
    let ?buf = "move_buf w False buf pos s m"
    have l: "length ?buf = length buf" using m moved.hyps(1) by (simp add: move_buf_def)
    have t: "take (pos + m) ?buf = take pos buf @ take m (drop (gc_pos s) (gw_stream w))"
      using m moved.hyps(1) by (simp add: move_buf_def)
    have "take m (drop (gc_pos s) (gw_stream w)) @ take (length buf - (pos + m)) (drop (gc_pos s + m) (gw_stream w))
        = take (length buf - pos) (drop (gc_pos s) (gw_stream w))"
      using m(1) moved.hyps(1) take_add[of m "length buf - (pos + m)" "drop (gc_pos s) (gw_stream w)"] by (simp add: add.commute)
    with moved.IH l t m moved.hyps(1) show ?case by (auto simp: move_conn_def)
  qed (auto simp: fail_def)
  from this[OF assms(1)] assms(2) show ?thesis by (metis fst_conv snd_conv)
qed

lemma Transfer_sends:
  assumes "Transfer w True buf pos s = Some (Inr bs, s')"
  shows "bs = buf \<and> gc_sent s' = gc_sent s @ drop pos buf \<and> gc_pos s' = gc_pos s"
proof -
  have "fst p = Inr bs \<longrightarrow> bs = buf \<and> gc_sent (snd p) = gc_sent s @ drop pos buf \<and> gc_pos (snd p) = gc_pos s"
    if "Transfer w True buf pos s = Some p" for p
    using that
  proof (induction rule: Transfer_induct)
    case (moved buf pos s n p m)
    have "take m (drop pos buf) @ drop (pos + m) buf = drop pos buf"
      by (metis add.commute append_take_drop_id drop_drop)
    with moved.IH show ?case by (auto simp: move_conn_def move_buf_def)
  qed (auto simp: fail_def)
  from this[OF assms] show ?thesis by simp
qed

section \<open>Return codes\<close>

text \<open>The kernel's error numbers are positive.\<close>

definition kernel_errnos :: "gw_world \<Rightarrow> bool" where
  "kernel_errnos w \<longleftrightarrow> 0 \<le> gw_socket w \<and> 0 \<le> gw_connect w
     \<and> (\<forall>t e. gw_poll w t = PollFails e \<longrightarrow> 0 < e) \<and> (\<forall>t e. gw_send w t = MoveFails e \<longrightarrow> 0 < e)
     \<and> (\<forall>t e. gw_recv w t = MoveFails e \<longrightarrow> 0 < e)
     \<and> (case gw_soerror w of Inl e \<Rightarrow> 0 < e | Inr e \<Rightarrow> 0 \<le> e)"

lemma Wait_code:
  assumes "kernel_errnos w" and "Wait w s = Some p"
  shows "code_ok (fst p)"
proof -
  have "Wait W s = Some p \<Longrightarrow> W = w \<longrightarrow> code_ok (fst p)" for W s p
  proof (rule Wait.raw_induct[of "\<lambda>W s p. W = w \<longrightarrow> code_ok (fst p)"], intro impI)
    fix V :: "gw_world \<Rightarrow> gw_conn \<Rightarrow> (unit result \<times> gw_conn) option" and W s p
    assume IH: "\<And>W s p. V W s = Some p \<Longrightarrow> W = w \<longrightarrow> code_ok (fst p)"
      and eq: "(if gw_stop W (gc_time s) then Some (fail (- ECANCELED), tick s)
      else if gw_expired W (gc_time s) then Some (fail (- ETIMEDOUT), tick s)
      else case gw_poll W (gc_time s) of
        PollReady \<Rightarrow> Some (Inr (), tick s)
      | PollTimeout \<Rightarrow> V W (tick s)
      | PollFails e \<Rightarrow> if e \<noteq> EINTR then Some (fail (- e), tick s) else V W (tick s)) = Some p"
      and "W = w"
    note eq = eq[unfolded \<open>W = w\<close>]
    have IH: "V w s = Some p \<Longrightarrow> code_ok (fst p)" for s p using IH by blast
    from eq assms(1) show "code_ok (fst p)"
      by (auto simp: kernel_errnos_def split: if_splits polled.splits intro: IH)
  qed
  with assms(2) show ?thesis by blast
qed

lemma Transfer_code:
  assumes "kernel_errnos w" and "Transfer w sending buf pos s = Some p"
  shows "code_ok (fst p)"
  using assms(2)
proof (induction rule: Transfer_induct)
  case (failed_io buf pos s c)
  have "0 < e" if "(if sending then gw_send w t else gw_recv w t) = MoveFails e" for t e
    using assms(1) that by (auto simp: kernel_errnos_def split: if_splits)
  from this[of "gc_time s" "- c"] failed_io show ?case by auto
next
  case (failed_wait buf pos s e s')
  from Wait_code[OF assms(1) failed_wait(2)] show ?case by (simp add: code_ok_def)
qed auto


section \<open>Requests and cycles\<close>

lemma code_ok_Inl: "code_ok (Inl e :: 'a result) = code_ok (Inl e :: 'b result)"
  by (simp add: code_ok_def)

lemma gw_bind_code:
  assumes "gw_bind m f = Some p" and "\<And>q. m = Some q \<Longrightarrow> code_ok (fst q)" and "\<And>x s q. f x s = Some q \<Longrightarrow> code_ok (fst q)"
  shows "code_ok (fst p)"
proof (cases m)
  case (Some q)
  then obtain r s where q: "m = Some (r, s)" by (cases q) auto
  show ?thesis
  proof (cases r)
    case (Inl e)
    with q assms(1,2) show ?thesis by (auto simp: code_ok_def)
  next
    case (Inr x)
    with q assms(1,3) show ?thesis by simp
  qed
qed (use assms(1) in simp)

lemma check_header_code: "code_ok (check_header op h)"
proof -
  have "uint (U32 (drop 12 h)) < 4294967296" using uint_lt2p[of "U32 (drop 12 h)"] by simp
  then show ?thesis
    by (auto simp: check_header_def Let_def Require_def guard_def code_ok_def fail_def)
qed

lemma connect_socket_code:
  assumes "kernel_errnos w" and "connect_socket w s = Some p"
  shows "code_ok (fst p)"
proof (cases "gw_connect w = 0 \<or> gw_connect w \<noteq> EINPROGRESS")
  case True
  with assms show ?thesis by (auto simp: connect_socket_def kernel_errnos_def split: if_splits)
next
  case False
  then have "gw_bind (Wait w s) (\<lambda>_ s. Some (case gw_soerror w of
      Inl e \<Rightarrow> fail (- e) | Inr e \<Rightarrow> if e \<noteq> 0 then fail (- e) else Inr (), s)) = Some p"
    using assms(2) by (simp add: connect_socket_def)
  then show ?thesis
    by (rule gw_bind_code) (use assms(1) in \<open>auto simp: kernel_errnos_def intro: Wait_code[OF assms(1)] split: sum.splits\<close>)
qed

lemma Query_code:
  assumes "kernel_errnos w" and "Query parse w path op = Some p"
  shows "code_ok (fst p)"
proof -
  have sock: "code_ok (open_socket w path)" using assms(1) by (auto simp: open_socket_def kernel_errnos_def)
  have peer: "code_ok (check_peer w)" by (auto simp: check_peer_def guard_def split: option.split)
  have last: "code_ok (case parse d body of None \<Rightarrow> fail (- EPROTO) | Some j \<Rightarrow> Inr j)" for d body by (simp split: option.split)
  note T = Transfer_code[OF assms(1)]
  from assms(2) show ?thesis
    unfolding Query_def
    by (elim gw_bind_code; use sock peer last check_header_code connect_socket_code[OF assms(1)] T in auto)
qed

lemma Query_returns:
  assumes "deadline w T"
  shows "\<exists>r. Query parse w path op = Some r"
proof -
  have conn: "\<exists>r. connect_socket w s = Some r" for s
  proof (cases "gw_connect w = EINPROGRESS")
    case True
    have "\<exists>r. gw_bind (Wait w s) (\<lambda>_ s. Some (case gw_soerror w of
        Inl e \<Rightarrow> fail (- e) | Inr e \<Rightarrow> if e \<noteq> 0 then fail (- e) else Inr (), s)) = Some r"
      by (rule gw_bind_returns[OF Wait_returns[OF assms]]) simp
    with True show ?thesis by (simp add: connect_socket_def)
  qed (simp add: connect_socket_def)
  show ?thesis
    unfolding Query_def by (intro gw_bind_returns; (rule conn | rule Transfer_returns[OF assms] | simp))
qed

text \<open>What a document came from.\<close>

definition framed :: "((int \<Rightarrow> bool) \<Rightarrow> bytes \<Rightarrow> json option) \<Rightarrow> u8 \<Rightarrow> bytes \<Rightarrow> json \<Rightarrow> bool" where
  "framed parse op stream j \<longleftrightarrow> (\<exists>n. check_header op (take 16 stream) = Inr n \<and> 0 < n \<and> n \<le> 1048576 \<and> 16 + n \<le> length stream
     \<and> parse (\<lambda>depth. depth \<le> 24) (take n (drop 16 stream)) = Some j)"

lemma Query_document:
  assumes "Query parse w path op = Some (Inr j, s)"
  shows "gc_sent s = request_header op \<and> gw_peer w = Some (gw_euid w) \<and> framed parse op (gw_stream w) j"
proof -
  from assms obtain s1 s2 s3 s4 h1 h2 n body where
      s1: "connect_socket w gw_conn0 = Some (Inr (), s1)" and peer: "check_peer w = Inr ()"
    and t1: "Transfer w True (request_header op) 0 s1 = Some (Inr h1, s2)"
    and t2: "Transfer w False h1 0 s2 = Some (Inr h2, s3)"
    and h: "check_header op h2 = Inr n"
    and t3: "Transfer w False (replicate n 0) 0 s3 = Some (Inr body, s4)"
    and j: "parse (\<lambda>depth. depth \<le> 24) body = Some j" and s: "s = s4"
    unfolding Query_def by (auto simp: gw_bind_Inr_iff split: option.splits)
  have c: "gc_pos s1 = 0 \<and> gc_sent s1 = []"
    using s1 by (auto simp: connect_socket_def gw_bind_Inr_iff gw_conn0_def split: if_splits dest!: Wait_step_raw)
  have r1: "h1 = request_header op" "gc_sent s2 = request_header op" "gc_pos s2 = 0"
    using Transfer_sends[OF t1] c by simp_all
  have len: "length h1 = 16" by (simp add: r1 request_header_def)
  have r2: "h2 = take 16 (gw_stream w)" "length h2 = 16" "gc_pos s3 = 16" "gc_sent s3 = request_header op"
    using Transfer_receives[OF t2] by (auto simp: r1(2,3) len)
  have r3: "body = take n (drop 16 (gw_stream w))" "length body = n" "gc_sent s4 = request_header op"
    using Transfer_receives[OF t3] by (auto simp: r2(3,4))
  have n: "0 < n" "n \<le> 1048576"
    using h by (auto simp: check_header_def res_simps Let_def word_le_nat_alt unat_gt_0 split: if_splits)
  have "length (take n (drop 16 (gw_stream w))) = n" using r3 by simp
  then have "16 + n \<le> length (gw_stream w)" using n by simp
  moreover have "gw_peer w = Some (gw_euid w)"
    using peer by (auto simp: check_peer_def guard_Inr_iff split: option.splits)
  ultimately show ?thesis using h j r2(1) r3 n s unfolding framed_def by blast
qed


section \<open>Requests that are answered\<close>

text \<open>
  A kernel that serves the request before step \<open>T\<close>, the way a non-blocking socket is served: nobody
  stops the client, the deadline is not reached, \<open>poll\<close> may time out or be interrupted and \<open>send\<close> and
  \<open>recv\<close> may be interrupted or answer that the call would block, but no longer than \<open>b\<close> steps go by
  without a turn, when the socket is ready and the next call moves at least one byte.
\<close>

definition io_call :: "gw_world \<Rightarrow> bool \<Rightarrow> nat \<Rightarrow> moved" where
  "io_call w sending t = (if sending then gw_send w t else gw_recv w t)"

definition io_turn :: "gw_world \<Rightarrow> nat \<Rightarrow> bool" where
  "io_turn w u \<longleftrightarrow> gw_poll w u = PollReady
     \<and> (\<forall>sending. io_call w sending u \<in> Moved ` {0<..} \<and> io_call w sending (Suc u) \<in> Moved ` {0<..})"

definition flowing :: "gw_world \<Rightarrow> nat \<Rightarrow> nat \<Rightarrow> bool" where
  "flowing w b T \<longleftrightarrow> (\<forall>t < T. \<not> gw_stop w t \<and> \<not> gw_expired w t)
     \<and> (\<forall>t. gw_poll w t \<in> {PollReady, PollTimeout, PollFails EINTR})
     \<and> (\<forall>t sending. io_call w sending t \<in> Moved ` {0<..} \<union> {MoveFails EINTR, MoveFails EAGAIN})
     \<and> (\<forall>t. \<exists>u. t \<le> u \<and> u < t + b \<and> io_turn w u)"

lemma flowing_going: "flowing w b T \<Longrightarrow> t < T \<Longrightarrow> \<not> gw_stop w t \<and> \<not> gw_expired w t"
  by (simp add: flowing_def)

lemma flowing_turn: "flowing w b T \<Longrightarrow> \<exists>u. t \<le> u \<and> u < t + b \<and> io_turn w u"
  by (simp add: flowing_def)

lemma flowing_poll: "flowing w b T \<Longrightarrow> gw_poll w t \<in> {PollReady, PollTimeout, PollFails EINTR}"
  unfolding flowing_def by blast

lemma flowing_io: "flowing w b T \<Longrightarrow> io_call w sending t \<in> Moved ` {0<..} \<union> {MoveFails EINTR, MoveFails EAGAIN}"
  unfolding flowing_def by blast

lemma io_turn_moves: "io_turn w u \<Longrightarrow> t = u \<or> t = Suc u \<Longrightarrow> io_call w sending t \<noteq> MoveFails e"
  unfolding io_turn_def by (metis imageE moved.distinct(1))

text \<open>A wait ends with the next turn at the latest.\<close>

lemma Wait_completes:
  assumes "flowing w b T" and "io_turn w u" and "gc_time s \<le> u" and "u < T"
  shows "\<exists>s'. Wait w s = Some (Inr (), s') \<and> gc_time s' \<le> Suc u"
  using assms(3)
proof (induction "u - gc_time s" arbitrary: s rule: less_induct)
  case less
  have go: "\<not> gw_stop w (gc_time s)" "\<not> gw_expired w (gc_time s)"
    using flowing_going[OF assms(1), of "gc_time s"] less.prems assms(4) by auto
  show ?case
  proof (cases "gw_poll w (gc_time s) = PollReady")
    case True
    with go less.prems show ?thesis by (subst Wait.simps) simp
  next
    case False
    with assms(2) less.prems have "gc_time s < u" by (cases "gc_time s = u") (auto simp: io_turn_def)
    then have "\<exists>s'. Wait w (tick s) = Some (Inr (), s') \<and> gc_time s' \<le> Suc u"
      by (intro less.hyps) simp_all
    moreover have "Wait w s = Wait w (tick s)"
      using False go flowing_poll[OF assms(1), of "gc_time s"] by (subst Wait.simps) auto
    ultimately show ?thesis by simp
  qed
qed

text \<open>Until the next turn \<open>u\<close> a transfer moves at least one byte, and otherwise only time passes.\<close>

definition served :: "gw_world \<Rightarrow> bool \<Rightarrow> bytes \<Rightarrow> nat \<Rightarrow> gw_conn \<Rightarrow> nat \<Rightarrow> bool" where
  "served w sending buf pos s D \<longleftrightarrow> (\<exists>bs s'. Transfer w sending buf pos s = Some (Inr bs, s') \<and> gc_time s' \<le> D)"

lemma Transfer_turn:
  assumes "flowing w b T" and "io_turn w u" and "Suc u < T" and "pos < length buf"
    and "sending \<or> gc_pos s + (length buf - pos) \<le> length (gw_stream w)"
    and "gc_time s \<le> Suc u"
    and more: "\<And>m t. 0 < m \<Longrightarrow> m \<le> length buf - pos \<Longrightarrow> t \<le> Suc u \<Longrightarrow>
      served w sending (move_buf w sending buf pos (s\<lparr>gc_time := t\<rparr>) m) (pos + m) (tick (move_conn sending buf pos (s\<lparr>gc_time := t\<rparr>) m)) D"
  shows "served w sending buf pos s D"
  using assms(5,6) more
proof (induction "Suc u - gc_time s" arbitrary: s rule: less_induct)
  case less
  have go: "\<not> gw_stop w (gc_time s)" "\<not> gw_expired w (gc_time s)"
    using flowing_going[OF assms(1), of "gc_time s"] less.prems(2) assms(3) by auto
  have again: "served w sending buf pos s' D"
    if "gc_time s < gc_time s'" "gc_time s' \<le> Suc u" "s' = s\<lparr>gc_time := gc_time s'\<rparr>" for s'
  proof (rule less.hyps)
    show "Suc u - gc_time s' < Suc u - gc_time s" using that(1,2) by simp
    have "gc_pos s' = gc_pos s" by (subst that(3)) simp
    with less.prems(1) show "sending \<or> gc_pos s' + (length buf - pos) \<le> length (gw_stream w)" by simp
    have "s'\<lparr>gc_time := t\<rparr> = s\<lparr>gc_time := t\<rparr>" for t by (subst that(3)) simp
    with less.prems(3)
    show "served w sending (move_buf w sending buf pos (s'\<lparr>gc_time := t\<rparr>) m) (pos + m)
        (tick (move_conn sending buf pos (s'\<lparr>gc_time := t\<rparr>) m)) D"
      if "0 < m" "m \<le> length buf - pos" "t \<le> Suc u" for m t using that by simp
  qed (rule that(2))
  show ?case
  proof (cases "io_call w sending (gc_time s)")
    case (Moved n)
    then have n: "0 < n" using flowing_io[OF assms(1), of sending "gc_time s"] by auto
    let ?m = "moved_bytes w sending buf pos s n"
    have m: "0 < ?m" using n assms(4) less.prems(1) by (auto simp: moved_bytes_def)
    have "served w sending (move_buf w sending buf pos s ?m) (pos + ?m) (tick (move_conn sending buf pos s ?m)) D"
      using less.prems(3)[OF m moved_bytes_le(1) less.prems(2)] by simp
    moreover have "Transfer w sending buf pos s
        = Transfer w sending (move_buf w sending buf pos s ?m) (pos + ?m) (tick (move_conn sending buf pos s ?m))"
      using go m assms(4) Moved by (subst Transfer.simps) (simp add: io_call_def)
    ultimately show ?thesis by (simp add: served_def)
  next
    case (MoveFails e)
    then have early: "gc_time s < u"
      using io_turn_moves[OF assms(2), of "gc_time s" sending e] less.prems(2) by fastforce
    consider "e = EINTR" | "e = EAGAIN" "e \<noteq> EINTR" using MoveFails flowing_io[OF assms(1), of sending "gc_time s"] by auto
    then show ?thesis
    proof cases
      case 1
      then have "Transfer w sending buf pos s = Transfer w sending buf pos (tick s)"
        using go assms(4) MoveFails by (subst Transfer.simps) (simp add: io_call_def)
      moreover have "served w sending buf pos (tick s) D" using early by (intro again) (simp_all add: tick_def)
      ultimately show ?thesis by (simp add: served_def)
    next
      case 2
      obtain s' where s': "Wait w (tick s) = Some (Inr (), s')" "gc_time s' \<le> Suc u"
        using Wait_completes[OF assms(1,2), of "tick s"] early assms(3) by auto
      from Wait_step_raw[OF s'(1)] have "gc_time s < gc_time s'" "s' = s\<lparr>gc_time := gc_time s'\<rparr>"
        by (simp_all add: tick_def)
      with s'(2) have "served w sending buf pos s' D" by (intro again)
      moreover have "Transfer w sending buf pos s = Transfer w sending buf pos s'"
        using go assms(4) MoveFails 2 s'(1) by (subst Transfer.simps) (simp add: io_call_def)
      ultimately show ?thesis by (simp add: served_def)
    qed
  qed
qed

lemma Transfer_completes:
  assumes "flowing w b T" and "sending \<or> gc_pos s + (length buf - pos) \<le> length (gw_stream w)"
    and "gc_time s + Suc b * (length buf - pos) \<le> T"
  shows "served w sending buf pos s (gc_time s + Suc b * (length buf - pos))"
  using assms(2,3)
proof (induction "length buf - pos" arbitrary: buf pos s rule: less_induct)
  case less
  show ?case
  proof (cases "pos < length buf")
    case False
    then show ?thesis unfolding served_def by (subst Transfer.simps) simp
  next
    case True
    then obtain k where k: "length buf - pos = Suc k" by (cases "length buf - pos") auto
    obtain u where u: "gc_time s \<le> u" "u < gc_time s + b" "io_turn w u" using flowing_turn[OF assms(1)] by blast
    show ?thesis
    proof (rule Transfer_turn[OF assms(1) u(3) _ True less.prems(1)])
      show "Suc u < T" using u(2) less.prems(2) k by simp
      show "gc_time s \<le> Suc u" using u(1) by simp
      fix m t assume m: "0 < m" "m \<le> length buf - pos" and t: "t \<le> Suc u"
      let ?x = "s\<lparr>gc_time := t\<rparr>"
      let ?buf = "move_buf w sending buf pos ?x m" and ?s = "tick (move_conn sending buf pos ?x m)"
      have l: "length ?buf = length buf"
        using m True less.prems(1) by (auto simp: move_buf_def)
      have left: "length ?buf - (pos + m) \<le> k" using m k by (simp add: l)
      have time: "gc_time ?s \<le> gc_time s + Suc b" using t u(2) by simp
      have bound: "gc_time ?s + Suc b * (length ?buf - (pos + m)) \<le> gc_time s + Suc b * (length buf - pos)"
        using add_mono[OF time mult_le_mono2[OF left, of "Suc b"]] by (simp add: k)
      have "served w sending ?buf (pos + m) ?s (gc_time ?s + Suc b * (length ?buf - (pos + m)))"
      proof (rule less.hyps)
        show "length ?buf - (pos + m) < length buf - pos" using left k by simp
        show "sending \<or> gc_pos ?s + (length ?buf - (pos + m)) \<le> length (gw_stream w)"
          using less.prems(1) m by (auto simp: l move_conn_def)
        show "gc_time ?s + Suc b * (length ?buf - (pos + m)) \<le> T" using bound less.prems(2) by (rule le_trans)
      qed
      with bound show "served w sending ?buf (pos + m) ?s (gc_time s + Suc b * (length buf - pos))"
        unfolding served_def by (meson le_trans)
    qed
  qed
qed

lemma Transfer_completes_by:
  assumes "flowing w b T" and "sending \<or> gc_pos s + length buf \<le> length (gw_stream w)"
    and "gc_time s \<le> t" and "t + Suc b * length buf \<le> T"
  obtains bs s' where "Transfer w sending buf 0 s = Some (Inr bs, s')" "gc_time s' \<le> t + Suc b * length buf"
proof -
  have "served w sending buf 0 s (gc_time s + Suc b * length buf)"
    using Transfer_completes[OF assms(1), of sending s buf 0] assms(2-4) by simp
  with assms(3) that show ?thesis unfolding served_def by fastforce
qed

lemma connect_completes:
  assumes "flowing w b T" and "b \<le> T" and "gw_connect w = 0 \<or> gw_connect w = EINPROGRESS \<and> gw_soerror w = Inr 0"
  shows "\<exists>s. connect_socket w gw_conn0 = Some (Inr (), s) \<and> gc_time s \<le> b \<and> gc_pos s = 0"
proof (cases "gw_connect w = 0")
  case True
  then show ?thesis by (simp add: connect_socket_def gw_conn0_def)
next
  case False
  obtain u where u: "u < b" "io_turn w u" using flowing_turn[OF assms(1), of 0] by auto
  then obtain s where s: "Wait w gw_conn0 = Some (Inr (), s)" "gc_time s \<le> Suc u"
    using Wait_completes[OF assms(1) u(2), of gw_conn0] assms(2) by (auto simp: gw_conn0_def)
  from Wait_step_raw[OF s(1)] have "gc_pos s = 0" by (simp add: gw_conn0_def)
  with False s u(1) assms(3) show ?thesis by (auto simp: connect_socket_def)
qed

lemma Query_completes:
  assumes "flowing w b T" and "Suc b * (17 + length (gw_stream w)) \<le> T" and "open_socket w path = Inr ()"
    and "gw_connect w = 0 \<or> gw_connect w = EINPROGRESS \<and> gw_soerror w = Inr 0" and "gw_peer w = Some (gw_euid w)"
    and "framed parse op (gw_stream w) j"
  shows "\<exists>s. Query parse w path op = Some (Inr j, s) \<and> gc_time s \<le> Suc b * (17 + length (gw_stream w))"
proof -
  from assms(6) obtain n where n: "check_header op (take 16 (gw_stream w)) = Inr n" "16 + n \<le> length (gw_stream w)"
    "parse (\<lambda>depth. depth \<le> 24) (take n (drop 16 (gw_stream w))) = Some j" by (auto simp: framed_def)
  have all: "Suc b * (33 + n) \<le> T"
    using assms(2) mult_le_mono2[of "33 + n" "17 + length (gw_stream w)" "Suc b"] n(2) by simp
  have "b \<le> T" using all by (simp add: algebra_simps)
  then obtain s0 where t0: "connect_socket w gw_conn0 = Some (Inr (), s0)" "gc_time s0 \<le> b" "gc_pos s0 = 0"
    using connect_completes[OF assms(1) _ assms(4)] by auto
  have len0: "length (request_header op) = 16" by (simp add: request_header_def)
  have early: "b + Suc b * 16 \<le> T" "(b + Suc b * 16) + Suc b * 16 \<le> T" using all by (simp_all add: algebra_simps)
  obtain h1 s1 where t1: "Transfer w True (request_header op) 0 s0 = Some (Inr h1, s1)" "gc_time s1 \<le> b + Suc b * 16"
    by (rule Transfer_completes_by[OF assms(1), of True s0 "request_header op" b]) (use t0(2) early(1) len0 in auto)
  have r1: "h1 = request_header op" "gc_pos s1 = 0" using Transfer_sends[OF t1(1)] t0(3) by simp_all
  then have len: "length h1 = 16" using len0 by simp
  obtain h2 s2 where t2: "Transfer w False h1 0 s1 = Some (Inr h2, s2)" "gc_time s2 \<le> (b + Suc b * 16) + Suc b * 16"
    by (rule Transfer_completes_by[OF assms(1), of False s1 h1 "b + Suc b * 16"]) (use t1(2) early(2) n(2) len r1(2) in auto)
  have r2: "h2 = take 16 (gw_stream w)" "gc_pos s2 = 16" using Transfer_receives[OF t2(1)] by (auto simp: r1(2) len)
  have room: "gc_time s2 \<le> Suc b * 33" using t2(2) by simp
  have sum: "Suc b * 33 + Suc b * n = Suc b * (33 + n)" by (rule add_mult_distrib2[symmetric])
  obtain body s3 where t3: "Transfer w False (replicate n 0) 0 s2 = Some (Inr body, s3)" "gc_time s3 \<le> Suc b * 33 + Suc b * n"
    by (rule Transfer_completes_by[OF assms(1), of False s2 "replicate n 0" "Suc b * 33"])
      (use room all sum n(2) r2(2) in \<open>auto simp del: mult_Suc\<close>)
  have "body = take n (drop 16 (gw_stream w))" using Transfer_receives[OF t3(1)] by (auto simp: r2(2))
  then have "Query parse w path op = Some (Inr j, s3)"
    using assms(3,5) n t0(1) t1(1) t2(1) t3(1) by (simp add: Query_def check_peer_def r2(1)[symmetric])
  moreover have "Suc b * (33 + n) \<le> Suc b * (17 + length (gw_stream w))" using n(2) by (intro mult_le_mono2) simp
  with t3(2) have "gc_time s3 \<le> Suc b * (17 + length (gw_stream w))" unfolding sum by (rule le_trans)
  ultimately show ?thesis by blast
qed

definition status_ok :: "(string \<Rightarrow> bool) \<Rightarrow> local_gateway_snapshot \<Rightarrow> bool" where
  "status_ok inet s \<longleftrightarrow> lgs_state s \<in> {''WAITING_NETWORK'', ''REBINDING'', ''RUNNING'', ''ERROR''}
     \<and> id_ok False (lgs_host s) \<and> id_ok False (lgs_boot s) \<and> text_ok (lgs_interface_name s) \<and> lgs_last_network_error s \<le> 0
     \<and> (lgs_ipv4 s = [] \<or> inet (lgs_ipv4 s))
     \<and> (lgs_state s = ''RUNNING'' \<longrightarrow> lgs_session s \<noteq> 0 \<and> lgs_interface_name s \<noteq> [] \<and> lgs_ipv4 s \<noteq> [] \<and> lgs_interface_index s \<noteq> 0)"

lemma Status_ok: "Status inet j s = Inr s' \<Longrightarrow> status_ok inet s' \<and> lgs_error s' = lgs_error s"
  unfolding Status_def res_bind_Inr_iff Require_iff sum.inject
  apply (elim exE conjE)
  apply (drule reader_ok)+
  apply hypsubst
  apply (auto simp: status_ok_def Require_iff split: if_splits)
  done

text \<open>
  What a snapshot published by the worker is: a complete, checked reading, or an error and nothing
  else.
\<close>

definition snapshot_ok :: "(string \<Rightarrow> bool) \<Rightarrow> string \<Rightarrow> local_gateway_snapshot \<Rightarrow> bool" where
  "snapshot_ok inet path s \<longleftrightarrow> lgs_socket_path s = path \<and>
     (lgs_connection s = GW_READY \<and> lgs_error s = 0 \<and> status_ok inet s \<and> peers_ok inet (lgs_peers s)
    \<or> lgs_error s < 0 \<and> s = local_gateway_snapshot0\<lparr>lgs_socket_path := path, lgs_connection := GW_ERROR, lgs_error := lgs_error s\<rparr>)"

definition kernel_cycle :: "gw_cycle \<Rightarrow> bool" where
  "kernel_cycle c \<longleftrightarrow> kernel_errnos (cy_first c) \<and> kernel_errnos (cy_second c) \<and> kernel_errnos (cy_third c)"

lemma proto_code: "proto_only r \<Longrightarrow> code_ok r"
  by (cases r) (auto simp: proto_only_def)

lemma or_bind_code:
  assumes "or_bind m f = Some r" and "\<And>q. m = Some q \<Longrightarrow> code_ok q" and "\<And>x q. f x = Some q \<Longrightarrow> code_ok q"
  shows "code_ok r"
proof (cases m)
  case (Some q)
  with assms show ?thesis by (cases q) (auto simp: code_ok_def)
qed (use assms(1) in simp)

lemma cycle_code:
  assumes "kernel_cycle c" and "cycle_result inet parse path c = Some r"
  shows "code_ok r"
proof -
  have q: "code_ok x" if "map_option fst (Query parse w path op) = Some x" "w \<in> {cy_first c, cy_second c, cy_third c}" for w op x
    using that assms(1) Query_code by (force simp: kernel_cycle_def)
  from assms(2) show ?thesis
    unfolding cycle_result_def
    by (elim or_bind_code; use q proto_code[OF proto_Status] proto_code[OF proto_Peers] in \<open>auto split: if_splits\<close>)
qed

lemma cycle_snapshot_ok:
  assumes "kernel_cycle c" and "cycle_result inet parse path c = Some r"
  shows "snapshot_ok inet path (cycle_snapshot path r)"
proof (cases r)
  case (Inl e)
  from cycle_code[OF assms] Inl obtain n where "e = Errno n" "n < 0" by (cases e) auto
  with Inl show ?thesis by (simp add: snapshot_ok_def cycle_snapshot_def local_gateway_snapshot0_def)
next
  case (Inr s)
  with assms(2) obtain j2 j3 peers after where "Peers inet j2 = Inr peers" "Status inet j3 local_gateway_snapshot0 = Inr after"
    and s: "s = after\<lparr>lgs_socket_path := path, lgs_peers := peers, lgs_connection := GW_READY, lgs_observed_at_unix_ms := cy_wall c\<rparr>"
    unfolding cycle_result_def by (auto simp: or_bind_Inr_iff split: if_splits)
  then have "peers_ok inet peers" "status_ok inet after" "lgs_error after = 0"
    using Peers_ok Status_ok by (force simp: local_gateway_snapshot0_def)+
  with Inr s show ?thesis by (simp add: snapshot_ok_def cycle_snapshot_def status_ok_def)
qed

end
