(* ===== verification/StepSystem.thy ===== *)
theory StepSystem
  imports Main
begin

text \<open>
  Components with several threads are step relations over their shared state. The locale says what
  an invariant of such a component is: it holds at the start and every step keeps it. What follows
  is that it holds wherever the steps lead.
\<close>

locale step_system =
  fixes step :: "'s \<Rightarrow> 's \<Rightarrow> bool"
    and start :: "'s"
    and inv :: "'s \<Rightarrow> bool"
  assumes inv_start: "inv start"
    and inv_step: "step s t \<Longrightarrow> inv s \<Longrightarrow> inv t"
begin

lemma inv_steps: "step\<^sup>*\<^sup>* s t \<Longrightarrow> inv s \<Longrightarrow> inv t"
  by (induction rule: rtranclp_induct) (auto intro: inv_step)

lemma inv_reachable: "step\<^sup>*\<^sup>* start s \<Longrightarrow> inv s"
  by (rule inv_steps[OF _ inv_start])

text \<open>A property that no step leaves, once the invariant holds, is kept for ever.\<close>

lemma stable_steps:
  assumes "step\<^sup>*\<^sup>* s t" and "inv s" and "P s" and "\<And>u v. inv u \<Longrightarrow> P u \<Longrightarrow> step u v \<Longrightarrow> P v"
  shows "P t"
proof -
  from assms(1) have "inv t \<and> P t"
  proof (induction rule: rtranclp_induct)
    case base
    with assms show ?case by simp
  next
    case (step u v)
    with assms(4) inv_step show ?case by blast
  qed
  then show ?thesis by simp
qed

end

end
