(* ===== verification/GatewayRun.thy ===== *)
theory GatewayRun
  imports GatewayClient StepSystem
begin

text \<open>
  The client object of \<open>src/backend/local_gateway.cpp\<close>: the worker thread of \<open>Run\<close> and the callers
  of \<open>Stop\<close> and \<open>Snapshot\<close>, as a step relation over their shared state. The worker is between
  cycles (\<open>Polling\<close>), past its last look at the stop flag with the mutex held (\<open>Holding\<close>), or done.

  \<open>client_inv\<close> is kept by every step, so it holds in every reachable state.
\<close>

section \<open>The client\<close>

datatype gw_worker = Polling | Holding local_gateway_snapshot | Exited

record gw_client =
  cl_path :: string
  cl_stop :: bool
  cl_worker :: gw_worker
  cl_snapshot :: local_gateway_snapshot
  cl_stopped :: bool

text \<open>The constructor; \<open>cl_stopped\<close> records that a call of \<open>Stop\<close> has returned.\<close>

definition client_init :: "string \<Rightarrow> gw_client" where
  "client_init path = \<lparr>cl_path = path, cl_stop = False, cl_worker = Polling,
     cl_snapshot = local_gateway_snapshot0\<lparr>lgs_socket_path := path, lgs_connection := GW_CONNECTING\<rparr>, cl_stopped = False\<rparr>"

definition cleared :: "string \<Rightarrow> local_gateway_snapshot" where
  "cleared path = local_gateway_snapshot0\<lparr>lgs_socket_path := path\<rparr>"

text \<open>
  One rule per atomic section: a cycle that ends with the stop flag still clear, one that ends with
  it set, the assignment of the snapshot, and the two halves of \<open>Stop\<close> around the \<open>join\<close>.
\<close>

inductive client_step :: "(string \<Rightarrow> bool) \<Rightarrow> ((int \<Rightarrow> bool) \<Rightarrow> bytes \<Rightarrow> json option) \<Rightarrow> gw_client \<Rightarrow> gw_client \<Rightarrow> bool"
  for inet parse where
  polled: "cl_worker c = Polling \<Longrightarrow> \<not> cl_stop c \<Longrightarrow> kernel_cycle cy \<Longrightarrow> cycle_result inet parse (cl_path c) cy = Some r \<Longrightarrow>
    client_step inet parse c (c\<lparr>cl_worker := Holding (cycle_snapshot (cl_path c) r)\<rparr>)"
| left: "cl_worker c = Polling \<Longrightarrow> cl_stop c \<Longrightarrow> client_step inet parse c (c\<lparr>cl_worker := Exited\<rparr>)"
| published: "cl_worker c = Holding s \<Longrightarrow> client_step inet parse c (c\<lparr>cl_worker := Polling, cl_snapshot := s\<rparr>)"
| stop_begin: "client_step inet parse c (c\<lparr>cl_stop := True\<rparr>)"
| stop_end: "cl_stop c \<Longrightarrow> cl_worker c = Exited \<Longrightarrow>
    client_step inet parse c (c\<lparr>cl_snapshot := cleared (cl_path c), cl_stopped := True\<rparr>)"

inductive_cases client_step_cases: "client_step inet parse c d"

definition client_reaches :: "(string \<Rightarrow> bool) \<Rightarrow> ((int \<Rightarrow> bool) \<Rightarrow> bytes \<Rightarrow> json option) \<Rightarrow> gw_client \<Rightarrow> gw_client \<Rightarrow> bool" where
  "client_reaches inet parse = (client_step inet parse)\<^sup>*\<^sup>*"

section \<open>The invariant\<close>

definition client_inv :: "(string \<Rightarrow> bool) \<Rightarrow> string \<Rightarrow> gw_client \<Rightarrow> bool" where
  "client_inv inet path c \<longleftrightarrow> cl_path c = path
     \<and> (cl_snapshot c = cl_snapshot (client_init path) \<or> cl_snapshot c = cleared path \<or> snapshot_ok inet path (cl_snapshot c))
     \<and> (\<forall>s. cl_worker c = Holding s \<longrightarrow> snapshot_ok inet path s)
     \<and> (cl_worker c = Exited \<longrightarrow> cl_stop c)
     \<and> (cl_stopped c \<longrightarrow> cl_worker c = Exited \<and> cl_snapshot c = cleared path)"

lemma client_inv_init: "client_inv inet path (client_init path)"
  by (simp add: client_inv_def client_init_def)

lemma client_inv_step: "client_step inet parse c d \<Longrightarrow> client_inv inet path c \<Longrightarrow> client_inv inet path d"
  by (erule client_step_cases) (auto simp: client_inv_def intro: cycle_snapshot_ok)

interpretation client: step_system "client_step inet parse" "client_init path" "client_inv inet path" for inet parse path
  by unfold_locales (auto intro: client_inv_init client_inv_step)

lemma stopped_stays:
  assumes "client_step inet parse c d" and "client_inv inet path c" and "cl_stopped c"
  shows "cl_stopped d \<and> cl_snapshot d = cl_snapshot c"
  using assms by (auto simp: client_inv_def elim!: client_step_cases)

section \<open>A kernel to run against\<close>

definition sample_world :: "nat \<Rightarrow> bytes \<Rightarrow> gw_world" where
  "sample_world piece stream = \<lparr>gw_stop = \<lambda>_. False, gw_expired = \<lambda>_. False, gw_poll = \<lambda>_. PollReady, gw_send = \<lambda>_. Moved piece,
     gw_recv = \<lambda>_. Moved piece, gw_stream = stream, gw_socket = 0, gw_connect = 0, gw_soerror = Inr 0,
     gw_peer = Some 1000, gw_euid = 1000\<rparr>"

definition sample_stream :: bytes where
  "sample_stream = [0, 0, 0, 2, 0x4b, 0x43, 0x46, 0x4c, 0, 1, 0, 1, 0, 0, 0, 0, 0x7b, 0x7d]"

definition sample_parse :: "(int \<Rightarrow> bool) \<Rightarrow> bytes \<Rightarrow> json option" where
  "sample_parse callback body = (if body = [0x7b, 0x7d] \<and> callback 0 then Some (JObject []) else None)"

definition silent_world :: gw_world where
  "silent_world = (sample_world 1 [])\<lparr>gw_expired := \<lambda>t. 9 \<le> t, gw_send := \<lambda>_. MoveFails EAGAIN, gw_poll := \<lambda>_. PollTimeout\<rparr>"

lemma sample_flowing: "0 < piece \<Longrightarrow> flowing (sample_world piece stream) 1 T"
  by (auto simp: flowing_def sample_world_def io_call_def io_turn_def)

text \<open>
  A slow peer: \<open>connect\<close> is in progress, half of the waits time out or are interrupted, and half of the
  calls are interrupted or would block; the deadline comes after 500 steps.
\<close>

definition slow_world :: "nat \<Rightarrow> bytes \<Rightarrow> gw_world" where
  "slow_world piece stream = (sample_world piece stream)\<lparr>gw_connect := EINPROGRESS, gw_expired := \<lambda>t. 500 \<le> t,
     gw_poll := \<lambda>t. if t mod 4 = 0 then PollTimeout else if t mod 4 = 1 then PollFails EINTR else PollReady,
     gw_send := \<lambda>t. if t mod 4 = 0 then MoveFails EINTR else if t mod 4 = 1 then MoveFails EAGAIN else Moved piece,
     gw_recv := \<lambda>t. if t mod 4 = 0 then MoveFails EAGAIN else if t mod 4 = 1 then MoveFails EINTR else Moved piece\<rparr>"

lemma slow_flowing: "0 < piece \<Longrightarrow> flowing (slow_world piece stream) 4 500"
proof -
  assume piece: "0 < piece"
  have "\<exists>u. t \<le> u \<and> u < t + 4 \<and> u mod 4 = 2" for t :: nat by presburger
  moreover have "Suc u mod 4 = 3" if "u mod 4 = 2" for u :: nat using that by presburger
  ultimately show ?thesis
    using piece by (force simp: flowing_def slow_world_def sample_world_def io_call_def io_turn_def)
qed

lemma sample_framed: "framed sample_parse 1 sample_stream (JObject [])"
proof -
  have "check_header 1 (take 16 sample_stream) = Inr 2" by code_simp
  moreover have "sample_parse (\<lambda>depth. depth \<le> 24) (take 2 (drop 16 sample_stream)) = Some (JObject [])"
    by (simp add: sample_parse_def sample_stream_def)
  moreover have "16 + 2 \<le> length sample_stream" by (simp add: sample_stream_def)
  ultimately show ?thesis unfolding framed_def by (intro exI[of _ 2]) simp
qed

lemma sample_query: "\<exists>s. Query sample_parse (sample_world 3 sample_stream) ''/s'' 1 = Some (Inr (JObject []), s)"
proof -
  have "\<exists>s. Query sample_parse (sample_world 3 sample_stream) ''/s'' 1 = Some (Inr (JObject []), s)
      \<and> gc_time s \<le> Suc 1 * (17 + length (gw_stream (sample_world 3 sample_stream)))"
    by (rule Query_completes[OF sample_flowing order_refl])
      (simp_all add: sample_framed sample_world_def[of 3 sample_stream] open_socket_def)
  then show ?thesis by blast
qed

section \<open>Properties\<close>

text \<open>
  C28. A document comes from the right peer and frame: when a request returns one, exactly the 16
  bytes of the request were sent to a process of the same user, and the document is the parse, with
  nesting at most 24, of the body the checked header announces, however the bytes arrived.
\<close>

theorem gateway_query_document:
  assumes "Query parse w path op = Some (Inr j, s)"
  shows "gc_sent s = request_header op \<and> gw_peer w = Some (gw_euid w) \<and> framed parse op (gw_stream w) j"
  using assms by (rule Query_document)

theorem gateway_query_document_witness:
  "\<exists>s. Query sample_parse (sample_world 3 sample_stream) ''/s'' 1 = Some (Inr (JObject []), s) \<and> gc_sent s = request_header 1"
  using sample_query gateway_query_document by blast

text \<open>
  C29. A well-framed answer is read whatever pieces it comes in: \<open>connect\<close> may be in progress, calls may be
  interrupted or would block and waits may time out, as long as nobody stops the client and at most \<open>b\<close> steps go by without a
  turn in which the socket is ready and a byte moves. When the deadline is no earlier than the number of steps this takes at
  most, the request returns the document of the frame within that number.
\<close>

theorem gateway_query_complete:
  assumes "flowing w b T" and "Suc b * (17 + length (gw_stream w)) \<le> T" and "open_socket w path = Inr ()"
    and "gw_connect w = 0 \<or> gw_connect w = EINPROGRESS \<and> gw_soerror w = Inr 0" and "gw_peer w = Some (gw_euid w)"
    and "framed parse op (gw_stream w) j"
  shows "\<exists>s. Query parse w path op = Some (Inr j, s) \<and> gc_time s \<le> Suc b * (17 + length (gw_stream w))"
  using assms by (rule Query_completes)

theorem gateway_query_complete_witness:
  "\<exists>s. Query sample_parse (slow_world 5 sample_stream) ''/s'' 1 = Some (Inr (JObject []), s)
    \<and> gc_time s \<le> Suc 4 * (17 + length (gw_stream (slow_world 5 sample_stream)))"
proof (rule gateway_query_complete)
  show "flowing (slow_world 5 sample_stream) 4 500" by (rule slow_flowing) simp
  show "framed sample_parse 1 (gw_stream (slow_world 5 sample_stream)) (JObject [])"
    using sample_framed by (simp add: slow_world_def sample_world_def)
qed (simp_all add: slow_world_def sample_world_def sample_stream_def open_socket_def)

text \<open>
  C30. A cycle always ends: if in each of its three requests the deadline passes eventually, the
  cycle returns, whatever the kernel and the peer do before.
\<close>

theorem gateway_cycle_returns:
  assumes "deadline (cy_first c) T" and "deadline (cy_second c) T" and "deadline (cy_third c) T"
  shows "\<exists>r. cycle_result inet parse path c = Some r"
proof -
  have q: "\<exists>r. map_option fst (Query parse w path op) = Some r" if "deadline w T" for w op
    using Query_returns[OF that, of parse path op] by auto
  show ?thesis
    unfolding cycle_result_def
    by (intro or_bind_returns; (rule q[OF assms(1)] | rule q[OF assms(2)] | rule q[OF assms(3)] | simp))
qed

theorem gateway_cycle_returns_witness:
  "\<exists>r. cycle_result (\<lambda>_. True) sample_parse ''/s''
     \<lparr>cy_first = silent_world, cy_second = silent_world, cy_third = silent_world, cy_wall = 0\<rparr> = Some r"
  by (rule gateway_cycle_returns[of _ 9]) (simp_all add: deadline_def silent_world_def)

text \<open>
  C27. What a caller of \<open>Snapshot\<close> can see, in every interleaving of the worker with \<open>Stop\<close>: the
  initial connecting value, a complete reading that passed all checks, an error with a negative code
  and no data, or the cleared value; and once \<open>Stop\<close> has returned, the cleared value for ever.
\<close>

theorem gateway_client_states:
  assumes "client_reaches inet parse (client_init path) c"
  shows "(cl_snapshot c = cl_snapshot (client_init path) \<or> cl_snapshot c = cleared path \<or> snapshot_ok inet path (cl_snapshot c))
    \<and> (cl_stopped c \<longrightarrow> (\<forall>d. client_reaches inet parse c d \<longrightarrow> cl_snapshot d = cleared path))"
proof -
  have inv: "client_inv inet path c" using assms unfolding client_reaches_def by (rule client.inv_reachable)
  have "cl_snapshot d = cleared path" if "cl_stopped c" "client_reaches inet parse c d" for d
  proof -
    have "cl_stopped d \<and> cl_snapshot d = cleared path"
      using that(2)[unfolded client_reaches_def] inv
      by (rule client.stable_steps) (use inv that(1) stopped_stays in \<open>auto simp: client_inv_def\<close>)
    then show ?thesis by simp
  qed
  with inv show ?thesis by (auto simp: client_inv_def)
qed

theorem gateway_client_states_witness:
  "cl_snapshot ((client_init ''/s'')\<lparr>cl_stop := True, cl_worker := Exited, cl_snapshot := cleared ''/s'', cl_stopped := True\<rparr>)
    = cleared ''/s''"
proof -
  let ?a = "client_init ''/s''" and ?st = "client_step (\<lambda>_. True) sample_parse"
  let ?b = "?a\<lparr>cl_stop := True\<rparr>"
  let ?c = "?b\<lparr>cl_worker := Exited\<rparr>"
  let ?d = "?c\<lparr>cl_snapshot := cleared (cl_path ?c), cl_stopped := True\<rparr>"
  have "?st ?a ?b" by (rule client_step.stop_begin)
  moreover have "?st ?b ?c" by (rule client_step.left) (simp_all add: client_init_def)
  moreover have "?st ?c ?d" by (rule client_step.stop_end) (simp_all add: client_init_def)
  ultimately have r: "client_reaches (\<lambda>_. True) sample_parse ?a ?d"
    unfolding client_reaches_def by (meson rtranclp.rtrancl_into_rtrancl rtranclp.rtrancl_refl)
  have "client_reaches (\<lambda>_. True) sample_parse ?d ?d" by (simp add: client_reaches_def)
  with gateway_client_states[OF r] show ?thesis by (auto simp: client_init_def)
qed

end
