(* ===== verification/KcfBackend.thy ===== *)
theory KcfBackend
  imports ToolBackend ValueCodec
begin

text \<open>
  \<open>src/backend/kcf_backend.cpp\<close>: the backend of a running KCF system. The framework is not part of
  the repository: its client classes are the fields of a \<open>kcf\<close> record, functions of the number of
  the call (\<open>ki_time\<close>), because discovery is not atomic and two calls may answer differently. A
  call returns a code and a value or throws; writes and service calls are logged in \<open>ki_log\<close>.

  \<open>'a kio\<close> is a computation that may return an error code or throw. \<open>Guard\<close> turns exceptions
  into codes, as the template of the same name does.
\<close>

section \<open>Framework data\<close>

datatype process_state = PS_STOPPED | PS_STARTING | PS_RUNNING | PS_STOPPING | PS_ERROR | PS_Other nat
datatype application_state =
  AS_INITIALIZING | AS_RUNNING | AS_ERROR | AS_RESETTING | AS_SHUTTING_DOWN | AS_STOPPED | AS_Other nat
datatype kcf_kind = KK_TOPIC | KK_PARAMETER | KK_Other nat
datatype kcf_role = KR_PUBLISHER | KR_SUBSCRIBER | KR_PARAMETER_OWNER | KR_PARAMETER_CLIENT | KR_Other nat

record kcf_runtime =
  kr_pid :: int
  kr_process_start_ticks :: u64
  kr_executable :: string
  kr_state :: process_state
  kr_runtime_error :: int
  kr_standalone :: bool

record kcf_member =
  km_pid :: int
  km_process_start_ticks :: u64
  km_name :: string

text \<open>\<open>ks_elements\<close> are the first \<open>element_count\<close> entries of the array of a supervisor.\<close>

record kcf_supervisor =
  ks_pid :: int
  ks_process_start_ticks :: u64
  ks_application_name :: string
  ks_application_state :: application_state
  ks_revision :: u64
  ks_elements :: "kcf_member list"

record kcf_endpoint =
  ke_registration_id :: u64
  ke_kind :: kcf_kind
  ke_role :: kcf_role
  ke_name :: string
  ke_diagnostic_type_name :: string
  ke_type_id :: u64
  ke_payload_size :: u64

record kcf_service =
  kv_registration_id :: u64
  kv_name :: string
  kv_port :: u16
  kv_service_id :: u16
  kv_request_size :: u32
  kv_response_size :: u32
  kv_request_type_id :: u64
  kv_response_type_id :: u64
  kv_diagnostic_request_type_name :: string
  kv_diagnostic_response_type_name :: string

section \<open>Calls and effects\<close>

datatype exn = Bad_alloc | Other_exn
datatype 'a kout = Ret "'a result" | Thrown exn

datatype kcf_effect =
  EffSet string type_descriptor dynamic_payload
| EffCall u16 u16 type_descriptor type_descriptor u32 u32 dynamic_payload

record kcf_io =
  ki_time :: nat
  ki_log :: "kcf_effect list"

type_synonym 'a kio = "kcf_io \<Rightarrow> 'a kout \<times> kcf_io"

record kcf =
  kf_valid :: "type_descriptor \<Rightarrow> bool"
  kf_runtime0 :: kcf_runtime
  kf_ListSupervisors :: "nat \<Rightarrow> kcf_supervisor list kout"
  kf_ListRuntimes :: "nat \<Rightarrow> kcf_runtime list kout"
  kf_ListEndpoints :: "nat \<Rightarrow> kcf_runtime \<Rightarrow> kcf_endpoint list kout"
  kf_ListServices :: "nat \<Rightarrow> kcf_runtime \<Rightarrow> kcf_service list kout"
  kf_GetType :: "nat \<Rightarrow> kcf_runtime \<Rightarrow> u64 \<Rightarrow> type_descriptor kout"
  kf_pidfd_open :: "nat \<Rightarrow> int \<Rightarrow> unit kout"
  kf_poll_exit :: "nat \<Rightarrow> int \<Rightarrow> bool kout"
  kf_TopicOpen :: "nat \<Rightarrow> string \<Rightarrow> type_descriptor \<Rightarrow> unit kout"
  kf_TopicRead :: "nat \<Rightarrow> string \<Rightarrow> type_descriptor \<Rightarrow> dynamic_payload kout"
  kf_ParameterOpen :: "nat \<Rightarrow> string \<Rightarrow> type_descriptor \<Rightarrow> unit kout"
  kf_ParameterGet :: "nat \<Rightarrow> string \<Rightarrow> type_descriptor \<Rightarrow> dynamic_payload kout"
  kf_ParameterSet :: "nat \<Rightarrow> string \<Rightarrow> type_descriptor \<Rightarrow> dynamic_payload \<Rightarrow> unit kout"
  kf_ServiceOpen :: "nat \<Rightarrow> u16 \<Rightarrow> u16 \<Rightarrow> type_descriptor \<Rightarrow> type_descriptor \<Rightarrow> u32 \<Rightarrow> u32 \<Rightarrow> unit kout"
  kf_ServiceCall :: "nat \<Rightarrow> u16 \<Rightarrow> u16 \<Rightarrow> dynamic_payload \<Rightarrow> dynamic_payload kout"

definition k_bind :: "'a kio \<Rightarrow> ('a \<Rightarrow> 'b kio) \<Rightarrow> 'b kio" where
  "k_bind m f s = (case m s of
     (Ret (Inr x), s') \<Rightarrow> f x s' | (Ret (Inl e), s') \<Rightarrow> (Ret (Inl e), s') | (Thrown e, s') \<Rightarrow> (Thrown e, s'))"

definition k_res :: "'a result \<Rightarrow> 'a kio" where
  "k_res r s = (Ret r, s)"

definition k_call :: "(nat \<Rightarrow> 'a kout) \<Rightarrow> 'a kio" where
  "k_call f s = (f (ki_time s), s\<lparr>ki_time := Suc (ki_time s)\<rparr>)"

definition k_effect :: "kcf_effect \<Rightarrow> (nat \<Rightarrow> 'a kout) \<Rightarrow> 'a kio" where
  "k_effect e f s = (f (ki_time s), s\<lparr>ki_time := Suc (ki_time s), ki_log := ki_log s @ [e]\<rparr>)"

text \<open>\<open>if(call()==0)\<close>: the code is looked at and dropped; an exception is not caught here.\<close>

definition k_try :: "'a kio \<Rightarrow> 'a option kio" where
  "k_try m s = (case m s of
     (Ret (Inr x), s') \<Rightarrow> (Ret (Inr (Some x)), s') | (Ret (Inl e), s') \<Rightarrow> (Ret (Inr None), s') | (Thrown e, s') \<Rightarrow> (Thrown e, s'))"

definition Guard :: "'a kio \<Rightarrow> kcf_io \<Rightarrow> 'a result \<times> kcf_io" where
  "Guard m s = (case m s of
     (Ret r, s') \<Rightarrow> (r, s') | (Thrown Bad_alloc, s') \<Rightarrow> (fail (- ENOMEM), s') | (Thrown Other_exn, s') \<Rightarrow> (fail (- EIO), s'))"

primrec k_fold :: "('a \<Rightarrow> 'b \<Rightarrow> 'b kio) \<Rightarrow> 'a list \<Rightarrow> 'b \<Rightarrow> 'b kio" where
  "k_fold f [] b = k_res (Inr b)"
| "k_fold f (x # xs) b = k_bind (f x b) (k_fold f xs)"

section \<open>Helpers\<close>

definition State_process :: "process_state \<Rightarrow> string" where
  "State_process s = (case s of PS_STOPPED \<Rightarrow> ''STOPPED'' | PS_STARTING \<Rightarrow> ''STARTING'' | PS_RUNNING \<Rightarrow> ''RUNNING''
     | PS_STOPPING \<Rightarrow> ''STOPPING'' | PS_ERROR \<Rightarrow> ''ERROR'' | PS_Other n \<Rightarrow> ''UNKNOWN'')"

text \<open>With the enumerator \<open>STOPPED\<close> of framework v5.5, the first \<open>StoppedState\<close> overload.\<close>

definition State_application :: "application_state \<Rightarrow> string" where
  "State_application s = (case s of AS_INITIALIZING \<Rightarrow> ''INITIALIZING'' | AS_RUNNING \<Rightarrow> ''RUNNING'' | AS_ERROR \<Rightarrow> ''ERROR''
     | AS_RESETTING \<Rightarrow> ''RESETTING'' | AS_SHUTTING_DOWN \<Rightarrow> ''SHUTTING_DOWN'' | AS_STOPPED \<Rightarrow> ''STOPPED''
     | AS_Other n \<Rightarrow> ''UNKNOWN'')"

text \<open>\<open>text\<close> with a separator before every part but the first non-empty prefix, as the loops do.\<close>

definition display_field :: "field_value \<Rightarrow> string" where
  "display_field f = fv_name f @ ''='' @
     (if fv_array_values f = [] then fv_value f
      else ''['' @ concat (map (\<lambda>i. (if 0 < i then '','' else []) @ fv_array_values f ! i) [0..<length (fv_array_values f)]) @ '']'')"

definition Display :: "data_snapshot \<Rightarrow> string" where
  "Display s = (case ds_fields s of
     [f] \<Rightarrow> if fv_array_values f = [] then fv_value f
            else fold (\<lambda>f text. text @ (if text \<noteq> [] then ''; '' else []) @ display_field f) (ds_fields s) []
   | _ \<Rightarrow> fold (\<lambda>f text. text @ (if text \<noteq> [] then ''; '' else []) @ display_field f) (ds_fields s) [])"

record 'm krecord =
  kc_model :: 'm
  kc_runtime :: kcf_runtime

definition kcf_Find :: "('m \<Rightarrow> endpoint_identity) \<Rightarrow> 'm krecord list \<Rightarrow> endpoint_identity \<Rightarrow> 'm krecord option" where
  "kcf_Find identity_of records ident = List.find (\<lambda>r. endpoint_identity_eq (identity_of (kc_model r)) ident) records"

text \<open>The loop of \<open>Select\<close>: the candidate, whether it has the preferred role, and how many tie.\<close>

definition select_step :: "('m \<Rightarrow> string) \<Rightarrow> ('m \<Rightarrow> string) \<Rightarrow> string \<Rightarrow> string \<Rightarrow> 'm krecord
    \<Rightarrow> 'm krecord option \<times> bool \<times> nat \<Rightarrow> 'm krecord option \<times> bool \<times> nat" where
  "select_step name_of role_of name preferred r st =
     (if name_of (kc_model r) \<noteq> name then st
      else let priority = (role_of (kc_model r) = preferred); selected = fst st; best = fst (snd st); matches = snd (snd st)
           in if selected = None \<or> (priority \<and> \<not> best) then (Some r, priority, 1)
              else if priority = best then (selected, best, Suc matches) else st)"

definition Select :: "('m \<Rightarrow> string) \<Rightarrow> ('m \<Rightarrow> string) \<Rightarrow> ('m \<Rightarrow> endpoint_identity) \<Rightarrow> 'm krecord list \<Rightarrow> string \<Rightarrow> string
    \<Rightarrow> endpoint_identity result" where
  "Select name_of role_of identity_of records name preferred =
     (case fold (select_step name_of role_of name preferred) records (None, False, 0) of
        (None, _, _) \<Rightarrow> fail (- ENOENT)
      | (Some r, _, matches) \<Rightarrow> if matches \<noteq> 1 then fail (- ENOTUNIQ) else Inr (identity_of (kc_model r)))"

section \<open>State\<close>

record prepared_topic =
  pt_identity :: endpoint_identity
  pt_descriptor :: type_descriptor
  pt_name :: string
  pt_pid :: int

record kcf_state =
  kb_prepared :: "prepared_topic option"
  kb_state :: backend_connection_state
  kb_applications :: "application_info list"
  kb_elements :: "element_info list"
  kb_topics :: "topic_info krecord list"
  kb_parameters :: "parameter_info krecord list"
  kb_services :: "service_info krecord list"

definition kcf_state0 :: kcf_state where
  "kcf_state0 = \<lparr>kb_prepared = None, kb_state = DISCONNECTED, kb_applications = [], kb_elements = [], kb_topics = [],
     kb_parameters = [], kb_services = []\<rparr>"

definition Kcf_GetConnectionState :: "kcf_state \<Rightarrow> backend_connection_state" where
  "Kcf_GetConnectionState b = kb_state b"

definition Kcf_GetApplicationInfo :: "kcf_state \<Rightarrow> application_info" where
  "Kcf_GetApplicationInfo b =
     (if kb_state b \<noteq> CONNECTED then application_info0\<lparr>ai_state := ''DISCONNECTED''\<rparr>
      else if length (kb_applications b) = 1 then hd (kb_applications b)
      else if kb_applications b = [] then application_info0\<lparr>ai_name := ''Standalone'', ai_state := ''DISCOVERED''\<rparr>
      else application_info0\<lparr>ai_name := to_string_nat (length (kb_applications b)) @ '' applications'', ai_state := ''DISCOVERED''\<rparr>)"

definition Models :: "'m krecord list \<Rightarrow> 'm list" where
  "Models records = map kc_model records"

section \<open>Validation\<close>

definition DiscoveryError :: "err \<Rightarrow> err" where
  "DiscoveryError e = (if e = Errno (- ENOENT) \<or> e = Errno (- ESRCH) then Errno (- ESTALE) else e)"

definition k_map_error :: "(err \<Rightarrow> err) \<Rightarrow> 'a kio \<Rightarrow> 'a kio" where
  "k_map_error g m s = (case m s of (Ret (Inl e), s') \<Rightarrow> (Ret (Inl (g e)), s') | r \<Rightarrow> r)"

definition same_runtime :: "endpoint_identity \<Rightarrow> kcf_runtime \<Rightarrow> bool" where
  "same_runtime ident runtime \<longleftrightarrow> ri_pid (ei_runtime ident) = kr_pid runtime
     \<and> ri_process_start_ticks (ei_runtime ident) = kr_process_start_ticks runtime"

definition ValidateEndpoint :: "kcf \<Rightarrow> endpoint_identity \<Rightarrow> string \<Rightarrow> u64 \<Rightarrow> u64 \<Rightarrow> kcf_runtime \<Rightarrow> kcf_kind \<Rightarrow> kcf_role \<Rightarrow> unit kio" where
  "ValidateEndpoint w ident name type_id payload_size runtime kind role =
     (if \<not> same_runtime ident runtime then k_res (fail (- ESTALE))
      else k_bind (k_map_error DiscoveryError (k_call (\<lambda>t. kf_ListEndpoints w t runtime))) (\<lambda>current.
        k_res (case List.find (\<lambda>e. ke_registration_id e = ei_registration_id ident) current of
          None \<Rightarrow> fail (- ESTALE)
        | Some e \<Rightarrow> guard (ke_kind e = kind \<and> ke_role e = role \<and> name = ke_name e \<and> type_id = ke_type_id e
              \<and> payload_size = ke_payload_size e) (- ESTALE))))"

definition ValidateTopic :: "kcf \<Rightarrow> topic_info krecord \<Rightarrow> unit kio" where
  "ValidateTopic w r =
     (let m = kc_model r
      in if ti_role m \<noteq> ''PUBLISHER'' \<and> ti_role m \<noteq> ''SUBSCRIBER'' then k_res (fail (- ESTALE))
         else ValidateEndpoint w (ti_identity m) (ti_name m) (ti_type_id m) (word_of_nat (ti_payload_size m)) (kc_runtime r) KK_TOPIC
                (if ti_role m = ''PUBLISHER'' then KR_PUBLISHER else KR_SUBSCRIBER))"

definition ValidateParameterRecord :: "kcf \<Rightarrow> parameter_info krecord \<Rightarrow> unit kio" where
  "ValidateParameterRecord w r =
     (let m = kc_model r
      in if pi_role m \<noteq> ''OWNER'' \<and> pi_role m \<noteq> ''CLIENT'' then k_res (fail (- ESTALE))
         else ValidateEndpoint w (pi_identity m) (pi_name m) (pi_type_id m) (pi_payload_size m) (kc_runtime r) KK_PARAMETER
                (if pi_role m = ''OWNER'' then KR_PARAMETER_OWNER else KR_PARAMETER_CLIENT))"

definition ValidateServiceRecord :: "kcf \<Rightarrow> service_info krecord \<Rightarrow> unit kio" where
  "ValidateServiceRecord w r =
     (let c = kc_model r
      in if \<not> same_runtime (si_identity c) (kc_runtime r) then k_res (fail (- ESTALE))
         else k_bind (k_map_error DiscoveryError (k_call (\<lambda>t. kf_ListServices w t (kc_runtime r)))) (\<lambda>current.
           k_res (case List.find (\<lambda>s. kv_registration_id s = ei_registration_id (si_identity c)) current of
             None \<Rightarrow> fail (- ESTALE)
           | Some s \<Rightarrow> guard (si_name c = kv_name s \<and> si_port c = kv_port s \<and> si_service_id c = kv_service_id s
                 \<and> si_request_type_id c = kv_request_type_id s \<and> si_response_type_id c = kv_response_type_id s
                 \<and> si_request_size c = kv_request_size s \<and> si_response_size c = kv_response_size s) (- ESTALE))))"

definition Kcf_Type :: "kcf \<Rightarrow> kcf_runtime \<Rightarrow> u64 \<Rightarrow> nat \<Rightarrow> type_descriptor kio" where
  "Kcf_Type w runtime ident sz =
     (if ident = 0 then k_res (fail (- ENOTSUP))
      else k_bind (k_call (\<lambda>t. kf_GetType w t runtime ident)) (\<lambda>d.
        k_res (if td_type_id d = ident \<and> td_payload_size d = sz \<and> kf_valid w d then Inr d else fail (- EPROTOTYPE))))"


section \<open>Refresh\<close>

definition supervisor_identity :: "kcf_supervisor \<Rightarrow> runtime_identity" where
  "supervisor_identity s = \<lparr>ri_pid = ks_pid s, ri_process_start_ticks = ks_process_start_ticks s\<rparr>"

definition runtime_identity_of :: "kcf_runtime \<Rightarrow> runtime_identity" where
  "runtime_identity_of r = \<lparr>ri_pid = kr_pid r, ri_process_start_ticks = kr_process_start_ticks r\<rparr>"

definition supervisor_application :: "kcf_supervisor \<Rightarrow> application_info" where
  "supervisor_application s = \<lparr>ai_name = ks_application_name s, ai_state = State_application (ks_application_state s),
     ai_supervisor = supervisor_identity s, ai_revision = ks_revision s,
     ai_managed_element_count = word_of_nat (length (ks_elements s))\<rparr>"

text \<open>The two nested loops over the members of all supervisors.\<close>

definition assign_member :: "kcf_supervisor \<Rightarrow> kcf_member \<Rightarrow> element_info \<Rightarrow> element_info" where
  "assign_member s m e =
     (if km_pid m = ri_pid (el_identity e) \<and> km_process_start_ticks m = ri_process_start_ticks (el_identity e)
      then e\<lparr>el_name := km_name m, el_supervisor := supervisor_identity s, el_application_name := ks_application_name s\<rparr>
      else e)"

definition assign_supervisors :: "kcf_supervisor list \<Rightarrow> element_info \<Rightarrow> element_info" where
  "assign_supervisors supervisors e = fold (\<lambda>s. fold (assign_member s) (ks_elements s)) supervisors e"

definition default_application :: "string \<Rightarrow> string" where
  "default_application mode = (if mode = ''STANDALONE'' then ''Standalone'' else ''Unassigned'')"

definition runtime_element :: "kcf_runtime \<Rightarrow> element_info" where
  "runtime_element r =
     (let mode = (if kr_standalone r then ''STANDALONE'' else ''SUPERVISED'')
      in \<lparr>el_name = kr_executable r, el_pid = kr_pid r, el_executable = kr_executable r, el_mode = mode,
          el_state = State_process (kr_state r), el_heartbeat = 0, el_runtime_error = kr_runtime_error r,
          el_identity = runtime_identity_of r, el_supervisor = runtime_identity0,
          el_application_name = default_application mode, el_heartbeat_available = False\<rparr>)"

definition scan_topic :: "element_info \<Rightarrow> kcf_endpoint \<Rightarrow> topic_info" where
  "scan_topic e p =
     (let role = (if ke_role p = KR_PUBLISHER then ''PUBLISHER'' else ''SUBSCRIBER'')
      in \<lparr>ti_name = ke_name p, ti_type_name = ke_diagnostic_type_name p, ti_payload_size = unat (ke_payload_size p),
          ti_publishers = (if role = ''PUBLISHER'' then [el_name e] else []),
          ti_subscribers = (if role = ''PUBLISHER'' then [] else [el_name e]), ti_frequency_hz = 0, ti_sequence = 0,
          ti_identity = \<lparr>ei_runtime = el_identity e, ei_registration_id = ke_registration_id p\<rparr>, ti_role = role,
          ti_type_id = ke_type_id p, ti_diagnostic_type_name = ke_diagnostic_type_name p,
          ti_frequency_available = False, ti_sequence_available = False\<rparr>)"

definition scan_parameter :: "element_info \<Rightarrow> kcf_endpoint \<Rightarrow> type_descriptor option \<Rightarrow> parameter_info" where
  "scan_parameter e p d = \<lparr>pi_name = ke_name p,
     pi_type_name = (case d of None \<Rightarrow> ke_diagnostic_type_name p | Some d \<Rightarrow> td_type_name d), pi_value = [],
     pi_writable = (d \<noteq> None), pi_identity = \<lparr>ei_runtime = el_identity e, ei_registration_id = ke_registration_id p\<rparr>,
     pi_role = (if ke_role p = KR_PARAMETER_OWNER then ''OWNER'' else ''CLIENT''), pi_payload_size = ke_payload_size p,
     pi_type_id = ke_type_id p, pi_diagnostic_type_name = ke_diagnostic_type_name p, pi_snapshot = data_snapshot0,
     pi_text_editable = (case d of None \<Rightarrow> False
       | Some d \<Rightarrow> td_field_count d = 1 \<and> tf_array_count (td_fields d ! 0) = 1)\<rparr>"

definition scan_service :: "element_info \<Rightarrow> kcf_service \<Rightarrow> service_info" where
  "scan_service e v = \<lparr>si_identity = \<lparr>ei_runtime = el_identity e, ei_registration_id = kv_registration_id v\<rparr>,
     si_name = kv_name v, si_port = kv_port v, si_service_id = kv_service_id v, si_request_size = kv_request_size v,
     si_response_size = kv_response_size v, si_request_type_id = kv_request_type_id v,
     si_response_type_id = kv_response_type_id v, si_diagnostic_request_type_name = kv_diagnostic_request_type_name v,
     si_diagnostic_response_type_name = kv_diagnostic_response_type_name v\<rparr>"

definition scan_endpoint :: "kcf \<Rightarrow> kcf_runtime \<Rightarrow> element_info \<Rightarrow> kcf_endpoint \<Rightarrow> kcf_state \<Rightarrow> kcf_state kio" where
  "scan_endpoint w runtime e p b = (case ke_kind p of
     KK_TOPIC \<Rightarrow> k_res (Inr (b\<lparr>kb_topics := kb_topics b @ [\<lparr>kc_model = scan_topic e p, kc_runtime = runtime\<rparr>]\<rparr>))
   | KK_PARAMETER \<Rightarrow> k_bind (k_try (Kcf_Type w runtime (ke_type_id p) (unat (ke_payload_size p)))) (\<lambda>d.
       k_res (Inr (b\<lparr>kb_parameters := kb_parameters b @ [\<lparr>kc_model = scan_parameter e p d, kc_runtime = runtime\<rparr>]\<rparr>)))
   | KK_Other n \<Rightarrow> k_res (Inr b))"

definition scan_runtime :: "kcf \<Rightarrow> kcf_supervisor list \<Rightarrow> kcf_runtime \<Rightarrow> kcf_state \<Rightarrow> kcf_state kio" where
  "scan_runtime w supervisors runtime b =
     (let e = assign_supervisors supervisors (runtime_element runtime);
          b = b\<lparr>kb_elements := kb_elements b @ [e]\<rparr>
      in k_bind (k_try (k_call (\<lambda>t. kf_ListEndpoints w t runtime))) (\<lambda>endpoints.
         k_bind (case endpoints of None \<Rightarrow> k_res (Inr b) | Some es \<Rightarrow> k_fold (scan_endpoint w runtime e) es b) (\<lambda>b.
         k_bind (k_try (k_call (\<lambda>t. kf_ListServices w t runtime))) (\<lambda>services.
         k_res (Inr (case services of None \<Rightarrow> b
           | Some vs \<Rightarrow> b\<lparr>kb_services := kb_services b @ map (\<lambda>v. \<lparr>kc_model = scan_service e v, kc_runtime = runtime\<rparr>) vs\<rparr>))))))"

definition alive_in :: "kcf_runtime list \<Rightarrow> runtime_identity \<Rightarrow> bool" where
  "alive_in live ident \<longleftrightarrow> (\<exists>v \<in> set live. kr_pid v = ri_pid ident \<and> kr_process_start_ticks v = ri_process_start_ticks ident)"

definition prune :: "('m \<Rightarrow> endpoint_identity) \<Rightarrow> kcf_runtime list \<Rightarrow> 'm krecord list \<Rightarrow> 'm krecord list" where
  "prune identity_of live records = filter (\<lambda>r. alive_in live (ei_runtime (identity_of (kc_model r)))) records"

definition rename_element :: "kcf_supervisor list \<Rightarrow> element_info \<Rightarrow> element_info" where
  "rename_element supervisors e = assign_supervisors supervisors
     (e\<lparr>el_name := el_executable e, el_supervisor := runtime_identity0, el_application_name := default_application (el_mode e)\<rparr>)"

definition rename_topic :: "element_info list \<Rightarrow> topic_info krecord \<Rightarrow> topic_info krecord" where
  "rename_topic elements r = fold (\<lambda>e r.
     if runtime_identity_eq (el_identity e) (ei_runtime (ti_identity (kc_model r)))
     then (if ti_role (kc_model r) = ''PUBLISHER'' then r\<lparr>kc_model := (kc_model r)\<lparr>ti_publishers := [el_name e]\<rparr>\<rparr>
           else r\<lparr>kc_model := (kc_model r)\<lparr>ti_subscribers := [el_name e]\<rparr>\<rparr>)
     else r) elements r"

text \<open>The second half: the system as it is after the scan.\<close>

definition settle :: "kcf_runtime list \<Rightarrow> kcf_supervisor list \<Rightarrow> kcf_state \<Rightarrow> kcf_state" where
  "settle live supervisors b =
     (let elements = map (rename_element supervisors) (filter (\<lambda>e. alive_in live (el_identity e)) (kb_elements b));
          applications = map supervisor_application supervisors
      in b\<lparr>kb_elements := elements, kb_applications := applications,
           kb_topics := map (rename_topic elements) (prune ti_identity live (kb_topics b)),
           kb_parameters := prune pi_identity live (kb_parameters b),
           kb_services := prune si_identity live (kb_services b),
           kb_state := (if applications \<noteq> [] \<or> elements \<noteq> [] then CONNECTED else DISCONNECTED)\<rparr>)"

definition scan :: "kcf \<Rightarrow> kcf_state kio" where
  "scan w =
     k_bind (k_call (kf_ListSupervisors w)) (\<lambda>supervisors.
     k_bind (k_call (kf_ListRuntimes w)) (\<lambda>runtimes.
     k_bind (k_fold (scan_runtime w supervisors) runtimes (kcf_state0\<lparr>kb_applications := map supervisor_application supervisors\<rparr>)) (\<lambda>b.
     k_bind (k_call (kf_ListRuntimes w)) (\<lambda>live.
     k_bind (k_call (kf_ListSupervisors w)) (\<lambda>current.
     k_res (Inr (settle live current b)))))))"

definition Kcf_CloseTopicRead :: "kcf_state \<Rightarrow> kcf_state" where
  "Kcf_CloseTopicRead b = b\<lparr>kb_prepared := None\<rparr>"

definition Kcf_Refresh :: "kcf \<Rightarrow> kcf_state \<Rightarrow> kcf_io \<Rightarrow> unit result \<times> kcf_state \<times> kcf_io" where
  "Kcf_Refresh w b s = (case Guard (scan w) s of
     (Inr b', s') \<Rightarrow> (Inr (), b', s')
   | (Inl e, s') \<Rightarrow> (Inl e, (Kcf_CloseTopicRead b)\<lparr>kb_state := CONNECTION_ERROR, kb_applications := [], kb_elements := [],
       kb_topics := [], kb_parameters := [], kb_services := []\<rparr>, s'))"

section \<open>Topics\<close>

definition k_find :: "('m \<Rightarrow> endpoint_identity) \<Rightarrow> 'm krecord list \<Rightarrow> endpoint_identity \<Rightarrow> 'm krecord kio" where
  "k_find identity_of records ident = k_res (case kcf_Find identity_of records ident of None \<Rightarrow> fail (- ENOENT) | Some r \<Rightarrow> Inr r)"

definition k_require :: "bool \<Rightarrow> int \<Rightarrow> unit kio" where
  "k_require c code = k_res (guard c code)"

text \<open>\<open>Find\<close> of an identity that \<open>Select\<close> returned, through a pointer that is not checked.\<close>

definition k_deref :: "('m \<Rightarrow> endpoint_identity) \<Rightarrow> 'm krecord list \<Rightarrow> endpoint_identity \<Rightarrow> 'm krecord kio" where
  "k_deref identity_of records ident = k_res (case kcf_Find identity_of records ident of None \<Rightarrow> Inl Undefined | Some r \<Rightarrow> Inr r)"

definition Kcf_GetTopicInfo :: "kcf_state \<Rightarrow> string \<Rightarrow> kcf_io \<Rightarrow> topic_info result \<times> kcf_io" where
  "Kcf_GetTopicInfo b name = Guard (
     k_bind (k_res (Select ti_name ti_role ti_identity (kb_topics b) name ''PUBLISHER'')) (\<lambda>ident.
     k_bind (k_deref ti_identity (kb_topics b) ident) (\<lambda>r. k_res (Inr (kc_model r)))))"

definition prepare_topic :: "kcf \<Rightarrow> kcf_state \<Rightarrow> endpoint_identity \<Rightarrow> prepared_topic kio" where
  "prepare_topic w b ident =
     k_bind (k_find ti_identity (kb_topics b) ident) (\<lambda>r. let m = kc_model r in
     k_bind (k_require (ti_role m = ''PUBLISHER'') (- ENOTSUP)) (\<lambda>_.
     k_bind (ValidateTopic w r) (\<lambda>_.
     k_bind (k_call (\<lambda>t. kf_pidfd_open w t (ri_pid (ei_runtime ident)))) (\<lambda>_.
     k_bind (Kcf_Type w (kc_runtime r) (ti_type_id m) (ti_payload_size m)) (\<lambda>d.
     k_bind (k_call (\<lambda>t. kf_TopicOpen w t (ti_name m) d)) (\<lambda>_.
     k_bind (ValidateTopic w r) (\<lambda>_.
     k_res (Inr \<lparr>pt_identity = ident, pt_descriptor = d, pt_name = ti_name m, pt_pid = ri_pid (ei_runtime ident)\<rparr>))))))))"

definition Kcf_StartTopicEcho :: "kcf \<Rightarrow> kcf_state \<Rightarrow> endpoint_identity \<Rightarrow> kcf_io \<Rightarrow> unit result \<times> kcf_state \<times> kcf_io" where
  "Kcf_StartTopicEcho w b ident s =
     (let b = Kcf_CloseTopicRead b
      in case Guard (prepare_topic w b ident) s of
           (Inr p, s') \<Rightarrow> (Inr (), b\<lparr>kb_prepared := Some p\<rparr>, s') | (Inl e, s') \<Rightarrow> (Inl e, b, s'))"

definition read_prepared :: "kcf \<Rightarrow> kcf_state \<Rightarrow> data_snapshot kio" where
  "read_prepared w b = (case kb_prepared b of
     None \<Rightarrow> k_res (fail (- EBADF))
   | Some p \<Rightarrow>
       k_bind (k_call (\<lambda>t. kf_poll_exit w t (pt_pid p))) (\<lambda>exited.
       k_bind (k_require (\<not> exited) (- ESTALE)) (\<lambda>_.
       k_bind (k_call (\<lambda>t. kf_TopicRead w t (pt_name p) (pt_descriptor p))) (\<lambda>bytes.
       k_res (Decode (kf_valid w) (pt_descriptor p) bytes)))))"

definition Kcf_ReadTopicEcho :: "kcf \<Rightarrow> kcf_state \<Rightarrow> kcf_io \<Rightarrow> data_snapshot result \<times> kcf_state \<times> kcf_io" where
  "Kcf_ReadTopicEcho w b s =
     (let rs = Guard (read_prepared w b) s
      in (fst rs, (case fst rs of Inl e \<Rightarrow> if e \<noteq> Errno (- EAGAIN) then Kcf_CloseTopicRead b else b | Inr v \<Rightarrow> b), snd rs))"

definition Kcf_ReadTopicLatest_id :: "kcf \<Rightarrow> kcf_state \<Rightarrow> endpoint_identity \<Rightarrow> kcf_io \<Rightarrow> data_snapshot result \<times> kcf_io" where
  "Kcf_ReadTopicLatest_id w b ident = Guard (
     k_bind (k_find ti_identity (kb_topics b) ident) (\<lambda>r. let m = kc_model r in
     k_bind (ValidateTopic w r) (\<lambda>_.
     k_bind (Kcf_Type w (kc_runtime r) (ti_type_id m) (ti_payload_size m)) (\<lambda>d.
     k_bind (k_call (\<lambda>t. kf_TopicOpen w t (ti_name m) d)) (\<lambda>_.
     k_bind (ValidateTopic w r) (\<lambda>_.
     k_bind (k_call (\<lambda>t. kf_TopicRead w t (ti_name m) d)) (\<lambda>bytes.
     k_res (Decode (kf_valid w) d bytes))))))))"

definition k_guarded :: "(kcf_io \<Rightarrow> 'a result \<times> kcf_io) \<Rightarrow> 'a kio" where
  "k_guarded f s = (Ret (fst (f s)), snd (f s))"

definition Kcf_ReadTopicLatest_name :: "kcf \<Rightarrow> kcf_state \<Rightarrow> string \<Rightarrow> kcf_io \<Rightarrow> data_snapshot result \<times> kcf_io" where
  "Kcf_ReadTopicLatest_name w b name = Guard (
     k_bind (k_res (Select ti_name ti_role ti_identity (kb_topics b) name ''PUBLISHER'')) (\<lambda>ident.
     k_guarded (Kcf_ReadTopicLatest_id w b ident)))"

section \<open>Parameters\<close>

definition Kcf_GetParameter_id :: "kcf \<Rightarrow> kcf_state \<Rightarrow> endpoint_identity \<Rightarrow> kcf_io \<Rightarrow> data_snapshot result \<times> kcf_io" where
  "Kcf_GetParameter_id w b ident = Guard (
     k_bind (k_find pi_identity (kb_parameters b) ident) (\<lambda>r. let m = kc_model r in
     k_bind (ValidateParameterRecord w r) (\<lambda>_.
     k_bind (Kcf_Type w (kc_runtime r) (pi_type_id m) (unat (pi_payload_size m))) (\<lambda>d.
     k_bind (k_call (\<lambda>t. kf_ParameterOpen w t (pi_name m) d)) (\<lambda>_.
     k_bind (ValidateParameterRecord w r) (\<lambda>_.
     k_bind (k_call (\<lambda>t. kf_ParameterGet w t (pi_name m) d)) (\<lambda>bytes.
     k_res (Decode (kf_valid w) d bytes))))))))"

definition Kcf_GetParameter_name :: "kcf \<Rightarrow> kcf_state \<Rightarrow> string \<Rightarrow> kcf_io \<Rightarrow> parameter_info result \<times> kcf_state \<times> kcf_io" where
  "Kcf_GetParameter_name w b name s =
     (let rs = Guard (
        k_bind (k_res (Select pi_name pi_role pi_identity (kb_parameters b) name ''OWNER'')) (\<lambda>ident.
        k_bind (k_deref pi_identity (kb_parameters b) ident) (\<lambda>r.
        k_bind (k_guarded (Kcf_GetParameter_id w b ident)) (\<lambda>v.
        k_res (Inr ((kc_model r)\<lparr>pi_snapshot := v, pi_type_name := ds_type_name v, pi_value := Display v\<rparr>)))))) s
      in case fst rs of
           Inl e \<Rightarrow> (Inl e, b, snd rs)
         | Inr m \<Rightarrow> (Inr m, b\<lparr>kb_parameters := update_first (\<lambda>r. pi_identity (kc_model r) = pi_identity m)
             (\<lambda>r. r\<lparr>kc_model := m\<rparr>) (kb_parameters b)\<rparr>, snd rs))"

definition writable_checks :: "parameter_info \<Rightarrow> unit kio" where
  "writable_checks m = k_bind (k_require (pi_type_id m \<noteq> 0) (- ENOTSUP)) (\<lambda>_. k_require (pi_writable m) (- EPERM))"

definition Kcf_ValidateParameter :: "kcf \<Rightarrow> kcf_state \<Rightarrow> endpoint_identity \<Rightarrow> data_snapshot \<Rightarrow> kcf_io \<Rightarrow> unit result \<times> kcf_io" where
  "Kcf_ValidateParameter w b ident v = Guard (
     k_bind (k_find pi_identity (kb_parameters b) ident) (\<lambda>r. let m = kc_model r in
     k_bind (writable_checks m) (\<lambda>_.
     k_bind (Kcf_Type w (kc_runtime r) (pi_type_id m) (unat (pi_payload_size m))) (\<lambda>d.
     k_bind (k_res (Encode (kf_valid w) d v None)) (\<lambda>_. k_res (Inr ()))))))"

definition Kcf_SetParameter_id :: "kcf \<Rightarrow> kcf_state \<Rightarrow> endpoint_identity \<Rightarrow> data_snapshot \<Rightarrow> kcf_io \<Rightarrow> unit result \<times> kcf_io" where
  "Kcf_SetParameter_id w b ident v = Guard (
     k_bind (k_find pi_identity (kb_parameters b) ident) (\<lambda>r. let m = kc_model r in
     k_bind (writable_checks m) (\<lambda>_.
     k_bind (Kcf_Type w (kc_runtime r) (pi_type_id m) (unat (pi_payload_size m))) (\<lambda>d.
     k_bind (k_res (Encode (kf_valid w) d v None)) (\<lambda>_.
     k_bind (ValidateParameterRecord w r) (\<lambda>_.
     k_bind (k_call (\<lambda>t. kf_ParameterOpen w t (pi_name m) d)) (\<lambda>_.
     k_bind (k_call (\<lambda>t. kf_ParameterGet w t (pi_name m) d)) (\<lambda>seed.
     k_bind (k_res (Encode (kf_valid w) d v (Some seed))) (\<lambda>bytes.
     k_bind (ValidateParameterRecord w r) (\<lambda>_.
     k_effect (EffSet (pi_name m) d bytes) (\<lambda>t. kf_ParameterSet w t (pi_name m) d bytes)))))))))))"

text \<open>\<open>value.fields[0].value=text\<close> has no meaning on a value without fields.\<close>

definition set_first_field :: "string \<Rightarrow> data_snapshot \<Rightarrow> data_snapshot result" where
  "set_first_field t v = (case ds_fields v of [] \<Rightarrow> Inl Undefined | f # fs \<Rightarrow> Inr (v\<lparr>ds_fields := f\<lparr>fv_value := t\<rparr> # fs\<rparr>))"

definition Kcf_SetParameter_name :: "kcf \<Rightarrow> kcf_state \<Rightarrow> string \<Rightarrow> string \<Rightarrow> kcf_io \<Rightarrow> unit result \<times> kcf_io" where
  "Kcf_SetParameter_name w b name t = Guard (
     k_bind (k_res (Select pi_name pi_role pi_identity (kb_parameters b) name ''OWNER'')) (\<lambda>ident.
     k_bind (k_deref pi_identity (kb_parameters b) ident) (\<lambda>r. let m = kc_model r in
     k_bind (writable_checks m) (\<lambda>_.
     k_bind (k_require (pi_text_editable m) (- ENOTSUP)) (\<lambda>_.
     k_bind (k_guarded (Kcf_GetParameter_id w b ident)) (\<lambda>v.
     k_bind (k_res (set_first_field t v)) (\<lambda>v.
     k_guarded (Kcf_SetParameter_id w b ident v))))))))"

section \<open>Services and types\<close>

definition service_types :: "kcf \<Rightarrow> service_info krecord \<Rightarrow> (type_descriptor \<times> type_descriptor) kio" where
  "service_types w r =
     (let m = kc_model r in
     k_bind (Kcf_Type w (kc_runtime r) (si_request_type_id m) (unat (si_request_size m))) (\<lambda>req.
     k_bind (Kcf_Type w (kc_runtime r) (si_response_type_id m) (unat (si_response_size m))) (\<lambda>res. k_res (Inr (req, res)))))"

definition Kcf_ValidateService :: "kcf \<Rightarrow> kcf_state \<Rightarrow> endpoint_identity \<Rightarrow> data_snapshot \<Rightarrow> kcf_io \<Rightarrow> unit result \<times> kcf_io" where
  "Kcf_ValidateService w b ident request = Guard (
     k_bind (k_find si_identity (kb_services b) ident) (\<lambda>r.
     k_bind (service_types w r) (\<lambda>ts.
     k_bind (k_res (Encode (kf_valid w) (fst ts) request None)) (\<lambda>_. k_res (Inr ())))))"

definition Kcf_CallService :: "kcf \<Rightarrow> kcf_state \<Rightarrow> endpoint_identity \<Rightarrow> data_snapshot \<Rightarrow> u32 \<Rightarrow> u32 \<Rightarrow> kcf_io
    \<Rightarrow> data_snapshot result \<times> kcf_io" where
  "Kcf_CallService w b ident request timeout retries = Guard (
     k_bind (k_find si_identity (kb_services b) ident) (\<lambda>r. let m = kc_model r in
     k_bind (service_types w r) (\<lambda>ts.
     k_bind (k_res (Encode (kf_valid w) (fst ts) request None)) (\<lambda>bytes.
     k_bind (ValidateServiceRecord w r) (\<lambda>_.
     k_bind (k_call (\<lambda>t. kf_ServiceOpen w t (si_port m) (si_service_id m) (fst ts) (snd ts) timeout retries)) (\<lambda>_.
     k_bind (ValidateServiceRecord w r) (\<lambda>_.
     k_bind (k_effect (EffCall (si_port m) (si_service_id m) (fst ts) (snd ts) timeout retries bytes)
               (\<lambda>t. kf_ServiceCall w t (si_port m) (si_service_id m) bytes)) (\<lambda>response.
     k_res (Decode (kf_valid w) (snd ts) response)))))))))"

definition Kcf_GetTypeTemplate :: "kcf \<Rightarrow> kcf_state \<Rightarrow> runtime_identity \<Rightarrow> u64 \<Rightarrow> kcf_io \<Rightarrow> data_snapshot result \<times> kcf_io" where
  "Kcf_GetTypeTemplate w b ident type_id = Guard (
     k_bind (k_require (type_id \<noteq> 0) (- ENOTSUP)) (\<lambda>_.
     k_bind (k_require (\<exists>e \<in> set (kb_elements b). runtime_identity_eq (el_identity e) ident) (- ENOENT)) (\<lambda>_.
     k_bind (k_call (\<lambda>t. kf_GetType w t ((kf_runtime0 w)\<lparr>kr_pid := ri_pid ident,
               kr_process_start_ticks := ri_process_start_ticks ident\<rparr>) type_id)) (\<lambda>d.
     k_res (Decode (kf_valid w) d \<lparr>dp_type_id = td_type_id d, dp_bytes = replicate (td_payload_size d) 0, dp_sequence = 0\<rparr>)))))"

definition Kcf_StartTopicMonitor :: "string \<Rightarrow> unit result" where
  "Kcf_StartTopicMonitor name = fail (- ENOTSUP)"

definition Kcf_StopTopicMonitor :: "string \<Rightarrow> unit result" where
  "Kcf_StopTopicMonitor name = fail (- ENOTSUP)"

end
