(* ===== verification/CodecCodes.thy ===== *)
theory CodecCodes
  imports ValueCodec ToolBackend
begin

text \<open>
  The return codes of \<open>ValueCodec\<close>: \<open>Decode\<close> and \<open>Encode\<close> never fail with a code that is not negative.
  The backends that pass these codes on rely on it.
\<close>

text \<open>The codes of the codec: undefined behaviour apart, which \<open>ValueCodec\<close> excludes, they are negative.\<close>

definition negative :: "'a result \<Rightarrow> bool" where
  "negative r \<longleftrightarrow> (case r of Inl (Errno c) \<Rightarrow> c < 0 | _ \<Rightarrow> True)"

named_theorems negative_intros \<open>rules that establish \<open>negative\<close>\<close>

lemma negative_basic [simp]: "negative (Inr x)" "negative (fail c) \<longleftrightarrow> c < 0" "negative (Inl Undefined)"
  by (simp_all add: negative_def fail_def)

lemma negative_bind [negative_intros]: "negative m \<Longrightarrow> (\<And>x. negative (f x)) \<Longrightarrow> negative (res_bind m f)"
  by (cases m) (auto simp: negative_def)

lemma negative_mapM [negative_intros]: "(\<And>x. negative (f x)) \<Longrightarrow> negative (mapM_res f xs)"
  by (induction xs) (auto intro!: negative_intros)

lemma negative_foldM [negative_intros]: "(\<And>x s. negative (f x s)) \<Longrightarrow> negative (foldM_res f xs s)"
  by (induction xs arbitrary: s) (auto intro!: negative_intros)

lemma negative_nth [negative_intros]: "negative (nth_res xs i)"
  by (simp add: nth_res_def)

lemma negative_writers: "negative (Write_integer fc lo hi n t)" "negative (Write_float f n t)"
  by (simp_all add: Write_integer_def Write_float_def split: prod.split option.split)

lemma negative_scalar [negative_intros]: "negative (ReadScalar k bs off)" "negative (WriteScalar k t bs off)"
proof -
  have "negative (Read_text k b)" for b by (simp add: Read_text_def split: scalar_class.split)
  moreover have "negative (read_at bs off (fk_width k))" by (simp add: read_at_def)
  ultimately show "negative (ReadScalar k bs off)" by (cases k) (simp_all add: ReadScalar_def negative_bind)
  have "negative (Write_text k t)"
    by (simp add: Write_text_def Let_def negative_writers split: scalar_class.split)
  moreover have "negative (write_at bs off b)" for b by (simp add: write_at_def)
  ultimately show "negative (WriteScalar k t bs off)" by (simp add: WriteScalar_def negative_bind)
qed

lemma negative_find_field [negative_intros]: "negative (find_field d name i)"
proof (induction d name i rule: find_field.induct)
  case (1 d name i)
  then show ?case by (subst find_field.simps) (auto intro!: negative_intros)
qed

lemma negative_encode_fields: "negative (encode_fields d xs used bs)"
proof (induction xs arbitrary: used bs)
  case (Cons x xs)
  have "negative (write_element f x j bs)" for f j bs
    by (auto simp: write_element_def intro!: negative_intros)
  then have "negative (encode_field f x bs)" for f bs
    by (auto simp: encode_field_def Name_def intro!: negative_intros)
  with Cons show ?case by (auto intro!: negative_intros)
qed simp

lemma negative_codec: "negative (Decode valid d p)" "negative (Encode valid d v seed)"
proof -
  have "negative (decode_field bs f)" for bs f by (auto simp: decode_field_def Name_def intro!: negative_intros)
  then show "negative (Decode valid d p)" by (auto simp: Decode_def intro!: negative_intros)
  show "negative (Encode valid d v seed)"
    using negative_encode_fields by (auto simp: Encode_def Let_def intro!: negative_intros)
qed

lemma code_ok_iff: "code_ok r \<longleftrightarrow> negative r \<and> r \<noteq> Inl Undefined"
  by (auto simp: code_ok_def negative_def split: sum.splits err.splits)

end
