(* ===== verification/KcfProps.thy ===== *)
theory KcfProps
  imports KcfBackend CodecCodes
begin

text \<open>
  What the backend of \<open>KcfBackend\<close> guarantees whatever the framework answers. Five predicates on
  computations carry the proofs, each with one rule per combinator: \<open>quiet\<close> (no write or call is
  logged), \<open>reaches\<close> (how far a computation that ends with an effect has got), \<open>k_ok\<close> (codes are
  negative and nothing undefined happens), \<open>k_gives\<close> (what a returned value satisfies) and \<open>forward\<close> (the
  clock of the calls does not go back).
\<close>

section \<open>Select\<close>

definition preferred_of :: "('m \<Rightarrow> string) \<Rightarrow> ('m \<Rightarrow> string) \<Rightarrow> 'm krecord list \<Rightarrow> string \<Rightarrow> string \<Rightarrow> 'm krecord list" where
  "preferred_of name_of role_of records name preferred =
     (let named = filter (\<lambda>r. name_of (kc_model r) = name) records;
          pref = filter (\<lambda>r. role_of (kc_model r) = preferred) named
      in if pref = [] then named else pref)"

lemma select_fold:
  "fold (select_step name_of role_of name preferred) records (None, False, 0)
   = (let c = preferred_of name_of role_of records name preferred
      in if c = [] then (None, False, 0)
         else (Some (hd c), role_of (kc_model (hd c)) = preferred, length c))"
proof (induction records rule: rev_induct)
  case Nil
  then show ?case by (simp add: preferred_of_def)
next
  case (snoc r records)
  let ?named = "filter (\<lambda>r. name_of (kc_model r) = name) records"
  let ?pref = "filter (\<lambda>r. role_of (kc_model r) = preferred) ?named"
  have hd_pref: "?pref \<noteq> [] \<Longrightarrow> role_of (kc_model (hd ?pref)) = preferred"
    using hd_in_set[of ?pref] by simp
  have hd_named: "?pref = [] \<Longrightarrow> ?named \<noteq> [] \<Longrightarrow> role_of (kc_model (hd ?named)) \<noteq> preferred"
    using hd_in_set[of ?named] by (auto simp: filter_empty_conv)
  let ?st = "\<lambda>c. if c = [] then (None, False, 0) else (Some (hd c), role_of (kc_model (hd c)) = preferred, length c)"
  have "select_step name_of role_of name preferred r (?st (preferred_of name_of role_of records name preferred))
      = ?st (preferred_of name_of role_of (records @ [r]) name preferred)"
  proof (cases "name_of (kc_model r) = name")
    case True
    note step = select_step_def preferred_of_def Let_def True
    show ?thesis
    proof (cases "?pref = []")
      case no_pref: True
      show ?thesis
      proof (cases "?named = []")
        case True
        then show ?thesis by (simp add: step)
      next
        case False
        with no_pref hd_named show ?thesis by (simp add: step)
      qed
    next
      case False
      then have "?named \<noteq> []" by (auto simp: filter_empty_conv)
      with False hd_pref show ?thesis by (auto simp: step)
    qed
  qed (simp add: select_step_def preferred_of_def)
  with snoc show ?case by (simp add: Let_def)
qed

lemma Select_eq:
  "Select name_of role_of identity_of records name preferred
   = (case preferred_of name_of role_of records name preferred of
        [] \<Rightarrow> fail (- ENOENT) | [r] \<Rightarrow> Inr (identity_of (kc_model r)) | _ \<Rightarrow> fail (- ENOTUNIQ))"
  by (simp add: Select_def select_fold Let_def split: list.split)

lemma Select_member:
  "Select name_of role_of identity_of records name preferred = Inr ident \<Longrightarrow>
    \<exists>r \<in> set records. identity_of (kc_model r) = ident"
  by (auto simp: Select_eq preferred_of_def Let_def filter_eq_Cons_iff split: list.splits if_splits)

lemma Select_deref:
  "Select name_of role_of identity_of records name preferred = Inr ident \<Longrightarrow>
    \<exists>r. kcf_Find identity_of records ident = Some r"
  using Select_member find_ex by (fastforce simp: kcf_Find_def)

section \<open>Computations without effects\<close>

named_theorems quiet_intros \<open>rules that establish \<open>quiet\<close>\<close>

definition quiet :: "'a kio \<Rightarrow> bool" where
  "quiet m \<longleftrightarrow> (\<forall>s. ki_log (snd (m s)) = ki_log s)"

lemma quiet_basic [quiet_intros]: "quiet (k_res r)" "quiet (k_call f)" "quiet (k_require c e)"
  by (simp_all add: quiet_def k_res_def k_call_def k_require_def)

lemma quiet_bind [quiet_intros]: "quiet m \<Longrightarrow> (\<And>x. quiet (f x)) \<Longrightarrow> quiet (k_bind m f)"
  unfolding quiet_def k_bind_def by (auto split: prod.split kout.split sum.split) (metis snd_conv)+

lemma quiet_try [quiet_intros]: "quiet m \<Longrightarrow> quiet (k_try m)"
  unfolding quiet_def k_try_def by (auto split: prod.split kout.split sum.split) (metis snd_conv)+

lemma quiet_map_error [quiet_intros]: "quiet m \<Longrightarrow> quiet (k_map_error g m)"
  unfolding quiet_def k_map_error_def by (auto split: prod.split kout.split sum.split) (metis snd_conv)+

lemma quiet_fold [quiet_intros]: "(\<And>x b. quiet (f x b)) \<Longrightarrow> quiet (k_fold f xs b)"
proof (induction xs arbitrary: b)
  case (Cons x xs)
  show ?case by (simp, rule quiet_bind) (rule Cons)+
qed (simp add: quiet_basic)

lemma Guard_log: "quiet m \<Longrightarrow> ki_log (snd (Guard m s)) = ki_log s"
  unfolding quiet_def Guard_def by (auto split: prod.split kout.split sum.split exn.split) (metis snd_conv)+

lemma quiet_guarded [quiet_intros]: "(\<And>s. ki_log (snd (f s)) = ki_log s) \<Longrightarrow> quiet (k_guarded f)"
  by (simp add: quiet_def k_guarded_def)

lemma quiet_find [quiet_intros]: "quiet (k_find g rs ident)" "quiet (k_deref g rs ident)"
  by (simp_all add: k_find_def k_deref_def quiet_basic)

lemma quiet_endpoint [quiet_intros]: "quiet (ValidateEndpoint w ident name t sz runtime kind role)"
  by (simp add: ValidateEndpoint_def quiet_intros)

lemma quiet_validate [quiet_intros]:
  "quiet (ValidateTopic w r)" "quiet (ValidateParameterRecord w p)" "quiet (ValidateServiceRecord w v)"
  by (simp_all add: ValidateTopic_def ValidateParameterRecord_def ValidateServiceRecord_def Let_def quiet_intros)

lemma quiet_type [quiet_intros]: "quiet (Kcf_Type w runtime ident sz)"
  by (simp add: Kcf_Type_def quiet_intros)

lemma quiet_service_types [quiet_intros]: "quiet (service_types w r)"
  by (simp add: service_types_def Let_def quiet_intros)

lemma quiet_writable [quiet_intros]: "quiet (writable_checks m)"
  by (simp add: writable_checks_def quiet_intros)

lemma quiet_prepare [quiet_intros]: "quiet (prepare_topic w b ident)"
  unfolding prepare_topic_def Let_def by (intro quiet_intros)

lemma quiet_read_prepared [quiet_intros]: "quiet (read_prepared w b)"
  by (cases "kb_prepared b") (auto simp: read_prepared_def intro!: quiet_intros)

lemma quiet_scan_runtime [quiet_intros]: "quiet (scan_runtime w sups runtime b)"
proof -
  have "quiet (scan_endpoint w runtime e p b)" for e p b
    by (cases "ke_kind p") (auto simp: scan_endpoint_def intro!: quiet_intros)
  then have "quiet (case endpoints of None \<Rightarrow> k_res (Inr b) | Some es \<Rightarrow> k_fold (scan_endpoint w runtime e) es b)" for endpoints e b
    by (cases endpoints) (auto intro: quiet_intros)
  then show ?thesis unfolding scan_runtime_def Let_def by (intro quiet_intros)
qed

lemma quiet_scan [quiet_intros]: "quiet (scan w)"
  unfolding scan_def by (intro quiet_intros)

lemma GetParameter_log: "ki_log (snd (Kcf_GetParameter_id w b ident s)) = ki_log s"
  unfolding Kcf_GetParameter_id_def Let_def by (rule Guard_log) (intro quiet_intros)

lemma ReadTopicLatest_log: "ki_log (snd (Kcf_ReadTopicLatest_id w b ident s)) = ki_log s"
  unfolding Kcf_ReadTopicLatest_id_def Let_def by (rule Guard_log) (intro quiet_intros)


section \<open>Inversion\<close>

lemma k_bind_cases:
  assumes "k_bind m f s = (r, s')"
  obtains (stop) e where "m s = (Ret (Inl e), s')" "r = Ret (Inl e)"
    | (throw) e where "m s = (Thrown e, s')" "r = Thrown e"
    | (go) x s1 where "m s = (Ret (Inr x), s1)" "f x s1 = (r, s')"
  using assms unfolding k_bind_def by (auto split: prod.splits kout.splits sum.splits)

lemma k_bind_Inr: "k_bind m f s = (Ret (Inr y), s') \<longleftrightarrow> (\<exists>x s1. m s = (Ret (Inr x), s1) \<and> f x s1 = (Ret (Inr y), s'))"
  unfolding k_bind_def by (auto split: prod.splits kout.splits sum.splits)

lemma k_res_Inr: "k_res r s = (Ret (Inr y), s') \<longleftrightarrow> r = Inr y \<and> s' = s"
  by (auto simp: k_res_def)

lemma k_require_Inr: "k_require c e s = (Ret (Inr y), s') \<longleftrightarrow> c \<and> s' = s"
  by (auto simp: k_require_def k_res_def guard_Inr_iff)

lemma k_find_Inr: "k_find g rs ident s = (Ret (Inr r), s') \<longleftrightarrow> kcf_Find g rs ident = Some r \<and> s' = s"
  by (auto simp: k_find_def k_res_def split: option.splits)

lemma Guard_Inr: "Guard m s = (Inr x, s') \<longleftrightarrow> m s = (Ret (Inr x), s')"
  by (auto simp: Guard_def split: prod.splits kout.splits exn.splits)

lemma k_call_Inr: "k_call f s = (Ret (Inr x), s') \<longleftrightarrow> f (ki_time s) = Ret (Inr x) \<and> s' = s\<lparr>ki_time := Suc (ki_time s)\<rparr>"
  by (auto simp: k_call_def)

lemmas k_inversion = k_bind_Inr k_res_Inr k_require_Inr k_find_Inr k_call_Inr

lemma Kcf_Type_Inr:
  "Kcf_Type w runtime ident sz s = (Ret (Inr d), s') \<Longrightarrow>
    ident \<noteq> 0 \<and> td_type_id d = ident \<and> td_payload_size d = sz \<and> kf_valid w d
    \<and> kf_GetType w (ki_time s) runtime ident = Ret (Inr d)"
  by (auto simp: Kcf_Type_def k_inversion split: if_splits)

section \<open>Effects\<close>

text \<open>
  A computation that ends with an effect: when something was logged, or a value returned, it went
  past every quiet step before, each of which succeeded.
\<close>

definition reaches :: "'a kout \<Rightarrow> kcf_io \<Rightarrow> kcf_io \<Rightarrow> bool" where
  "reaches r s s' \<longleftrightarrow> ki_log s' \<noteq> ki_log s \<or> (\<exists>y. r = Ret (Inr y))"

lemma quietD: "quiet m \<Longrightarrow> m s = (r, s') \<Longrightarrow> ki_log s' = ki_log s"
  unfolding quiet_def by (metis snd_conv)

lemma reach_bind:
  assumes "k_bind m f s = (r, s')" and "reaches r s s'" and "quiet m"
  obtains x s1 where "m s = (Ret (Inr x), s1)" "ki_log s1 = ki_log s" "f x s1 = (r, s')" "reaches r s1 s'"
  using assms(1)
proof (cases rule: k_bind_cases)
  case (go x s1)
  with assms that quietD[OF assms(3) go(1)] show ?thesis by (simp add: reaches_def)
qed (use assms quietD[OF assms(3)] in \<open>auto simp: reaches_def\<close>)

text \<open>
  What may be written: the encoding of the value over the bytes read just before, with a validated
  descriptor of the type the record names, for a writable record that was validated after the read.
\<close>

definition parameter_write :: "kcf \<Rightarrow> kcf_state \<Rightarrow> endpoint_identity \<Rightarrow> data_snapshot \<Rightarrow> kcf_effect \<Rightarrow> bool" where
  "parameter_write w b ident v e \<longleftrightarrow>
     (\<exists>r d seed bytes t s1 s2. kcf_Find pi_identity (kb_parameters b) ident = Some r
        \<and> pi_writable (kc_model r) \<and> pi_type_id (kc_model r) \<noteq> 0
        \<and> kf_valid w d \<and> td_type_id d = pi_type_id (kc_model r)
        \<and> td_payload_size d = unat (pi_payload_size (kc_model r))
        \<and> kf_ParameterGet w t (pi_name (kc_model r)) d = Ret (Inr seed)
        \<and> Encode (kf_valid w) d v (Some seed) = Inr bytes
        \<and> ki_time s1 = Suc t \<and> ValidateParameterRecord w r s1 = (Ret (Inr ()), s2)
        \<and> e = EffSet (pi_name (kc_model r)) d bytes)"

lemma Guard_reaches:
  assumes "Guard m s = (r, s')" and "ki_log s' \<noteq> ki_log s \<or> (\<exists>y. r = Inr y)"
  obtains r0 where "m s = (r0, s')" "reaches r0 s s'" "r0 = Ret r \<or> (\<forall>y. r \<noteq> Inr y)"
proof -
  obtain r0 s0 where m: "m s = (r0, s0)" by (cases "m s")
  with assms(1) have "s0 = s'" "r0 = Ret r \<or> (\<forall>y. r \<noteq> Inr y)"
    by (auto simp: Guard_def fail_def split: kout.splits exn.splits)
  with m assms(2) that show ?thesis by (auto simp: reaches_def)
qed

lemma writable_checks_Inr: "writable_checks m s = (Ret (Inr u), s') \<longleftrightarrow> pi_type_id m \<noteq> 0 \<and> pi_writable m \<and> s' = s"
  by (auto simp: writable_checks_def k_inversion)

lemma reach_bindE:
  assumes "k_bind m f s = (r, s')" and "reaches r s s'" and "quiet m"
  shows "\<exists>x s1. m s = (Ret (Inr x), s1) \<and> ki_log s1 = ki_log s \<and> f x s1 = (r, s') \<and> reaches r s1 s'"
  by (rule reach_bind[OF assms]) blast

lemma SetParameter_reaches:
  assumes "Kcf_SetParameter_id w b ident v s = (r, s')" and "ki_log s' \<noteq> ki_log s \<or> (\<exists>y. r = Inr y)"
  shows "\<exists>e. ki_log s' = ki_log s @ [e] \<and> parameter_write w b ident v e"
  using assms unfolding Kcf_SetParameter_id_def Let_def
  apply -
  apply (erule (1) Guard_reaches)
  apply (drule (1) reach_bindE, intro quiet_intros, elim exE conjE)+
  apply (simp add: k_inversion writable_checks_Inr k_effect_def)
  apply (elim conjE)
  apply (drule Kcf_Type_Inr)
  subgoal for rec d s1 b0 s2 seed bytes s3
    unfolding parameter_write_def
    apply (intro exI[of _ "EffSet (pi_name (kc_model rec)) d bytes"] conjI)
     apply force
    apply (rule exI[of _ rec], rule exI[of _ d], rule exI[of _ seed], rule exI[of _ bytes], rule exI[of _ "Suc (ki_time s2)"],
        rule exI[of _ "s2\<lparr>ki_time := Suc (Suc (ki_time s2))\<rparr>"], rule exI[of _ s3])
    apply simp
    done
  done

text \<open>
  What may be sent: the encoded request, by a client that opened at step \<open>t\<close>, to a service that was validated
  from step \<open>t + 1\<close> on, right after, up to the step of the call, which is the last one before \<open>T\<close>.
\<close>

definition service_request :: "kcf \<Rightarrow> kcf_state \<Rightarrow> endpoint_identity \<Rightarrow> data_snapshot \<Rightarrow> u32 \<Rightarrow> u32 \<Rightarrow> kcf_effect \<Rightarrow> nat \<Rightarrow> bool" where
  "service_request w b ident request timeout retries e T \<longleftrightarrow>
     (\<exists>r req res bytes t s1 s2. kcf_Find si_identity (kb_services b) ident = Some r
        \<and> kf_valid w req \<and> td_type_id req = si_request_type_id (kc_model r)
        \<and> kf_valid w res \<and> td_type_id res = si_response_type_id (kc_model r)
        \<and> Encode (kf_valid w) req request None = Inr bytes
        \<and> kf_ServiceOpen w t (si_port (kc_model r)) (si_service_id (kc_model r)) req res timeout retries = Ret (Inr ())
        \<and> ki_time s1 = Suc t \<and> ValidateServiceRecord w r s1 = (Ret (Inr ()), s2) \<and> T = Suc (ki_time s2)
        \<and> e = EffCall (si_port (kc_model r)) (si_service_id (kc_model r)) req res timeout retries bytes)"

lemma effect_logged:
  "k_bind (k_effect e f) (\<lambda>x. k_res (g x)) s = (r, s') \<Longrightarrow> ki_log s' = ki_log s @ [e] \<and> ki_time s' = Suc (ki_time s)"
  by (elim k_bind_cases) (auto simp: k_effect_def k_res_def)

lemma service_types_Inr:
  "service_types w r s = (Ret (Inr ts), s') \<Longrightarrow> kf_valid w (fst ts) \<and> td_type_id (fst ts) = si_request_type_id (kc_model r)
    \<and> kf_valid w (snd ts) \<and> td_type_id (snd ts) = si_response_type_id (kc_model r)"
  unfolding service_types_def Let_def by (auto simp: k_inversion dest!: Kcf_Type_Inr)

lemma CallService_reaches:
  assumes "Kcf_CallService w b ident request timeout retries s = (r, s')" and "ki_log s' \<noteq> ki_log s \<or> (\<exists>y. r = Inr y)"
  shows "\<exists>e. ki_log s' = ki_log s @ [e] \<and> service_request w b ident request timeout retries e (ki_time s')"
  using assms unfolding Kcf_CallService_def Let_def
  apply -
  apply (erule (1) Guard_reaches)
  apply (drule (1) reach_bindE, intro quiet_intros, elim exE conjE)+
  apply (drule effect_logged)
  apply (simp add: k_inversion)
  apply (drule service_types_Inr)
  subgoal for r0 rec ts s1 bytes s2 s3
    unfolding service_request_def
    apply (rule exI[of _ rec], rule exI[of _ "fst ts"], rule exI[of _ "snd ts"], rule exI[of _ bytes], rule exI[of _ "ki_time s2"],
        rule exI[of _ "s2\<lparr>ki_time := Suc (ki_time s2)\<rparr>"], rule exI[of _ s3])
    apply simp
    done
  done

lemma name_write_reaches:
  assumes "Kcf_SetParameter_name w b name t s = (r, s')" and "ki_log s' \<noteq> ki_log s \<or> (\<exists>y. r = Inr y)"
  shows "\<exists>ident v u e. Select pi_name pi_role pi_identity (kb_parameters b) name ''OWNER'' = Inr ident
      \<and> (\<exists>s0 s1. Kcf_GetParameter_id w b ident s0 = (Inr u, s1)) \<and> set_first_field t u = Inr v
      \<and> ki_log s' = ki_log s @ [e] \<and> parameter_write w b ident v e"
  using assms unfolding Kcf_SetParameter_name_def Let_def
  apply -
  apply (erule (1) Guard_reaches)
  apply (drule (1) reach_bindE, (intro quiet_intros; simp only: GetParameter_log), elim exE conjE)+
  apply (simp add: k_inversion writable_checks_Inr k_guarded_def)
  subgoal for ident rec s1 u v
    using SetParameter_reaches[of w b ident v "snd (Kcf_GetParameter_id w b ident s1)" "fst (Kcf_SetParameter_id w b ident v (snd (Kcf_GetParameter_id w b ident s1)))" s']
    apply (simp add: reaches_def prod_eq_iff)
    apply (rule exI[of _ v], rule exI[of _ u])
    apply (auto intro: exI[of _ s1])
    done
  done

section \<open>Error codes\<close>

text \<open>
  What the framework documents of itself: a call returns 0 or a negative code or throws, and a
  descriptor that passes its validation describes a layout inside the payload.
\<close>

definition kout_ok :: "'a kout \<Rightarrow> bool" where
  "kout_ok r \<longleftrightarrow> (case r of Ret r \<Rightarrow> code_ok r | Thrown e \<Rightarrow> True)"

definition framework_ok :: "kcf \<Rightarrow> bool" where
  "framework_ok w \<longleftrightarrow> (\<forall>d. kf_valid w d \<longrightarrow> layout_ok d)
     \<and> (\<forall>t. kout_ok (kf_ListSupervisors w t)) \<and> (\<forall>t. kout_ok (kf_ListRuntimes w t))
     \<and> (\<forall>t r. kout_ok (kf_ListEndpoints w t r)) \<and> (\<forall>t r. kout_ok (kf_ListServices w t r))
     \<and> (\<forall>t r i. kout_ok (kf_GetType w t r i)) \<and> (\<forall>t p. kout_ok (kf_pidfd_open w t p)) \<and> (\<forall>t p. kout_ok (kf_poll_exit w t p))
     \<and> (\<forall>t n d. kout_ok (kf_TopicOpen w t n d)) \<and> (\<forall>t n d. kout_ok (kf_TopicRead w t n d))
     \<and> (\<forall>t n d. kout_ok (kf_ParameterOpen w t n d)) \<and> (\<forall>t n d. kout_ok (kf_ParameterGet w t n d))
     \<and> (\<forall>t n d p. kout_ok (kf_ParameterSet w t n d p))
     \<and> (\<forall>t a b c d e f. kout_ok (kf_ServiceOpen w t a b c d e f)) \<and> (\<forall>t a b p. kout_ok (kf_ServiceCall w t a b p))"

named_theorems k_ok_intros \<open>rules that establish \<open>k_ok\<close>\<close>

definition k_ok :: "'a kio \<Rightarrow> bool" where
  "k_ok m \<longleftrightarrow> (\<forall>s. kout_ok (fst (m s)))"

lemma kout_ok_simps [simp]: "kout_ok (Ret r) = code_ok r" "kout_ok (Thrown e)"
  by (simp_all add: kout_ok_def)

lemma k_ok_res [k_ok_intros]: "code_ok r \<Longrightarrow> k_ok (k_res r)"
  by (simp add: k_ok_def k_res_def)

lemma k_ok_call [k_ok_intros]: "(\<And>t. kout_ok (f t)) \<Longrightarrow> k_ok (k_call f)" "(\<And>t. kout_ok (f t)) \<Longrightarrow> k_ok (k_effect e f)"
  by (simp_all add: k_ok_def k_call_def k_effect_def)

lemma k_ok_bind_dep:
  assumes "k_ok m" and "\<And>x s s'. m s = (Ret (Inr x), s') \<Longrightarrow> k_ok (f x)"
  shows "k_ok (k_bind m f)"
  unfolding k_ok_def
proof
  fix s
  obtain r s' where e: "k_bind m f s = (r, s')" by (cases "k_bind m f s")
  have m: "kout_ok (fst (m s))" using assms(1) by (simp add: k_ok_def)
  from e show "kout_ok (fst (k_bind m f s))"
  proof (cases rule: k_bind_cases)
    case (go x s1)
    with assms(2) have "kout_ok (fst (f x s1))" unfolding k_ok_def by blast
    with go e show ?thesis by simp
  qed (use m e in \<open>auto simp: code_ok_def\<close>)
qed

lemma k_ok_bind [k_ok_intros]: "k_ok m \<Longrightarrow> (\<And>x. k_ok (f x)) \<Longrightarrow> k_ok (k_bind m f)"
  by (rule k_ok_bind_dep)

lemma k_ok_try [k_ok_intros]: "k_ok m \<Longrightarrow> k_ok (k_try m)"
  unfolding k_ok_def k_try_def by (auto split: prod.split kout.split sum.split)

lemma k_ok_map_error [k_ok_intros]: "k_ok m \<Longrightarrow> k_ok (k_map_error DiscoveryError m)"
  unfolding k_ok_def k_map_error_def DiscoveryError_def
  by (auto split: prod.split kout.split sum.split) (metis fst_conv kout_ok_simps(1))

lemma k_ok_fold [k_ok_intros]: "(\<And>x b. k_ok (f x b)) \<Longrightarrow> k_ok (k_fold f xs b)"
proof (induction xs arbitrary: b)
  case (Cons x xs)
  show ?case by (simp, rule k_ok_bind) (rule Cons)+
qed (simp add: k_ok_res)

lemma Guard_ok: "k_ok m \<Longrightarrow> code_ok (fst (Guard m s))"
  unfolding k_ok_def Guard_def by (auto split: prod.split kout.split exn.split) (metis fst_conv kout_ok_simps(1))

lemma k_ok_guarded [k_ok_intros]: "(\<And>s. code_ok (fst (f s))) \<Longrightarrow> k_ok (k_guarded f)"
  by (simp add: k_ok_def k_guarded_def)

lemma k_ok_checks [k_ok_intros]: "c < 0 \<Longrightarrow> k_ok (k_require b c)" "k_ok (k_find g rs ident)"
  by (simp_all add: k_ok_def k_require_def k_find_def k_res_def guard_def split: option.split)

lemma Select_code: "code_ok (Select name_of role_of identity_of records name preferred)"
  by (simp add: Select_eq split: list.split)

lemma k_ok_select:
  assumes "\<And>ident r. kcf_Find identity_of records ident = Some r \<Longrightarrow> k_ok (f ident r)"
  shows "k_ok (k_bind (k_res (Select name_of role_of identity_of records name preferred)) (\<lambda>ident.
    k_bind (k_deref identity_of records ident) (f ident)))"
proof (rule k_ok_bind_dep)
  fix ident s s' assume "k_res (Select name_of role_of identity_of records name preferred) s = (Ret (Inr ident), s')"
  then obtain r where "kcf_Find identity_of records ident = Some r" using Select_deref by (fastforce simp: k_res_Inr)
  with assms show "k_ok (k_bind (k_deref identity_of records ident) (f ident))"
    by (auto simp: k_deref_def intro!: k_ok_bind_dep k_ok_res simp: k_res_Inr)
qed (rule k_ok_res, rule Select_code)

lemma framework_calls:
  assumes "framework_ok w"
  shows "kout_ok (kf_ListSupervisors w t)" "kout_ok (kf_ListRuntimes w t)" "kout_ok (kf_ListEndpoints w t r)"
    "kout_ok (kf_ListServices w t r)" "kout_ok (kf_GetType w t r i)" "kout_ok (kf_pidfd_open w t p)"
    "kout_ok (kf_poll_exit w t p)" "kout_ok (kf_TopicOpen w t n d)" "kout_ok (kf_TopicRead w t n d)"
    "kout_ok (kf_ParameterOpen w t n d)" "kout_ok (kf_ParameterGet w t n d)" "kout_ok (kf_ParameterSet w t n d q)"
    "kout_ok (kf_ServiceOpen w t po si rq rs to re)" "kout_ok (kf_ServiceCall w t po si q)"
  using assms by (simp_all add: framework_ok_def)

lemma codec_codes:
  assumes "framework_ok w"
  shows "code_ok (Decode (kf_valid w) d p)" "code_ok (Encode (kf_valid w) d v seed)"
  using assms Decode_defined Encode_defined negative_codec by (fastforce simp: code_ok_iff framework_ok_def)+

section \<open>Codes of the operations\<close>

lemma k_ok_validate:
  assumes "framework_ok w"
  shows "k_ok (ValidateTopic w r)" "k_ok (ValidateParameterRecord w p)" "k_ok (ValidateServiceRecord w v)"
proof -
  note c = framework_calls[OF assms]
  have "k_ok (ValidateEndpoint w ident name t sz runtime kind role)" for ident name t sz runtime kind role
    unfolding ValidateEndpoint_def by (auto simp: guard_def c split: option.split intro!: k_ok_intros)
  then show "k_ok (ValidateTopic w r)" "k_ok (ValidateParameterRecord w p)"
    by (auto simp: ValidateTopic_def ValidateParameterRecord_def Let_def intro!: k_ok_intros)
  show "k_ok (ValidateServiceRecord w v)"
    unfolding ValidateServiceRecord_def Let_def by (auto simp: guard_def c split: option.split intro!: k_ok_intros)
qed

lemma k_ok_type: "framework_ok w \<Longrightarrow> k_ok (Kcf_Type w runtime ident sz)"
  by (auto simp: Kcf_Type_def framework_calls intro!: k_ok_intros)

lemmas k_ok_steps = k_ok_validate k_ok_type framework_calls codec_codes

lemma k_ok_scan: assumes "framework_ok w" shows "k_ok (scan w)"
proof -
  have "k_ok (scan_endpoint w runtime e p b)" for runtime e p b
    by (cases "ke_kind p") (auto simp: scan_endpoint_def k_ok_type[OF assms] intro!: k_ok_intros)
  then have "k_ok (case es of None \<Rightarrow> k_res (Inr b) | Some es \<Rightarrow> k_fold (scan_endpoint w runtime e) es b)" for es runtime e b
    by (cases es) (auto intro!: k_ok_intros)
  then have "k_ok (scan_runtime w sups runtime b)" for sups runtime b
    by (auto simp: scan_runtime_def Let_def framework_calls[OF assms] intro!: k_ok_intros)
  then show ?thesis by (auto simp: scan_def framework_calls[OF assms] intro!: k_ok_intros)
qed

section \<open>Discovery\<close>

text \<open>What a returned value satisfies.\<close>

definition k_gives :: "'a kio \<Rightarrow> ('a \<Rightarrow> bool) \<Rightarrow> bool" where
  "k_gives m Q \<longleftrightarrow> (\<forall>s x s'. m s = (Ret (Inr x), s') \<longrightarrow> Q x)"

lemma gives_bind: "(\<And>x. k_gives (f x) Q) \<Longrightarrow> k_gives (k_bind m f) Q"
  unfolding k_gives_def k_bind_Inr by blast

lemma gives_bind_dep: "k_gives m P \<Longrightarrow> (\<And>x. P x \<Longrightarrow> k_gives (f x) Q) \<Longrightarrow> k_gives (k_bind m f) Q"
  unfolding k_gives_def k_bind_Inr by blast

lemma gives_res: "(\<And>x. r = Inr x \<Longrightarrow> Q x) \<Longrightarrow> k_gives (k_res r) Q"
  by (simp add: k_gives_def k_res_def)

lemma gives_fold:
  assumes "Q b" and "\<And>x b. Q b \<Longrightarrow> k_gives (f x b) Q"
  shows "k_gives (k_fold f xs b) Q"
  using assms(1)
proof (induction xs arbitrary: b)
  case (Cons x xs)
  then show ?case by (auto intro!: gives_bind_dep[where P = Q] assms(2))
qed (auto intro: gives_res)

text \<open>Every record found belongs to an element found with it, in the role it has.\<close>

definition has_element :: "kcf_state \<Rightarrow> endpoint_identity \<Rightarrow> kcf_runtime \<Rightarrow> bool" where
  "has_element b ident runtime \<longleftrightarrow> same_runtime ident runtime \<and> (\<exists>e \<in> set (kb_elements b). el_identity e = ei_runtime ident)"

definition side_ok :: "topic_info \<Rightarrow> bool" where
  "side_ok m \<longleftrightarrow> (if ti_role m = ''PUBLISHER'' then ti_subscribers m = [] else ti_publishers m = [])"

definition scan_inv :: "kcf_state \<Rightarrow> bool" where
  "scan_inv b \<longleftrightarrow> kb_prepared b = None
     \<and> (\<forall>r \<in> set (kb_topics b). has_element b (ti_identity (kc_model r)) (kc_runtime r) \<and> side_ok (kc_model r))
     \<and> (\<forall>r \<in> set (kb_parameters b). has_element b (pi_identity (kc_model r)) (kc_runtime r))
     \<and> (\<forall>r \<in> set (kb_services b). has_element b (si_identity (kc_model r)) (kc_runtime r))"

lemma assign_supervisors_identity [simp]: "el_identity (assign_supervisors sups e) = el_identity e"
proof -
  have "el_identity (fold (assign_member s) ms e) = el_identity e" for s ms e
    by (induction ms arbitrary: e) (auto simp: assign_member_def)
  then show ?thesis unfolding assign_supervisors_def by (induction sups arbitrary: e) auto
qed

definition member_of :: "kcf_runtime \<Rightarrow> element_info \<Rightarrow> kcf_state \<Rightarrow> bool" where
  "member_of runtime e b \<longleftrightarrow> scan_inv b \<and> e \<in> set (kb_elements b) \<and> el_identity e = runtime_identity_of runtime"

lemma has_element_new:
  "e \<in> set (kb_elements b) \<Longrightarrow> el_identity e = runtime_identity_of runtime \<Longrightarrow> ei_runtime ident = el_identity e \<Longrightarrow>
    has_element b ident runtime"
  by (auto simp: has_element_def same_runtime_def runtime_identity_of_def)

lemma scan_endpoint_inv:
  assumes "member_of runtime e b"
  shows "k_gives (scan_endpoint w runtime e p b) (member_of runtime e)"
proof (cases "ke_kind p")
  case KK_TOPIC
  with assms show ?thesis
    by (auto simp: scan_endpoint_def member_of_def scan_inv_def has_element_def scan_topic_def Let_def side_ok_def
        same_runtime_def runtime_identity_of_def intro!: gives_res)
next
  case KK_PARAMETER
  with assms show ?thesis
    by (auto simp: scan_endpoint_def member_of_def scan_inv_def has_element_def scan_parameter_def
        same_runtime_def runtime_identity_of_def intro!: gives_bind gives_res)
qed (use assms in \<open>auto simp: scan_endpoint_def intro!: gives_res\<close>)

lemma scan_runtime_inv:
  assumes "scan_inv b"
  shows "k_gives (scan_runtime w sups runtime b) scan_inv"
proof -
  let ?e = "assign_supervisors sups (runtime_element runtime)"
  let ?b = "b\<lparr>kb_elements := kb_elements b @ [?e]\<rparr>"
  have e: "el_identity ?e = runtime_identity_of runtime" by (simp add: runtime_element_def Let_def)
  have start: "member_of runtime ?e ?b" using assms e by (auto simp: member_of_def scan_inv_def has_element_def)
  have services: "scan_inv (b'\<lparr>kb_services := kb_services b' @ map (\<lambda>v. \<lparr>kc_model = scan_service ?e v, kc_runtime = runtime\<rparr>) vs\<rparr>)"
    if "member_of runtime ?e b'" for b' vs
  proof -
    have "has_element b' \<lparr>ei_runtime = el_identity ?e, ei_registration_id = n\<rparr> runtime" for n
      using that by (intro has_element_new) (auto simp: member_of_def)
    moreover have "has_element (b'\<lparr>kb_services := x\<rparr>) i rt = has_element b' i rt" for x i rt
      by (simp add: has_element_def)
    ultimately show ?thesis using that by (auto simp: member_of_def scan_inv_def scan_service_def)
  qed
  have "k_gives (case es of None \<Rightarrow> k_res (Inr ?b) | Some es \<Rightarrow> k_fold (scan_endpoint w runtime ?e) es ?b) (member_of runtime ?e)" for es
    using start by (cases es) (auto intro!: gives_res gives_fold scan_endpoint_inv)
  then show ?thesis
    unfolding scan_runtime_def Let_def
    by (intro gives_bind gives_bind_dep[where P = "member_of runtime ?e"] gives_res)
      (auto simp: services member_of_def split: option.splits)
qed

lemma rename_topic_spec:
  "ti_identity (kc_model (rename_topic es r)) = ti_identity (kc_model r)
   \<and> ti_role (kc_model (rename_topic es r)) = ti_role (kc_model r) \<and> kc_runtime (rename_topic es r) = kc_runtime r
   \<and> (side_ok (kc_model r) \<longrightarrow> side_ok (kc_model (rename_topic es r))
      \<and> ((\<exists>e \<in> set es. el_identity e = ei_runtime (ti_identity (kc_model r))) \<longrightarrow>
         (\<exists>e \<in> set es. el_identity e = ei_runtime (ti_identity (kc_model r))
            \<and> ti_publishers (kc_model (rename_topic es r)) @ ti_subscribers (kc_model (rename_topic es r)) = [el_name e])))"
proof (induction es rule: rev_induct)
  case (snoc e es)
  show ?case
  proof (cases "el_identity e = ei_runtime (ti_identity (kc_model r))")
    case True
    with snoc show ?thesis by (auto simp: rename_topic_def side_ok_def runtime_identity_eq)
  next
    case False
    with snoc show ?thesis by (auto simp: rename_topic_def runtime_identity_eq)
  qed
qed (simp add: rename_topic_def)

lemma assign_supervisors_spec:
  "(el_supervisor (assign_supervisors sups e), el_application_name (assign_supervisors sups e)) =
      (el_supervisor e, el_application_name e)
   \<or> (\<exists>s \<in> set sups. el_supervisor (assign_supervisors sups e) = supervisor_identity s
        \<and> el_application_name (assign_supervisors sups e) = ks_application_name s)"
proof (induction sups rule: rev_induct)
  case (snoc s sups)
  let ?e = "assign_supervisors sups e"
  have "(el_supervisor (fold (assign_member s) ms x), el_application_name (fold (assign_member s) ms x)) =
      (el_supervisor x, el_application_name x)
   \<or> el_supervisor (fold (assign_member s) ms x) = supervisor_identity s
        \<and> el_application_name (fold (assign_member s) ms x) = ks_application_name s" for ms x
    by (induction ms rule: rev_induct) (auto simp: assign_member_def)
  from this[of "ks_elements s" ?e] snoc show ?case by (auto simp: assign_supervisors_def)
qed (simp add: assign_supervisors_def)

text \<open>What the rest of the tool sees of a discovered system.\<close>

definition discovered :: "(runtime_identity \<Rightarrow> bool) \<Rightarrow> kcf_state \<Rightarrow> bool" where
  "discovered live b \<longleftrightarrow> kb_prepared b = None
     \<and> kb_state b = (if kb_applications b \<noteq> [] \<or> kb_elements b \<noteq> [] then CONNECTED else DISCONNECTED)
     \<and> (\<forall>e \<in> set (kb_elements b). live (el_identity e)
          \<and> (el_supervisor e = runtime_identity0
             \<or> (\<exists>a \<in> set (kb_applications b). ai_supervisor a = el_supervisor e \<and> ai_name a = el_application_name e)))
     \<and> (\<forall>r \<in> set (kb_topics b). same_runtime (ti_identity (kc_model r)) (kc_runtime r)
          \<and> (\<exists>e \<in> set (kb_elements b). el_identity e = ei_runtime (ti_identity (kc_model r))
               \<and> ti_publishers (kc_model r) @ ti_subscribers (kc_model r) = [el_name e]))
     \<and> (\<forall>r \<in> set (kb_parameters b). has_element b (pi_identity (kc_model r)) (kc_runtime r))
     \<and> (\<forall>r \<in> set (kb_services b). has_element b (si_identity (kc_model r)) (kc_runtime r))"

lemma rename_element_identity [simp]: "el_identity (rename_element sups e) = el_identity e"
  by (simp add: rename_element_def)

lemma settle_discovered:
  assumes "scan_inv b"
  shows "discovered (alive_in live) (settle live sups b)"
proof -
  let ?es = "map (rename_element sups) (filter (\<lambda>e. alive_in live (el_identity e)) (kb_elements b))"
  let ?b = "settle live sups b"
  have es: "kb_elements ?b = ?es" by (simp add: settle_def Let_def)
  have kept: "\<exists>e \<in> set ?es. el_identity e = i" if "\<exists>e \<in> set (kb_elements b). el_identity e = i" "alive_in live i" for i
    using that by auto
  have has: "has_element ?b i rt" if "has_element b i rt" "alive_in live (ei_runtime i)" for i rt
    using that kept unfolding has_element_def es by simp
  have "el_supervisor (rename_element sups e) = runtime_identity0
      \<or> (\<exists>a \<in> set (kb_applications ?b). ai_supervisor a = el_supervisor (rename_element sups e)
           \<and> ai_name a = el_application_name (rename_element sups e))" for e
    using assign_supervisors_spec[of sups "e\<lparr>el_name := el_executable e, el_supervisor := runtime_identity0,
        el_application_name := default_application (el_mode e)\<rparr>"]
    by (auto simp: settle_def Let_def rename_element_def supervisor_application_def)
  then have elements: "\<forall>e \<in> set (kb_elements ?b). alive_in live (el_identity e)
      \<and> (el_supervisor e = runtime_identity0
         \<or> (\<exists>a \<in> set (kb_applications ?b). ai_supervisor a = el_supervisor e \<and> ai_name a = el_application_name e))"
    unfolding es by auto
  have topics: "same_runtime (ti_identity (kc_model r)) (kc_runtime r)
      \<and> (\<exists>e \<in> set ?es. el_identity e = ei_runtime (ti_identity (kc_model r))
           \<and> ti_publishers (kc_model r) @ ti_subscribers (kc_model r) = [el_name e])"
    if r: "r \<in> set (kb_topics ?b)" for r
  proof -
    from r obtain r0 where r0: "r0 \<in> set (kb_topics b)" "alive_in live (ei_runtime (ti_identity (kc_model r0)))"
      "r = rename_topic ?es r0" by (auto simp: settle_def Let_def prune_def)
    then have "has_element b (ti_identity (kc_model r0)) (kc_runtime r0)" "side_ok (kc_model r0)"
      using assms by (auto simp: scan_inv_def)
    with r0 kept rename_topic_spec[of ?es r0] show ?thesis by (auto simp: has_element_def)
  qed
  show ?thesis
    unfolding discovered_def
    using assms elements topics has
    by (auto simp: es scan_inv_def) (auto simp: settle_def Let_def prune_def scan_inv_def)
qed

text \<open>The scan lists an element for every runtime, in order.\<close>

lemma scan_runtime_elements:
  "k_gives (scan_runtime w sups runtime b) (\<lambda>b'. map el_identity (kb_elements b') = map el_identity (kb_elements b) @ [runtime_identity_of runtime])"
proof -
  let ?e = "assign_supervisors sups (runtime_element runtime)"
  let ?b = "b\<lparr>kb_elements := kb_elements b @ [?e]\<rparr>"
  have e: "el_identity ?e = runtime_identity_of runtime" by (simp add: runtime_element_def Let_def)
  have p: "k_gives (scan_endpoint w runtime ?e p b') (\<lambda>x. kb_elements x = kb_elements ?b)" if "kb_elements b' = kb_elements ?b" for p b'
    using that by (cases "ke_kind p") (auto simp: scan_endpoint_def intro!: gives_bind gives_res)
  have "k_gives (k_fold (scan_endpoint w runtime ?e) es ?b) (\<lambda>x. kb_elements x = kb_elements ?b)" for es
    by (rule gives_fold[OF refl p])
  then have es: "k_gives (case es of None \<Rightarrow> k_res (Inr ?b) | Some es \<Rightarrow> k_fold (scan_endpoint w runtime ?e) es ?b)
      (\<lambda>x. kb_elements x = kb_elements ?b)" for es
    by (cases es) (simp_all add: k_gives_def k_res_def)
  show ?thesis
    unfolding scan_runtime_def Let_def
    by (rule gives_bind, rule gives_bind_dep, rule es, rule gives_bind, rule gives_res)
      (use e in \<open>auto split: option.splits\<close>)
qed

lemma scan_elements:
  "k_gives (k_fold (scan_runtime w sups) rts b)
     (\<lambda>b'. map el_identity (kb_elements b') = map el_identity (kb_elements b) @ map runtime_identity_of rts)"
proof (induction rts arbitrary: b)
  case (Cons r rts)
  have "k_gives (k_fold (scan_runtime w sups) rts b1)
      (\<lambda>b'. map el_identity (kb_elements b') = map el_identity (kb_elements b) @ map runtime_identity_of (r # rts))"
    if "map el_identity (kb_elements b1) = map el_identity (kb_elements b) @ [runtime_identity_of r]" for b1
    using Cons[of b1] that by simp
  then show ?case unfolding k_fold.simps by (rule gives_bind_dep[OF scan_runtime_elements])
qed (simp add: k_gives_def k_res_def)

lemma settle_elements:
  "map el_identity (kb_elements (settle live sups b)) = filter (alive_in live) (map el_identity (kb_elements b))"
  by (simp add: settle_def Let_def filter_map comp_def)

text \<open>Every call takes its step of the clock, so what comes later in the code comes later in time.\<close>

definition forward :: "'a kio \<Rightarrow> bool" where
  "forward m \<longleftrightarrow> (\<forall>s. ki_time s \<le> ki_time (snd (m s)))"

named_theorems forward_intros \<open>rules that establish \<open>forward\<close>\<close>

lemma forward_basic [forward_intros]: "forward (k_res r)" "forward (k_call f)"
  by (simp_all add: forward_def k_res_def k_call_def)

lemma forward_bind [forward_intros]: "forward m \<Longrightarrow> (\<And>x. forward (f x)) \<Longrightarrow> forward (k_bind m f)"
  unfolding forward_def k_bind_def by (auto split: prod.split kout.split sum.split) (metis le_trans snd_conv)+

lemma forward_try [forward_intros]: "forward m \<Longrightarrow> forward (k_try m)"
  unfolding forward_def k_try_def by (auto split: prod.split kout.split sum.split) (metis snd_conv)+

lemma forward_fold [forward_intros]: "(\<And>x b. forward (f x b)) \<Longrightarrow> forward (k_fold f xs b)"
proof (induction xs arbitrary: b)
  case (Cons x xs)
  show ?case unfolding k_fold.simps by (rule forward_bind) (rule Cons)+
qed (simp add: forward_basic)

lemma forward_scan_runtime: "forward (scan_runtime w sups runtime b)"
proof -
  have "forward (scan_endpoint w runtime e p b)" for e p b
    by (cases "ke_kind p") (auto simp: scan_endpoint_def Kcf_Type_def intro!: forward_intros)
  then have "forward (case es of None \<Rightarrow> k_res (Inr b) | Some es \<Rightarrow> k_fold (scan_endpoint w runtime e) es b)" for es e b
    by (cases es) (auto intro: forward_intros)
  then show ?thesis unfolding scan_runtime_def Let_def by (intro forward_intros)
qed

text \<open>
  What a successful scan from step \<open>t0\<close> to \<open>t2\<close> gives: the runtimes of the first list that are in the second one,
  which is made after every call of the scan but the last, the list of the supervisors.
\<close>

definition refreshed :: "kcf \<Rightarrow> nat \<Rightarrow> nat \<Rightarrow> kcf_state \<Rightarrow> bool" where
  "refreshed w t0 t2 b \<longleftrightarrow>
     (\<exists>runtimes live current t1. t0 + 2 \<le> t1 \<and> t2 = t1 + 2
        \<and> kf_ListRuntimes w (t0 + 1) = Ret (Inr runtimes) \<and> kf_ListRuntimes w t1 = Ret (Inr live)
        \<and> kf_ListSupervisors w (t1 + 1) = Ret (Inr current)
        \<and> map el_identity (kb_elements b) = filter (alive_in live) (map runtime_identity_of runtimes)
        \<and> kb_applications b = map supervisor_application current \<and> discovered (alive_in live) b)"

lemma scan_refreshed:
  assumes "scan w s = (Ret (Inr b), s')"
  shows "refreshed w (ki_time s) (ki_time s') b"
proof -
  let ?b = "\<lambda>sups. kcf_state0\<lparr>kb_applications := map supervisor_application sups\<rparr>"
  from assms obtain sups rts b0 live cur s1 s2 where
    r: "kf_ListRuntimes w (ki_time s + 1) = Ret (Inr rts)"
    and f: "k_fold (scan_runtime w sups) rts (?b sups) s1 = (Ret (Inr b0), s2)" and t: "ki_time s1 = ki_time s + 2"
    and l: "kf_ListRuntimes w (ki_time s2) = Ret (Inr live)" and c: "kf_ListSupervisors w (ki_time s2 + 1) = Ret (Inr cur)"
    and b: "b = settle live cur b0" and t': "ki_time s' = ki_time s2 + 2"
    unfolding scan_def k_inversion by auto
  have "k_gives (k_fold (scan_runtime w sups) rts (?b sups)) scan_inv"
    by (rule gives_fold) (auto simp: scan_inv_def kcf_state0_def intro: scan_runtime_inv)
  with f have "scan_inv b0" unfolding k_gives_def by blast
  then have d: "discovered (alive_in live) b" unfolding b by (rule settle_discovered)
  have "map el_identity (kb_elements b0) = map runtime_identity_of rts"
    using f scan_elements[of w sups rts "?b sups"] by (auto simp: k_gives_def kcf_state0_def)
  then have e: "map el_identity (kb_elements b) = filter (alive_in live) (map runtime_identity_of rts)"
    unfolding b settle_elements by simp
  have "forward (k_fold (scan_runtime w sups) rts (?b sups))" by (intro forward_intros forward_scan_runtime)
  with f have later: "ki_time s1 \<le> ki_time s2" unfolding forward_def by (metis snd_conv)
  have a: "kb_applications b = map supervisor_application cur" by (simp add: b settle_def Let_def)
  from later r l c t t' d e a show ?thesis unfolding refreshed_def by metis
qed

lemma log_case: "ki_log (snd (snd (case x of Inl e \<Rightarrow> (f e, b, z) | Inr m \<Rightarrow> (g m, h m, z)))) = ki_log z"
  by (cases x) simp_all

lemma id_codes:
  assumes "framework_ok w"
  shows "code_ok (fst (Kcf_ReadTopicLatest_id w b ident s))" "code_ok (fst (Kcf_GetParameter_id w b ident s))"
    "code_ok (fst (Kcf_ValidateParameter w b ident v s))" "code_ok (fst (Kcf_SetParameter_id w b ident v s))"
    "code_ok (fst (Kcf_ValidateService w b ident v s))" "code_ok (fst (Kcf_CallService w b ident v timeout retries s))"
    "code_ok (fst (Kcf_GetTypeTemplate w b rt type s))"
  unfolding Kcf_ReadTopicLatest_id_def Kcf_GetParameter_id_def Kcf_ValidateParameter_def Kcf_SetParameter_id_def
    Kcf_ValidateService_def Kcf_CallService_def Kcf_GetTypeTemplate_def service_types_def writable_checks_def Let_def
  by (rule Guard_ok, auto intro!: k_ok_intros k_ok_steps assms)+

lemma name_codes:
  assumes "framework_ok w"
  shows "code_ok (fst (Kcf_GetTopicInfo b name s))" "code_ok (fst (Kcf_ReadTopicLatest_name w b name s))"
    "code_ok (fst (Kcf_GetParameter_name w b name s))"
proof -
  show "code_ok (fst (Kcf_GetTopicInfo b name s))"
    unfolding Kcf_GetTopicInfo_def by (rule Guard_ok, rule k_ok_select) (auto intro: k_ok_intros)
  show "code_ok (fst (Kcf_ReadTopicLatest_name w b name s))"
    unfolding Kcf_ReadTopicLatest_name_def
    by (rule Guard_ok) (auto intro!: k_ok_intros Select_code id_codes assms)
  have "code_ok (fst (Guard (k_bind (k_res (Select pi_name pi_role pi_identity (kb_parameters b) name ''OWNER'')) (\<lambda>ident.
        k_bind (k_deref pi_identity (kb_parameters b) ident) (\<lambda>r.
        k_bind (k_guarded (Kcf_GetParameter_id w b ident)) (\<lambda>v.
        k_res (Inr ((kc_model r)\<lparr>pi_snapshot := v, pi_type_name := ds_type_name v, pi_value := Display v\<rparr>)))))) s))"
    by (rule Guard_ok, rule k_ok_select) (auto intro!: k_ok_intros id_codes assms)
  then show "code_ok (fst (Kcf_GetParameter_name w b name s))"
    unfolding Kcf_GetParameter_name_def Let_def by (auto split: sum.split)
qed

text \<open>
  The one case in which an operation has no meaning: the text has no field to go into, although the record says
  that it can be edited as text.
\<close>

definition text_unplaced :: "kcf \<Rightarrow> kcf_state \<Rightarrow> string \<Rightarrow> kcf_io \<Rightarrow> bool" where
  "text_unplaced w b name s \<longleftrightarrow>
     (case Select pi_name pi_role pi_identity (kb_parameters b) name ''OWNER'' of
        Inl e \<Rightarrow> False
      | Inr ident \<Rightarrow> (case kcf_Find pi_identity (kb_parameters b) ident of
            None \<Rightarrow> False
          | Some r \<Rightarrow> pi_type_id (kc_model r) \<noteq> 0 \<and> pi_writable (kc_model r) \<and> pi_text_editable (kc_model r)
              \<and> (case fst (Kcf_GetParameter_id w b ident s) of Inl e \<Rightarrow> False | Inr v \<Rightarrow> ds_fields v = [])))"

lemma writable_checks_run:
  "writable_checks m s = (Ret (if pi_type_id m = 0 then fail (- ENOTSUP) else guard (pi_writable m) (- EPERM)), s)"
  by (simp add: writable_checks_def k_bind_def k_require_def k_res_def guard_def fail_def)

lemma name_write_codes:
  assumes "framework_ok w"
  shows "if text_unplaced w b name s then fst (Kcf_SetParameter_name w b name t s) = Inl Undefined
    else code_ok (fst (Kcf_SetParameter_name w b name t s))"
proof (cases "Select pi_name pi_role pi_identity (kb_parameters b) name ''OWNER''")
  case (Inl e)
  with Select_code[of pi_name pi_role pi_identity "kb_parameters b" name "''OWNER''"] show ?thesis
    by (simp add: text_unplaced_def Kcf_SetParameter_name_def Guard_def k_bind_def k_res_def code_ok_def)
next
  case (Inr ident)
  then obtain r where r: "kcf_Find pi_identity (kb_parameters b) ident = Some r" using Select_deref by fastforce
  have set: "code_ok (fst (Kcf_SetParameter_id w b ident v s1))" for v s1 by (rule id_codes[OF assms])
  have get: "code_ok (fst (Kcf_GetParameter_id w b ident s))" by (rule id_codes[OF assms])
  obtain g s1 where g: "Kcf_GetParameter_id w b ident s = (g, s1)" by (cases "Kcf_GetParameter_id w b ident s")
  note run = text_unplaced_def Kcf_SetParameter_name_def Guard_def k_bind_def k_res_def k_deref_def Inr r writable_checks_run
    k_require_def guard_def k_guarded_def Let_def g
  show ?thesis
  proof (cases "pi_type_id (kc_model r) \<noteq> 0 \<and> pi_writable (kc_model r) \<and> pi_text_editable (kc_model r)")
    case False
    then show ?thesis by (auto simp: run fail_def)
  next
    case ok: True
    show ?thesis
    proof (cases g)
      case (Inl e)
      with ok get g show ?thesis by (simp add: run code_ok_def)
    next
      case (Inr v)
      show ?thesis
      proof (cases "ds_fields v")
        case Nil
        with ok Inr show ?thesis by (simp add: run set_first_field_def)
      next
        case (Cons f fs)
        with ok Inr set show ?thesis by (simp add: run set_first_field_def)
      qed
    qed
  qed
qed

lemma session_codes:
  assumes "framework_ok w"
  shows "code_ok (fst (Kcf_Refresh w b s))" "code_ok (fst (Kcf_StartTopicEcho w b ident s))" "code_ok (fst (Kcf_ReadTopicEcho w b s))"
proof -
  note c = framework_calls[OF assms]
  have "code_ok (fst (Guard (scan w) s))" by (rule Guard_ok) (rule k_ok_scan[OF assms])
  then show "code_ok (fst (Kcf_Refresh w b s))"
    by (auto simp: Kcf_Refresh_def code_ok_def split: prod.split sum.splits)
  have "k_ok (prepare_topic w b' ident)" for b'
    unfolding prepare_topic_def Let_def by (auto intro!: k_ok_intros k_ok_steps assms)
  from Guard_ok[OF this, of "Kcf_CloseTopicRead b" s] show "code_ok (fst (Kcf_StartTopicEcho w b ident s))"
    by (cases "Guard (prepare_topic w (Kcf_CloseTopicRead b) ident) s")
      (auto simp: Kcf_StartTopicEcho_def Let_def code_ok_def split: sum.splits)
  have "k_ok (read_prepared w b)"
    by (cases "kb_prepared b") (auto simp: read_prepared_def c intro!: k_ok_intros codec_codes assms)
  then show "code_ok (fst (Kcf_ReadTopicEcho w b s))" by (simp add: Kcf_ReadTopicEcho_def Let_def Guard_ok)
qed

section \<open>Properties\<close>

text \<open>
  C35. Looking up a name: the endpoints of that name with the preferred role, or all of that name when
  none has it, and the identity of the one there is; no such endpoint is -ENOENT, several are -ENOTUNIQ.
\<close>

theorem kcf_select:
  "Select name_of role_of identity_of records name preferred =
    (let named = filter (\<lambda>r. name_of (kc_model r) = name) records;
         pref = filter (\<lambda>r. role_of (kc_model r) = preferred) named
     in case (if pref = [] then named else pref) of
          [] \<Rightarrow> fail (- ENOENT) | [r] \<Rightarrow> Inr (identity_of (kc_model r)) | _ \<Rightarrow> fail (- ENOTUNIQ))"
  by (simp add: Select_eq preferred_of_def Let_def)

text \<open>
  C31. A refresh that succeeds leaves a consistent system, whatever came and went during the scan. Its elements are
  the runtimes listed at first that are in the list made again after all per-runtime work, none lost and in order; its
  applications are those of the last call, the second list of supervisors. Every element has no supervisor or that of a listed
  application under its name, every topic, parameter and service belongs to a listed element, a topic names that
  element, and the connection state says whether there is anything. A refresh that fails leaves nothing.
\<close>

theorem kcf_refresh_consistent:
  "case Kcf_Refresh w b s of (r, b', s') \<Rightarrow>
     (case r of
        Inr u \<Rightarrow> refreshed w (ki_time s) (ki_time s') b'
      | Inl e \<Rightarrow> b' = kcf_state0\<lparr>kb_state := CONNECTION_ERROR\<rparr>)"
proof (cases "fst (Guard (scan w) s)")
  case (Inl e)
  then show ?thesis
    by (cases "Guard (scan w) s") (simp add: Kcf_Refresh_def Kcf_CloseTopicRead_def kcf_state0_def)
next
  case (Inr b')
  then obtain s' where g: "Guard (scan w) s = (Inr b', s')" by (cases "Guard (scan w) s") simp
  then have "scan w s = (Ret (Inr b'), s')" by (simp only: Guard_Inr)
  from scan_refreshed[OF this] g show ?thesis by (simp add: Kcf_Refresh_def)
qed

text \<open>
  C4. Setting a parameter writes at most once, and then the encoding of the given value over the bytes
  read just before, with a validated descriptor of the type and size the record has, to a writable
  parameter whose registration was confirmed between the read and the write. Without a write there is
  no success.
\<close>

theorem kcf_parameter_write:
  "case Kcf_SetParameter_id w b ident v s of (r, s') \<Rightarrow>
     if ki_log s' = ki_log s then r \<noteq> Inr () else \<exists>e. ki_log s' = ki_log s @ [e] \<and> parameter_write w b ident v e"
  by (cases "Kcf_SetParameter_id w b ident v s") (use SetParameter_reaches in fastforce)

text \<open>
  Setting a parameter by name and text writes at most once, to the parameter the name selects, and
  then the value read from it with the text in its first field. Without a write there is no success.
\<close>

theorem kcf_name_write:
  "case Kcf_SetParameter_name w b name t s of (r, s') \<Rightarrow>
     if ki_log s' = ki_log s then r \<noteq> Inr ()
     else \<exists>ident v u e. Select pi_name pi_role pi_identity (kb_parameters b) name ''OWNER'' = Inr ident
       \<and> (\<exists>s0 s1. Kcf_GetParameter_id w b ident s0 = (Inr u, s1)) \<and> set_first_field t u = Inr v
       \<and> ki_log s' = ki_log s @ [e] \<and> parameter_write w b ident v e"
  by (cases "Kcf_SetParameter_name w b name t s") (use name_write_reaches in fastforce)

text \<open>
  C32. A service call sends at most one request (the framework's client does the retries it was given),
  the encoding of the request with validated descriptors of the types of the record, by a client that was opened with
  them, and after the registration was confirmed once more between that opening and the call. Without a request there is no
  answer.
\<close>

theorem kcf_service_call:
  "case Kcf_CallService w b ident request timeout retries s of (r, s') \<Rightarrow>
     if ki_log s' = ki_log s then \<forall>v. r \<noteq> Inr v
     else \<exists>e. ki_log s' = ki_log s @ [e] \<and> service_request w b ident request timeout retries e (ki_time s')"
  by (cases "Kcf_CallService w b ident request timeout retries s") (use CallService_reaches in fastforce)

text \<open>
  Nothing else writes a parameter or calls a service: discovery, reads, echo sessions, templates and
  the two validations leave the system as it is.
\<close>

theorem kcf_only_reads:
  "ki_log (snd (snd (Kcf_Refresh w b s))) = ki_log s \<and> ki_log (snd (Kcf_GetTopicInfo b name s)) = ki_log s
   \<and> ki_log (snd (snd (Kcf_StartTopicEcho w b ident s))) = ki_log s \<and> ki_log (snd (snd (Kcf_ReadTopicEcho w b s))) = ki_log s
   \<and> ki_log (snd (Kcf_ReadTopicLatest_id w b ident s)) = ki_log s \<and> ki_log (snd (Kcf_ReadTopicLatest_name w b name s)) = ki_log s
   \<and> ki_log (snd (Kcf_GetParameter_id w b ident s)) = ki_log s \<and> ki_log (snd (snd (Kcf_GetParameter_name w b name s))) = ki_log s
   \<and> ki_log (snd (Kcf_ValidateParameter w b ident v s)) = ki_log s \<and> ki_log (snd (Kcf_ValidateService w b ident v s)) = ki_log s
   \<and> ki_log (snd (Kcf_GetTypeTemplate w b rt type s)) = ki_log s"
proof -
  have refresh: "ki_log (snd (snd (Kcf_Refresh w b s))) = ki_log s"
    using Guard_log[OF quiet_scan, of w s] by (auto simp: Kcf_Refresh_def split: prod.splits sum.splits)
  have start: "ki_log (snd (snd (Kcf_StartTopicEcho w b ident s))) = ki_log s"
    using Guard_log[OF quiet_prepare, of w "Kcf_CloseTopicRead b" ident s]
    by (auto simp: Kcf_StartTopicEcho_def Let_def split: prod.splits sum.splits)
  have read: "ki_log (snd (snd (Kcf_ReadTopicEcho w b s))) = ki_log s"
    using Guard_log[OF quiet_read_prepared, of w b s] by (simp add: Kcf_ReadTopicEcho_def Let_def)
  have info: "ki_log (snd (Kcf_GetTopicInfo b name s)) = ki_log s"
    unfolding Kcf_GetTopicInfo_def by (rule Guard_log) (intro quiet_intros)
  have latest: "ki_log (snd (Kcf_ReadTopicLatest_name w b name s)) = ki_log s"
    unfolding Kcf_ReadTopicLatest_name_def by (rule Guard_log) (intro quiet_intros ReadTopicLatest_log)
  have get: "ki_log (snd (snd (Kcf_GetParameter_name w b name s))) = ki_log s"
    unfolding Kcf_GetParameter_name_def Let_def
    by (subst log_case) (rule Guard_log, intro quiet_intros GetParameter_log)
  have validate: "ki_log (snd (Kcf_ValidateParameter w b ident v s)) = ki_log s" "ki_log (snd (Kcf_ValidateService w b ident v s)) = ki_log s"
    unfolding Kcf_ValidateParameter_def Kcf_ValidateService_def Let_def by (rule Guard_log, intro quiet_intros)+
  have template: "ki_log (snd (Kcf_GetTypeTemplate w b rt type s)) = ki_log s"
    unfolding Kcf_GetTypeTemplate_def by (rule Guard_log) (intro quiet_intros)
  from refresh start read info latest get validate template GetParameter_log ReadTopicLatest_log show ?thesis by simp
qed

text \<open>
  An echo session is opened on a publisher whose validated descriptor has the type and size of its
  record, and the old one is closed either way. A read returns the decoding of bytes read while the
  process was alive and keeps the session; an error other than -EAGAIN closes it.
\<close>

theorem kcf_echo_session:
  "(case Kcf_StartTopicEcho w b ident s of (r, b', s') \<Rightarrow>
      (case r of
         Inl e \<Rightarrow> b' = b\<lparr>kb_prepared := None\<rparr>
       | Inr u \<Rightarrow> \<exists>t d. kcf_Find ti_identity (kb_topics b) ident = Some t \<and> ti_role (kc_model t) = ''PUBLISHER''
           \<and> kf_valid w d \<and> td_type_id d = ti_type_id (kc_model t) \<and> td_payload_size d = ti_payload_size (kc_model t)
           \<and> b' = b\<lparr>kb_prepared := Some \<lparr>pt_identity = ident, pt_descriptor = d, pt_name = ti_name (kc_model t),
                 pt_pid = ri_pid (ei_runtime ident)\<rparr>\<rparr>))
   \<and> (case Kcf_ReadTopicEcho w b s of (r, b', s') \<Rightarrow>
      (case r of
         Inl e \<Rightarrow> b' = (if e = Errno (- EAGAIN) then b else b\<lparr>kb_prepared := None\<rparr>)
       | Inr v \<Rightarrow> b' = b \<and> (\<exists>p bytes. kb_prepared b = Some p \<and> kf_poll_exit w (ki_time s) (pt_pid p) = Ret (Inr False)
           \<and> kf_TopicRead w (Suc (ki_time s)) (pt_name p) (pt_descriptor p) = Ret (Inr bytes)
           \<and> Decode (kf_valid w) (pt_descriptor p) bytes = Inr v)))"
proof
  show "case Kcf_StartTopicEcho w b ident s of (r, b', s') \<Rightarrow>
      (case r of
         Inl e \<Rightarrow> b' = b\<lparr>kb_prepared := None\<rparr>
       | Inr u \<Rightarrow> \<exists>t d. kcf_Find ti_identity (kb_topics b) ident = Some t \<and> ti_role (kc_model t) = ''PUBLISHER''
           \<and> kf_valid w d \<and> td_type_id d = ti_type_id (kc_model t) \<and> td_payload_size d = ti_payload_size (kc_model t)
           \<and> b' = b\<lparr>kb_prepared := Some \<lparr>pt_identity = ident, pt_descriptor = d, pt_name = ti_name (kc_model t),
                 pt_pid = ri_pid (ei_runtime ident)\<rparr>\<rparr>)"
    by (auto simp: Kcf_StartTopicEcho_def Let_def Kcf_CloseTopicRead_def Guard_Inr prepare_topic_def k_inversion
        split: prod.split sum.split dest!: Kcf_Type_Inr)
  show "case Kcf_ReadTopicEcho w b s of (r, b', s') \<Rightarrow>
      (case r of
         Inl e \<Rightarrow> b' = (if e = Errno (- EAGAIN) then b else b\<lparr>kb_prepared := None\<rparr>)
       | Inr v \<Rightarrow> b' = b \<and> (\<exists>p bytes. kb_prepared b = Some p \<and> kf_poll_exit w (ki_time s) (pt_pid p) = Ret (Inr False)
           \<and> kf_TopicRead w (Suc (ki_time s)) (pt_name p) (pt_descriptor p) = Ret (Inr bytes)
           \<and> Decode (kf_valid w) (pt_descriptor p) bytes = Inr v))"
    by (cases "Guard (read_prepared w b) s")
      (auto simp: Kcf_ReadTopicEcho_def Let_def Kcf_CloseTopicRead_def Guard_Inr read_prepared_def k_inversion
        split: sum.split option.splits)
qed

text \<open>
  C36. Over a framework that keeps its contract every operation that returns a code returns 0 or a negative one and does
  nothing undefined, exceptions of the framework included. Setting a parameter by text does so unless the value it reads
  first has no field to put the text in: then, and only then, it writes past the end of the fields.
\<close>

theorem kcf_error_codes:
  assumes "framework_ok w"
  shows "code_ok (fst (Kcf_Refresh w b s)) \<and> code_ok (fst (Kcf_GetTopicInfo b name s))
    \<and> code_ok (fst (Kcf_ReadTopicLatest_name w b name s)) \<and> code_ok (fst (Kcf_ReadTopicLatest_id w b ident s))
    \<and> code_ok (fst (Kcf_StartTopicEcho w b ident s)) \<and> code_ok (fst (Kcf_ReadTopicEcho w b s))
    \<and> code_ok (fst (Kcf_GetParameter_name w b name s)) \<and> code_ok (fst (Kcf_GetParameter_id w b ident s))
    \<and> code_ok (fst (Kcf_ValidateParameter w b ident v s)) \<and> code_ok (fst (Kcf_SetParameter_id w b ident v s))
    \<and> (if text_unplaced w b name s then fst (Kcf_SetParameter_name w b name t s) = Inl Undefined
       else code_ok (fst (Kcf_SetParameter_name w b name t s)))
    \<and> code_ok (fst (Kcf_ValidateService w b ident v s)) \<and> code_ok (fst (Kcf_CallService w b ident v timeout retries s))
    \<and> code_ok (fst (Kcf_GetTypeTemplate w b rt type s))
    \<and> code_ok (Kcf_StartTopicMonitor name) \<and> code_ok (Kcf_StopTopicMonitor name)"
  by (simp add: id_codes[OF assms] name_codes[OF assms] session_codes[OF assms] name_write_codes[OF assms, simplified]
      Kcf_StartTopicMonitor_def Kcf_StopTopicMonitor_def)

text \<open>A framework with one standalone runtime that publishes the topic of a one-byte number.\<close>

definition sample_type :: type_descriptor where
  "sample_type = \<lparr>td_type_id = 7, td_type_name = ''Level'', td_payload_size = 1, td_field_count = 1,
     td_fields = [\<lparr>tf_name = ''v'', tf_kind = FK_UINT8, tf_offset = 0, tf_element_size = 1, tf_array_count = 1\<rparr>]\<rparr>"

definition sample_runtime :: kcf_runtime where
  "sample_runtime = \<lparr>kr_pid = 40, kr_process_start_ticks = 5, kr_executable = ''pump'', kr_state = PS_RUNNING,
     kr_runtime_error = 0, kr_standalone = True\<rparr>"

definition sample_endpoint :: kcf_endpoint where
  "sample_endpoint = \<lparr>ke_registration_id = 1, ke_kind = KK_TOPIC, ke_role = KR_PUBLISHER, ke_name = ''level'',
     ke_diagnostic_type_name = ''Level'', ke_type_id = 7, ke_payload_size = 1\<rparr>"

definition sample_kcf :: kcf where
  "sample_kcf = \<lparr>kf_valid = (\<lambda>d. d = sample_type), kf_runtime0 = sample_runtime,
     kf_ListSupervisors = (\<lambda>t. Ret (Inr [])), kf_ListRuntimes = (\<lambda>t. Ret (Inr [sample_runtime])),
     kf_ListEndpoints = (\<lambda>t r. Ret (Inr [sample_endpoint])), kf_ListServices = (\<lambda>t r. Thrown Other_exn),
     kf_GetType = (\<lambda>t r i. Ret (Inr sample_type)), kf_pidfd_open = (\<lambda>t p. Ret (Inr ())), kf_poll_exit = (\<lambda>t p. Ret (Inr False)),
     kf_TopicOpen = (\<lambda>t n d. Ret (Inr ())), kf_TopicRead = (\<lambda>t n d. Ret (Inr \<lparr>dp_type_id = 7, dp_bytes = [9], dp_sequence = 1\<rparr>)),
     kf_ParameterOpen = (\<lambda>t n d. Ret (fail (- ENOENT))), kf_ParameterGet = (\<lambda>t n d. Ret (fail (- ENOENT))),
     kf_ParameterSet = (\<lambda>t n d p. Ret (fail (- ENOENT))), kf_ServiceOpen = (\<lambda>t a b c d e f. Thrown Bad_alloc),
     kf_ServiceCall = (\<lambda>t a b p. Thrown Bad_alloc)\<rparr>"

lemma sample_framework: "framework_ok sample_kcf"
proof -
  have "layout_ok sample_type" by (simp add: layout_ok_def sample_type_def listed_def fk_width_def fk_known_def)
  then show ?thesis by (simp add: framework_ok_def sample_kcf_def)
qed

theorem kcf_error_codes_witness:
  "framework_ok sample_kcf \<and> code_ok (fst (Kcf_Refresh sample_kcf kcf_state0 \<lparr>ki_time = 0, ki_log = []\<rparr>))"
  using sample_framework kcf_error_codes[OF sample_framework] by blast

end
