(* ===== verification/NetworkBackend.thy ===== *)
theory NetworkBackend
  imports NetworkRates ToolBackend "HOL-Library.Signed_Division"
begin

text \<open>
  \<open>src/backend/network_backend.cpp\<close>, first part: what the discovery worker computes. The discovery
  and diagnostics libraries are not part of the repository; their data are records of the fields the
  code reads, their compatibility checks are the functions of a \<open>net_lib\<close>, and everything they and
  the clocks answer during one turn of the worker's loop is a \<open>turn_input\<close>.
\<close>

section \<open>Library data\<close>

datatype net_kind = NK_TOPIC | NK_PARAMETER | NK_SERVICE | NK_Other nat
datatype net_role = NR_PROVIDER | NR_Other nat
datatype peer_state = PEER_ONLINE | PEER_Other nat

record net_runtime =
  nr_host :: bytes
  nr_boot :: bytes
  nr_pid :: int
  nr_start :: u64

record net_identity =
  ni_runtime :: net_runtime
  ni_registration :: u64

text \<open>The type identities of the library have the four fields of \<open>remote_type_identity\<close>.\<close>

record net_endpoint =
  en_identity :: net_identity
  en_kind :: net_kind
  en_role :: net_role
  en_remote :: bool
  en_name :: string
  en_application :: net_runtime
  en_application_name :: string
  en_element_name :: string
  en_host_name :: string
  en_value_type :: remote_type_identity
  en_request_type :: remote_type_identity
  en_response_type :: remote_type_identity
  en_feedback_type :: remote_type_identity

record net_profile =
  np_framework :: "nat \<times> nat \<times> nat"
  np_network :: "nat \<times> nat"
  np_capabilities :: u64

record net_peer =
  pe_host :: bytes
  pe_boot :: bytes
  pe_session :: u64
  pe_address :: string
  pe_port :: u16
  pe_state :: peer_state
  pe_metadata_ready :: bool
  pe_metadata_revision :: u64
  pe_last_seen :: int
  pe_profile :: net_profile
  pe_compatibility :: nat
  pe_endpoints :: "net_endpoint list"

record net_route =
  nro_source :: net_identity
  nro_destination :: net_identity
  nro_source_session :: u64
  nro_destination_session :: u64
  nro_route_id :: u64
  nro_name :: string
  nro_state :: u8
  nro_reason :: u8
  nro_proxy_recovery :: u8
  nro_sending :: bool
  nro_error :: int
  nro_packets_sent :: u64
  nro_packets_received :: u64
  nro_samples_published :: u64
  nro_dropped :: u64
  nro_duplicate :: u64
  nro_out_of_order :: u64
  nro_missed_sequence :: u64
  nro_malformed :: u64
  nro_local_samples_skipped :: u64

record net_diagnostics =
  nd_truncated :: bool
  nd_gateway_host :: bytes
  nd_gateway_boot :: bytes
  nd_gateway_session :: u64
  nd_total_routes :: u32
  nd_routes :: "net_route list"

text \<open>
  A compatibility reason is a number; \<open>nl_peer\<close> compares the profile of the tool with that of a peer,
  \<open>nl_endpoint\<close> two endpoints with their profiles.
\<close>

record net_lib =
  nl_peer :: "net_profile \<Rightarrow> nat"
  nl_endpoint :: "net_profile \<Rightarrow> net_profile \<Rightarrow> net_endpoint \<Rightarrow> net_endpoint \<Rightarrow> nat"
  nl_compatible :: "nat \<Rightarrow> bool"
  nl_reason :: "nat \<Rightarrow> string"

section \<open>Texts\<close>

abbreviation nl :: string where "nl \<equiv> [char_of (10 :: nat)]"

definition Key_host :: "bytes \<Rightarrow> string" where
  "Key_host i = hex_bytes i"

definition Key_runtime :: "net_runtime \<Rightarrow> string" where
  "Key_runtime r = Key_host (nr_host r) @ '':'' @ Key_host (nr_boot r) @ '':'' @ to_string_int (nr_pid r) @ '':'' @ to_string_u64 (nr_start r)"

definition Key_endpoint :: "net_identity \<Rightarrow> string" where
  "Key_endpoint i = Key_runtime (ni_runtime i) @ '':'' @ to_string_u64 (ni_registration i)"

definition Type_text :: "remote_type_identity \<Rightarrow> string" where
  "Type_text t = ''type='' @ to_string_u64 (rti_type_id t) @ '' schema='' @ to_string_u64 (rti_schema_id t)
     @ '' encoding='' @ to_string_nat (unat (rti_encoding_id t)) @ '' bytes='' @ to_string_nat (unat (rti_payload_size t))"

definition capability_names :: "string list" where
  "capability_names = [''DISCOVERY'', ''REMOTE_PARAMETER'', ''REMOTE_SERVICE'', ''REMOTE_ACTION'', ''REMOTE_TOPIC'',
     ''TARGET_ENDPOINT'', ''TARGET_HOST'', ''TARGET_APPLICATION'', ''TARGET_GROUP'', ''TARGET_ALL'', ''NETWORK_DIAGNOSTICS'',
     ''TYPE_DESCRIPTOR_QUERY'', ''REMOTE_TOPIC_RECEIVER'', ''TOPIC_ENDPOINT_SUBSCRIPTION'']"

definition Capabilities :: "u64 \<Rightarrow> string" where
  "Capabilities bits =
     fold (\<lambda>i out. if bit bits i then (if out \<noteq> [] then out @ '', '' else out) @ capability_names ! i else out) [0..<14] []
     @ '' (raw='' @ to_string_u64 bits @ '')''"

section \<open>Convert\<close>

type_synonym candidate = "net_peer \<times> net_endpoint"

text \<open>The map \<open>index\<close>: the endpoints of a kind and name, in the order of the peers.\<close>

definition index_endpoint :: "net_peer \<Rightarrow> net_endpoint \<Rightarrow> (net_kind \<times> string \<Rightarrow> candidate list option) \<Rightarrow> net_kind \<times> string \<Rightarrow> candidate list option" where
  "index_endpoint p e ix = (let k = (en_kind e, en_name e) in ix(k \<mapsto> (case ix k of None \<Rightarrow> [] | Some cs \<Rightarrow> cs) @ [(p, e)]))"

definition candidate_index :: "net_peer list \<Rightarrow> net_kind \<times> string \<Rightarrow> candidate list option" where
  "candidate_index peers = fold (\<lambda>p ix. if pe_metadata_ready p then fold (index_endpoint p) (pe_endpoints p) ix else ix) peers Map.empty"

fun pair_diagnostics :: "net_lib \<Rightarrow> net_peer \<Rightarrow> net_endpoint \<Rightarrow> candidate list \<Rightarrow> nat \<Rightarrow> string \<Rightarrow> string" where
  "pair_diagnostics l p e [] examined d = d"
| "pair_diagnostics l p e ((other, c) # cs) examined d =
     (if examined + 1 > 32 then d @ ''Pair comparison limit reached (32 candidates)'' @ nl
      else if pe_host other = pe_host p \<or> en_role c = en_role e then pair_diagnostics l p e cs (examined + 1) d
      else let check = nl_endpoint l (pe_profile p) (pe_profile other) e c
           in pair_diagnostics l p e cs (examined + 1)
                (if nl_compatible l check then d
                 else d @ Key_endpoint (en_identity c) @ '': '' @ nl_reason l check @ nl))"

definition kind_text :: "net_kind \<Rightarrow> string" where
  "kind_text k = (case k of NK_TOPIC \<Rightarrow> ''T'' | NK_PARAMETER \<Rightarrow> ''P'' | NK_SERVICE \<Rightarrow> ''S'' | NK_Other n \<Rightarrow> ''A'')"

definition role_text :: "string \<Rightarrow> bool \<Rightarrow> string" where
  "role_text kind provider =
     (if kind = ''T'' then (if provider then ''PUBLISHER'' else ''SUBSCRIBER'')
      else if kind = ''P'' then (if provider then ''OWNER'' else ''CLIENT'')
      else if provider then ''SERVER'' else ''CONSUMER'')"

definition ConvertIdentity :: "net_identity \<Rightarrow> route_endpoint_identity" where
  "ConvertIdentity i = \<lparr>rei_host_id = Key_host (nr_host (ni_runtime i)), rei_boot_id = Key_host (nr_boot (ni_runtime i)),
     rei_pid = nr_pid (ni_runtime i), rei_start_ticks = nr_start (ni_runtime i), rei_registration_id = ni_registration i\<rparr>"

text \<open>One turn of the endpoint loop; \<open>index.at\<close> throws where there is no entry.\<close>

definition convert_endpoint :: "net_lib \<Rightarrow> (net_kind \<times> string \<Rightarrow> candidate list option) \<Rightarrow> string \<Rightarrow> string \<Rightarrow> net_peer
    \<Rightarrow> net_endpoint \<Rightarrow> remote_endpoint option" where
  "convert_endpoint l index host_key boot_key p e =
     (let kind = kind_text (en_kind e)
      in case index (en_kind e, en_name e) of
           None \<Rightarrow> None
         | Some cs \<Rightarrow> Some \<lparr>
             re_identity = ConvertIdentity (en_identity e), re_session = pe_session p,
             re_value_type = en_value_type e, re_request_type = en_request_type e, re_response_type = en_response_type e,
             re_feedback_type = en_feedback_type e, re_id = Key_endpoint (en_identity e),
             re_runtime_id = Key_runtime (ni_runtime (en_identity e)),
             re_application_id = (if nr_pid (en_application e) \<noteq> 0 then Key_runtime (en_application e)
                else host_key @ '':'' @ boot_key @ '':standalone''),
             re_application = (if en_application_name e = [] then ''Standalone'' else en_application_name e),
             re_element = en_element_name e, re_name = en_name e, re_kind = kind, re_role = role_text kind (en_role e = NR_PROVIDER),
             re_scope = (if en_remote e then ''REMOTE'' else ''LOCAL_ONLY''),
             re_type = (if kind = ''T'' \<or> kind = ''P'' then Type_text (en_value_type e)
                else ''request/goal: '' @ Type_text (en_request_type e) @ nl @ ''response/result: '' @ Type_text (en_response_type e)
                  @ nl @ ''feedback: '' @ Type_text (en_feedback_type e)),
             re_diagnostic = pair_diagnostics l p e cs 0 []\<rparr>)"

primrec convert_endpoints :: "net_lib \<Rightarrow> (net_kind \<times> string \<Rightarrow> candidate list option) \<Rightarrow> string \<Rightarrow> string \<Rightarrow> net_peer
    \<Rightarrow> net_endpoint list \<Rightarrow> remote_endpoint list option" where
  "convert_endpoints l index host_key boot_key p [] = Some []"
| "convert_endpoints l index host_key boot_key p (e # es) =
     Option.bind (convert_endpoint l index host_key boot_key p e) (\<lambda>x.
       map_option (Cons x) (convert_endpoints l index host_key boot_key p es))"

text \<open>\<open>duration_cast<milliseconds>\<close> of nanoseconds, and its count in the 64 bits of \<open>age_ms\<close>.\<close>

definition age_ms :: "int \<Rightarrow> int \<Rightarrow> u64" where
  "age_ms now seen = word_of_int ((now - seen) sdiv 1000000)"

definition host_label :: "net_peer \<Rightarrow> string" where
  "host_label p = fold (\<lambda>e label. if en_host_name e \<noteq> [] then en_host_name e else label)
     (if pe_metadata_ready p then pe_endpoints p else []) (Key_host (pe_host p))"

definition convert_peer :: "net_lib \<Rightarrow> (net_kind \<times> string \<Rightarrow> candidate list option) \<Rightarrow> int \<Rightarrow> net_peer \<Rightarrow> remote_host option" where
  "convert_peer l index now p =
     (let host_key = Key_host (pe_host p); boot_key = Key_host (pe_boot p)
      in map_option (\<lambda>endpoints. \<lparr>
           rh_id = host_key, rh_boot_id = boot_key, rh_label = host_label p,
           rh_address = pe_address p @ '':'' @ to_string_nat (unat (pe_port p)),
           rh_state = (if pe_state p = PEER_ONLINE then ''ONLINE'' else ''LOST''),
           rh_framework_version = (case np_framework (pe_profile p) of (a, b, c) \<Rightarrow>
             to_string_nat a @ ''.'' @ to_string_nat b @ ''.'' @ to_string_nat c),
           rh_network_version = (case np_network (pe_profile p) of (a, b) \<Rightarrow> to_string_nat a @ ''.'' @ to_string_nat b),
           rh_compatibility = nl_reason l (pe_compatibility p), rh_capabilities = Capabilities (np_capabilities (pe_profile p)),
           rh_session = pe_session p, rh_revision = pe_metadata_revision p, rh_age_ms = age_ms now (pe_last_seen p),
           rh_metadata_ready = pe_metadata_ready p, rh_endpoints = sort_key re_id endpoints,
           rh_diagnostics = remote_network_diagnostics0\<rparr>)
         (convert_endpoints l index host_key boot_key p (if pe_metadata_ready p then pe_endpoints p else [])))"

text \<open>\<open>now i\<close> is the clock when the age of the \<open>i\<close>-th peer is taken.\<close>

primrec convert_peers :: "net_lib \<Rightarrow> (net_kind \<times> string \<Rightarrow> candidate list option) \<Rightarrow> (nat \<Rightarrow> int) \<Rightarrow> net_peer list
    \<Rightarrow> remote_host list option" where
  "convert_peers l index now [] = Some []"
| "convert_peers l index now (p # ps) =
     Option.bind (convert_peer l index (now 0) p) (\<lambda>h. map_option (Cons h) (convert_peers l index (\<lambda>i. now (Suc i)) ps))"

definition Convert :: "net_lib \<Rightarrow> (nat \<Rightarrow> int) \<Rightarrow> net_peer list \<Rightarrow> int \<Rightarrow> network_snapshot option" where
  "Convert l now peers error =
     (let out = network_snapshot0\<lparr>ns_status := (if error \<noteq> 0 then ''Discovery error: '' @ to_string_int error
            else ''Network discovery running (manual Refresh)'')\<rparr>
      in if error \<noteq> 0 then Some out
         else map_option (\<lambda>hosts. out\<lparr>ns_hosts := sort_key rh_id hosts\<rparr>)
           (convert_peers l (candidate_index peers) now peers))"

section \<open>Diagnostics\<close>

record cached_diagnostics =
  cd_value :: remote_network_diagnostics
  cd_next :: int
  cd_rates :: rate_map

definition cached_diagnostics0 :: cached_diagnostics where
  "cached_diagnostics0 = \<lparr>cd_value = remote_network_diagnostics0, cd_next = 0, cd_rates = []\<rparr>"

definition convert_route :: "net_route \<Rightarrow> remote_route" where
  "convert_route r = \<lparr>rr_source = ConvertIdentity (nro_source r), rr_destination = ConvertIdentity (nro_destination r),
     rr_source_session = nro_source_session r, rr_destination_session = nro_destination_session r,
     rr_route_id = nro_route_id r, rr_name = nro_name r, rr_state = nro_state r, rr_reason = nro_reason r,
     rr_proxy_recovery = nro_proxy_recovery r, rr_sending = nro_sending r, rr_error = nro_error r,
     rr_packets_sent = nro_packets_sent r, rr_packets_received = nro_packets_received r,
     rr_samples_published = nro_samples_published r, rr_dropped = nro_dropped r, rr_duplicate = nro_duplicate r,
     rr_out_of_order = nro_out_of_order r, rr_missed_sequence = nro_missed_sequence r, rr_malformed = nro_malformed r,
     rr_local_samples_skipped = nro_local_samples_skipped r, rr_rates = network_route_rates0\<rparr>"

definition ConvertDiagnostics :: "u64 \<Rightarrow> net_diagnostics \<Rightarrow> remote_network_diagnostics" where
  "ConvertDiagnostics unix_ms d = \<lparr>rnd_status = (if nd_truncated d then DIAG_TRUNCATED else DIAG_VALID),
     rnd_gateway_host = Key_host (nd_gateway_host d), rnd_gateway_boot = Key_host (nd_gateway_boot d),
     rnd_gateway_session = nd_gateway_session d, rnd_observed_at_unix_ms = unix_ms, rnd_error = 0,
     rnd_total_routes = nd_total_routes d, rnd_truncated = nd_truncated d, rnd_routes = map convert_route (nd_routes d)\<rparr>"

text \<open>\<open>NETWORK_DIAGNOSTICS\<close> is the capability of bit 10, as the names of \<open>Capabilities\<close> have it.\<close>

definition Eligibility :: "net_lib \<Rightarrow> net_peer \<Rightarrow> diagnostics_state" where
  "Eligibility l p =
     (if pe_state p \<noteq> PEER_ONLINE then DIAG_LOST
      else if \<not> nl_compatible l (nl_peer l (pe_profile p)) then DIAG_INCOMPATIBLE
      else if \<not> bit (np_capabilities (pe_profile p)) 10 then DIAG_UNSUPPORTED
      else DIAG_PENDING)"

type_synonym diagnostics_cache = "(string, cached_diagnostics) omap"

definition reset_needed :: "diagnostics_state \<Rightarrow> net_peer \<Rightarrow> remote_network_diagnostics \<Rightarrow> bool" where
  "reset_needed state p v \<longleftrightarrow> rnd_gateway_boot v \<noteq> Key_host (pe_boot p) \<or> rnd_gateway_session v \<noteq> pe_session p
     \<or> state \<noteq> DIAG_PENDING \<or> rnd_status v = DIAG_LOST \<or> rnd_status v = DIAG_INCOMPATIBLE \<or> rnd_status v = DIAG_UNSUPPORTED"

definition identified :: "net_peer \<Rightarrow> diagnostics_state \<Rightarrow> remote_network_diagnostics" where
  "identified p state = remote_network_diagnostics0\<lparr>rnd_gateway_host := Key_host (pe_host p),
     rnd_gateway_boot := Key_host (pe_boot p), rnd_gateway_session := pe_session p, rnd_status := state\<rparr>"

definition reconcile_peer :: "net_lib \<Rightarrow> net_peer \<Rightarrow> diagnostics_cache \<Rightarrow> diagnostics_cache" where
  "reconcile_peer l p cache =
     (let key = Key_host (pe_host p); cache = om_emplace key cached_diagnostics0 cache; entry = the (map_of cache key);
          state = Eligibility l p
      in if reset_needed state p (cd_value entry)
         then om_put key (cached_diagnostics0\<lparr>cd_value := identified p state\<rparr>) cache
         else cache)"

definition Reconcile :: "net_lib \<Rightarrow> net_peer list \<Rightarrow> diagnostics_cache \<Rightarrow> diagnostics_cache" where
  "Reconcile l peers cache =
     fold (reconcile_peer l) peers (filter (\<lambda>entry. \<exists>p \<in> set peers. Key_host (pe_host p) = fst entry) cache)"

section \<open>One turn of the worker\<close>

text \<open>
  The loop over the sorted peers: the first one that is due, or the first due one past the cursor.
  The time each is compared with is \<open>now i\<close>.
\<close>

fun select_peer :: "net_lib \<Rightarrow> diagnostics_cache \<Rightarrow> string \<Rightarrow> (nat \<Rightarrow> int) \<Rightarrow> net_peer list \<Rightarrow> net_peer option \<Rightarrow> net_peer option" where
  "select_peer l cache cursor now [] selected = selected"
| "select_peer l cache cursor now (p # ps) selected =
     (if Eligibility l p = DIAG_PENDING
         \<and> (case map_of cache (Key_host (pe_host p)) of None \<Rightarrow> 0 | Some entry \<Rightarrow> cd_next entry) \<le> now 0
      then if cursor < Key_host (pe_host p) then Some p
           else select_peer l cache cursor (\<lambda>i. now (Suc i)) ps (if selected = None then Some p else selected)
      else select_peer l cache cursor (\<lambda>i. now (Suc i)) ps selected)"

record turn_input =
  ti_peers :: "net_peer list"
  ti_select_now :: "nat \<Rightarrow> int"
  ti_query_error :: int
  ti_query :: "bytes \<Rightarrow> int \<times> net_diagnostics"
  ti_observed :: int
  ti_peers_after :: "net_peer list"
  ti_answer_now :: int
  ti_unix_ms :: u64
  ti_age_now :: "nat \<Rightarrow> int"
  ti_error :: int
  ti_executor_error :: int

record observer =
  ob_cache :: diagnostics_cache
  ob_cursor :: string

definition same_generation :: "net_lib \<Rightarrow> net_peer \<Rightarrow> net_peer \<Rightarrow> bool" where
  "same_generation l target current \<longleftrightarrow> pe_boot current = pe_boot target \<and> pe_session current = pe_session target
     \<and> Eligibility l current = DIAG_PENDING"

text \<open>The cache entry after the answer of a query.\<close>

definition answered :: "turn_input \<Rightarrow> net_peer \<Rightarrow> cached_diagnostics \<Rightarrow> cached_diagnostics" where
  "answered i target entry =
     (let code = fst (ti_query i (pe_host target));
          value = (identified target DIAG_UNAVAILABLE);
          value = (if code \<noteq> 0
            then value\<lparr>rnd_status := (if code = - ETIMEDOUT then DIAG_TIMEOUT else DIAG_ERROR), rnd_error := code\<rparr>
            else ConvertDiagnostics (ti_unix_ms i) (snd (ti_query i (pe_host target))));
          seen = Observe (cd_rates entry) value (ti_observed i)
      in \<lparr>cd_value = fst seen, cd_next = ti_answer_now i + 1000000000, cd_rates = snd seen\<rparr>)"

definition query_turn :: "net_lib \<Rightarrow> turn_input \<Rightarrow> observer \<Rightarrow> net_peer list \<times> observer" where
  "query_turn l i ob =
     (let cache = Reconcile l (ti_peers i) (ob_cache ob);
          peers = sort_key (\<lambda>p. Key_host (pe_host p)) (ti_peers i)
      in case select_peer l cache (ob_cursor ob) (ti_select_now i) peers None of
           None \<Rightarrow> (peers, ob\<lparr>ob_cache := cache\<rparr>)
         | Some target \<Rightarrow>
             if ti_query_error i \<noteq> 0 then (peers, ob\<lparr>ob_cache := cache\<rparr>)
             else let key = Key_host (pe_host target); peers = ti_peers_after i; cache = Reconcile l peers cache;
                      cache = (case List.find (\<lambda>p. pe_host p = pe_host target) peers of
                          None \<Rightarrow> cache
                        | Some current \<Rightarrow> if same_generation l target current
                            then om_put key (answered i target (case map_of cache key of None \<Rightarrow> cached_diagnostics0 | Some e \<Rightarrow> e)) cache
                            else cache)
                  in (peers, \<lparr>ob_cache = cache, ob_cursor = key\<rparr>))"

text \<open>\<open>host.diagnostics=cache.at(host.id).value\<close>, which throws where there is no entry.\<close>

primrec attach_diagnostics :: "diagnostics_cache \<Rightarrow> remote_host list \<Rightarrow> remote_host list option" where
  "attach_diagnostics cache [] = Some []"
| "attach_diagnostics cache (h # hs) = (case map_of cache (rh_id h) of
     None \<Rightarrow> None | Some e \<Rightarrow> map_option (Cons (h\<lparr>rh_diagnostics := cd_value e\<rparr>)) (attach_diagnostics cache hs))"

definition turn_snapshot :: "net_lib \<Rightarrow> bytes \<Rightarrow> network_options \<Rightarrow> turn_input \<Rightarrow> net_peer list \<Rightarrow> diagnostics_cache
    \<Rightarrow> network_snapshot option" where
  "turn_snapshot l own opts i peers cache =
     Option.bind (Convert l (ti_age_now i) peers (ti_error i)) (\<lambda>s.
     map_option (\<lambda>hosts.
       let explicit = (no_host_id opts \<noteq> []); client = (ti_executor_error i = 0)
       in s\<lparr>ns_observer_host := Key_host own, ns_explicit_control_identity := explicit, ns_network_client_available := client,
            ns_remote_control_available := client \<and> explicit,
            ns_status := (if \<not> client then ns_status s @ '' | Remote client start failed: '' @ to_string_int (ti_executor_error i)
                          else ns_status s),
            ns_route_status := ''Gateway diagnostics available in backend snapshot; no inferred network edges'',
            ns_hosts := hosts\<rparr>)
       (attach_diagnostics cache (ns_hosts s)))"

definition observer_turn :: "net_lib \<Rightarrow> bytes \<Rightarrow> network_options \<Rightarrow> turn_input \<Rightarrow> observer \<Rightarrow> network_snapshot option \<times> observer" where
  "observer_turn l own opts i ob =
     (let out = query_turn l i ob in (turn_snapshot l own opts i (fst out) (ob_cache (snd out)), snd out))"

section \<open>The identity of the observer\<close>

text \<open>
  The bytes of a host identity: the configured one, which must be 32 hexadecimal digits and not zero, or
  random ones. \<open>Inl\<close> is the status the worker stops with.
\<close>

fun parse_host_bytes :: "string \<Rightarrow> string + bytes" where
  "parse_host_bytes (a # b # s) =
     (if hex_digit a < 0 \<or> hex_digit b < 0 then Inl ''Invalid Host ID''
      else case parse_host_bytes s of Inl e \<Rightarrow> Inl e | Inr bs \<Rightarrow> Inr (word_of_int (hex_digit a * 16 + hex_digit b) # bs))"
| "parse_host_bytes s = Inr []"

definition configured_host :: "bytes \<Rightarrow> string \<Rightarrow> string + bytes" where
  "configured_host random host_id =
     (if host_id = [] then Inr random
      else if length host_id \<noteq> 32 then Inl ''Invalid Host ID: expected 32 hexadecimal digits''
      else case parse_host_bytes host_id of
             Inl e \<Rightarrow> Inl e | Inr bs \<Rightarrow> if list_all (\<lambda>b. b = 0) bs then Inl ''Host ID must not be zero'' else Inr bs)"

end
