(* ===== verification/NetworkProps.thy ===== *)
theory NetworkProps
  imports NetworkBackend
begin

text \<open>
  What the worker of \<open>NetworkBackend\<close> guarantees turn by turn: it never stops on a missing entry, what it
  shows of a host belongs to the generation of that host, and no host waits for ever for its query.
\<close>

section \<open>Identifiers\<close>

lemma colon_notin_hex [simp]: "CHR '':'' \<notin> set (hex_bytes bs)"
proof (induction bs)
  case (Cons b bs)
  have "unat b div 16 < 16" using unat_u8_lt[of b] by (simp add: less_mult_imp_div_less)
  then have "hex_char (unat b div 16) \<noteq> CHR '':''" "hex_char (unat b mod 16) \<noteq> CHR '':''"
    by (simp_all add: hex_char_not_colon)
  with Cons show ?case by (auto simp: hex_bytes_Cons)
qed (simp add: hex_bytes_def)

lemma Key_host_inject [simp]: "Key_host a = Key_host b \<longleftrightarrow> a = b"
  by (simp add: Key_host_def)

lemma Key_runtime_inject [simp]: "Key_runtime r = Key_runtime q \<longleftrightarrow> r = q"
proof
  assume "Key_runtime r = Key_runtime q"
  then have e: "hex_bytes (nr_host r) @ CHR '':'' # hex_bytes (nr_boot r) @ CHR '':'' # to_string_int (nr_pid r) @ CHR '':'' # to_string_u64 (nr_start r)
      = hex_bytes (nr_host q) @ CHR '':'' # hex_bytes (nr_boot q) @ CHR '':'' # to_string_int (nr_pid q) @ CHR '':'' # to_string_u64 (nr_start q)"
    by (simp add: Key_runtime_def Key_host_def)
  note 1 = sep_inject[OF e, simplified]
  note 2 = sep_inject[OF conjunct2[OF 1], simplified]
  note 3 = sep_inject[OF conjunct2[OF 2], simplified]
  from 1 2 3 show "r = q" by simp
qed simp

lemma Key_endpoint_inject [simp]: "Key_endpoint i = Key_endpoint j \<longleftrightarrow> i = j"
proof
  assume "Key_endpoint i = Key_endpoint j"
  then have e: "hex_bytes (nr_host (ni_runtime i)) @ CHR '':'' # hex_bytes (nr_boot (ni_runtime i)) @ CHR '':''
        # to_string_int (nr_pid (ni_runtime i)) @ CHR '':'' # to_string_u64 (nr_start (ni_runtime i)) @ CHR '':'' # to_string_u64 (ni_registration i)
      = hex_bytes (nr_host (ni_runtime j)) @ CHR '':'' # hex_bytes (nr_boot (ni_runtime j)) @ CHR '':''
        # to_string_int (nr_pid (ni_runtime j)) @ CHR '':'' # to_string_u64 (nr_start (ni_runtime j)) @ CHR '':'' # to_string_u64 (ni_registration j)"
    by (simp add: Key_endpoint_def Key_runtime_def Key_host_def)
  note 1 = sep_inject[OF e, simplified]
  note 2 = sep_inject[OF conjunct2[OF 1], simplified]
  note 3 = sep_inject[OF conjunct2[OF 2], simplified]
  note 4 = sep_inject[OF conjunct2[OF 3], simplified]
  from 1 2 3 4 show "i = j" by (intro net_identity.equality net_runtime.equality) simp_all
qed simp

section \<open>Reconcile\<close>

lemma map_of_filter_key: "map_of (filter (\<lambda>e. P (fst e)) m) k = (if P k then map_of m k else None)"
  by (induction m) auto

lemma reconcile_peer_lookup:
  "map_of (reconcile_peer l p c) k =
    (if k = Key_host (pe_host p)
     then Some (let e = (case map_of c k of None \<Rightarrow> cached_diagnostics0 | Some e \<Rightarrow> e)
       in if reset_needed (Eligibility l p) p (cd_value e)
          then cached_diagnostics0\<lparr>cd_value := identified p (Eligibility l p)\<rparr> else e)
     else map_of c k)"
  by (simp add: reconcile_peer_def Let_def split: option.split)

lemma reconcile_keys: "map_of (fold (reconcile_peer l) ps c) k \<noteq> None \<longleftrightarrow> k \<in> (\<lambda>p. Key_host (pe_host p)) ` set ps \<or> map_of c k \<noteq> None"
  by (induction ps arbitrary: c) (auto simp: reconcile_peer_lookup)

lemma reconcile_other: "k \<notin> (\<lambda>p. Key_host (pe_host p)) ` set ps \<Longrightarrow> map_of (fold (reconcile_peer l) ps c) k = map_of c k"
  by (induction ps arbitrary: c) (auto simp: reconcile_peer_lookup)

text \<open>The entry of a peer: of its generation, and without routes where it is not eligible.\<close>

definition fresh_entry :: "net_lib \<Rightarrow> net_peer \<Rightarrow> remote_network_diagnostics \<Rightarrow> bool" where
  "fresh_entry l p v \<longleftrightarrow> rnd_gateway_boot v = Key_host (pe_boot p) \<and> rnd_gateway_session v = pe_session p
     \<and> (Eligibility l p \<noteq> DIAG_PENDING \<longrightarrow> v = identified p (Eligibility l p))"

lemma reconcile_fresh:
  assumes "distinct (map pe_host ps)" and "p \<in> set ps"
  shows "\<exists>e. map_of (fold (reconcile_peer l) ps c) (Key_host (pe_host p)) = Some e \<and> fresh_entry l p (cd_value e)"
  using assms
proof (induction ps arbitrary: c)
  case (Cons q ps)
  show ?case
  proof (cases "p = q")
    case True
    with Cons have "Key_host (pe_host p) \<notin> (\<lambda>p. Key_host (pe_host p)) ` set ps" by auto
    from reconcile_other[OF this] True show ?thesis
      by (auto simp: reconcile_peer_lookup Let_def fresh_entry_def reset_needed_def identified_def cached_diagnostics0_def)
  qed (use Cons in auto)
qed simp

lemma Reconcile_keys: "map_of (Reconcile l ps c) k \<noteq> None \<longleftrightarrow> k \<in> (\<lambda>p. Key_host (pe_host p)) ` set ps"
  unfolding Reconcile_def reconcile_keys
  using map_of_filter_key[of "\<lambda>k. \<exists>p \<in> set ps. Key_host (pe_host p) = k" c k] by auto

lemma Reconcile_fresh:
  "distinct (map pe_host ps) \<Longrightarrow> p \<in> set ps \<Longrightarrow>
    \<exists>e. map_of (Reconcile l ps c) (Key_host (pe_host p)) = Some e \<and> fresh_entry l p (cd_value e)"
  unfolding Reconcile_def by (rule reconcile_fresh)

section \<open>Convert\<close>

lemma index_endpoint_lookup:
  "index_endpoint p e ix k = (if k = (en_kind e, en_name e) then Some ((case ix k of None \<Rightarrow> [] | Some cs \<Rightarrow> cs) @ [(p, e)]) else ix k)"
  by (simp add: index_endpoint_def Let_def)

lemma index_fold_keys:
  "fold (index_endpoint p) es ix k \<noteq> None \<longleftrightarrow> ix k \<noteq> None \<or> k \<in> (\<lambda>e. (en_kind e, en_name e)) ` set es"
  by (induction es arbitrary: ix) (auto simp: index_endpoint_lookup)

lemma candidate_index_keys:
  "candidate_index peers k \<noteq> None \<longleftrightarrow> (\<exists>p \<in> set peers. pe_metadata_ready p \<and> k \<in> (\<lambda>e. (en_kind e, en_name e)) ` set (pe_endpoints p))"
proof -
  have "fold (\<lambda>p ix. if pe_metadata_ready p then fold (index_endpoint p) (pe_endpoints p) ix else ix) ps ix k \<noteq> None \<longleftrightarrow>
      ix k \<noteq> None \<or> (\<exists>p \<in> set ps. pe_metadata_ready p \<and> k \<in> (\<lambda>e. (en_kind e, en_name e)) ` set (pe_endpoints p))" for ps ix
  proof (induction ps arbitrary: ix)
    case (Cons p ps)
    show ?case
      using index_fold_keys[of p "pe_endpoints p" ix k] Cons[of ix] Cons[of "fold (index_endpoint p) (pe_endpoints p) ix"] by auto
  qed simp
  then show ?thesis by (simp add: candidate_index_def)
qed

lemma candidate_index_hit:
  "p \<in> set peers \<Longrightarrow> pe_metadata_ready p \<Longrightarrow> e \<in> set (pe_endpoints p) \<Longrightarrow> \<exists>cs. candidate_index peers (en_kind e, en_name e) = Some cs"
  using candidate_index_keys[of peers "(en_kind e, en_name e)"] by auto

lemma convert_endpoints_total:
  assumes "\<And>e. e \<in> set es \<Longrightarrow> \<exists>cs. index (en_kind e, en_name e) = Some cs"
  shows "\<exists>xs. convert_endpoints l index hk bk p es = Some xs \<and> map re_id xs = map (\<lambda>e. Key_endpoint (en_identity e)) es"
  using assms
proof (induction es)
  case (Cons e es)
  then obtain cs xs where "index (en_kind e, en_name e) = Some cs" "convert_endpoints l index hk bk p es = Some xs"
    "map re_id xs = map (\<lambda>e. Key_endpoint (en_identity e)) es" by fastforce
  then show ?case by (simp add: convert_endpoint_def Let_def)
qed simp

definition shows_peer :: "remote_host \<Rightarrow> net_peer \<Rightarrow> bool" where
  "shows_peer h p \<longleftrightarrow> rh_id h = Key_host (pe_host p) \<and> rh_boot_id h = Key_host (pe_boot p) \<and> rh_session h = pe_session p
     \<and> rh_state h = (if pe_state p = PEER_ONLINE then ''ONLINE'' else ''LOST'')
     \<and> mset (map re_id (rh_endpoints h)) =
         mset (map (\<lambda>e. Key_endpoint (en_identity e)) (if pe_metadata_ready p then pe_endpoints p else []))"

lemma convert_peer_total:
  assumes "p \<in> set peers"
  shows "\<exists>h. convert_peer l (candidate_index peers) now p = Some h \<and> shows_peer h p"
proof -
  let ?es = "if pe_metadata_ready p then pe_endpoints p else []"
  obtain xs where "convert_endpoints l (candidate_index peers) (Key_host (pe_host p)) (Key_host (pe_boot p)) p ?es = Some xs"
    and "map re_id xs = map (\<lambda>e. Key_endpoint (en_identity e)) ?es"
    using convert_endpoints_total[of ?es "candidate_index peers" l "Key_host (pe_host p)" "Key_host (pe_boot p)" p]
      candidate_index_hit[OF assms] by (auto split: if_splits)
  moreover from this(2) have "image_mset re_id (mset xs) = image_mset (\<lambda>e. Key_endpoint (en_identity e)) (mset ?es)"
    by (metis mset_map)
  ultimately show ?thesis by (cases "pe_metadata_ready p") (simp_all add: convert_peer_def Let_def shows_peer_def)
qed

lemma convert_peers_total:
  assumes "set ps \<subseteq> set peers"
  shows "\<exists>hs. convert_peers l (candidate_index peers) now ps = Some hs \<and> list_all2 shows_peer hs ps"
  using assms
proof (induction ps arbitrary: now)
  case (Cons p ps)
  obtain h where "convert_peer l (candidate_index peers) (now 0) p = Some h" "shows_peer h p"
    using convert_peer_total Cons.prems by (metis list.set_intros(1) subsetD)
  moreover obtain hs where "convert_peers l (candidate_index peers) (\<lambda>i. now (Suc i)) ps = Some hs" "list_all2 shows_peer hs ps"
    using Cons by fastforce
  ultimately show ?case by simp
qed simp

lemma Convert_total:
  "\<exists>s. Convert l now peers error = Some s \<and> (if error \<noteq> 0 then ns_hosts s = []
     else \<exists>hs. ns_hosts s = sort_key rh_id hs \<and> list_all2 shows_peer hs peers)"
proof -
  obtain hs where "convert_peers l (candidate_index peers) now peers = Some hs" "list_all2 shows_peer hs peers"
    using convert_peers_total[OF subset_refl] by blast
  then show ?thesis by (auto simp: Convert_def Let_def network_snapshot0_def)
qed

section \<open>A turn\<close>

lemma attach_total:
  assumes "\<And>h. h \<in> set hs \<Longrightarrow> \<exists>e. map_of cache (rh_id h) = Some e"
  shows "\<exists>hs'. attach_diagnostics cache hs = Some hs'
    \<and> list_all2 (\<lambda>h' h. \<exists>e. map_of cache (rh_id h) = Some e \<and> h' = h\<lparr>rh_diagnostics := cd_value e\<rparr>) hs' hs"
  using assms
proof (induction hs)
  case (Cons h hs)
  from Cons.prems obtain e where "map_of cache (rh_id h) = Some e" by auto
  moreover obtain hs' where "attach_diagnostics cache hs = Some hs'"
    "list_all2 (\<lambda>h' h. \<exists>e. map_of cache (rh_id h) = Some e \<and> h' = h\<lparr>rh_diagnostics := cd_value e\<rparr>) hs' hs"
    using Cons.IH[OF Cons.prems[OF list.set_intros(2)]] by blast
  ultimately show ?case by simp
qed simp

text \<open>What a turn may show of a peer: its entry, or what the gateway just answered.\<close>

definition just_answered :: "turn_input \<Rightarrow> net_peer \<Rightarrow> remote_network_diagnostics \<Rightarrow> bool" where
  "just_answered i p v \<longleftrightarrow> (\<exists>d rates. ti_query i (pe_host p) = (0, d)
     \<and> v = fst (Observe rates (ConvertDiagnostics (ti_unix_ms i) d) (ti_observed i)))"

definition turn_entry :: "net_lib \<Rightarrow> turn_input \<Rightarrow> net_peer \<Rightarrow> remote_network_diagnostics \<Rightarrow> bool" where
  "turn_entry l i p v \<longleftrightarrow> fresh_entry l p v \<or> Eligibility l p = DIAG_PENDING \<and> just_answered i p v"

lemma Observe_identity:
  "rnd_gateway_boot (fst (Observe h d now)) = rnd_gateway_boot d" "rnd_gateway_session (fst (Observe h d now)) = rnd_gateway_session d"
  by (simp_all add: Observe_def Let_def)

lemma answered_entry:
  assumes "same_generation l target current" and "pe_host current = pe_host target"
  shows "turn_entry l i current (cd_value (answered i target e))"
proof (cases "fst (ti_query i (pe_host target)) = 0")
  case True
  then obtain d where "ti_query i (pe_host target) = (0, d)" by (cases "ti_query i (pe_host target)") simp
  with assms have "just_answered i current (cd_value (answered i target e))"
    by (auto simp: just_answered_def answered_def Let_def)
  with assms show ?thesis by (simp add: turn_entry_def same_generation_def)
next
  case False
  with assms have "fresh_entry l current (cd_value (answered i target e))"
    by (simp add: fresh_entry_def answered_def Let_def Observe_identity identified_def same_generation_def)
  then show ?thesis by (simp add: turn_entry_def)
qed

lemma query_turn_entries:
  assumes "distinct (map pe_host (ti_peers i))" and "distinct (map pe_host (ti_peers_after i))"
    and "query_turn l i ob = (peers, ob')" and "p \<in> set peers"
  shows "\<exists>e. map_of (ob_cache ob') (Key_host (pe_host p)) = Some e \<and> turn_entry l i p (cd_value e)"
proof -
  have fresh: "\<exists>e. map_of (Reconcile l ps c) (Key_host (pe_host q)) = Some e \<and> turn_entry l i q (cd_value e)"
    if "distinct (map pe_host ps)" "q \<in> set ps" for ps c q
    using Reconcile_fresh[OF that] by (auto simp: turn_entry_def)
  let ?cache = "Reconcile l (ti_peers i) (ob_cache ob)"
  let ?sorted = "sort_key (\<lambda>p. Key_host (pe_host p)) (ti_peers i)"
  show ?thesis
  proof (cases "select_peer l ?cache (ob_cursor ob) (ti_select_now i) ?sorted None")
    case None
    with assms(3,4) fresh[OF assms(1)] show ?thesis by (auto simp: query_turn_def Let_def)
  next
    case (Some target)
    show ?thesis
    proof (cases "ti_query_error i = 0")
      case False
      with Some assms(3,4) fresh[OF assms(1)] show ?thesis by (auto simp: query_turn_def Let_def)
    next
      case True
      let ?after = "Reconcile l (ti_peers_after i) ?cache"
      have p: "p \<in> set (ti_peers_after i)" using True Some assms(3,4) by (auto simp: query_turn_def Let_def)
      show ?thesis
      proof (cases "\<exists>c. List.find (\<lambda>p. pe_host p = pe_host target) (ti_peers_after i) = Some c \<and> same_generation l target c")
        case True': True
        then obtain c where c: "List.find (\<lambda>p. pe_host p = pe_host target) (ti_peers_after i) = Some c" "same_generation l target c"
          by blast
        from find_Some_D[OF c(1)] have host: "c \<in> set (ti_peers_after i)" "pe_host c = pe_host target" by auto
        show ?thesis
        proof (cases "p = c")
          case eq: True
          with c host answered_entry[OF c(2) host(2)] True Some assms(3) show ?thesis by (auto simp: query_turn_def Let_def)
        next
          case False
          with p host assms(2) have "pe_host p \<noteq> pe_host target" by (metis distinct_map_inj_on)
          with c True Some assms(3) fresh[OF assms(2) p] show ?thesis by (auto simp: query_turn_def Let_def)
        qed
      next
        case False
        then have "ob_cache ob' = ?after" using True Some assms(3) by (auto simp: query_turn_def Let_def split: option.splits)
        with fresh[OF assms(2) p] show ?thesis by simp
      qed
    qed
  qed
qed

lemma list_all2_partner: "list_all2 P xs ys \<Longrightarrow> x \<in> set xs \<Longrightarrow> \<exists>y \<in> set ys. P x y"
  by (induction rule: list_all2_induct) auto

lemma turn_snapshot_shows:
  assumes "distinct (map pe_host (ti_peers i))" and "distinct (map pe_host (ti_peers_after i))"
    and "query_turn l i ob = (peers, ob')"
  shows "\<exists>s. turn_snapshot l own opts i peers (ob_cache ob') = Some s
    \<and> (if ti_error i \<noteq> 0 then ns_hosts s = []
       else map rh_id (ns_hosts s) = sort (map (\<lambda>p. Key_host (pe_host p)) peers)
         \<and> (\<forall>h \<in> set (ns_hosts s). \<exists>p \<in> set peers. shows_peer h p \<and> turn_entry l i p (rh_diagnostics h)))"
proof -
  obtain s where s: "Convert l (ti_age_now i) peers (ti_error i) = Some s" and "if ti_error i \<noteq> 0 then ns_hosts s = []
     else \<exists>hs. ns_hosts s = sort_key rh_id hs \<and> list_all2 shows_peer hs peers"
    using Convert_total by blast
  then have hosts: "if ti_error i \<noteq> 0 then ns_hosts s = []
     else \<exists>hs. ns_hosts s = sort_key rh_id hs \<and> list_all2 shows_peer hs peers" by simp
  have entry: "\<exists>p \<in> set peers. shows_peer h p \<and> (\<exists>e. map_of (ob_cache ob') (rh_id h) = Some e \<and> turn_entry l i p (cd_value e))"
    if "h \<in> set (ns_hosts s)" for h
  proof -
    from that hosts obtain p where "p \<in> set peers" "shows_peer h p"
      by (auto split: if_splits dest: list_all2_partner)
    with query_turn_entries[OF assms] show ?thesis by (auto simp: shows_peer_def)
  qed
  then obtain hs' where hs': "attach_diagnostics (ob_cache ob') (ns_hosts s) = Some hs'"
    and all: "list_all2 (\<lambda>h' h. \<exists>e. map_of (ob_cache ob') (rh_id h) = Some e \<and> h' = h\<lparr>rh_diagnostics := cd_value e\<rparr>) hs' (ns_hosts s)"
    using attach_total[of "ns_hosts s" "ob_cache ob'"] by blast
  have "\<exists>p \<in> set peers. shows_peer h' p \<and> turn_entry l i p (rh_diagnostics h')" if h': "h' \<in> set hs'" for h'
  proof -
    from list_all2_partner[OF all h'] obtain h e where
      "h \<in> set (ns_hosts s)" "map_of (ob_cache ob') (rh_id h) = Some e" "h' = h\<lparr>rh_diagnostics := cd_value e\<rparr>" by blast
    with entry[of h] show ?thesis by (auto simp: shows_peer_def)
  qed
  moreover have ids: "map rh_id hs' = map rh_id (ns_hosts s)"
    using all by (auto simp: list_all2_conv_all_nth list_eq_iff_nth_eq)
  moreover have "map rh_id (ns_hosts s) = sort (map (\<lambda>p. Key_host (pe_host p)) peers)" if "ti_error i = 0"
  proof -
    from hosts that obtain hs where h: "ns_hosts s = sort_key rh_id hs" "list_all2 shows_peer hs peers" by auto
    then have "map rh_id hs = map (\<lambda>p. Key_host (pe_host p)) peers"
      by (auto simp: list_all2_conv_all_nth list_eq_iff_nth_eq shows_peer_def)
    then have "mset (map rh_id (sort_key rh_id hs)) = mset (map (\<lambda>p. Key_host (pe_host p)) peers)" by (metis mset_map mset_sort)
    moreover have "sorted (map rh_id (sort_key rh_id hs))" by simp
    ultimately show ?thesis using h by (metis properties_for_sort)
  qed
  moreover have "ns_hosts s = [] \<Longrightarrow> hs' = []" using hs' by simp
  ultimately show ?thesis
    using s hs' hosts by (auto simp: turn_snapshot_def Let_def)
qed

section \<open>Fairness\<close>

definition peer_key :: "net_peer \<Rightarrow> string" where
  "peer_key p = Key_host (pe_host p)"

definition due_until :: "diagnostics_cache \<Rightarrow> string \<Rightarrow> int \<Rightarrow> bool" where
  "due_until cache h n \<longleftrightarrow> (\<forall>e. map_of cache h = Some e \<longrightarrow> cd_next e \<le> n)"

lemma select_after:
  assumes "sorted (map peer_key ps)" and "\<exists>p \<in> set ps. peer_key p = h" and "\<forall>p \<in> set ps. peer_key p = h \<longrightarrow> Eligibility l p = DIAG_PENDING"
    and "due_until cache h n" and "0 \<le> n" and "\<forall>j. n \<le> now j" and "cursor < h"
  shows "\<exists>t \<in> set ps. select_peer l cache cursor now ps sel = Some t \<and> cursor < peer_key t \<and> peer_key t \<le> h"
  using assms(1-3,6)
proof (induction ps arbitrary: now sel)
  case (Cons p ps)
  show ?case
  proof (cases "peer_key p = h")
    case True
    with Cons.prems assms(4,5,7) have "select_peer l cache cursor now (p # ps) sel = Some p"
      by (auto simp: peer_key_def due_until_def split: option.split intro: order_trans)
    with True assms(7) show ?thesis by auto
  next
    case False
    then have "\<exists>q \<in> set ps. peer_key q = h" using Cons.prems by auto
    moreover have "peer_key p \<le> h" using Cons.prems(1) calculation by auto
    moreover note Cons.IH[of "\<lambda>i. now (Suc i)" sel] Cons.IH[of "\<lambda>i. now (Suc i)" "if sel = None then Some p else sel"]
    ultimately show ?thesis using Cons.prems by (auto simp: peer_key_def)
  qed
qed simp

lemma select_keeps:
  "select_peer l cache cursor now ps (Some s) = Some s
   \<or> (\<exists>t \<in> set ps. select_peer l cache cursor now ps (Some s) = Some t \<and> cursor < peer_key t)"
  by (induction ps arbitrary: now) (auto simp: peer_key_def)

lemma select_first:
  assumes "sorted (map peer_key ps)" and "\<exists>p \<in> set ps. peer_key p = h" and "\<forall>p \<in> set ps. peer_key p = h \<longrightarrow> Eligibility l p = DIAG_PENDING"
    and "due_until cache h n" and "0 \<le> n" and "\<forall>j. n \<le> now j"
  shows "\<exists>t \<in> set ps. select_peer l cache cursor now ps None = Some t \<and> (cursor < peer_key t \<or> peer_key t \<le> h)"
  using assms(1-3,6)
proof (induction ps arbitrary: now)
  case (Cons p ps)
  have rest: "\<exists>t \<in> set (p # ps). select_peer l cache cursor (\<lambda>i. now (Suc i)) ps (Some p) = Some t \<and> (cursor < peer_key t \<or> peer_key t \<le> h)"
    if "peer_key p \<le> h"
    using select_keeps[of l cache cursor "\<lambda>i. now (Suc i)" ps p] that by auto
  show ?case
  proof (cases "peer_key p = h")
    case True
    with Cons.prems assms(4,5)
    have "Eligibility l p = DIAG_PENDING \<and> (case map_of cache (Key_host (pe_host p)) of None \<Rightarrow> 0 | Some e \<Rightarrow> cd_next e) \<le> now 0"
      by (auto simp: peer_key_def due_until_def split: option.split intro: order_trans)
    with rest True show ?thesis by (auto simp: peer_key_def)
  next
    case False
    then have q: "\<exists>q \<in> set ps. peer_key q = h" using Cons.prems by auto
    moreover have "peer_key p \<le> h" using Cons.prems(1) q by auto
    moreover note Cons.IH[of "\<lambda>i. now (Suc i)"]
    ultimately show ?thesis using Cons.prems rest by (auto simp: peer_key_def)
  qed
qed simp

text \<open>The host that a turn queries, and the state after some turns.\<close>

definition queried :: "net_lib \<Rightarrow> turn_input \<Rightarrow> observer \<Rightarrow> net_peer option" where
  "queried l i ob = (if ti_query_error i \<noteq> 0 then None
     else select_peer l (Reconcile l (ti_peers i) (ob_cache ob)) (ob_cursor ob) (ti_select_now i)
       (sort_key (\<lambda>p. Key_host (pe_host p)) (ti_peers i)) None)"

definition turns :: "net_lib \<Rightarrow> turn_input list \<Rightarrow> observer \<Rightarrow> observer" where
  "turns l is ob = fold (\<lambda>i ob. snd (query_turn l i ob)) is ob"

lemma due_reconcile:
  assumes "due_until c h n" and "0 \<le> n"
  shows "due_until (Reconcile l ps c) h n"
proof -
  have "due_until (fold (reconcile_peer l) ps c) h n" if "due_until c h n" for c
    using that
  proof (induction ps arbitrary: c)
    case (Cons p ps)
    have "due_until (reconcile_peer l p c) h n"
      using Cons.prems assms(2) by (auto simp: due_until_def reconcile_peer_lookup Let_def cached_diagnostics0_def split: option.splits)
    then show ?case using Cons.IH by simp
  qed simp
  moreover have "due_until (filter (\<lambda>entry. \<exists>p \<in> set ps. Key_host (pe_host p) = fst entry) c) h n"
    using assms(1) map_of_filter_key[of "\<lambda>k. \<exists>p \<in> set ps. Key_host (pe_host p) = k" c h] by (auto simp: due_until_def)
  ultimately show ?thesis by (simp add: Reconcile_def)
qed

lemma query_turn_due:
  assumes "due_until (ob_cache ob) h n" and "0 \<le> n" and "\<forall>t. queried l i ob = Some t \<longrightarrow> peer_key t \<noteq> h"
  shows "due_until (ob_cache (snd (query_turn l i ob))) h n"
proof -
  have put: "due_until (om_put k e c) h n" if "due_until c h n" "k \<noteq> h" for c k e
    using that by (auto simp: due_until_def)
  let ?cache = "Reconcile l (ti_peers i) (ob_cache ob)"
  have 1: "due_until ?cache h n" by (rule due_reconcile[OF assms(1,2)])
  have 2: "due_until (Reconcile l (ti_peers_after i) ?cache) h n" by (rule due_reconcile[OF 1 assms(2)])
  let ?sel = "select_peer l ?cache (ob_cursor ob) (ti_select_now i) (sort_key (\<lambda>p. Key_host (pe_host p)) (ti_peers i)) None"
  show ?thesis
  proof (cases "ti_query_error i = 0")
    case False
    then have "ob_cache (snd (query_turn l i ob)) = ?cache" unfolding query_turn_def Let_def by (cases ?sel) simp_all
    with 1 show ?thesis by simp
  next
    case ok: True
    show ?thesis
    proof (cases ?sel)
      case None
      then have "ob_cache (snd (query_turn l i ob)) = ?cache" unfolding query_turn_def Let_def by simp
      with 1 show ?thesis by simp
    next
      case (Some t)
      then have "queried l i ob = Some t" using ok by (simp add: queried_def)
      with assms(3) have "Key_host (pe_host t) \<noteq> h" by (simp add: peer_key_def)
      note put' = put[OF 2 this]
      have "due_until (case List.find (\<lambda>p. pe_host p = pe_host t) (ti_peers_after i) of None \<Rightarrow> Reconcile l (ti_peers_after i) ?cache
          | Some c \<Rightarrow> if same_generation l t c then om_put (Key_host (pe_host t)) (e c) (Reconcile l (ti_peers_after i) ?cache)
              else Reconcile l (ti_peers_after i) ?cache) h n" for e
        using 2 put' by (cases "List.find (\<lambda>p. pe_host p = pe_host t) (ti_peers_after i)") simp_all
      with Some ok show ?thesis unfolding query_turn_def Let_def by simp
    qed
  qed
qed

text \<open>How many keys lie on the way from the cursor to a key, going round.\<close>

definition distance :: "'k::linorder set \<Rightarrow> 'k \<Rightarrow> 'k \<Rightarrow> nat" where
  "distance K cursor h = (if cursor < h then card {k \<in> K. cursor < k \<and> k \<le> h} else card {k \<in> K. cursor < k} + card {k \<in> K. k \<le> h})"

lemma distance_bound:
  assumes "finite K"
  shows "distance K cursor h \<le> card K"
proof (cases "cursor < h")
  case False
  then have "{k \<in> K. cursor < k} \<inter> {k \<in> K. k \<le> h} = {}" by auto
  then have "card {k \<in> K. cursor < k} + card {k \<in> K. k \<le> h} = card ({k \<in> K. cursor < k} \<union> {k \<in> K. k \<le> h})"
    using assms by (simp add: card_Un_disjoint)
  also have "\<dots> \<le> card K" using assms by (intro card_mono) auto
  finally show ?thesis using False by (simp add: distance_def)
qed (use assms in \<open>auto simp: distance_def intro: card_mono\<close>)

lemma distance_step:
  assumes "finite K" and "t \<in> K" and "h \<in> K" and "t \<noteq> h"
    and "cursor < h \<Longrightarrow> cursor < t \<and> t \<le> h" and "\<not> cursor < h \<Longrightarrow> cursor < t \<or> t \<le> h"
  shows "distance K t h < distance K cursor h"
proof (cases "cursor < h")
  case True
  with assms have "t \<in> {k \<in> K. cursor < k \<and> k \<le> h} - {k \<in> K. t < k \<and> k \<le> h}"
    "{k \<in> K. t < k \<and> k \<le> h} \<subseteq> {k \<in> K. cursor < k \<and> k \<le> h}" by auto
  then have "{k \<in> K. t < k \<and> k \<le> h} \<subset> {k \<in> K. cursor < k \<and> k \<le> h}" by blast
  then have "card {k \<in> K. t < k \<and> k \<le> h} < card {k \<in> K. cursor < k \<and> k \<le> h}" using assms(1) by (intro psubset_card_mono) auto
  with True assms show ?thesis by (auto simp: distance_def)
next
  case False
  show ?thesis
  proof (cases "t < h")
    case True
    have "t \<in> {k \<in> K. k \<le> h} - {k \<in> K. t < k \<and> k \<le> h}" using True assms(2) by simp
    then have "{k \<in> K. t < k \<and> k \<le> h} \<subset> {k \<in> K. k \<le> h}" by blast
    then have "card {k \<in> K. t < k \<and> k \<le> h} < card {k \<in> K. k \<le> h}" using assms(1) by (intro psubset_card_mono) auto
    with True False show ?thesis by (simp add: distance_def)
  next
    case t: False
    then have "cursor < t" using False assms(4,6) by auto
    then have "t \<in> {k \<in> K. cursor < k} - {k \<in> K. t < k}" "{k \<in> K. t < k} \<subseteq> {k \<in> K. cursor < k}" using assms(2) by auto
    then have "{k \<in> K. t < k} \<subset> {k \<in> K. cursor < k}" by blast
    then have "card {k \<in> K. t < k} < card {k \<in> K. cursor < k}" using assms(1) by (intro psubset_card_mono) auto
    with t False show ?thesis by (simp add: distance_def)
  qed
qed

text \<open>Turns in which a host is there, eligible and due, and discovery works.\<close>

definition waiting :: "net_lib \<Rightarrow> string set \<Rightarrow> string \<Rightarrow> int \<Rightarrow> turn_input \<Rightarrow> bool" where
  "waiting l K h n i \<longleftrightarrow> ti_query_error i = 0 \<and> (\<forall>j. n \<le> ti_select_now i j) \<and> peer_key ` set (ti_peers i) \<subseteq> K
     \<and> h \<in> peer_key ` set (ti_peers i) \<and> (\<forall>p \<in> set (ti_peers i). peer_key p = h \<longrightarrow> Eligibility l p = DIAG_PENDING)"

lemma waiting_step:
  assumes "waiting l K h n i" and "finite K" and "due_until (ob_cache ob) h n" and "0 \<le> n"
    and "\<forall>t. queried l i ob = Some t \<longrightarrow> peer_key t \<noteq> h"
  shows "distance K (ob_cursor (snd (query_turn l i ob))) h < distance K (ob_cursor ob) h"
proof -
  let ?cache = "Reconcile l (ti_peers i) (ob_cache ob)"
  let ?ps = "sort_key (\<lambda>p. Key_host (pe_host p)) (ti_peers i)"
  have sorted: "sorted (map peer_key ?ps)" by (simp add: peer_key_def[abs_def])
  note ready = sorted _ _ due_reconcile[OF assms(3,4), of l "ti_peers i"] assms(4)
  have there: "\<exists>p \<in> set ?ps. peer_key p = h" "\<forall>p \<in> set ?ps. peer_key p = h \<longrightarrow> Eligibility l p = DIAG_PENDING"
    "\<forall>j. n \<le> ti_select_now i j"
    using assms(1) by (auto simp: waiting_def)
  obtain t where t: "t \<in> set ?ps" "select_peer l ?cache (ob_cursor ob) (ti_select_now i) ?ps None = Some t"
    "ob_cursor ob < h \<Longrightarrow> ob_cursor ob < peer_key t \<and> peer_key t \<le> h"
    "\<not> ob_cursor ob < h \<Longrightarrow> ob_cursor ob < peer_key t \<or> peer_key t \<le> h"
    using select_after[OF ready(1) there(1,2) ready(4,5) there(3)] select_first[OF ready(1) there(1,2) ready(4,5) there(3)]
    by (cases "ob_cursor ob < h") blast+
  have "queried l i ob = Some t" using t(2) assms(1) by (simp add: queried_def waiting_def)
  then have "peer_key t \<noteq> h" using assms(5) by blast
  moreover have "ob_cursor (snd (query_turn l i ob)) = peer_key t"
    using t(2) assms(1) by (simp add: query_turn_def Let_def waiting_def peer_key_def)
  moreover have "peer_key t \<in> K" "h \<in> K" using t(1) assms(1) by (auto simp: waiting_def)
  ultimately show ?thesis using distance_step[OF assms(2)] t(3,4) by simp
qed

lemma waiting_turns:
  assumes "finite K" and "0 \<le> n" and "\<forall>i \<in> set is. waiting l K h n i" and "due_until (ob_cache ob) h n"
    and "\<forall>j < length is. \<forall>t. queried l (is ! j) (turns l (take j is) ob) = Some t \<longrightarrow> peer_key t \<noteq> h"
  shows "distance K (ob_cursor (turns l is ob)) h + length is \<le> distance K (ob_cursor ob) h"
  using assms(3-5)
proof (induction "is" arbitrary: ob)
  case (Cons i "is")
  let ?ob = "snd (query_turn l i ob)"
  have now: "\<forall>t. queried l i ob = Some t \<longrightarrow> peer_key t \<noteq> h" using Cons.prems(3) by (auto simp: turns_def)
  have later: "\<forall>j < length is. \<forall>t. queried l (is ! j) (turns l (take j is) ?ob) = Some t \<longrightarrow> peer_key t \<noteq> h"
  proof (intro allI impI)
    fix j t assume "j < length is" "queried l (is ! j) (turns l (take j is) ?ob) = Some t"
    then show "peer_key t \<noteq> h" using Cons.prems(3)[rule_format, of "Suc j" t] by (simp add: turns_def)
  qed
  have "distance K (ob_cursor ?ob) h < distance K (ob_cursor ob) h"
    using Cons.prems assms(1,2) now by (intro waiting_step) auto
  moreover have "distance K (ob_cursor (turns l is ?ob)) h + length is \<le> distance K (ob_cursor ?ob) h"
    using Cons.prems later query_turn_due[OF Cons.prems(2) assms(2) now] by (intro Cons.IH) auto
  ultimately show ?case by (simp add: turns_def)
qed (simp add: turns_def)

lemma distance_pos: "finite K \<Longrightarrow> h \<in> K \<Longrightarrow> 0 < distance K cursor h"
  by (auto simp: distance_def card_gt_0_iff)

section \<open>Host identities\<close>

definition lower_hex :: "char \<Rightarrow> char" where
  "lower_hex c = hex_char (nat (hex_digit c))"

lemma hex_pair:
  assumes "0 \<le> hex_digit a" and "0 \<le> hex_digit b"
  shows "hex_bytes (word_of_int (hex_digit a * 16 + hex_digit b) # bs) = lower_hex a # lower_hex b # hex_bytes bs"
proof -
  let ?n = "nat (hex_digit a * 16 + hex_digit b)"
  have range: "hex_digit a < 16" "hex_digit b < 16" using hex_digit_range by auto
  have "unat (word_of_int (hex_digit a * 16 + hex_digit b) :: u8) = nat (take_bit 8 (hex_digit a * 16 + hex_digit b))"
    by (simp only: unat_eq_nat_uint uint_word_of_int_eq) simp
  also have "\<dots> = ?n" using assms range by (simp add: take_bit_int_eq_self)
  finally have "unat (word_of_int (hex_digit a * 16 + hex_digit b) :: u8) = ?n" .
  moreover have "?n div 16 = nat (hex_digit a)" "?n mod 16 = nat (hex_digit b)"
    using assms range by (simp_all add: nat_add_distrib nat_mult_distrib)
  ultimately show ?thesis by (simp add: hex_bytes_Cons lower_hex_def)
qed

lemma parse_host_bytes_spec:
  "even (length s) \<Longrightarrow>
    (if list_all (\<lambda>c. 0 \<le> hex_digit c) s then \<exists>bs. parse_host_bytes s = Inr bs \<and> hex_bytes bs = map lower_hex s
     else parse_host_bytes s = Inl ''Invalid Host ID'')"
proof (induction s rule: parse_host_bytes.induct)
  case (1 a b s)
  then show ?case by (auto simp: hex_pair not_less simp del: of_int_add of_int_mult)
qed (simp_all add: hex_bytes_def)

section \<open>Properties\<close>

text \<open>
  C13. A turn of the worker always produces a snapshot: every lookup that would throw finds its entry. The
  snapshot lists exactly the peers, in the order of their identities (or nobody when discovery failed),
  and the diagnostics of a host are those of its present boot and session, or the answer of this turn;
  a host that is offline, incompatible or without the capability shows that and no routes.
\<close>

theorem network_turn_shows:
  assumes "distinct (map pe_host (ti_peers i))" and "distinct (map pe_host (ti_peers_after i))"
  shows "case observer_turn l own opts i ob of
      (None, ob') \<Rightarrow> False
    | (Some s, ob') \<Rightarrow> if ti_error i \<noteq> 0 then ns_hosts s = []
        else map rh_id (ns_hosts s) = sort (map (\<lambda>p. Key_host (pe_host p)) (fst (query_turn l i ob)))
          \<and> (\<forall>h \<in> set (ns_hosts s). \<exists>p \<in> set (fst (query_turn l i ob)). shows_peer h p \<and> turn_entry l i p (rh_diagnostics h))"
proof -
  obtain peers ob' where q: "query_turn l i ob = (peers, ob')" by fastforce
  with turn_snapshot_shows[OF assms q, of own opts] show ?thesis by (auto simp: observer_turn_def Let_def)
qed

text \<open>
  C26. No host starves: one that stays listed and eligible and whose next query is due is queried within
  as many turns as there are hosts, whatever the others do.
\<close>

theorem no_host_starves:
  assumes "finite K" and "0 \<le> n" and "\<forall>i \<in> set is. waiting l K h n i" and "due_until (ob_cache ob) h n" and "card K \<le> length is"
    and "is \<noteq> []"
  shows "\<exists>j < length is. \<exists>t. queried l (is ! j) (turns l (take j is) ob) = Some t \<and> peer_key t = h"
proof (rule ccontr)
  assume "\<not> ?thesis"
  then have "distance K (ob_cursor (turns l is ob)) h + length is \<le> distance K (ob_cursor ob) h"
    using assms(1-4) by (intro waiting_turns) auto
  moreover have "h \<in> K" using assms(3,6) by (cases "is") (auto simp: waiting_def)
  ultimately show False
    using distance_bound[OF assms(1), of "ob_cursor ob" h] distance_pos[OF assms(1), of h "ob_cursor (turns l is ob)"] assms(5)
    by linarith
qed

text \<open>
  A configured host identity is accepted exactly when it is 32 hexadecimal digits of either case and
  not zero, and then it is printed back in lower case; the empty one stands for a random identity.
\<close>

theorem host_id_exact:
  "configured_host random s = Inr bs \<longleftrightarrow>
    (if s = [] then bs = random
     else length s = 32 \<and> list_all (\<lambda>c. 0 \<le> hex_digit c) s \<and> Key_host bs = map lower_hex s \<and> list_ex (\<lambda>b. b \<noteq> 0) bs)"
proof (cases "length s = 32")
  case True
  then have even: "even (length s)" by simp
  have nz: "list_all (\<lambda>b. b = 0) bs \<longleftrightarrow> \<not> list_ex (\<lambda>b. b \<noteq> 0) bs" for bs :: bytes
    by (auto simp: list_all_iff list_ex_iff)
  show ?thesis
  proof (cases "list_all (\<lambda>c. 0 \<le> hex_digit c) s")
    case hex: True
    then obtain cs where cs: "parse_host_bytes s = Inr cs" "hex_bytes cs = map lower_hex s"
      using parse_host_bytes_spec[OF even] by auto
    have "Key_host bs = map lower_hex s \<longleftrightarrow> bs = cs" using cs(2) by (metis Key_host_def hex_bytes_inject)
    with True hex cs show ?thesis by (auto simp: configured_host_def nz)
  next
    case False
    with parse_host_bytes_spec[OF even] True show ?thesis by (auto simp: configured_host_def)
  qed
qed (auto simp: configured_host_def)

text \<open>
  The identifiers of hosts, runtimes and endpoints in a snapshot are equal only for the same host,
  runtime or endpoint.
\<close>

theorem network_ids_unique:
  "(Key_host a = Key_host b \<longleftrightarrow> a = b) \<and> (Key_runtime r = Key_runtime q \<longleftrightarrow> r = q) \<and> (Key_endpoint i = Key_endpoint j \<longleftrightarrow> i = j)"
  by simp

section \<open>Witnesses\<close>

definition sample_lib :: net_lib where
  "sample_lib = \<lparr>nl_peer = (\<lambda>p. 0), nl_endpoint = (\<lambda>p q e c. 1), nl_compatible = (\<lambda>r. r = 0), nl_reason = (\<lambda>r. ''schema'')\<rparr>"

definition sample_peer :: "u8 \<Rightarrow> net_peer" where
  "sample_peer b = \<lparr>pe_host = replicate 16 b, pe_boot = replicate 16 1, pe_session = 4, pe_address = ''10.0.0.2'', pe_port = 37651,
     pe_state = PEER_ONLINE, pe_metadata_ready = True, pe_metadata_revision = 1, pe_last_seen = 0,
     pe_profile = \<lparr>np_framework = (5, 5, 0), np_network = (1, 0), np_capabilities = 1024\<rparr>, pe_compatibility = 0, pe_endpoints = []\<rparr>"

definition sample_turn :: turn_input where
  "sample_turn = \<lparr>ti_peers = [sample_peer 2, sample_peer 3], ti_select_now = (\<lambda>j. 5), ti_query_error = 0,
     ti_query = (\<lambda>h. (- ETIMEDOUT, \<lparr>nd_truncated = False, nd_gateway_host = h, nd_gateway_boot = h, nd_gateway_session = 4,
       nd_total_routes = 0, nd_routes = []\<rparr>)), ti_observed = 6, ti_peers_after = [sample_peer 3], ti_answer_now = 7, ti_unix_ms = 1,
     ti_age_now = (\<lambda>j. 8), ti_error = 0, ti_executor_error = 0\<rparr>"

definition sample_observer :: observer where
  "sample_observer = \<lparr>ob_cache = [], ob_cursor = []\<rparr>"

lemma sample_waiting: "waiting sample_lib {Key_host (replicate 16 2), Key_host (replicate 16 3)} (Key_host (replicate 16 3)) 5 sample_turn"
  by (simp add: waiting_def sample_turn_def sample_peer_def peer_key_def Eligibility_def sample_lib_def bit_numeral_word_iff)

theorem no_host_starves_witness:
  "\<exists>j < 2. \<exists>t. queried sample_lib ([sample_turn, sample_turn] ! j) (turns sample_lib (take j [sample_turn, sample_turn]) sample_observer) = Some t
     \<and> peer_key t = Key_host (replicate 16 3)"
  using no_host_starves[of "{Key_host (replicate 16 2), Key_host (replicate 16 3)}" 5 "[sample_turn, sample_turn]" sample_lib
      "Key_host (replicate 16 3)" sample_observer] sample_waiting
  by (simp add: due_until_def sample_observer_def card_insert_if numeral_2_eq_2)

theorem network_turn_shows_witness:
  "case observer_turn sample_lib [1] network_options0 sample_turn sample_observer of
      (None, ob') \<Rightarrow> False
    | (Some s, ob') \<Rightarrow> map rh_id (ns_hosts s) = sort (map (\<lambda>p. Key_host (pe_host p)) (fst (query_turn sample_lib sample_turn sample_observer)))"
proof -
  have "distinct (map pe_host (ti_peers sample_turn))" "distinct (map pe_host (ti_peers_after sample_turn))" "ti_error sample_turn = 0"
    by (simp_all add: sample_turn_def sample_peer_def)
  with network_turn_shows[where i = sample_turn and l = sample_lib and own = "[1]" and opts = network_options0 and ob = sample_observer] show ?thesis
    by (auto split: prod.splits option.splits)
qed

end
