(* ===== verification/RemoteRuntime.thy ===== *)
theory RemoteRuntime
  imports NetworkBackend ValueCodec
begin

text \<open>
  \<open>src/backend/remote_runtime.cpp\<close> and the class \<open>RemoteRuntime\<close> of \<open>src/backend/remote_runtime.hpp\<close>: one
  command of the tool to another host. The control and topic clients are the functions of a
  \<open>remote_lib\<close>, of the number of the call (\<open>rn_time\<close>); a call may throw (\<open>rl_throws\<close>). What is sent to
  another host is logged in \<open>rn_log\<close>, also when the call throws.
\<close>

section \<open>Library data\<close>

datatype descriptor_role = DR_VALUE | DR_REQUEST | DR_RESPONSE | DR_FEEDBACK
datatype remote_topic_state = RT_CLOSED | RT_ERROR | RT_LOST | RT_STALE | RT_Other int

record action_snapshot =
  as_accepted :: bool
  as_terminal :: bool
  as_state :: int
  as_error :: int
  as_communication_lost :: bool
  as_execution_unknown :: bool
  as_cancel_unknown :: bool
  as_cancel_accepted :: bool
  as_feedback_sequence :: u64
  as_feedback :: bytes
  as_result :: bytes

record topic_snapshot =
  ts_state :: remote_topic_state
  ts_error :: int
  ts_sequence :: u64
  ts_packets_received :: u64
  ts_route_id :: u64
  ts_has_value :: bool
  ts_descriptor :: type_descriptor
  ts_payload :: bytes

record control_result =
  cr_error :: int
  cr_response_received :: bool
  cr_execution_unknown :: bool
  cr_cancel_unknown :: bool
  cr_accepted :: bool
  cr_value :: bytes
  cr_handle :: "nat option"

record remote_target =
  rg_identity :: net_identity
  rg_session :: u64
  rg_name :: string

datatype remote_effect =
  SentSet remote_target remote_type_identity bytes
| SentCall remote_target remote_type_identity remote_type_identity bytes
| SentGoal remote_target remote_type_identity remote_type_identity remote_type_identity bytes u32
| SentCancel nat
| SentSubscribe remote_target remote_type_identity
| SentUnsubscribe nat

record remote_lib =
  rl_throws :: "nat \<Rightarrow> bool"
  rl_valid :: "type_descriptor \<Rightarrow> bool"
  rl_compatible :: "nat \<Rightarrow> bool"
  rl_topic_code :: "remote_topic_state \<Rightarrow> int"
  rl_wire_type :: "type_descriptor \<Rightarrow> int \<times> remote_type_identity"
  rl_decode_value :: "type_descriptor \<Rightarrow> bytes \<Rightarrow> int \<times> dynamic_payload"
  rl_encode_value :: "type_descriptor \<Rightarrow> dynamic_payload \<Rightarrow> int \<times> bytes"
  rl_peers :: "nat \<Rightarrow> net_peer list"
  rl_now :: "nat \<Rightarrow> int"
  rl_descriptor :: "nat \<Rightarrow> remote_target \<Rightarrow> descriptor_role \<Rightarrow> remote_type_identity \<Rightarrow> u32 \<Rightarrow> int \<times> type_descriptor"
  rl_get :: "nat \<Rightarrow> remote_target \<Rightarrow> remote_type_identity \<Rightarrow> u32 \<Rightarrow> int \<times> bytes"
  rl_set :: "nat \<Rightarrow> remote_target \<Rightarrow> remote_type_identity \<Rightarrow> bytes \<Rightarrow> u32 \<Rightarrow> control_result"
  rl_service :: "nat \<Rightarrow> remote_target \<Rightarrow> remote_type_identity \<Rightarrow> remote_type_identity \<Rightarrow> bytes \<Rightarrow> u32 \<Rightarrow> control_result"
  rl_start :: "nat \<Rightarrow> remote_target \<Rightarrow> remote_type_identity \<Rightarrow> remote_type_identity \<Rightarrow> remote_type_identity \<Rightarrow> bytes \<Rightarrow> u32 \<Rightarrow> u32 \<Rightarrow> control_result"
  rl_cancel :: "nat \<Rightarrow> nat \<Rightarrow> u32 \<Rightarrow> control_result"
  rl_subscribe :: "nat \<Rightarrow> remote_target \<Rightarrow> remote_type_identity \<Rightarrow> u32 \<Rightarrow> int \<times> nat"
  rl_unsubscribe :: "nat \<Rightarrow> nat \<Rightarrow> int"
  rl_action :: "nat \<Rightarrow> nat \<Rightarrow> action_snapshot"
  rl_topic :: "nat \<Rightarrow> nat \<Rightarrow> topic_snapshot"

section \<open>State\<close>

record remote_action =
  ac_endpoint :: remote_endpoint
  ac_feedback :: type_descriptor
  ac_result :: type_descriptor
  ac_handle :: nat

record remote_topic =
  tp_endpoint :: remote_endpoint
  tp_handle :: nat

text \<open>\<open>rn_next\<close> is the static counter \<open>next_handle\<close>.\<close>

record remote_runtime =
  rn_error :: int
  rn_actions :: "(u64, remote_action) omap"
  rn_subscriptions :: "(u64, remote_topic) omap"
  rn_next :: u64
  rn_time :: nat
  rn_log :: "remote_effect list"

datatype remote_failure = Call_threw | Codec_undefined

type_synonym 'a rio = "remote_runtime \<Rightarrow> (remote_failure + 'a) \<times> remote_runtime"

definition r_return :: "'a \<Rightarrow> 'a rio" where
  "r_return x s = (Inr x, s)"

definition r_bind :: "'a rio \<Rightarrow> ('a \<Rightarrow> 'b rio) \<Rightarrow> 'b rio" where
  "r_bind m f s = (case m s of (Inl e, s') \<Rightarrow> (Inl e, s') | (Inr x, s') \<Rightarrow> f x s')"

definition r_call :: "remote_lib \<Rightarrow> (nat \<Rightarrow> 'a) \<Rightarrow> 'a rio" where
  "r_call l f s = (if rl_throws l (rn_time s) then Inl Call_threw else Inr (f (rn_time s)), s\<lparr>rn_time := Suc (rn_time s)\<rparr>)"

definition r_send :: "remote_lib \<Rightarrow> remote_effect \<Rightarrow> (nat \<Rightarrow> 'a) \<Rightarrow> 'a rio" where
  "r_send l e f s = (if rl_throws l (rn_time s) then Inl Call_threw else Inr (f (rn_time s)),
     s\<lparr>rn_time := Suc (rn_time s), rn_log := rn_log s @ [e]\<rparr>)"

definition r_get :: "(remote_runtime \<Rightarrow> 'a) \<Rightarrow> 'a rio" where
  "r_get f s = (Inr (f s), s)"

definition r_modify :: "(remote_runtime \<Rightarrow> remote_runtime) \<Rightarrow> unit rio" where
  "r_modify f s = (Inr (), f s)"

text \<open>A function of the codec, as its code and its output parameter, which an error leaves alone.\<close>

definition r_codec :: "'a result \<Rightarrow> 'a \<Rightarrow> (int \<times> 'a) rio" where
  "r_codec r out s = ((case r of Inr x \<Rightarrow> Inr (0, x) | Inl (Errno c) \<Rightarrow> Inr (c, out) | Inl Undefined \<Rightarrow> Inl Codec_undefined), s)"

primrec r_map :: "('a \<Rightarrow> 'b rio) \<Rightarrow> 'a list \<Rightarrow> 'b list rio" where
  "r_map f [] = r_return []"
| "r_map f (x # xs) = r_bind (f x) (\<lambda>y. r_bind (r_map f xs) (\<lambda>ys. r_return (y # ys)))"

section \<open>Helpers\<close>

definition Host :: "string \<Rightarrow> bytes" where
  "Host t = (if length t \<noteq> 32 then replicate 16 0 else case parse_host_bytes t of Inl e \<Rightarrow> replicate 16 0 | Inr bs \<Rightarrow> bs)"

definition Identity :: "remote_endpoint \<Rightarrow> net_identity" where
  "Identity e = \<lparr>ni_runtime = \<lparr>nr_host = Host (rei_host_id (re_identity e)), nr_boot = Host (rei_boot_id (re_identity e)),
       nr_pid = rei_pid (re_identity e), nr_start = rei_start_ticks (re_identity e)\<rparr>,
     ni_registration = rei_registration_id (re_identity e)\<rparr>"

text \<open>The identity, session and name that every request names.\<close>

definition target_of :: "remote_endpoint \<Rightarrow> remote_target" where
  "target_of e = \<lparr>rg_identity = Identity e, rg_session = re_session e, rg_name = re_name e\<rparr>"

definition Remote_Decode :: "remote_lib \<Rightarrow> type_descriptor \<Rightarrow> bytes \<Rightarrow> (int \<times> data_snapshot) rio" where
  "Remote_Decode l d bs =
     (let r = rl_decode_value l d bs
      in if fst r \<noteq> 0 then r_return (fst r, data_snapshot0) else r_codec (Decode (rl_valid l) d (snd r)) data_snapshot0)"

definition Remote_Encode :: "remote_lib \<Rightarrow> type_descriptor \<Rightarrow> data_snapshot \<Rightarrow> (int \<times> bytes) rio" where
  "Remote_Encode l d input =
     r_bind (r_codec (Encode (rl_valid l) d input None) \<lparr>dp_type_id = 0, dp_bytes = [], dp_sequence = 0\<rparr>) (\<lambda>r.
     r_return (if fst r \<noteq> 0 then (fst r, []) else rl_encode_value l d (snd r)))"

fun current_in :: "remote_lib \<Rightarrow> remote_endpoint \<Rightarrow> net_peer list \<Rightarrow> bool" where
  "current_in l e [] = False"
| "current_in l e (p # ps) =
     (if pe_host p = Host (rei_host_id (re_identity e))
      then if pe_state p \<noteq> PEER_ONLINE \<or> pe_boot p \<noteq> Host (rei_boot_id (re_identity e)) \<or> pe_session p \<noteq> re_session e
              \<or> \<not> pe_metadata_ready p \<or> \<not> rl_compatible l (pe_compatibility p)
           then False
           else if \<exists>m \<in> set (pe_endpoints p). en_identity m = Identity e \<and> en_name m = re_name e then True
           else current_in l e ps
      else current_in l e ps)"

definition Current :: "remote_lib \<Rightarrow> remote_endpoint \<Rightarrow> bool rio" where
  "Current l e = r_bind (r_call l (rl_peers l)) (\<lambda>peers. r_return (current_in l e peers))"

definition Descriptor :: "remote_lib \<Rightarrow> remote_endpoint \<Rightarrow> descriptor_role \<Rightarrow> remote_type_identity \<Rightarrow> u32 \<Rightarrow> (int \<times> type_descriptor) rio" where
  "Descriptor l e role type timeout =
     r_bind (r_call l (\<lambda>t. rl_descriptor l t (target_of e) role type timeout)) (\<lambda>q.
     r_return (if fst q \<noteq> 0 then q
       else let a = rl_wire_type l (snd q)
            in (if fst a \<noteq> 0 then fst a else if snd a \<noteq> type then - EPROTOTYPE else 0, snd q)))"

section \<open>Poll\<close>

definition activity0 :: "remote_endpoint \<Rightarrow> remote_activity" where
  "activity0 e = \<lparr>ra_handle = 0, ra_endpoint = e, ra_topic = False, ra_accepted = False, ra_terminal = False,
     ra_communication_lost = False, ra_execution_unknown = False, ra_cancel_unknown = False, ra_cancel_accepted = False,
     ra_has_value = False, ra_state = 0, ra_error = 0, ra_sequence = 0, ra_received_packets = 0, ra_route_id = 0,
     ra_observed_at = 0, ra_feedback = data_snapshot0, ra_result = data_snapshot0\<rparr>"

text \<open>The second operand of \<open>||\<close> is evaluated only when the first is false.\<close>

definition lost_or_stale :: "remote_lib \<Rightarrow> bool \<Rightarrow> remote_endpoint \<Rightarrow> bool rio" where
  "lost_or_stale l lost e = (if lost then r_return True else r_bind (Current l e) (\<lambda>c. r_return (\<not> c)))"

definition poll_feedback :: "remote_lib \<Rightarrow> remote_action \<Rightarrow> action_snapshot \<Rightarrow> remote_activity \<Rightarrow> remote_activity rio" where
  "poll_feedback l a s v =
     (if as_feedback s = [] then r_return v
      else r_bind (Remote_Decode l (ac_feedback a) (as_feedback s)) (\<lambda>r.
        r_return (v\<lparr>ra_feedback := snd r, ra_has_value := (fst r = 0),
          ra_error := (if fst r \<noteq> 0 then fst r else ra_error v)\<rparr>)))"

definition poll_result :: "remote_lib \<Rightarrow> remote_action \<Rightarrow> action_snapshot \<Rightarrow> remote_activity \<Rightarrow> remote_activity rio" where
  "poll_result l a s v =
     (if as_result s = [] then r_return v
      else r_bind (Remote_Decode l (ac_result a) (as_result s)) (\<lambda>r.
        r_return (v\<lparr>ra_result := snd r, ra_error := (if fst r \<noteq> 0 then fst r else ra_error v)\<rparr>)))"

definition poll_action :: "remote_lib \<Rightarrow> u64 \<times> remote_action \<Rightarrow> remote_activity rio" where
  "poll_action l entry =
     (let a = snd entry
      in r_bind (r_call l (\<lambda>t. rl_action l t (ac_handle a))) (\<lambda>s.
         r_bind (lost_or_stale l (as_communication_lost s) (ac_endpoint a)) (\<lambda>lost.
         let v = (activity0 (ac_endpoint a))\<lparr>ra_handle := fst entry, ra_accepted := as_accepted s, ra_terminal := as_terminal s,
               ra_state := as_state s, ra_error := as_error s, ra_communication_lost := lost,
               ra_execution_unknown := as_execution_unknown s, ra_cancel_unknown := as_cancel_unknown s,
               ra_cancel_accepted := as_cancel_accepted s, ra_sequence := as_feedback_sequence s\<rparr>
         in if lost then r_return v else r_bind (poll_feedback l a s v) (poll_result l a s))))"

definition terminal_topic :: "remote_topic_state \<Rightarrow> bool" where
  "terminal_topic s \<longleftrightarrow> s = RT_CLOSED \<or> s = RT_ERROR \<or> s = RT_LOST \<or> s = RT_STALE"

definition poll_topic :: "remote_lib \<Rightarrow> u64 \<times> remote_topic \<Rightarrow> remote_activity rio" where
  "poll_topic l entry =
     (let p = snd entry
      in r_bind (r_call l (\<lambda>t. rl_topic l t (tp_handle p))) (\<lambda>s.
         r_bind (r_call l (rl_now l)) (\<lambda>now.
         r_bind (Current l (tp_endpoint p)) (\<lambda>current.
         let v = (activity0 (tp_endpoint p))\<lparr>ra_topic := True, ra_handle := fst entry, ra_state := rl_topic_code l (ts_state s),
               ra_error := ts_error s, ra_sequence := ts_sequence s, ra_received_packets := ts_packets_received s,
               ra_route_id := ts_route_id s, ra_observed_at := now, ra_communication_lost := \<not> current,
               ra_terminal := terminal_topic (ts_state s)\<rparr>
         in if ts_has_value s \<and> current \<and> \<not> terminal_topic (ts_state s)
            then r_bind (Remote_Decode l (ts_descriptor s) (ts_payload s)) (\<lambda>r.
              r_return (v\<lparr>ra_error := fst r, ra_has_value := (fst r = 0), ra_feedback := (snd r)\<lparr>ds_sequence := ts_sequence s\<rparr>\<rparr>))
            else r_return v))))"

definition Poll :: "remote_lib \<Rightarrow> remote_reply rio" where
  "Poll l =
     r_bind (r_get rn_actions) (\<lambda>actions. r_bind (r_map (poll_action l) actions) (\<lambda>avs.
     r_bind (r_get rn_subscriptions) (\<lambda>topics. r_bind (r_map (poll_topic l) topics) (\<lambda>tvs.
     r_return (remote_reply0\<lparr>rp_activities := avs @ tvs\<rparr>)))))"

section \<open>Execute\<close>

definition remote_error :: "int \<Rightarrow> remote_reply" where
  "remote_error e = remote_reply0\<lparr>rp_error := e\<rparr>"

definition Unsubscribe :: "remote_lib \<Rightarrow> u64 \<Rightarrow> remote_reply rio" where
  "Unsubscribe l handle = r_bind (r_get rn_subscriptions) (\<lambda>subs.
     case map_of subs handle of
       None \<Rightarrow> r_return (remote_error (- ENOENT))
     | Some p \<Rightarrow> r_bind (r_send l (SentUnsubscribe (tp_handle p)) (\<lambda>t. rl_unsubscribe l t (tp_handle p))) (\<lambda>e.
         r_bind (r_modify (\<lambda>s. s\<lparr>rn_subscriptions := om_erase handle (rn_subscriptions s)\<rparr>)) (\<lambda>_.
         r_return (remote_error e))))"

definition Cancel :: "remote_lib \<Rightarrow> remote_command \<Rightarrow> remote_reply rio" where
  "Cancel l c = r_bind (r_get rn_actions) (\<lambda>actions.
     case map_of actions (rc_handle c) of
       None \<Rightarrow> r_return (remote_error (- ESTALE))
     | Some a \<Rightarrow>
         if Identity (ac_endpoint a) \<noteq> Identity (rc_endpoint c) \<or> re_session (ac_endpoint a) \<noteq> re_session (rc_endpoint c)
         then r_return (remote_error (- ESTALE))
         else r_bind (r_send l (SentCancel (ac_handle a)) (\<lambda>t. rl_cancel l t (ac_handle a) (rc_timeout_ms c))) (\<lambda>r.
           r_return (remote_reply0\<lparr>rp_error := cr_error r, rp_response_received := cr_response_received r,
             rp_cancel_unknown := cr_cancel_unknown r, rp_accepted := cr_accepted r\<rparr>)))"

definition Subscribe :: "remote_lib \<Rightarrow> remote_command \<Rightarrow> remote_reply rio" where
  "Subscribe l c =
     (let e = rc_endpoint c
      in r_bind (r_send l (SentSubscribe (target_of e) (re_value_type e))
              (\<lambda>t. rl_subscribe l t (target_of e) (re_value_type e) (rc_timeout_ms c))) (\<lambda>r.
         if fst r \<noteq> 0 then r_return (remote_error (fst r))
         else r_bind (r_modify (\<lambda>s. s\<lparr>rn_next := rn_next s + 1\<rparr>)) (\<lambda>_.
           r_bind (r_get rn_next) (\<lambda>h.
           r_bind (r_modify (\<lambda>s. s\<lparr>rn_subscriptions := om_emplace h \<lparr>tp_endpoint = e, tp_handle = snd r\<rparr> (rn_subscriptions s)\<rparr>)) (\<lambda>_.
           r_return (remote_reply0\<lparr>rp_handle := h\<rparr>))))))"

definition Prepare :: "remote_lib \<Rightarrow> type_descriptor \<Rightarrow> remote_reply rio" where
  "Prepare l input =
     r_bind (r_codec (Decode (rl_valid l) input \<lparr>dp_type_id = td_type_id input, dp_bytes = replicate (td_payload_size input) 0, dp_sequence = 0\<rparr>)
       data_snapshot0) (\<lambda>r. r_return (remote_reply0\<lparr>rp_error := fst r, rp_value := snd r\<rparr>))"

definition Get :: "remote_lib \<Rightarrow> remote_command \<Rightarrow> type_descriptor \<Rightarrow> remote_reply rio" where
  "Get l c input =
     (let e = rc_endpoint c
      in r_bind (r_call l (\<lambda>t. rl_get l t (target_of e) (re_value_type e) (rc_timeout_ms c))) (\<lambda>g.
         let out = remote_reply0\<lparr>rp_error := fst g, rp_response_received := (fst g = 0)\<rparr>
         in if fst g \<noteq> 0 then r_return out
            else r_bind (Remote_Decode l input (snd g)) (\<lambda>r. r_return (out\<lparr>rp_error := fst r, rp_value := snd r\<rparr>))))"

definition Set :: "remote_lib \<Rightarrow> remote_command \<Rightarrow> type_descriptor \<Rightarrow> bytes \<Rightarrow> remote_reply rio" where
  "Set l c input bs =
     (let e = rc_endpoint c
      in r_bind (r_send l (SentSet (target_of e) (re_value_type e) bs)
              (\<lambda>t. rl_set l t (target_of e) (re_value_type e) bs (rc_timeout_ms c))) (\<lambda>r.
         let out = remote_reply0\<lparr>rp_error := cr_error r, rp_execution_unknown := cr_execution_unknown r,
               rp_response_received := cr_response_received r\<rparr>
         in if cr_error r \<noteq> 0 then r_return out
            else r_bind (r_call l (\<lambda>t. rl_get l t (target_of e) (re_value_type e) (rc_timeout_ms c))) (\<lambda>g.
              if fst g \<noteq> 0 then r_return (out\<lparr>rp_readback_error := fst g\<rparr>)
              else r_bind (Remote_Decode l input (snd g)) (\<lambda>d. r_return (out\<lparr>rp_readback_error := fst d, rp_value := snd d\<rparr>)))))"

definition Call :: "remote_lib \<Rightarrow> remote_command \<Rightarrow> type_descriptor \<Rightarrow> bytes \<Rightarrow> remote_reply rio" where
  "Call l c response bs =
     (let e = rc_endpoint c
      in r_bind (r_send l (SentCall (target_of e) (re_request_type e) (re_response_type e) bs)
              (\<lambda>t. rl_service l t (target_of e) (re_request_type e) (re_response_type e) bs (rc_timeout_ms c))) (\<lambda>r.
         let out = remote_reply0\<lparr>rp_error := cr_error r, rp_execution_unknown := cr_execution_unknown r,
               rp_response_received := cr_response_received r\<rparr>
         in if cr_error r \<noteq> 0 then r_return out
            else r_bind (Remote_Decode l response (cr_value r)) (\<lambda>d. r_return (out\<lparr>rp_error := fst d, rp_value := snd d\<rparr>))))"

text \<open>The loop that drops the actions whose snapshot is terminal, one call per action.\<close>

definition drop_terminal :: "remote_lib \<Rightarrow> unit rio" where
  "drop_terminal l = r_bind (r_get rn_actions) (\<lambda>actions. r_bind (r_map (\<lambda>entry.
     r_bind (r_call l (\<lambda>t. rl_action l t (ac_handle (snd entry)))) (\<lambda>s.
     if as_terminal s then r_modify (\<lambda>st. st\<lparr>rn_actions := om_erase (fst entry) (rn_actions st)\<rparr>) else r_return ())) actions)
     (\<lambda>_. r_return ()))"

definition Goal :: "remote_lib \<Rightarrow> remote_command \<Rightarrow> type_descriptor \<Rightarrow> bytes \<Rightarrow> remote_reply rio" where
  "Goal l c response bs =
     (let e = rc_endpoint c
      in r_bind (Descriptor l e DR_FEEDBACK (re_feedback_type e) (rc_timeout_ms c)) (\<lambda>f.
         if fst f \<noteq> 0 then r_return (remote_error (fst f))
         else r_bind (drop_terminal l) (\<lambda>_.
           r_bind (r_send l (SentGoal (target_of e) (re_request_type e) (re_feedback_type e) (re_response_type e) bs (rc_tracking_ms c))
                (\<lambda>t. rl_start l t (target_of e) (re_request_type e) (re_feedback_type e) (re_response_type e) bs (rc_timeout_ms c) (rc_tracking_ms c))) (\<lambda>r.
           let out = remote_reply0\<lparr>rp_error := cr_error r, rp_response_received := cr_response_received r,
                 rp_execution_unknown := cr_execution_unknown r, rp_accepted := cr_response_received r \<and> cr_error r = 0\<rparr>
           in case cr_handle r of
                None \<Rightarrow> r_return out
              | Some h0 \<Rightarrow> r_bind (r_modify (\<lambda>s. s\<lparr>rn_next := rn_next s + 1\<rparr>)) (\<lambda>_.
                  r_bind (r_get rn_next) (\<lambda>h.
                  r_bind (r_modify (\<lambda>s. s\<lparr>rn_actions := om_emplace h
                      \<lparr>ac_endpoint = e, ac_feedback = snd f, ac_result = response, ac_handle = h0\<rparr> (rn_actions s)\<rparr>)) (\<lambda>_.
                  r_return (out\<lparr>rp_handle := h\<rparr>))))))))"

text \<open>The operations that need the descriptor of what they send, once it is there.\<close>

definition with_input :: "remote_lib \<Rightarrow> remote_command \<Rightarrow> type_descriptor \<Rightarrow> remote_reply rio" where
  "with_input l c input =
     (let e = rc_endpoint c
      in if rc_operation c = OpPrepare then Prepare l input
         else if rc_operation c = OpGet then Get l c input
         else r_bind (Remote_Encode l input (rc_input c)) (\<lambda>b.
           if fst b \<noteq> 0 then r_return (remote_error (fst b))
           else if rc_operation c = OpSet then Set l c input (snd b)
           else r_bind (Descriptor l e DR_RESPONSE (re_response_type e) (rc_timeout_ms c)) (\<lambda>response.
             if fst response \<noteq> 0 then r_return (remote_error (fst response))
             else if rc_operation c = OpCall then Call l c (snd response) (snd b)
             else if rc_operation c = OpGoal then Goal l c (snd response) (snd b)
             else r_return (remote_error (- EINVAL)))))"

definition Execute :: "remote_lib \<Rightarrow> remote_command \<Rightarrow> remote_reply rio" where
  "Execute l c = r_bind (r_get rn_error) (\<lambda>error.
     if error \<noteq> 0 then r_return (remote_error error)
     else if rc_operation c = OpPoll then Poll l
     else if rc_operation c = OpUnsubscribe then Unsubscribe l (rc_handle c)
     else r_bind (Current l (rc_endpoint c)) (\<lambda>current.
       if \<not> current then r_return (remote_error (- ESTALE))
       else if rc_operation c = OpCancel then Cancel l c
       else if rc_operation c = OpSubscribe then Subscribe l c
       else let e = rc_endpoint c; parameter = (re_kind e = ''P'')
            in r_bind (Descriptor l e (if parameter then DR_VALUE else DR_REQUEST)
                   (if parameter then re_value_type e else re_request_type e) (rc_timeout_ms c)) (\<lambda>input.
               if fst input \<noteq> 0 then r_return (remote_error (fst input)) else with_input l c (snd input))))"

text \<open>The executor's \<open>try\<close>: an exception is the reply -EIO; undefined behaviour has none.\<close>

definition run_command :: "remote_lib \<Rightarrow> remote_command \<Rightarrow> remote_runtime \<Rightarrow> remote_reply option \<times> remote_runtime" where
  "run_command l c s = (case Execute l c s of
     (Inr r, s') \<Rightarrow> (Some r, s') | (Inl Call_threw, s') \<Rightarrow> (Some (remote_error (- EIO)), s') | (Inl Codec_undefined, s') \<Rightarrow> (None, s'))"

end
