(* ===== verification/RemoteControl.thy ===== *)
theory RemoteControl
  imports RemoteRuntime StepSystem CodecCodes CodecRoundTrip
begin

text \<open>
  The class \<open>RemoteExecutor\<close> of \<open>src/backend/remote_runtime.hpp\<close> as a step relation of its worker, of
  \<open>Submit\<close> and of \<open>Stop\<close>, each holding the mutex for one step, and what commands to other hosts
  promise. A future is a number; \<open>ex_replies\<close> lists the promises that were kept, in order.
\<close>

section \<open>The executor\<close>

record executor =
  ex_runtime :: remote_runtime
  ex_queue :: "(nat \<times> remote_command) list"
  ex_running :: "(nat \<times> remote_command) option"
  ex_stopping :: bool
  ex_exited :: bool
  ex_next :: nat
  ex_replies :: "(nat \<times> remote_reply) list"
  ex_taken :: "nat list"

definition executor_start :: "remote_runtime \<Rightarrow> executor" where
  "executor_start rt = \<lparr>ex_runtime = rt, ex_queue = [], ex_running = None, ex_stopping = False, ex_exited = False,
     ex_next = 0, ex_replies = [], ex_taken = []\<rparr>"

definition Submit :: "remote_command \<Rightarrow> executor \<Rightarrow> executor" where
  "Submit c ex =
     (let i = ex_next ex; ex = ex\<lparr>ex_next := Suc i\<rparr>
      in if ex_stopping ex then ex\<lparr>ex_replies := ex_replies ex @ [(i, RemoteUnavailable (- ECANCELED))]\<rparr>
         else if 32 \<le> length (ex_queue ex) then ex\<lparr>ex_replies := ex_replies ex @ [(i, RemoteUnavailable (- EAGAIN))]\<rparr>
         else ex\<lparr>ex_queue := ex_queue ex @ [(i, c)]\<rparr>)"

definition Stop :: "executor \<Rightarrow> executor" where
  "Stop ex = ex\<lparr>ex_stopping := True\<rparr>"

text \<open>One turn of \<open>Run\<close>: nothing while it waits, while a command hangs, or once it has returned.\<close>

definition worker :: "remote_lib \<Rightarrow> executor \<Rightarrow> executor option" where
  "worker l ex =
     (if ex_exited ex then None
      else case ex_running ex of
        Some (i, c) \<Rightarrow> (case run_command l c (ex_runtime ex) of
            (Some r, rt) \<Rightarrow> Some (ex\<lparr>ex_runtime := rt, ex_running := None, ex_replies := ex_replies ex @ [(i, r)]\<rparr>)
          | (None, rt) \<Rightarrow> None)
      | None \<Rightarrow>
          if ex_stopping ex
          then Some (ex\<lparr>ex_queue := [], ex_exited := True,
            ex_replies := ex_replies ex @ map (\<lambda>j. (fst j, remote_error (- ECANCELED))) (ex_queue ex)\<rparr>)
          else (case ex_queue ex of [] \<Rightarrow> None
            | j # q \<Rightarrow> Some (ex\<lparr>ex_queue := q, ex_running := Some j, ex_taken := ex_taken ex @ [fst j]\<rparr>)))"

inductive exec_step :: "remote_lib \<Rightarrow> executor \<Rightarrow> executor \<Rightarrow> bool" for l where
  submits: "exec_step l ex (Submit c ex)"
| stops: "exec_step l ex (Stop ex)"
| works: "worker l ex = Some ex' \<Longrightarrow> exec_step l ex ex'"

inductive_cases exec_stepE: "exec_step l ex ex'"

text \<open>Every future is queued, running or kept, exactly once; commands are taken in the order they came.\<close>

definition pending_ids :: "executor \<Rightarrow> nat list" where
  "pending_ids ex = (case ex_running ex of None \<Rightarrow> [] | Some j \<Rightarrow> [fst j]) @ map fst (ex_queue ex)"

definition exec_inv :: "executor \<Rightarrow> bool" where
  "exec_inv ex \<longleftrightarrow> mset (map fst (ex_replies ex)) + mset (pending_ids ex) = mset [0..<ex_next ex]
     \<and> length (ex_queue ex) \<le> 32 \<and> sorted_wrt (<) (ex_taken ex @ map fst (ex_queue ex))
     \<and> (\<forall>i \<in> set (ex_taken ex). i < ex_next ex) \<and> (\<forall>j. ex_running ex = Some j \<longrightarrow> fst j \<in> set (ex_taken ex))
     \<and> (ex_exited ex \<longrightarrow> ex_stopping ex \<and> ex_queue ex = [] \<and> ex_running ex = None)"

lemma exec_inv_start: "exec_inv (executor_start rt)"
  by (simp add: exec_inv_def executor_start_def pending_ids_def)

lemma pending_lt:
  assumes "exec_inv ex" and "i \<in> set (pending_ids ex)"
  shows "i < ex_next ex"
proof -
  have "i \<in># mset (map fst (ex_replies ex)) + mset (pending_ids ex)" using assms(2) by simp
  with assms(1) have "i \<in># mset [0..<ex_next ex]" by (simp add: exec_inv_def)
  then show ?thesis by simp
qed

lemma Submit_inv:
  assumes "exec_inv ex"
  shows "exec_inv (Submit c ex)"
proof -
  have "\<forall>i \<in> set (map fst (ex_queue ex)). i < ex_next ex"
    using pending_lt[OF assms] by (auto simp: pending_ids_def)
  with assms show ?thesis
    by (auto simp: exec_inv_def Submit_def Let_def pending_ids_def sorted_wrt_append atLeast0_lessThan_Suc)
qed

lemma worker_inv:
  assumes "exec_inv ex" and "worker l ex = Some ex'"
  shows "exec_inv ex'"
proof (cases "ex_running ex")
  case None
  show ?thesis
  proof (cases "ex_stopping ex")
    case True
    with assms None show ?thesis
      by (auto simp: worker_def exec_inv_def pending_ids_def multiset.map_comp comp_def sorted_wrt_append split: if_splits)
  next
    case False
    with assms None obtain j q where q: "ex_queue ex = j # q" by (auto simp: worker_def split: if_splits list.splits)
    have "fst j < ex_next ex" using pending_lt[OF assms(1)] None q by (simp add: pending_ids_def)
    with assms None False q show ?thesis
      by (auto simp: worker_def exec_inv_def pending_ids_def sorted_wrt_append split: if_splits) (metis fst_conv)+
  qed
next
  case (Some j)
  with assms show ?thesis
    by (auto simp: worker_def exec_inv_def pending_ids_def split: if_splits prod.splits option.splits)
qed

lemma exec_inv_step: "exec_step l ex ex' \<Longrightarrow> exec_inv ex \<Longrightarrow> exec_inv ex'"
  by (erule exec_stepE) (auto simp: Submit_inv worker_inv Stop_def, auto simp: exec_inv_def pending_ids_def)

interpretation executor: step_system "exec_step l" "executor_start rt" exec_inv for l rt
  by unfold_locales (auto intro: exec_inv_start exec_inv_step)

section \<open>Commands\<close>

named_theorems r_quiet_intros \<open>rules that establish \<open>r_quiet\<close>\<close>

text \<open>Computations that send nothing.\<close>

definition r_quiet :: "'a rio \<Rightarrow> bool" where
  "r_quiet m \<longleftrightarrow> (\<forall>s. rn_log (snd (m s)) = rn_log s)"

lemma r_quietD: "r_quiet m \<Longrightarrow> m s = (r, s') \<Longrightarrow> rn_log s' = rn_log s"
  unfolding r_quiet_def by (metis snd_conv)

lemma r_quiet_basic [r_quiet_intros]:
  "r_quiet (r_return x)" "r_quiet (r_call l f)" "r_quiet (r_get g)" "r_quiet (r_codec r out)"
  by (simp_all add: r_quiet_def r_return_def r_call_def r_get_def r_codec_def)

lemma r_quiet_modify [r_quiet_intros]: "(\<And>s. rn_log (f s) = rn_log s) \<Longrightarrow> r_quiet (r_modify f)"
  by (simp add: r_quiet_def r_modify_def)

lemma r_quiet_bind [r_quiet_intros]: "r_quiet m \<Longrightarrow> (\<And>x. r_quiet (f x)) \<Longrightarrow> r_quiet (r_bind m f)"
  unfolding r_quiet_def r_bind_def by (auto split: prod.split sum.split) (metis snd_conv)+

lemma r_quiet_map [r_quiet_intros]: "(\<And>x. r_quiet (f x)) \<Longrightarrow> r_quiet (r_map f xs)"
  by (induction xs) (auto intro!: r_quiet_intros)

lemma r_quiet_if [r_quiet_intros]: "(b \<Longrightarrow> r_quiet m) \<Longrightarrow> (\<not> b \<Longrightarrow> r_quiet n) \<Longrightarrow> r_quiet (if b then m else n)"
  by simp

lemma r_quiet_option [r_quiet_intros]: "r_quiet m \<Longrightarrow> (\<And>x. r_quiet (f x)) \<Longrightarrow> r_quiet (case y of None \<Rightarrow> m | Some x \<Rightarrow> f x)"
  by (cases y) simp_all

lemma r_quiet_helpers [r_quiet_intros]:
  "r_quiet (Remote_Decode l d bs)" "r_quiet (Remote_Encode l d v)" "r_quiet (Current l e)" "r_quiet (Descriptor l e role type timeout)"
  unfolding Remote_Decode_def Remote_Encode_def Current_def Descriptor_def Let_def by (intro r_quiet_intros)+

lemma r_quiet_poll [r_quiet_intros]: "r_quiet (Poll l)"
  unfolding Poll_def poll_action_def poll_topic_def poll_feedback_def poll_result_def lost_or_stale_def Let_def
  by (intro r_quiet_intros)

lemma r_quiet_prepare [r_quiet_intros]: "r_quiet (Prepare l d)" "r_quiet (Get l c d)" "r_quiet (drop_terminal l)"
  unfolding Prepare_def Get_def drop_terminal_def Let_def by (intro r_quiet_intros; simp)+

lemma r_bind_cases:
  assumes "r_bind m f s = (r, s')"
  obtains (stop) e where "m s = (Inl e, s')" "r = Inl e" | (go) x s1 where "m s = (Inr x, s1)" "f x s1 = (r, s')"
  using assms unfolding r_bind_def by (auto split: prod.splits sum.splits)

lemma r_reach:
  assumes "r_bind m f s = (r, s')" and "rn_log s' \<noteq> rn_log s" and "r_quiet m"
  shows "\<exists>x s1. m s = (Inr x, s1) \<and> rn_log s1 = rn_log s \<and> f x s1 = (r, s') \<and> rn_log s' \<noteq> rn_log s1"
  using assms(1)
proof (cases rule: r_bind_cases)
  case (go x s1)
  with assms(2) r_quietD[OF assms(3) go(1)] show ?thesis by auto
qed (use assms(2) r_quietD[OF assms(3)] in auto)

lemma r_sent: "r_bind (r_send l e f) g s = (r, s') \<Longrightarrow> (\<And>x. r_quiet (g x)) \<Longrightarrow> rn_log s' = rn_log s @ [e]"
  using r_quietD by (elim r_bind_cases) (fastforce simp: r_send_def)+

lemma r_inversion:
  "r_call l f s = (Inr x, s') \<longleftrightarrow> \<not> rl_throws l (rn_time s) \<and> x = f (rn_time s) \<and> s' = s\<lparr>rn_time := Suc (rn_time s)\<rparr>"
  "r_get g s = (Inr y, s') \<longleftrightarrow> y = g s \<and> s' = s"
  "r_return z s = (Inr v, s') \<longleftrightarrow> v = z \<and> s' = s"
  by (auto simp: r_call_def r_get_def r_return_def)

lemma r_bind_Inr: "r_bind m f s = (Inr y, s') \<longleftrightarrow> (\<exists>x s1. m s = (Inr x, s1) \<and> f x s1 = (Inr y, s'))"
  unfolding r_bind_def by (auto split: prod.splits sum.splits)

section \<open>Commands return\<close>

text \<open>Computations that end in a value or in an exception, never in undefined behaviour.\<close>

definition r_defined :: "'a rio \<Rightarrow> bool" where
  "r_defined m \<longleftrightarrow> (\<forall>s. fst (m s) \<noteq> Inl Codec_undefined)"

named_theorems r_defined_intros \<open>rules that establish \<open>r_defined\<close>\<close>

lemma r_defined_basic [r_defined_intros]:
  "r_defined (r_return x)" "r_defined (r_call l f)" "r_defined (r_send l e f)" "r_defined (r_get g)" "r_defined (r_modify h)"
  by (simp_all add: r_defined_def r_return_def r_call_def r_send_def r_get_def r_modify_def)

lemma r_defined_codec: "r \<noteq> Inl Undefined \<Longrightarrow> r_defined (r_codec r out)"
  by (simp add: r_defined_def r_codec_def split: sum.split err.split)

lemma r_defined_bind [r_defined_intros]: "r_defined m \<Longrightarrow> (\<And>x. r_defined (f x)) \<Longrightarrow> r_defined (r_bind m f)"
  unfolding r_defined_def r_bind_def by (auto split: prod.split sum.split) (metis fst_conv)+

lemma r_defined_map [r_defined_intros]: "(\<And>x. r_defined (f x)) \<Longrightarrow> r_defined (r_map f xs)"
  by (induction xs) (auto intro!: r_defined_intros)

lemma r_defined_if [r_defined_intros]: "(b \<Longrightarrow> r_defined m) \<Longrightarrow> (\<not> b \<Longrightarrow> r_defined n) \<Longrightarrow> r_defined (if b then m else n)"
  by simp

lemma r_defined_option [r_defined_intros]:
  "r_defined m \<Longrightarrow> (\<And>x. r_defined (f x)) \<Longrightarrow> r_defined (case y of None \<Rightarrow> m | Some x \<Rightarrow> f x)"
  by (cases y) simp_all

text \<open>The library validates the offsets of the descriptors it calls valid.\<close>

definition valid_layouts :: "remote_lib \<Rightarrow> bool" where
  "valid_layouts l \<longleftrightarrow> (\<forall>d. rl_valid l d \<longrightarrow> layout_ok d)"

lemma r_defined_codecs:
  assumes "valid_layouts l"
  shows "r_defined (r_codec (Decode (rl_valid l) d p) out)" "r_defined (r_codec (Encode (rl_valid l) d v seed) out')"
  by (rule r_defined_codec, rule Decode_defined Encode_defined, use assms in \<open>simp add: valid_layouts_def\<close>)+

lemma Execute_defined:
  assumes "valid_layouts l"
  shows "r_defined (Execute l c)"
  unfolding Execute_def Poll_def poll_action_def poll_topic_def poll_feedback_def poll_result_def lost_or_stale_def
    Unsubscribe_def Cancel_def Subscribe_def with_input_def Prepare_def Get_def Set_def Call_def Goal_def drop_terminal_def
    Current_def Descriptor_def Remote_Decode_def Remote_Encode_def Let_def
  by (intro r_defined_intros r_defined_codecs assms)

lemma run_command_returns:
  assumes "valid_layouts l"
  shows "\<exists>r s'. run_command l c s = (Some r, s')"
proof -
  obtain x s' where e: "Execute l c s = (x, s')" by fastforce
  with Execute_defined[OF assms] have "x \<noteq> Inl Codec_undefined" unfolding r_defined_def by (metis fst_conv)
  then show ?thesis by (cases x rule: sum.exhaust; cases "projl x") (simp_all add: run_command_def e)
qed

text \<open>Once stopping, the worker needs at most two more turns: the running command and the exit.\<close>

lemma worker_exits:
  assumes "ex_stopping ex" and "valid_layouts l"
  shows "ex_exited ex \<or> (\<exists>ex1. worker l ex = Some ex1 \<and> (ex_exited ex1 \<or> (\<exists>ex2. worker l ex1 = Some ex2 \<and> ex_exited ex2)))"
proof (cases "ex_running ex")
  case None
  with assms(1) show ?thesis by (simp add: worker_def)
next
  case (Some j)
  obtain i c where j: "j = (i, c)" by (cases j)
  obtain r rt where "run_command l c (ex_runtime ex) = (Some r, rt)"
    using run_command_returns[OF assms(2)] by blast
  with Some j assms(1) show ?thesis by (simp add: worker_def)
qed

section \<open>What a command sends\<close>

definition input_role :: "remote_endpoint \<Rightarrow> descriptor_role" where
  "input_role e = (if re_kind e = ''P'' then DR_VALUE else DR_REQUEST)"

definition input_type :: "remote_endpoint \<Rightarrow> remote_type_identity" where
  "input_type e = (if re_kind e = ''P'' then re_value_type e else re_request_type e)"

text \<open>The bytes are the encoding of the input with a descriptor of the type the endpoint shows.\<close>

definition encoded_input :: "remote_lib \<Rightarrow> remote_command \<Rightarrow> bytes \<Rightarrow> bool" where
  "encoded_input l c bs \<longleftrightarrow> (\<exists>t d p. rl_descriptor l t (target_of (rc_endpoint c)) (input_role (rc_endpoint c)) (input_type (rc_endpoint c))
        (rc_timeout_ms c) = (0, d)
     \<and> rl_wire_type l d = (0, input_type (rc_endpoint c)) \<and> Encode (rl_valid l) d (rc_input c) None = Inr p \<and> rl_encode_value l d p = (0, bs))"

definition addressed :: "remote_lib \<Rightarrow> remote_command \<Rightarrow> remote_runtime \<Rightarrow> remote_effect \<Rightarrow> bool" where
  "addressed l c s e \<longleftrightarrow> (let ep = rc_endpoint c in case e of
     SentSet g t bs \<Rightarrow> rc_operation c = OpSet \<and> g = target_of ep \<and> t = re_value_type ep \<and> encoded_input l c bs
   | SentCall g q a bs \<Rightarrow> rc_operation c = OpCall \<and> g = target_of ep \<and> q = re_request_type ep \<and> a = re_response_type ep \<and> encoded_input l c bs
   | SentGoal g q f a bs ms \<Rightarrow> rc_operation c = OpGoal \<and> g = target_of ep \<and> q = re_request_type ep \<and> f = re_feedback_type ep
       \<and> a = re_response_type ep \<and> ms = rc_tracking_ms c \<and> encoded_input l c bs
   | SentCancel h \<Rightarrow> rc_operation c = OpCancel \<and> (\<exists>a. map_of (rn_actions s) (rc_handle c) = Some a \<and> ac_handle a = h
       \<and> Identity (ac_endpoint a) = Identity ep \<and> re_session (ac_endpoint a) = re_session ep)
   | SentSubscribe g t \<Rightarrow> rc_operation c = OpSubscribe \<and> g = target_of ep \<and> t = re_value_type ep
   | SentUnsubscribe h \<Rightarrow> rc_operation c = OpUnsubscribe \<and> (\<exists>p. map_of (rn_subscriptions s) (rc_handle c) = Some p \<and> tp_handle p = h))"

definition sends_only :: "'a rio \<Rightarrow> remote_runtime \<Rightarrow> (remote_effect \<Rightarrow> bool) \<Rightarrow> bool" where
  "sends_only m s P \<longleftrightarrow> (\<forall>r s'. m s = (r, s') \<longrightarrow> rn_log s' = rn_log s \<or> (\<exists>e. rn_log s' = rn_log s @ [e] \<and> P e))"

lemma sends_quiet: "r_quiet m \<Longrightarrow> sends_only m s P"
  using r_quietD by (fastforce simp: sends_only_def)

lemma sends_bind:
  assumes "r_quiet m" and "\<And>x s1. m s = (Inr x, s1) \<Longrightarrow> sends_only (f x) s1 P"
  shows "sends_only (r_bind m f) s P"
  unfolding sends_only_def
proof (intro allI impI)
  fix r s' assume eq: "r_bind m f s = (r, s')"
  show "rn_log s' = rn_log s \<or> (\<exists>e. rn_log s' = rn_log s @ [e] \<and> P e)"
  proof (cases "rn_log s' = rn_log s")
    case False
    from r_reach[OF eq False assms(1)] obtain x s1 where "m s = (Inr x, s1)" "rn_log s1 = rn_log s" "f x s1 = (r, s')" by blast
    with assms(2) show ?thesis unfolding sends_only_def by metis
  qed simp
qed

lemma sends_if: "(b \<Longrightarrow> sends_only m s P) \<Longrightarrow> (\<not> b \<Longrightarrow> sends_only n s P) \<Longrightarrow> sends_only (if b then m else n) s P"
  by simp

lemma sends_get: "sends_only (f (g s)) s P \<Longrightarrow> sends_only (r_bind (r_get g) f) s P"
  by (simp add: sends_only_def r_bind_def r_get_def)

lemma sends_return: "sends_only (r_return x) s P"
  by (rule sends_quiet) (rule r_quiet_basic)

lemma sends_weaken: "sends_only m s P \<Longrightarrow> (\<And>e. P e \<Longrightarrow> Q e) \<Longrightarrow> sends_only m s Q"
  unfolding sends_only_def by blast

lemma sends_send: "P e \<Longrightarrow> (\<And>x. r_quiet (g x)) \<Longrightarrow> sends_only (r_bind (r_send l e f) g) s P"
  using r_sent by (fastforce simp: sends_only_def)

lemma Current_Inr: "Current l e s = (Inr b, s') \<Longrightarrow> b = current_in l e (rl_peers l (rn_time s)) \<and> rn_actions s' = rn_actions s
    \<and> rn_subscriptions s' = rn_subscriptions s"
  by (auto simp: Current_def r_bind_Inr r_inversion)

lemma Descriptor_Inr:
  "Descriptor l e role type timeout s = (Inr d, s') \<Longrightarrow> fst d = 0 \<Longrightarrow>
    \<exists>t. rl_descriptor l t (target_of e) role type timeout = (0, snd d) \<and> rl_wire_type l (snd d) = (0, type)"
  unfolding Descriptor_def r_bind_Inr r_inversion by (auto simp: Let_def prod_eq_iff split: if_splits)

lemma Encode_code: "Encode valid d v seed \<noteq> Inl (Errno 0)"
  using negative_codec(2)[of valid d v seed] by (auto simp: negative_def)

lemma Remote_Encode_Inr:
  "Remote_Encode l d v s = (Inr b, s') \<Longrightarrow> fst b = 0 \<Longrightarrow>
    \<exists>p. Encode (rl_valid l) d v None = Inr p \<and> rl_encode_value l d p = b"
  by (auto simp: Remote_Encode_def r_bind_Inr r_inversion r_codec_def Encode_code split: sum.splits err.splits if_splits)

lemma with_input_sends:
  assumes "rl_descriptor l t (target_of (rc_endpoint c)) (input_role (rc_endpoint c)) (input_type (rc_endpoint c)) (rc_timeout_ms c) = (0, d)"
    and "rl_wire_type l d = (0, input_type (rc_endpoint c))"
  shows "sends_only (with_input l c d) s (addressed l c s0)"
proof -
  note q = r_quiet_intros
  have enc: "encoded_input l c (snd b)" if "Remote_Encode l d (rc_input c) s = (Inr b, s')" "\<not> fst b \<noteq> 0" for b s s'
    using Remote_Encode_Inr[OF that(1)] assms that(2) unfolding encoded_input_def by (metis prod.collapse)
  have set: "sends_only (Set l c d bs) s (addressed l c s0)" if "rc_operation c = OpSet" "encoded_input l c bs" for bs s
    unfolding Set_def Let_def by (rule sends_send) (use that in \<open>auto simp: addressed_def Let_def intro!: q\<close>)
  have service: "sends_only (Call l c r bs) s (addressed l c s0)" if "rc_operation c = OpCall" "encoded_input l c bs" for r bs s
    unfolding Call_def Let_def by (rule sends_send) (use that in \<open>auto simp: addressed_def Let_def intro!: q\<close>)
  have goal: "sends_only (Goal l c r bs) s (addressed l c s0)" if "rc_operation c = OpGoal" "encoded_input l c bs" for r bs s
  proof -
    have a: "addressed l c s0 (SentGoal (target_of (rc_endpoint c)) (re_request_type (rc_endpoint c)) (re_feedback_type (rc_endpoint c))
        (re_response_type (rc_endpoint c)) bs (rc_tracking_ms c))"
      using that by (simp add: addressed_def Let_def)
    show ?thesis
      unfolding Goal_def Let_def
      by (intro sends_bind sends_if sends_send sends_quiet q a; simp)
  qed
  show ?thesis
    unfolding with_input_def Let_def
    by (intro sends_bind sends_if q; (rule set service goal, assumption, erule (1) enc | rule sends_quiet, intro q))
qed

lemma Unsubscribe_sends: "rc_operation c = OpUnsubscribe \<Longrightarrow> sends_only (Unsubscribe l (rc_handle c)) s (addressed l c s)"
  unfolding Unsubscribe_def
  by (rule sends_get, cases "map_of (rn_subscriptions s) (rc_handle c)")
    (auto simp: addressed_def Let_def intro!: sends_send sends_return r_quiet_intros)

lemma Cancel_sends:
  "rc_operation c = OpCancel \<Longrightarrow> rn_actions s1 = rn_actions s \<Longrightarrow> sends_only (Cancel l c) s1 (addressed l c s)"
  unfolding Cancel_def
  by (rule sends_get, cases "map_of (rn_actions s) (rc_handle c)")
    (auto simp: addressed_def Let_def intro!: sends_send sends_return r_quiet_intros)

lemma Subscribe_sends: "rc_operation c = OpSubscribe \<Longrightarrow> sends_only (Subscribe l c) s1 (addressed l c s)"
  unfolding Subscribe_def Let_def by (rule sends_send) (auto simp: addressed_def Let_def intro!: r_quiet_intros)

lemma current_sends:
  assumes "current_in l (rc_endpoint c) (rl_peers l (rn_time s)) \<Longrightarrow> sends_only m s1 (addressed l c s)"
    and "Current l (rc_endpoint c) s = (Inr b, s1)" and "\<not> \<not> b"
  shows "sends_only m s1 (\<lambda>e. addressed l c s e \<and> current_in l (rc_endpoint c) (rl_peers l (rn_time s)))"
  using assms Current_Inr[OF assms(2)] by (auto elim: sends_weaken)

lemma Execute_sends:
  "sends_only (Execute l c) s (\<lambda>e. rn_error s = 0 \<and> addressed l c s e
     \<and> (rc_operation c \<noteq> OpUnsubscribe \<longrightarrow> current_in l (rc_endpoint c) (rl_peers l (rn_time s))))"
  (is "sends_only _ s ?P")
proof -
  let ?Q = "\<lambda>e. addressed l c s e \<and> current_in l (rc_endpoint c) (rl_peers l (rn_time s))"
  have other: "sends_only (r_bind (Current l (rc_endpoint c)) (\<lambda>current.
       if \<not> current then r_return (remote_error (- ESTALE))
       else if rc_operation c = OpCancel then Cancel l c
       else if rc_operation c = OpSubscribe then Subscribe l c
       else r_bind (Descriptor l (rc_endpoint c) (input_role (rc_endpoint c)) (input_type (rc_endpoint c)) (rc_timeout_ms c)) (\<lambda>input.
               if fst input \<noteq> 0 then r_return (remote_error (fst input)) else with_input l c (snd input)))) s ?Q"
  proof (intro sends_bind sends_if)
    fix b s1 assume cur: "Current l (rc_endpoint c) s = (Inr b, s1)"
    show "sends_only (r_return (remote_error (- ESTALE))) s1 ?Q" by (intro sends_quiet r_quiet_intros)
    assume b: "\<not> \<not> b"
    note at = current_sends[OF _ cur b]
    show "rc_operation c = OpCancel \<Longrightarrow> sends_only (Cancel l c) s1 ?Q"
      using Current_Inr[OF cur] by (intro at Cancel_sends) auto
    show "rc_operation c = OpSubscribe \<Longrightarrow> sends_only (Subscribe l c) s1 ?Q" by (intro at Subscribe_sends)
    fix d s2
    assume "Descriptor l (rc_endpoint c) (input_role (rc_endpoint c)) (input_type (rc_endpoint c)) (rc_timeout_ms c) s1 = (Inr d, s2)"
    note d = Descriptor_Inr[OF this]
    show "sends_only (r_return (remote_error (fst d))) s2 ?Q" by (intro sends_quiet r_quiet_intros)
    assume "\<not> fst d \<noteq> 0"
    with d have "sends_only (with_input l c (snd d)) s2 (addressed l c s)" using with_input_sends by blast
    then show "sends_only (with_input l c (snd d)) s2 ?Q"
      by (rule sends_weaken) (use Current_Inr[OF cur] b in auto)
  qed (intro r_quiet_intros)+
  show ?thesis
    unfolding Execute_def Let_def input_role_def[symmetric] input_type_def[symmetric]
  proof (intro sends_get sends_if)
    assume "\<not> rn_error s \<noteq> 0"
    then have error: "rn_error s = 0" by simp
    show "rc_operation c = OpUnsubscribe \<Longrightarrow> sends_only (Unsubscribe l (rc_handle c)) s ?P"
      using Unsubscribe_sends error by (auto elim: sends_weaken)
    show "rc_operation c \<noteq> OpPoll \<Longrightarrow> rc_operation c \<noteq> OpUnsubscribe \<Longrightarrow> sends_only (r_bind (Current l (rc_endpoint c)) (\<lambda>current.
       if \<not> current then r_return (remote_error (- ESTALE))
       else if rc_operation c = OpCancel then Cancel l c
       else if rc_operation c = OpSubscribe then Subscribe l c
       else r_bind (Descriptor l (rc_endpoint c) (input_role (rc_endpoint c)) (input_type (rc_endpoint c)) (rc_timeout_ms c)) (\<lambda>input.
               if fst input \<noteq> 0 then r_return (remote_error (fst input)) else with_input l c (snd input)))) s ?P"
      using other error by (auto elim: sends_weaken)
  qed (intro sends_quiet r_quiet_intros)+
qed

section \<open>Polling\<close>

text \<open>Computations that leave everything but the clock.\<close>

definition r_idle :: "'a rio \<Rightarrow> bool" where
  "r_idle m \<longleftrightarrow> (\<forall>s r s'. m s = (r, s') \<longrightarrow> s' = s\<lparr>rn_time := rn_time s'\<rparr>)"

named_theorems r_idle_intros \<open>rules that establish \<open>r_idle\<close>\<close>

lemma r_idle_basic [r_idle_intros]:
  "r_idle (r_return x)" "r_idle (r_call l f)" "r_idle (r_get g)" "r_idle (r_codec r out)"
  by (auto simp: r_idle_def r_return_def r_call_def r_get_def r_codec_def)

lemma r_idle_bind [r_idle_intros]:
  assumes "r_idle m" and "\<And>x. r_idle (f x)"
  shows "r_idle (r_bind m f)"
  unfolding r_idle_def
proof (intro allI impI)
  fix s r s' assume "r_bind m f s = (r, s')"
  then show "s' = s\<lparr>rn_time := rn_time s'\<rparr>"
  proof (cases rule: r_bind_cases)
    case (go x s1)
    then have "s1 = s\<lparr>rn_time := rn_time s1\<rparr>" "s' = s1\<lparr>rn_time := rn_time s'\<rparr>" using assms unfolding r_idle_def by blast+
    then show ?thesis by (metis remote_runtime.surjective remote_runtime.update_convs(5))
  qed (use assms(1) in \<open>auto simp: r_idle_def\<close>)
qed

lemma r_idle_map [r_idle_intros]: "(\<And>x. r_idle (f x)) \<Longrightarrow> r_idle (r_map f xs)"
  by (induction xs) (auto intro!: r_idle_intros)

lemma r_idle_if [r_idle_intros]: "(b \<Longrightarrow> r_idle m) \<Longrightarrow> (\<not> b \<Longrightarrow> r_idle n) \<Longrightarrow> r_idle (if b then m else n)"
  by simp

lemma Poll_idle: "r_idle (Poll l)"
  unfolding Poll_def poll_action_def poll_topic_def poll_feedback_def poll_result_def lost_or_stale_def Current_def Remote_Decode_def Let_def
  by (intro r_idle_intros)

text \<open>What an activity may show: no data of a lost peer, no value of a topic that ended.\<close>

definition shown_ok :: "remote_activity \<Rightarrow> bool" where
  "shown_ok v \<longleftrightarrow> (ra_communication_lost v \<longrightarrow> \<not> ra_has_value v \<and> ra_feedback v = data_snapshot0 \<and> ra_result v = data_snapshot0)
     \<and> (ra_topic v \<and> ra_terminal v \<longrightarrow> \<not> ra_has_value v)"

text \<open>What holds of the result of every call that returns.\<close>

definition r_ensures :: "'a rio \<Rightarrow> ('a \<Rightarrow> bool) \<Rightarrow> bool" where
  "r_ensures m P \<longleftrightarrow> (\<forall>s x s'. m s = (Inr x, s') \<longrightarrow> P x)"

named_theorems r_ensures_intros \<open>rules that establish \<open>r_ensures\<close>\<close>

lemma r_ensures_return [r_ensures_intros]: "P x \<Longrightarrow> r_ensures (r_return x) P"
  by (simp add: r_ensures_def r_inversion)

lemma r_ensures_bind [r_ensures_intros]: "(\<And>x. r_ensures (f x) P) \<Longrightarrow> r_ensures (r_bind m f) P"
  unfolding r_ensures_def r_bind_Inr by blast

lemma r_ensures_seq: "r_ensures m Q \<Longrightarrow> (\<And>x. Q x \<Longrightarrow> r_ensures (f x) P) \<Longrightarrow> r_ensures (r_bind m f) P"
  unfolding r_ensures_def r_bind_Inr by blast

lemma r_ensures_if [r_ensures_intros]: "(b \<Longrightarrow> r_ensures m P) \<Longrightarrow> (\<not> b \<Longrightarrow> r_ensures n P) \<Longrightarrow> r_ensures (if b then m else n) P"
  by simp

text \<open>Decoding the data of an action touches neither its handle nor its flags.\<close>

definition running_action :: "u64 \<Rightarrow> remote_activity \<Rightarrow> bool" where
  "running_action h v \<longleftrightarrow> ra_handle v = h \<and> \<not> ra_topic v \<and> \<not> ra_communication_lost v"

lemma poll_data_running:
  "running_action h v \<Longrightarrow> r_ensures (poll_feedback l a s v) (running_action h)"
  "running_action h v \<Longrightarrow> r_ensures (poll_result l a s v) (running_action h)"
  unfolding poll_feedback_def poll_result_def by (intro r_ensures_intros; simp add: running_action_def)+

lemma running_ok: "running_action h v \<Longrightarrow> ra_handle v = h \<and> shown_ok v"
  by (simp add: running_action_def shown_ok_def)

lemma r_ensures_weaken: "r_ensures m P \<Longrightarrow> (\<And>x. P x \<Longrightarrow> Q x) \<Longrightarrow> r_ensures m Q"
  unfolding r_ensures_def by blast

lemma activity0_flags:
  "ra_topic (activity0 e) = False" "ra_communication_lost (activity0 e) = False" "ra_has_value (activity0 e) = False"
  "ra_feedback (activity0 e) = data_snapshot0" "ra_result (activity0 e) = data_snapshot0"
  by (simp_all add: activity0_def)

lemma poll_action_shown: "r_ensures (poll_action l entry) (\<lambda>v. ra_handle v = fst entry \<and> shown_ok v)"
  unfolding poll_action_def Let_def
proof (rule r_ensures_bind, rule r_ensures_bind, intro r_ensures_if r_ensures_return)
  fix x :: action_snapshot and lost
  let ?v = "(activity0 (ac_endpoint (snd entry)))\<lparr>ra_handle := fst entry, ra_accepted := as_accepted x, ra_terminal := as_terminal x,
     ra_state := as_state x, ra_error := as_error x, ra_communication_lost := lost,
     ra_execution_unknown := as_execution_unknown x, ra_cancel_unknown := as_cancel_unknown x,
     ra_cancel_accepted := as_cancel_accepted x, ra_sequence := as_feedback_sequence x\<rparr>"
  show "lost \<Longrightarrow> ra_handle ?v = fst entry \<and> shown_ok ?v" by (simp add: shown_ok_def activity0_flags)
  assume "\<not> lost"
  then have "running_action (fst entry) ?v" by (simp add: running_action_def activity0_flags)
  then show "r_ensures (r_bind (poll_feedback l (snd entry) x ?v) (poll_result l (snd entry) x)) (\<lambda>v. ra_handle v = fst entry \<and> shown_ok v)"
    by (intro r_ensures_seq[OF poll_data_running(1)] r_ensures_weaken[OF poll_data_running(2) running_ok])
qed

lemma poll_topic_shown: "r_ensures (poll_topic l entry) (\<lambda>v. ra_handle v = fst entry \<and> shown_ok v)"
  unfolding poll_topic_def Let_def by (intro r_ensures_intros) (simp_all add: shown_ok_def activity0_flags)

lemma r_map_Inr_all:
  assumes "\<And>entry. r_ensures (f entry) (Q entry)"
  shows "r_map f xs s = (Inr ys, s') \<Longrightarrow> list_all2 Q xs ys"
proof (induction xs arbitrary: ys s)
  case (Cons x xs)
  then obtain y s1 zs s2 where "f x s = (Inr y, s1)" "r_map f xs s1 = (Inr zs, s2)" "ys = y # zs" "s2 = s'"
    by (auto simp: r_bind_Inr r_inversion)
  moreover have "Q x y" using assms[of x] calculation unfolding r_ensures_def by blast
  ultimately show ?case using Cons.IH by auto
qed (simp add: r_inversion)

lemma polled:
  assumes "r_map f entries s = (Inr vs, s')" and "\<And>entry. r_ensures (f entry) (\<lambda>v. ra_handle v = fst entry \<and> shown_ok v)"
  shows "map ra_handle vs = map fst entries \<and> list_all shown_ok vs"
  using r_map_Inr_all[where Q = "\<lambda>entry v. ra_handle v = fst entry \<and> shown_ok v", OF assms(2) assms(1)]
  by (induction rule: list_all2_induct) simp_all

section \<open>The observer and the backend\<close>

text \<open>
  \<open>NetworkObserver::Submit\<close>: an immediate reply, or the future of the executor. Without a configured
  identity only topics and polling are allowed.
\<close>

definition Observer_Submit :: "network_snapshot \<Rightarrow> remote_command \<Rightarrow> executor option \<Rightarrow> remote_reply option \<times> executor option" where
  "Observer_Submit snapshot c ex =
     (if \<not> ns_explicit_control_identity snapshot \<and> rc_operation c \<noteq> OpSubscribe \<and> rc_operation c \<noteq> OpUnsubscribe \<and> rc_operation c \<noteq> OpPoll
      then (Some (RemoteUnavailable (- EACCES)), ex)
      else case ex of None \<Rightarrow> (Some (RemoteUnavailable (- ENOTCONN)), None) | Some x \<Rightarrow> (None, Some (Submit c x)))"

text \<open>
  The network part of \<open>KcfBackend\<close>. The observer is its published snapshot and its executor; whether it
  can be constructed is the argument \<open>created\<close>.
\<close>

record kcf_observer =
  ko_snapshot :: network_snapshot
  ko_executor :: "executor option"

record kcf_network =
  kn_observer :: "kcf_observer option"
  kn_options :: network_options

definition observer_start :: kcf_observer where
  "observer_start = \<lparr>ko_snapshot = network_snapshot0\<lparr>ns_status := ''Network starting''\<rparr>, ko_executor = None\<rparr>"

definition StartNetwork :: "bool \<Rightarrow> network_options \<Rightarrow> kcf_network \<Rightarrow> unit result \<times> kcf_network" where
  "StartNetwork created options n =
     (if kn_observer n \<noteq> None then (fail (- EALREADY), n)
      else let n = n\<lparr>kn_options := options\<rparr>
           in if created then (Inr (), n\<lparr>kn_observer := Some observer_start\<rparr>) else (fail (- EAGAIN), n))"

definition StopNetwork :: "kcf_network \<Rightarrow> kcf_network" where
  "StopNetwork n = n\<lparr>kn_observer := None\<rparr>"

definition GetNetworkSnapshot :: "kcf_network \<Rightarrow> network_snapshot" where
  "GetNetworkSnapshot n = (case kn_observer n of None \<Rightarrow> network_snapshot0 | Some ob \<Rightarrow> ko_snapshot ob)"

definition SubmitRemote :: "remote_command \<Rightarrow> kcf_network \<Rightarrow> remote_reply option \<times> kcf_network" where
  "SubmitRemote c n = (case kn_observer n of
     None \<Rightarrow> (Some (RemoteUnavailable (- ENOTCONN)), n)
   | Some ob \<Rightarrow> (case Observer_Submit (ko_snapshot ob) c (ko_executor ob) of
       (r, ex) \<Rightarrow> (r, n\<lparr>kn_observer := Some (ob\<lparr>ko_executor := ex\<rparr>)\<rparr>)))"

definition ConfigureNetwork :: "bool \<Rightarrow> network_options \<Rightarrow> bool \<Rightarrow> kcf_network \<Rightarrow> unit result \<times> kcf_network" where
  "ConfigureNetwork created options enabled n =
     (let n = (StopNetwork n)\<lparr>kn_options := options\<rparr>
      in if enabled then StartNetwork created options n else (Inr (), n))"

text \<open>
  \<open>src/backend/local_gateway_backend.cpp\<close>: the client in use, by its socket path; the old one is stopped
  before a new one is made.
\<close>

definition ConfigureLocalGateway :: "bool \<Rightarrow> string \<Rightarrow> bool \<Rightarrow> 'client option \<Rightarrow> (string \<Rightarrow> 'client) \<Rightarrow> unit result \<times> 'client option" where
  "ConfigureLocalGateway created path enabled old new_client =
     (if \<not> enabled then (Inr (), None)
      else if created then (Inr (), Some (new_client path)) else (fail (- EAGAIN), None))"

definition GetLocalGatewaySnapshot :: "('client \<Rightarrow> local_gateway_snapshot) \<Rightarrow> 'client option \<Rightarrow> local_gateway_snapshot" where
  "GetLocalGatewaySnapshot snapshot client = (case client of None \<Rightarrow> local_gateway_snapshot0 | Some c \<Rightarrow> snapshot c)"

section \<open>Properties\<close>

text \<open>
  C6. A command to another host sends at most one request, the one it stands for: to the endpoint it
  names, while that endpoint was listed as current (a subscription may always be given up), with the
  input encoded by a descriptor of the type the endpoint shows; a cancellation goes to an action of the
  same endpoint and session.
\<close>

theorem remote_sends:
  "let s' = snd (Execute l c s) in
     rn_log s' = rn_log s
   \<or> (\<exists>e. rn_log s' = rn_log s @ [e] \<and> rn_error s = 0 \<and> addressed l c s e
        \<and> (rc_operation c = OpUnsubscribe \<or> current_in l (rc_endpoint c) (rl_peers l (rn_time s))))"
  using Execute_sends[of l c s] unfolding sends_only_def Let_def by (metis prod.collapse)

text \<open>
  Polling changes nothing and reports every action and then every subscription once, in the order of
  their handles; data of a peer that is lost or of another session is never reported as current, nor
  is a value of a topic that ended.
\<close>

theorem remote_poll:
  "case Poll l s of
     (Inl f, s') \<Rightarrow> s' = s\<lparr>rn_time := rn_time s'\<rparr>
   | (Inr r, s') \<Rightarrow> s' = s\<lparr>rn_time := rn_time s'\<rparr>
       \<and> map ra_handle (rp_activities r) = map fst (rn_actions s) @ map fst (rn_subscriptions s)
       \<and> list_all shown_ok (rp_activities r)"
proof -
  obtain r s' where poll: "Poll l s = (r, s')" by fastforce
  have idle: "s' = s\<lparr>rn_time := rn_time s'\<rparr>" using Poll_idle poll unfolding r_idle_def by blast
  show ?thesis
  proof (cases r)
    case (Inr rep)
    from poll[unfolded Inr Poll_def] obtain avs s1 tvs where a: "r_map (poll_action l) (rn_actions s) s = (Inr avs, s1)"
      and t: "r_map (poll_topic l) (rn_subscriptions s1) s1 = (Inr tvs, s')" and rep: "rep = remote_reply0\<lparr>rp_activities := avs @ tvs\<rparr>"
      by (auto simp: r_bind_Inr r_inversion)
    have "r_idle (r_map (poll_action l) (rn_actions s))"
      unfolding poll_action_def poll_feedback_def poll_result_def lost_or_stale_def Current_def Remote_Decode_def Let_def
      by (intro r_idle_intros)
    then have "rn_subscriptions s1 = rn_subscriptions s"
      using a unfolding r_idle_def by (metis remote_runtime.select_convs(3) remote_runtime.surjective remote_runtime.update_convs(5))
    with polled[OF a poll_action_shown] polled[OF t poll_topic_shown] rep idle poll Inr show ?thesis by simp
  qed (use idle poll in simp)
qed

text \<open>
  C18. Every command submitted to the executor gets exactly one reply: in every interleaving of callers,
  worker and \<open>Stop\<close> each future is queued, running or answered once, at most 32 wait, commands are taken in
  the order they came, and when the worker has returned every future is answered.
\<close>

theorem executor_replies:
  assumes "(exec_step l)\<^sup>*\<^sup>* (executor_start rt) ex"
  shows "mset (map fst (ex_replies ex)) + mset (pending_ids ex) = mset [0..<ex_next ex]
    \<and> length (ex_queue ex) \<le> 32 \<and> sorted_wrt (<) (ex_taken ex)
    \<and> (ex_exited ex \<longrightarrow> mset (map fst (ex_replies ex)) = mset [0..<ex_next ex])"
  using executor.inv_reachable[OF assms] by (auto simp: exec_inv_def pending_ids_def sorted_wrt_append)

text \<open>
  C33. \<open>Stop\<close> returns: once it was called, the worker returns after at most two more turns, the command it
  is running and the cancellation of what is queued. No command ends in undefined behaviour, when the
  library calls only descriptors valid whose offsets lie within the payload.
\<close>

theorem executor_stops:
  assumes "ex_stopping ex" and "valid_layouts l"
  shows "ex_exited ex \<or> (\<exists>ex1. worker l ex = Some ex1 \<and> (ex_exited ex1 \<or> (\<exists>ex2. worker l ex1 = Some ex2 \<and> ex_exited ex2)))"
  using assms by (rule worker_exits)

text \<open>
  Without a configured identity nothing that reads or changes another host is even queued, and what the
  backend answers itself leaves the executor alone.
\<close>

theorem observer_access:
  "if ns_explicit_control_identity snapshot \<or> rc_operation c \<in> {OpSubscribe, OpUnsubscribe, OpPoll}
   then Observer_Submit snapshot c ex = (case ex of None \<Rightarrow> (Some (RemoteUnavailable (- ENOTCONN)), None) | Some x \<Rightarrow> (None, Some (Submit c x)))
   else Observer_Submit snapshot c ex = (Some (RemoteUnavailable (- EACCES)), ex)"
  by (auto simp: Observer_Submit_def)

section \<open>Witnesses\<close>

text \<open>A host with one parameter of the sample type, and what it answers.\<close>

definition no_control :: control_result where
  "no_control = \<lparr>cr_error = 0, cr_response_received = True, cr_execution_unknown = False, cr_cancel_unknown = False, cr_accepted = False,
     cr_value = [], cr_handle = None\<rparr>"

definition no_type :: remote_type_identity where
  "no_type = \<lparr>rti_type_id = 0, rti_schema_id = 0, rti_encoding_id = 0, rti_payload_size = 0\<rparr>"

definition wire_type :: remote_type_identity where
  "wire_type = \<lparr>rti_type_id = 7, rti_schema_id = 1, rti_encoding_id = 1, rti_payload_size = 12\<rparr>"

definition sample_endpoint :: remote_endpoint where
  "sample_endpoint = \<lparr>re_identity = \<lparr>rei_host_id = replicate 32 CHR ''1'', rei_boot_id = replicate 32 CHR ''2'', rei_pid = 5,
       rei_start_ticks = 6, rei_registration_id = 8\<rparr>, re_session = 4, re_value_type = wire_type, re_request_type = no_type,
     re_response_type = no_type, re_feedback_type = no_type, re_id = ''e'', re_runtime_id = ''r'', re_application_id = ''a'',
     re_application = ''app'', re_element = ''el'', re_name = ''gain'', re_kind = ''P'', re_role = ''OWNER'', re_scope = ''REMOTE'',
     re_type = ''sample'', re_diagnostic = []\<rparr>"

definition sample_listed :: net_peer where
  "sample_listed = \<lparr>pe_host = replicate 16 17, pe_boot = replicate 16 34, pe_session = 4, pe_address = ''10.0.0.2'', pe_port = 37651,
     pe_state = PEER_ONLINE, pe_metadata_ready = True, pe_metadata_revision = 1, pe_last_seen = 0,
     pe_profile = \<lparr>np_framework = (5, 5, 0), np_network = (1, 0), np_capabilities = 1024\<rparr>, pe_compatibility = 0, pe_endpoints =
       [\<lparr>en_identity = \<lparr>ni_runtime = \<lparr>nr_host = replicate 16 17, nr_boot = replicate 16 34, nr_pid = 5, nr_start = 6\<rparr>, ni_registration = 8\<rparr>,
          en_kind = NK_PARAMETER, en_role = NR_PROVIDER, en_remote = True, en_name = ''gain'',
          en_application = \<lparr>nr_host = replicate 16 17, nr_boot = replicate 16 34, nr_pid = 5, nr_start = 6\<rparr>,
          en_application_name = ''app'', en_element_name = ''el'', en_host_name = ''host'', en_value_type = wire_type,
          en_request_type = no_type, en_response_type = no_type, en_feedback_type = no_type\<rparr>]\<rparr>"

definition sample_remote :: remote_lib where
  "sample_remote = \<lparr>rl_throws = (\<lambda>t. False), rl_valid = layout_ok, rl_compatible = (\<lambda>n. n = 0), rl_topic_code = (\<lambda>s. 0),
     rl_wire_type = (\<lambda>d. (0, wire_type)),
     rl_decode_value = (\<lambda>d bs. (0, \<lparr>dp_type_id = td_type_id d, dp_bytes = bs, dp_sequence = 0\<rparr>)), rl_encode_value = (\<lambda>d p. (0, dp_bytes p)),
     rl_peers = (\<lambda>t. [sample_listed]), rl_now = int, rl_descriptor = (\<lambda>t g r ty ms. (0, sample_descriptor)),
     rl_get = (\<lambda>t g ty ms. (0, dp_bytes sample_payload)), rl_set = (\<lambda>t g ty bs ms. no_control),
     rl_service = (\<lambda>t g q a bs ms. no_control), rl_start = (\<lambda>t g q f a bs ms tr. no_control),
     rl_cancel = (\<lambda>t h ms. no_control), rl_subscribe = (\<lambda>t g ty ms. (- ENOENT, 0)), rl_unsubscribe = (\<lambda>t h. 0),
     rl_action = (\<lambda>t h. \<lparr>as_accepted = True, as_terminal = True, as_state = 3, as_error = 0, as_communication_lost = False,
       as_execution_unknown = False, as_cancel_unknown = False, as_cancel_accepted = False, as_feedback_sequence = 0, as_feedback = [],
       as_result = []\<rparr>),
     rl_topic = (\<lambda>t h. \<lparr>ts_state = RT_CLOSED, ts_error = 0, ts_sequence = 0, ts_packets_received = 0, ts_route_id = 0,
       ts_has_value = False, ts_descriptor = sample_descriptor, ts_payload = []\<rparr>)\<rparr>"

definition sample_command :: remote_command where
  "sample_command = \<lparr>rc_operation = OpSet, rc_endpoint = sample_endpoint, rc_input = sample_snapshot, rc_handle = 0, rc_timeout_ms = 1000,
     rc_tracking_ms = 60000\<rparr>"

definition runtime_start :: remote_runtime where
  "runtime_start = \<lparr>rn_error = 0, rn_actions = [], rn_subscriptions = [], rn_next = 0, rn_time = 0, rn_log = []\<rparr>"

text \<open>The command is sent: the premises under which something leaves the host do occur.\<close>

lemma sample_command_sent:
  "rn_log (snd (Execute sample_remote sample_command runtime_start)) = [SentSet (target_of sample_endpoint) wire_type [1, 0, 254, 255, 3, 0, 200, 0, 0, 0, 192, 63]]"
  by code_simp

theorem executor_replies_witness:
  "let ex = Stop (Submit sample_command (executor_start runtime_start)) in
     mset (map fst (ex_replies ex)) + mset (pending_ids ex) = mset [0..<ex_next ex]"
proof -
  have "(exec_step sample_remote)\<^sup>*\<^sup>* (executor_start runtime_start) (Stop (Submit sample_command (executor_start runtime_start)))"
    by (meson rtranclp.rtrancl_into_rtrancl rtranclp.rtrancl_refl submits stops)
  from executor_replies[OF this] show ?thesis by (simp add: Let_def)
qed

theorem executor_stops_witness:
  "let ex = Stop (Submit sample_command (executor_start runtime_start)) in
     \<exists>ex1. worker sample_remote ex = Some ex1 \<and> (ex_exited ex1 \<or> (\<exists>ex2. worker sample_remote ex1 = Some ex2 \<and> ex_exited ex2))"
proof -
  have "ex_stopping (Stop (Submit sample_command (executor_start runtime_start)))" by (simp add: Stop_def)
  moreover have "valid_layouts sample_remote" by (simp add: valid_layouts_def sample_remote_def)
  ultimately have "ex_exited (Stop (Submit sample_command (executor_start runtime_start)))
      \<or> (\<exists>ex1. worker sample_remote (Stop (Submit sample_command (executor_start runtime_start))) = Some ex1
          \<and> (ex_exited ex1 \<or> (\<exists>ex2. worker sample_remote ex1 = Some ex2 \<and> ex_exited ex2)))"
    by (rule executor_stops)
  then show ?thesis by (simp add: Stop_def Submit_def executor_start_def Let_def)
qed

end
