(* ===== verification/WindowForms.thy ===== *)
theory WindowForms
  imports ToolBackend
begin

text \<open>
  What the panels of \<open>src/ui/main_window.cpp\<close> share: the backend they call, the rows of a value in a table
  and back, and the texts of errors. A widget is what the code reads back from it or shows in it: a text, a
  flag, a row. Qt takes the texts as they are.

  A handler is a function of its panel and the backend; \<open>Undefined\<close> is an access past the end of a vector,
  or the undefined behaviour of a call.
\<close>

section \<open>The backend of the window\<close>

record 's window_backend =
  wb_Refresh :: "'s \<Rightarrow> unit result \<times> 's"
  wb_GetConnectionState :: "'s \<Rightarrow> backend_connection_state"
  wb_GetApplicationInfo :: "'s \<Rightarrow> application_info"
  wb_GetApplications :: "'s \<Rightarrow> application_info list"
  wb_GetElements :: "'s \<Rightarrow> element_info list"
  wb_GetTopics :: "'s \<Rightarrow> topic_info list"
  wb_GetParameters :: "'s \<Rightarrow> parameter_info list"
  wb_QueryServices :: "'s \<Rightarrow> service_info list"
  wb_GetNetworkSnapshot :: "'s \<Rightarrow> network_snapshot"
  wb_StartTopicEcho :: "'s \<Rightarrow> endpoint_identity \<Rightarrow> unit result \<times> 's"
  wb_ReadTopicEcho :: "'s \<Rightarrow> data_snapshot result \<times> 's"
  wb_StopTopicEcho :: "'s \<Rightarrow> 's"
  wb_GetParameter :: "'s \<Rightarrow> endpoint_identity \<Rightarrow> data_snapshot result \<times> 's"
  wb_ValidateParameter :: "'s \<Rightarrow> endpoint_identity \<Rightarrow> data_snapshot \<Rightarrow> unit result \<times> 's"
  wb_SetParameter :: "'s \<Rightarrow> endpoint_identity \<Rightarrow> data_snapshot \<Rightarrow> unit result \<times> 's"
  wb_GetTypeTemplate :: "'s \<Rightarrow> runtime_identity \<Rightarrow> u64 \<Rightarrow> data_snapshot result \<times> 's"
  wb_ValidateService :: "'s \<Rightarrow> endpoint_identity \<Rightarrow> data_snapshot \<Rightarrow> unit result \<times> 's"
  wb_CallService :: "'s \<Rightarrow> endpoint_identity \<Rightarrow> data_snapshot \<Rightarrow> u32 \<Rightarrow> u32 \<Rightarrow> data_snapshot result \<times> 's"

text \<open>A backend whose reads leave its state alone.\<close>

definition window_backend_of :: "'s tool_backend \<Rightarrow> 's window_backend" where
  "window_backend_of b = \<lparr>wb_Refresh = tb_Refresh b, wb_GetConnectionState = tb_GetConnectionState b,
     wb_GetApplicationInfo = tb_GetApplicationInfo b, wb_GetApplications = tb_GetApplications b, wb_GetElements = tb_GetElements b,
     wb_GetTopics = tb_GetTopics b, wb_GetParameters = tb_GetParameters b, wb_QueryServices = tb_QueryServices b,
     wb_GetNetworkSnapshot = tb_GetNetworkSnapshot b, wb_StartTopicEcho = tb_StartTopicEcho b, wb_ReadTopicEcho = tb_ReadTopicEcho b,
     wb_StopTopicEcho = tb_StopTopicEcho b, wb_GetParameter = (\<lambda>s i. (tb_GetParameter_id b s i, s)),
     wb_ValidateParameter = (\<lambda>s i v. (tb_ValidateParameter b s i v, s)), wb_SetParameter = tb_SetParameter_id b,
     wb_GetTypeTemplate = (\<lambda>s r t. (tb_GetTypeTemplate b s r t, s)), wb_ValidateService = (\<lambda>s i v. (tb_ValidateService b s i v, s)),
     wb_CallService = tb_CallService b\<rparr>"

text \<open>What a handler does with the code of a call: 0, or an error.\<close>

definition on_result :: "'a result \<Rightarrow> ('a \<Rightarrow> 'b result) \<Rightarrow> (int \<Rightarrow> 'b result) \<Rightarrow> 'b result" where
  "on_result r ok err = (case r of Inr v \<Rightarrow> ok v | Inl (Errno c) \<Rightarrow> err c | Inl Undefined \<Rightarrow> Inl Undefined)"

lemma on_result_simps [simp]:
  "on_result (Inr v) ok err = ok v" "on_result (fail c) ok err = err c" "on_result (Inl Undefined) ok err = Inl Undefined"
  by (simp_all add: on_result_def fail_def)

lemma on_result_cases:
  obtains (ok) v where "r = Inr v" | (code) c where "r = fail c" | (undef) "r = Inl Undefined"
  unfolding fail_def by (metis err.exhaust sum.exhaust)

section \<open>Texts\<close>

abbreviation em_dash :: string where "em_dash \<equiv> [CHR 0xE2, CHR 0x80, CHR 0x94]"

text \<open>\<open>strerror\<close> is the C library's, whose texts depend on the locale.\<close>

definition ErrorText :: "(int \<Rightarrow> string) \<Rightarrow> int \<Rightarrow> string" where
  "ErrorText strerror result =
     (if result = - ENOTSUP then ''Not supported''
      else if result = - ENOENT then ''Not found''
      else if result = - EPERM then ''Read-only / Permission denied''
      else if result < 0 then strerror (- result)
      else ''Unexpected backend result: '' @ to_string_int result)"

fun join_texts :: "string \<Rightarrow> string list \<Rightarrow> string" where
  "join_texts sep [] = []"
| "join_texts sep [x] = x"
| "join_texts sep (x # y # xs) = x @ sep @ join_texts sep (y # xs)"

definition Names :: "string list \<Rightarrow> string" where
  "Names names = (if names = [] then ''None'' else join_texts '', '' names)"

section \<open>Rows\<close>

text \<open>A row shows a scalar field (\<open>None\<close>, the code's -1) or an element of an array field.\<close>

type_synonym row_key = "nat \<times> nat option"

definition field_keys :: "nat \<Rightarrow> field_value \<Rightarrow> row_key list" where
  "field_keys i f = (if fv_array_values f = [] then [(i, None)] else map (\<lambda>j. (i, Some j)) [0..<length (fv_array_values f)])"

definition row_keys :: "data_snapshot \<Rightarrow> row_key list" where
  "row_keys v = concat (map (\<lambda>i. field_keys i (ds_fields v ! i)) [0..<length (ds_fields v)])"

definition key_in :: "data_snapshot \<Rightarrow> row_key \<Rightarrow> bool" where
  "key_in v k \<longleftrightarrow> fst k < length (ds_fields v)
     \<and> (case snd k of None \<Rightarrow> True | Some j \<Rightarrow> j < length (fv_array_values (ds_fields v ! fst k)))"

definition text_at :: "data_snapshot \<Rightarrow> row_key \<Rightarrow> string" where
  "text_at v k = (let f = ds_fields v ! fst k in case snd k of None \<Rightarrow> fv_value f | Some j \<Rightarrow> fv_array_values f ! j)"

definition get_text :: "data_snapshot \<Rightarrow> row_key \<Rightarrow> string result" where
  "get_text v k = (if key_in v k then Inr (text_at v k) else Inl Undefined)"

definition with_text :: "row_key \<Rightarrow> string \<Rightarrow> field_value \<Rightarrow> field_value" where
  "with_text k t f = (case snd k of None \<Rightarrow> f\<lparr>fv_value := t\<rparr> | Some j \<Rightarrow> f\<lparr>fv_array_values := (fv_array_values f)[j := t]\<rparr>)"

definition set_text :: "row_key \<Rightarrow> string \<Rightarrow> data_snapshot \<Rightarrow> data_snapshot" where
  "set_text k t v = v\<lparr>ds_fields := (ds_fields v)[fst k := with_text k t (ds_fields v ! fst k)]\<rparr>"

definition FieldRows :: "data_snapshot \<Rightarrow> (row_key \<times> string) list" where
  "FieldRows v = map (\<lambda>k. (k, text_at v k)) (row_keys v)"

definition EditedFields :: "data_snapshot \<Rightarrow> string list \<Rightarrow> row_key list \<Rightarrow> data_snapshot result" where
  "EditedFields v inputs rows =
     foldM_res (\<lambda>(r, t) w. res_bind (nth_res rows r) (\<lambda>k. if key_in w k then Inr (set_text k t w) else Inl Undefined))
       (enumerate 0 inputs) v"

definition row_name :: "data_snapshot \<Rightarrow> row_key \<Rightarrow> string" where
  "row_name v k = fv_name (ds_fields v ! fst k) @ (case snd k of None \<Rightarrow> [] | Some j \<Rightarrow> ''['' @ to_string_nat j @ '']'')"

definition row_cells :: "data_snapshot \<Rightarrow> row_key \<times> string \<Rightarrow> string \<times> string \<times> string" where
  "row_cells v r = (row_name v (fst r), fv_type_name (ds_fields v ! fst (fst r)), snd r)"

definition ResponseRows :: "data_snapshot \<Rightarrow> bool \<Rightarrow> (string \<times> string \<times> string) list" where
  "ResponseRows v show_values = map (\<lambda>r. row_cells v (fst r, if show_values then snd r else [])) (FieldRows v)"

subsection \<open>Lemmas on rows\<close>

lemma map_fst_FieldRows [simp]: "map fst (FieldRows v) = row_keys v" "length (FieldRows v) = length (row_keys v)"
  by (simp_all add: FieldRows_def comp_def)

lemma map_snd_FieldRows: "map snd (FieldRows v) = map (text_at v) (row_keys v)"
  by (simp add: FieldRows_def comp_def)

lemma set_field_keys: "k \<in> set (field_keys i f) \<longleftrightarrow> fst k = i
   \<and> (case snd k of None \<Rightarrow> fv_array_values f = [] | Some j \<Rightarrow> j < length (fv_array_values f))"
  by (cases k; cases "snd k") (auto simp: field_keys_def)

lemma set_row_keys: "k \<in> set (row_keys v) \<longleftrightarrow> fst k < length (ds_fields v)
   \<and> (case snd k of None \<Rightarrow> fv_array_values (ds_fields v ! fst k) = [] | Some j \<Rightarrow> j < length (fv_array_values (ds_fields v ! fst k)))"
  by (auto simp: row_keys_def set_field_keys)

lemma row_keys_in: "k \<in> set (row_keys v) \<Longrightarrow> key_in v k"
  by (auto simp: set_row_keys key_in_def split: option.splits)

lemma distinct_row_keys [simp]: "distinct (row_keys v)"
proof -
  have "distinct (concat (map (\<lambda>i. field_keys i (g i)) [0..<n]))" for n g
  proof (induction n)
    case (Suc n)
    have "distinct (field_keys n (g n))" by (simp add: field_keys_def distinct_map inj_on_def)
    moreover have "set (concat (map (\<lambda>i. field_keys i (g i)) [0..<n])) \<inter> set (field_keys n (g n)) = {}"
      by (auto simp: set_field_keys)
    ultimately show ?case using Suc by simp
  qed simp
  then show ?thesis by (simp add: row_keys_def)
qed

text \<open>Two values of the same shape: the same fields, with other texts.\<close>

definition field_shape :: "field_value \<Rightarrow> string \<times> string \<times> value_kind \<times> nat" where
  "field_shape f = (fv_name f, fv_type_name f, fv_kind f, length (fv_array_values f))"

definition same_shape :: "data_snapshot \<Rightarrow> data_snapshot \<Rightarrow> bool" where
  "same_shape v w \<longleftrightarrow> map field_shape (ds_fields w) = map field_shape (ds_fields v) \<and> ds_type_name w = ds_type_name v
     \<and> ds_sequence w = ds_sequence v \<and> ds_timestamp_us w = ds_timestamp_us v \<and> ds_type_id w = ds_type_id v"

lemma same_shape_refl [simp]: "same_shape v v"
  by (simp add: same_shape_def)

lemma same_shape_trans: "same_shape u v \<Longrightarrow> same_shape v w \<Longrightarrow> same_shape u w"
  by (simp add: same_shape_def)

lemma field_shape_with_text [simp]: "field_shape (with_text k t f) = field_shape f"
  by (simp add: field_shape_def with_text_def split: option.split)

lemma same_shape_set_text: "same_shape v (set_text k t v)"
  by (auto simp: same_shape_def set_text_def map_update list_update_same_conv intro: nth_equalityI)
     (metis (no_types, lifting) field_shape_with_text list_update_beyond list_update_id map_update not_le nth_map length_map)

lemma same_shape_length: "same_shape v w \<Longrightarrow> length (ds_fields w) = length (ds_fields v)"
  unfolding same_shape_def by (metis length_map)

lemma same_shape_field:
  assumes "same_shape v w" and "i < length (ds_fields v)"
  shows "field_shape (ds_fields w ! i) = field_shape (ds_fields v ! i)"
  using assms same_shape_length[OF assms(1)] unfolding same_shape_def by (metis nth_map)

lemma same_shape_key_in: "same_shape v w \<Longrightarrow> key_in w k \<longleftrightarrow> key_in v k"
  using same_shape_field[of v w "fst k"] same_shape_length[of v w]
  by (auto simp: key_in_def field_shape_def split: option.splits)

lemma text_at_set_text:
  assumes "key_in v k" and "key_in v k'"
  shows "text_at (set_text k t v) k' = (if k' = k then t else text_at v k')"
  using assms unfolding text_at_def set_text_def with_text_def key_in_def
  by (cases k; cases k') (auto simp: nth_list_update split: option.splits)

lemma set_text_same: "key_in v k \<Longrightarrow> set_text k (text_at v k) v = v"
  by (auto simp: set_text_def with_text_def text_at_def key_in_def split: option.splits)

lemma EditedFields_step:
  "EditedFields v (ts @ [t]) rows = res_bind (EditedFields v ts rows) (\<lambda>w.
     res_bind (nth_res rows (length ts)) (\<lambda>k. if key_in w k then Inr (set_text k t w) else Inl Undefined))"
  by (simp add: EditedFields_def foldM_res_append enumerate_append_eq res_bind_def split: sum.split)

text \<open>Reading back the inputs of all rows gives the texts of the inputs, and leaves the rest of the value.\<close>

lemma EditedFields_spec:
  assumes "length ts \<le> length rows" and "distinct rows" and "\<And>k. k \<in> set rows \<Longrightarrow> key_in v k"
  shows "\<exists>w. EditedFields v ts rows = Inr w \<and> same_shape v w
    \<and> (\<forall>k. key_in v k \<longrightarrow> text_at w k = (case map_of (zip rows ts) k of Some t \<Rightarrow> t | None \<Rightarrow> text_at v k))"
  using assms(1)
proof (induction ts rule: rev_induct)
  case Nil
  then show ?case by (simp add: EditedFields_def)
next
  case (snoc t ts)
  then obtain w where w: "EditedFields v ts rows = Inr w" "same_shape v w"
    "\<And>k. key_in v k \<Longrightarrow> text_at w k = (case map_of (zip rows ts) k of Some t \<Rightarrow> t | None \<Rightarrow> text_at v k)" by auto
  let ?n = "length ts" let ?k = "rows ! length ts"
  have n: "?n < length rows" using snoc.prems by simp
  then have in_v: "key_in v ?k" using assms(3) by simp
  then have in_w: "key_in w ?k" using same_shape_key_in[OF w(2)] by simp
  have e: "EditedFields v (ts @ [t]) rows = Inr (set_text ?k t w)" using n in_w by (simp add: EditedFields_step w(1))
  have rows: "rows = take ?n rows @ ?k # drop (Suc ?n) rows" using n by (simp add: id_take_nth_drop)
  have "zip rows (ts @ [t]) = zip (take ?n rows) ts @ [(?k, t)]"
    by (subst rows) (use n in \<open>simp add: zip_append1\<close>)
  moreover have "zip rows ts = zip (take ?n rows) ts" by (subst rows) (use n in \<open>simp add: zip_append1\<close>)
  moreover have "?k \<notin> set (take ?n rows)" using rows assms(2) by (metis disjoint_iff distinct_append list.set_intros(1))
  then have "map_of (zip (take ?n rows) ts) ?k = None" by (auto simp: map_of_eq_None_iff dest: set_zip_leftD)
  ultimately have m: "map_of (zip rows (ts @ [t])) k = (if k = ?k then Some t else map_of (zip rows ts) k)" for k
    by (auto simp: map_add_def split: option.split)
  have "text_at (set_text ?k t w) k = (case map_of (zip rows (ts @ [t])) k of Some t \<Rightarrow> t | None \<Rightarrow> text_at v k)" if "key_in v k" for k
    using that in_w text_at_set_text[of w ?k k t] same_shape_key_in[OF w(2)] w(3) by (simp add: m)
  with e show ?case using same_shape_trans[OF w(2) same_shape_set_text] by blast
qed

text \<open>Inputs nobody changed give the value back.\<close>

lemma EditedFields_same:
  assumes "\<And>k. k \<in> set rows \<Longrightarrow> key_in v k"
  shows "EditedFields v (map (text_at v) rows) rows = Inr v"
proof -
  have "EditedFields v (map (text_at v) (take n rows)) rows = Inr v" if "n \<le> length rows" for n
    using that
  proof (induction n)
    case 0
    then show ?case by (simp add: EditedFields_def)
  next
    case (Suc n)
    then have "EditedFields v (map (text_at v) (take n rows)) rows = Inr v" "n < length rows" by auto
    with assms show ?case by (simp add: take_Suc_conv_app_nth EditedFields_step set_text_same min_def)
  qed
  from this[of "length rows"] show ?thesis by simp
qed

section \<open>Lists\<close>

text \<open>
  The row of a list after it was filled again: that of the last item with the given identity, where
  there was one, and otherwise the first row, once.
\<close>

fun last_index :: "('a \<Rightarrow> bool) \<Rightarrow> nat \<Rightarrow> 'a list \<Rightarrow> int \<Rightarrow> int" where
  "last_index P i [] row = row"
| "last_index P i (x # xs) row = last_index P (Suc i) xs (if P x then int i else row)"

lemma last_index_spec:
  "(\<exists>j < length xs. P (xs ! j) \<and> last_index P i xs row = int (i + j)) \<or> ((\<forall>x \<in> set xs. \<not> P x) \<and> last_index P i xs row = row)"
proof (induction xs arbitrary: i row)
  case (Cons x xs)
  from Cons[of "Suc i" "if P x then int i else row"] show ?case
  proof (elim disjE exE conjE)
    fix j assume "j < length xs" "P (xs ! j)" "last_index P (Suc i) xs (if P x then int i else row) = int (Suc i + j)"
    then show ?thesis by (intro disjI1 exI[of _ "Suc j"]) simp
  next
    assume a: "\<forall>x \<in> set xs. \<not> P x" "last_index P (Suc i) xs (if P x then int i else row) = (if P x then int i else row)"
    then show ?thesis by (cases "P x") (auto intro: exI[of _ 0])
  qed
qed simp

end
