(* ===== verification/ParameterPanel.thy ===== *)
theory ParameterPanel
  imports WindowForms StepSystem
begin

text \<open>
  The parameter editor of \<open>src/ui/main_window.cpp\<close> (\<open>ShowParameter\<close> to \<open>ApplyParameter\<close>): its widgets and
  the members \<open>parameter_*_\<close> as one record, its handlers over any backend, and the step relation of what a user
  can do. Values given to \<open>SetParameter\<close> are logged in \<open>pp_sent\<close>.
\<close>

section \<open>State\<close>

text \<open>\<open>pp_list\<close> is the current row of the list; \<open>pp_editable\<close> says whether the inputs are enabled.\<close>

record parameter_panel =
  pp_parameters :: "parameter_info list"
  pp_list :: int
  pp_row :: int
  pp_value :: data_snapshot
  pp_inputs :: "string list"
  pp_rows :: "row_key list"
  pp_dirty :: bool
  pp_invalid :: bool
  pp_editable :: bool
  pp_apply :: bool
  pp_refresh :: bool
  pp_revert :: bool
  pp_texts :: "string list"
  pp_metadata :: string
  pp_table :: "(string \<times> string \<times> string) list"
  pp_status :: string
  pp_sent :: "(endpoint_identity \<times> data_snapshot) list"

definition parameter_panel0 :: parameter_panel where
  "parameter_panel0 = \<lparr>pp_parameters = [], pp_list = -1, pp_row = -1, pp_value = data_snapshot0, pp_inputs = [], pp_rows = [],
     pp_dirty = False, pp_invalid = True, pp_editable = False, pp_apply = False, pp_refresh = False, pp_revert = False,
     pp_texts = ['''', '''', '''', ''''], pp_metadata = [], pp_table = [], pp_status = [], pp_sent = []\<rparr>"

text \<open>\<open>row>=0 && row<parameters_.size()\<close>.\<close>

definition row_ok :: "int \<Rightarrow> 'a list \<Rightarrow> bool" where
  "row_ok row xs \<longleftrightarrow> 0 \<le> row \<and> nat row < length xs"

text \<open>\<open>parameters_[parameter_row_]\<close>.\<close>

definition current_parameter :: "parameter_panel \<Rightarrow> parameter_info result" where
  "current_parameter p = (if row_ok (pp_row p) (pp_parameters p) then Inr (pp_parameters p ! nat (pp_row p)) else Inl Undefined)"

section \<open>Handlers\<close>

definition single_field :: "data_snapshot \<Rightarrow> bool" where
  "single_field v \<longleftrightarrow> length (ds_fields v) = 1 \<and> fv_array_values (ds_fields v ! 0) = []"

definition RenderParameter :: "data_snapshot \<Rightarrow> parameter_panel \<Rightarrow> parameter_panel result" where
  "RenderParameter v p = res_bind (current_parameter p) (\<lambda>q.
     Inr (p\<lparr>pp_value := v, pp_dirty := False, pp_inputs := map snd (FieldRows v), pp_rows := map fst (FieldRows v),
       pp_editable := \<not> pp_invalid p \<and> pi_writable q, pp_table := map (row_cells v) (FieldRows v),
       pp_texts := (pp_texts p)[3 := if pi_writable q then if pp_invalid p then ''Unavailable until refresh'' else ''Yes''
            else ''No (read-only)'',
          2 := if single_field v then fv_value (ds_fields v ! 0)
            else to_string_nat (length (ds_fields v)) @ '' fields (last Get)''],
       pp_apply := False, pp_revert := False, pp_refresh := True\<rparr>))"

definition ParameterError :: "(int \<Rightarrow> string) \<Rightarrow> string \<Rightarrow> int \<Rightarrow> parameter_panel \<Rightarrow> parameter_panel" where
  "ParameterError strerror action result p = p\<lparr>pp_invalid := True, pp_apply := False,
     pp_texts := (pp_texts p)[3 := ''Unavailable until refresh''],
     pp_status := (if result = - ESTALE then ''Parameter is stale. Revert edits, Refresh, and reselect before applying.''
       else action @ '': '' @ ErrorText strerror result @ '' ('' @ to_string_int result @ ''). Value not confirmed; refresh required.'')\<rparr>"

definition RefreshParameterValue :: "'s window_backend \<Rightarrow> (int \<Rightarrow> string) \<Rightarrow> bool \<Rightarrow> 's \<times> parameter_panel \<Rightarrow> ('s \<times> parameter_panel) result" where
  "RefreshParameterValue b strerror busy sp = (case sp of (s, p) \<Rightarrow>
     if busy then Inr (s, p)
     else if pp_dirty p then Inr (s, p\<lparr>pp_status := ''Apply or Revert before Refresh Value.''\<rparr>)
     else if \<not> row_ok (pp_row p) (pp_parameters p) then Inr (s, p)
     else case wb_GetParameter b s (pi_identity (pp_parameters p ! nat (pp_row p))) of (r, s) \<Rightarrow>
       on_result r
         (\<lambda>v. res_bind (RenderParameter v (p\<lparr>pp_invalid := False\<rparr>)) (\<lambda>p. Inr (s, p\<lparr>pp_status := ''Current value loaded''\<rparr>)))
         (\<lambda>c. Inr (s, ParameterError strerror ''Get failed'' c p)))"

definition parameter_metadata :: "parameter_info \<Rightarrow> string" where
  "parameter_metadata q = pi_role q @ '' / PID '' @ to_string_int (ri_pid (ei_runtime (pi_identity q)))
     @ '' / start '' @ to_string_u64 (ri_process_start_ticks (ei_runtime (pi_identity q)))
     @ '' / endpoint '' @ to_string_u64 (ei_registration_id (pi_identity q)) @ '' / type_id '' @ to_string_u64 (pi_type_id q)
     @ '' / '' @ to_string_u64 (pi_payload_size q) @ '' bytes / '' @ pi_diagnostic_type_name q"

text \<open>The editor without a value, as \<open>ShowParameter\<close> leaves it before it looks at the row.\<close>

definition blank_parameter :: "parameter_panel \<Rightarrow> parameter_panel" where
  "blank_parameter p = p\<lparr>pp_row := pp_list p, pp_value := data_snapshot0, pp_invalid := True, pp_inputs := [], pp_rows := [],
     pp_table := [], pp_editable := False, pp_apply := False, pp_refresh := False, pp_revert := False,
     pp_texts := ['''', '''', '''', ''''], pp_metadata := [], pp_status := []\<rparr>"

definition ShowParameter :: "'s window_backend \<Rightarrow> (int \<Rightarrow> string) \<Rightarrow> bool \<Rightarrow> 's \<times> parameter_panel \<Rightarrow> ('s \<times> parameter_panel) result" where
  "ShowParameter b strerror busy sp = (case sp of (s, p) \<Rightarrow>
     if busy then Inr (s, p)
     else if pp_dirty p
     then Inr (s, p\<lparr>pp_list := pp_row p, pp_status := ''Unsaved edits: Apply or Revert before changing selection.''\<rparr>)
     else let row = pp_list p; p = blank_parameter p
          in if \<not> row_ok row (pp_parameters p) then Inr (s, p)
             else let q = pp_parameters p ! nat row;
                      p = p\<lparr>pp_texts := [pi_name q, pi_type_name q, pi_value q, if pi_writable q then ''Yes'' else ''No (read-only)''],
                            pp_metadata := parameter_metadata q\<rparr>
                  in if pi_type_id q = 0 then Inr (s, p\<lparr>pp_status := ''Type descriptor unavailable''\<rparr>)
                     else RefreshParameterValue b strerror busy (s, p\<lparr>pp_refresh := True\<rparr>))"

definition EditedParameter :: "parameter_panel \<Rightarrow> data_snapshot result" where
  "EditedParameter p = EditedFields (pp_value p) (pp_inputs p) (pp_rows p)"

text \<open>The comparison of every input with the value it was filled from.\<close>

definition inputs_differ :: "parameter_panel \<Rightarrow> bool result" where
  "inputs_differ p = foldM_res (\<lambda>(r, t) dirty. res_bind (nth_res (pp_rows p) r) (\<lambda>k. res_bind (get_text (pp_value p) k) (\<lambda>old.
     Inr (if t \<noteq> old then True else dirty)))) (enumerate 0 (pp_inputs p)) False"

definition ParameterEdited :: "parameter_panel \<Rightarrow> parameter_panel result" where
  "ParameterEdited p = res_bind (inputs_differ p) (\<lambda>dirty.
     res_bind (if dirty \<and> \<not> pp_invalid p \<and> 0 \<le> pp_row p then res_bind (current_parameter p) (\<lambda>q. Inr (pi_writable q)) else Inr False) (\<lambda>writable.
     res_bind (if \<not> dirty \<and> 0 \<le> pp_row p then res_bind (current_parameter p) (\<lambda>q. Inr (pi_type_id q \<noteq> 0)) else Inr False) (\<lambda>known.
        Inr (p\<lparr>pp_dirty := dirty, pp_apply := writable, pp_refresh := known, pp_revert := dirty,
          pp_status := (if pp_invalid p then ''Value invalid/stale. Revert edits, Refresh, and reselect before applying.''
            else if dirty then ''Edited '' @ em_dash @ '' not applied'' else ''Unchanged since last Get'')\<rparr>))))"

definition RevertParameter :: "parameter_panel \<Rightarrow> parameter_panel result" where
  "RevertParameter p =
     (if pp_row p < 0 then Inr p
      else res_bind (RenderParameter (pp_value p) p) (\<lambda>p.
        Inr (p\<lparr>pp_status := (if pp_invalid p then ''Edits discarded. Refresh and reselect before applying.'' else ''Edits discarded'')\<rparr>)))"

section \<open>Apply\<close>

text \<open>\<open>std::find_if\<close> by name.\<close>

fun field_position :: "string \<Rightarrow> field_value list \<Rightarrow> nat option" where
  "field_position n [] = None"
| "field_position n (f # fs) = (if fv_name f = n then Some 0 else map_option Suc (field_position n fs))"

text \<open>The fresh value with the changed texts laid over it, or \<open>None\<close> where the type changed.\<close>

definition compatible_field :: "field_value \<Rightarrow> field_value \<Rightarrow> bool" where
  "compatible_field f b \<longleftrightarrow> fv_kind f = fv_kind b \<and> fv_type_name f = fv_type_name b
     \<and> length (fv_array_values f) = length (fv_array_values b)"

fun overlay :: "data_snapshot \<Rightarrow> data_snapshot \<Rightarrow> row_key list \<Rightarrow> data_snapshot \<Rightarrow> data_snapshot option result" where
  "overlay before edited [] fresh = Inr (Some fresh)"
| "overlay before edited (k # ks) fresh =
     res_bind (nth_res (ds_fields before) (fst k)) (\<lambda>b. res_bind (nth_res (ds_fields edited) (fst k)) (\<lambda>a.
     case field_position (fv_name b) (ds_fields fresh) of
       None \<Rightarrow> Inr None
     | Some i \<Rightarrow>
         if \<not> compatible_field (ds_fields fresh ! i) b then Inr None
         else res_bind (get_text before k) (\<lambda>old. res_bind (get_text edited k) (\<lambda>new.
           overlay before edited ks (if new \<noteq> old then set_text (i, snd k) new fresh else fresh)))))"

definition type_changed :: "data_snapshot \<Rightarrow> data_snapshot \<Rightarrow> bool" where
  "type_changed fresh old \<longleftrightarrow> ds_type_id fresh \<noteq> ds_type_id old \<or> ds_type_name fresh \<noteq> ds_type_name old
     \<or> length (ds_fields fresh) \<noteq> length (ds_fields old)"

text \<open>The last part: the write and the value read back.\<close>

definition write_and_read :: "'s window_backend \<Rightarrow> (int \<Rightarrow> string) \<Rightarrow> endpoint_identity \<Rightarrow> data_snapshot \<Rightarrow> 's \<times> parameter_panel
    \<Rightarrow> ('s \<times> parameter_panel) result" where
  "write_and_read b strerror i v sp = (case sp of (s, p) \<Rightarrow>
     case wb_SetParameter b s i v of (r, s) \<Rightarrow>
     let p = p\<lparr>pp_sent := pp_sent p @ [(i, v)]\<rparr>
     in on_result r
       (\<lambda>_. let p = p\<lparr>pp_dirty := False\<rparr>
            in case wb_GetParameter b s i of (r, s) \<Rightarrow> on_result r
              (\<lambda>actual. res_bind (RenderParameter actual (p\<lparr>pp_invalid := False\<rparr>)) (\<lambda>p.
                 Inr (s, p\<lparr>pp_status := ''Applied; current value re-read''\<rparr>)))
              (\<lambda>c. Inr (s, (ParameterError strerror ''Set succeeded but readback failed'' c p)\<lparr>pp_refresh := True\<rparr>)))
       (\<lambda>c. Inr (s, ParameterError strerror ''Apply failed; edits not applied'' c p)))"

definition ApplyParameter :: "'s window_backend \<Rightarrow> (int \<Rightarrow> string) \<Rightarrow> bool \<Rightarrow> 's \<times> parameter_panel \<Rightarrow> ('s \<times> parameter_panel) result" where
  "ApplyParameter b strerror busy sp = (case sp of (s, p) \<Rightarrow>
     if busy \<or> \<not> pp_dirty p \<or> pp_invalid p \<or> pp_row p < 0 then Inr (s, p)
     else res_bind (current_parameter p) (\<lambda>q. res_bind (EditedParameter p) (\<lambda>edited.
       let i = pi_identity q
       in case wb_ValidateParameter b s i edited of (r, s) \<Rightarrow> on_result r
         (\<lambda>_. case wb_GetParameter b s i of (r, s) \<Rightarrow> on_result r
            (\<lambda>fresh. if type_changed fresh (pp_value p) then Inr (s, ParameterError strerror ''Type changed'' (- EPROTOTYPE) p)
               else res_bind (overlay (pp_value p) edited (pp_rows p) fresh) (\<lambda>w. case w of
                   None \<Rightarrow> Inr (s, ParameterError strerror ''Type changed'' (- EPROTOTYPE) p)
                 | Some v \<Rightarrow> write_and_read b strerror i v (s, p)))
            (\<lambda>c. Inr (s, ParameterError strerror ''Get before Apply failed'' c p)))
         (\<lambda>c. if c = - EINVAL \<or> c = - ERANGE \<or> c = - EMSGSIZE
              then Inr (s, p\<lparr>pp_status := ''Invalid input: '' @ ErrorText strerror c\<rparr>)
              else Inr (s, ParameterError strerror ''Validation failed'' c p)))))"

section \<open>What a user can do\<close>

text \<open>
  Events of the panel: a row of the list is chosen, the text of an enabled input changes, a button or the return
  key, and the part of \<open>MainWindow::Refresh\<close> that replaces the list, which a panel with edits refuses. \<open>busy\<close> is the
  window's \<open>service_busy_\<close>. A button
  may be pressed at any time: that a disabled one is not only makes fewer things happen.
\<close>

datatype panel_event =
  Select int
| Edit nat string
| Apply
| Revert
| Read_again
| Reload "parameter_info list" int

definition list_row :: "int \<Rightarrow> 'a list \<Rightarrow> bool" where
  "list_row row xs \<longleftrightarrow> -1 \<le> row \<and> row < int (length xs)"

definition reload_parameters :: "parameter_info list \<Rightarrow> int \<Rightarrow> parameter_panel \<Rightarrow> parameter_panel" where
  "reload_parameters ps row p = p\<lparr>pp_parameters := ps, pp_list := row, pp_row := -1\<rparr>"

definition panel_step :: "'s window_backend \<Rightarrow> (int \<Rightarrow> string) \<Rightarrow> bool \<Rightarrow> panel_event \<Rightarrow> 's \<times> parameter_panel
    \<Rightarrow> ('s \<times> parameter_panel) result" where
  "panel_step b strerror busy e sp = (case sp of (s, p) \<Rightarrow> case e of
     Select row \<Rightarrow> if list_row row (pp_parameters p) \<and> row \<noteq> pp_list p
       then ShowParameter b strerror busy (s, p\<lparr>pp_list := row\<rparr>) else Inr (s, p)
   | Edit r t \<Rightarrow> if pp_editable p \<and> r < length (pp_inputs p)
       then res_bind (ParameterEdited (p\<lparr>pp_inputs := (pp_inputs p)[r := t]\<rparr>)) (\<lambda>p. Inr (s, p)) else Inr (s, p)
   | Apply \<Rightarrow> ApplyParameter b strerror busy (s, p)
   | Revert \<Rightarrow> res_bind (RevertParameter p) (\<lambda>p. Inr (s, p))
   | Read_again \<Rightarrow> RefreshParameterValue b strerror busy (s, p)
   | Reload ps row \<Rightarrow> if busy \<or> pp_dirty p \<or> \<not> list_row row ps then Inr (s, p)
       else ShowParameter b strerror busy (s, reload_parameters ps row p))"

end
