(* ===== verification/ParameterProps.thy ===== *)
theory ParameterProps
  imports ParameterPanel MockBackend
begin

text \<open>
  What the parameter editor promises: it stays consistent under everything a user does, and what it
  writes is the value it has just read with the edited texts laid over it.
\<close>

section \<open>The backend\<close>

definition backend_defined :: "'s window_backend \<Rightarrow> bool" where
  "backend_defined b \<longleftrightarrow> (\<forall>s i v. fst (wb_GetParameter b s i) \<noteq> Inl Undefined \<and> fst (wb_ValidateParameter b s i v) \<noteq> Inl Undefined
     \<and> fst (wb_SetParameter b s i v) \<noteq> Inl Undefined)"

lemma backend_call_cases:
  assumes "backend_defined b"
  obtains "\<exists>v s'. wb_GetParameter b s i = (Inr v, s')" | "\<exists>c s'. wb_GetParameter b s i = (fail c, s')"
  using assms on_result_cases[of "fst (wb_GetParameter b s i)"] unfolding backend_defined_def by (metis prod.collapse)

lemma validate_call_cases:
  assumes "backend_defined b"
  obtains "\<exists>s'. wb_ValidateParameter b s i v = (Inr (), s')" | "\<exists>c s'. wb_ValidateParameter b s i v = (fail c, s')"
  using assms on_result_cases[of "fst (wb_ValidateParameter b s i v)"] unfolding backend_defined_def
  by (metis (full_types) old.unit.exhaust prod.collapse)

lemma set_call_cases:
  assumes "backend_defined b"
  obtains "\<exists>s'. wb_SetParameter b s i v = (Inr (), s')" | "\<exists>c s'. wb_SetParameter b s i v = (fail c, s')"
  using assms on_result_cases[of "fst (wb_SetParameter b s i v)"] unfolding backend_defined_def
  by (metis (full_types) old.unit.exhaust prod.collapse)

section \<open>The invariant\<close>

definition shown_texts :: "parameter_panel \<Rightarrow> string list" where
  "shown_texts p = map (text_at (pp_value p)) (row_keys (pp_value p))"

definition panel_inv :: "parameter_panel \<Rightarrow> bool" where
  "panel_inv p \<longleftrightarrow> list_row (pp_row p) (pp_parameters p) \<and> list_row (pp_list p) (pp_parameters p)
     \<and> pp_rows p = row_keys (pp_value p) \<and> length (pp_inputs p) = length (pp_rows p)
     \<and> (pp_dirty p \<longrightarrow> pp_inputs p \<noteq> shown_texts p \<and> pp_editable p \<and> pp_revert p)
     \<and> (\<not> pp_dirty p \<and> \<not> pp_invalid p \<longrightarrow> pp_inputs p = shown_texts p)
     \<and> (pp_apply p \<longleftrightarrow> pp_dirty p \<and> \<not> pp_invalid p)
     \<and> (pp_editable p \<longrightarrow> 0 \<le> pp_row p \<and> pi_writable (pp_parameters p ! nat (pp_row p)))"

lemma panel_inv_start: "panel_inv parameter_panel0"
  by (simp add: panel_inv_def parameter_panel0_def list_row_def row_keys_def data_snapshot0_def)

lemma list_row_ok: "list_row row xs \<Longrightarrow> row_ok row xs \<longleftrightarrow> 0 \<le> row"
  by (auto simp: list_row_def row_ok_def)

lemma current_parameter_inv: "panel_inv p \<Longrightarrow> 0 \<le> pp_row p \<Longrightarrow> current_parameter p = Inr (pp_parameters p ! nat (pp_row p))"
  by (simp add: panel_inv_def current_parameter_def list_row_ok)

lemma Render_inv:
  assumes "list_row (pp_row p) (pp_parameters p)" and "list_row (pp_list p) (pp_parameters p)" and "0 \<le> pp_row p"
  shows "\<exists>p'. RenderParameter v p = Inr p' \<and> panel_inv p'"
proof -
  have "row_ok (pp_row p) (pp_parameters p)" using assms(1,3) by (simp add: list_row_ok)
  with assms show ?thesis
    by (simp add: RenderParameter_def current_parameter_def panel_inv_def shown_texts_def map_snd_FieldRows)
qed

lemma status_inv [simp]: "panel_inv (p\<lparr>pp_status := t\<rparr>) = panel_inv p" "panel_inv (p\<lparr>pp_refresh := r\<rparr>) = panel_inv p"
  "panel_inv (p\<lparr>pp_sent := l\<rparr>) = panel_inv p"
  by (simp_all add: panel_inv_def shown_texts_def)

lemma error_inv: "panel_inv p \<Longrightarrow> panel_inv (ParameterError strerror action c p)"
  by (simp add: panel_inv_def ParameterError_def shown_texts_def)

definition returns_inv :: "('s \<times> parameter_panel) result \<Rightarrow> bool" where
  "returns_inv r \<longleftrightarrow> (\<exists>s p. r = Inr (s, p) \<and> panel_inv p)"

lemma returns_inv_Inr [simp]: "returns_inv (Inr (s, p)) = panel_inv p"
  by (simp add: returns_inv_def)

lemma Refresh_value_inv:
  assumes "backend_defined b" and "panel_inv p"
  shows "returns_inv (RefreshParameterValue b strerror busy (s, p))"
proof (cases "busy \<or> pp_dirty p \<or> \<not> row_ok (pp_row p) (pp_parameters p)")
  case False
  let ?i = "pi_identity (pp_parameters p ! nat (pp_row p))"
  have row: "list_row (pp_row p) (pp_parameters p)" "list_row (pp_list p) (pp_parameters p)" "0 \<le> pp_row p"
    using assms(2) False by (auto simp: panel_inv_def row_ok_def)
  then obtain p' where "RenderParameter v (p\<lparr>pp_invalid := False\<rparr>) = Inr (p' v)" "panel_inv (p' v)" for v
    using Render_inv[of "p\<lparr>pp_invalid := False\<rparr>"] by simp metis
  with False error_inv[OF assms(2)] show ?thesis
    by (cases rule: backend_call_cases[OF assms(1), of s ?i]) (auto simp: RefreshParameterValue_def)
qed (use assms(2) in \<open>auto simp: RefreshParameterValue_def\<close>)

lemma Show_inv:
  assumes "backend_defined b" and "list_row (pp_list p) (pp_parameters p)" and "pp_dirty p \<Longrightarrow> panel_inv (p\<lparr>pp_list := pp_row p\<rparr>)"
    and "busy \<Longrightarrow> panel_inv p"
  shows "returns_inv (ShowParameter b strerror busy (s, p))"
proof (cases "busy \<or> pp_dirty p")
  case False
  then have blank: "panel_inv (blank_parameter p)"
    using assms(2) by (simp add: panel_inv_def blank_parameter_def row_keys_def data_snapshot0_def shown_texts_def)
  have texts: "panel_inv (p\<lparr>pp_texts := t, pp_metadata := m\<rparr>) = panel_inv p" for p t m by (simp add: panel_inv_def shown_texts_def)
  show ?thesis using False blank
    by (auto simp: ShowParameter_def Let_def texts intro!: Refresh_value_inv[OF assms(1)])
qed (use assms in \<open>auto simp: ShowParameter_def\<close>)

lemma inputs_differ_eq:
  assumes "pp_rows p = row_keys (pp_value p)" and "length (pp_inputs p) = length (pp_rows p)"
  shows "inputs_differ p = Inr (pp_inputs p \<noteq> shown_texts p)"
proof -
  let ?loop = "\<lambda>ts. foldM_res (\<lambda>(r, t) dirty. res_bind (nth_res (pp_rows p) r) (\<lambda>k. res_bind (get_text (pp_value p) k) (\<lambda>old.
     Inr (if t \<noteq> old then True else dirty)))) (enumerate 0 ts) False"
  have "?loop (take n (pp_inputs p)) = Inr (take n (pp_inputs p) \<noteq> take n (shown_texts p))" if "n \<le> length (pp_inputs p)" for n
    using that
  proof (induction n)
    case (Suc n)
    have k: "key_in (pp_value p) (pp_rows p ! n)" using Suc.prems assms by (intro row_keys_in) simp
    have t: "shown_texts p ! n = text_at (pp_value p) (pp_rows p ! n)" "n < length (shown_texts p)"
      using Suc.prems assms by (simp_all add: shown_texts_def)
    have "?loop (take (Suc n) (pp_inputs p)) = Inr (if pp_inputs p ! n \<noteq> shown_texts p ! n then True else take n (pp_inputs p) \<noteq> take n (shown_texts p))"
      using Suc k t assms by (simp add: take_Suc_conv_app_nth enumerate_append_eq foldM_res_append get_text_def)
    with Suc.prems t show ?case by (auto simp: take_Suc_conv_app_nth)
  qed simp
  from this[of "length (pp_inputs p)"] assms show ?thesis by (simp add: inputs_differ_def shown_texts_def)
qed

lemma Edited_inv:
  assumes "panel_inv p" and "pp_editable p" and "r < length (pp_inputs p)"
  shows "\<exists>p'. ParameterEdited (p\<lparr>pp_inputs := (pp_inputs p)[r := t]\<rparr>) = Inr p' \<and> panel_inv p'"
proof -
  let ?p = "p\<lparr>pp_inputs := (pp_inputs p)[r := t]\<rparr>"
  have d: "inputs_differ ?p = Inr (pp_inputs ?p \<noteq> shown_texts ?p)"
    by (rule inputs_differ_eq) (use assms(1) in \<open>simp_all add: panel_inv_def\<close>)
  have row: "0 \<le> pp_row p" "pi_writable (pp_parameters p ! nat (pp_row p))" using assms(1,2) by (auto simp: panel_inv_def)
  have c: "current_parameter ?p = Inr (pp_parameters p ! nat (pp_row p))"
    using current_parameter_inv[OF assms(1) row(1)] by (simp add: current_parameter_def split: if_splits)
  show ?thesis
    using assms row unfolding ParameterEdited_def d res_bind_simps c
    by (simp add: panel_inv_def shown_texts_def)
qed

lemma Revert_inv:
  assumes "panel_inv p"
  shows "\<exists>p'. RevertParameter p = Inr p' \<and> panel_inv p'"
proof (cases "pp_row p < 0")
  case False
  then obtain p' where "RenderParameter (pp_value p) p = Inr p'" "panel_inv p'"
    using Render_inv[of p "pp_value p"] assms unfolding panel_inv_def by auto
  with False show ?thesis by (simp add: RevertParameter_def)
qed (use assms in \<open>simp add: RevertParameter_def\<close>)

section \<open>Apply\<close>

lemma overlay_defined:
  "(\<And>k. k \<in> set ks \<Longrightarrow> key_in before k \<and> key_in edited k) \<Longrightarrow> \<exists>w. overlay before edited ks fresh = Inr w"
proof (induction ks arbitrary: fresh)
  case (Cons k ks)
  then have "key_in before k" "key_in edited k" "\<And>f. \<exists>w. overlay before edited ks f = Inr w" by auto
  then show ?case by (auto simp: get_text_def key_in_def split: option.split)
qed simp

lemma write_and_read_inv:
  assumes "backend_defined b" and "panel_inv p" and "0 \<le> pp_row p"
  shows "returns_inv (write_and_read b strerror i v (s, p))"
proof (cases rule: set_call_cases[OF assms(1), of s i v])
  case 1
  then obtain s1 where set: "wb_SetParameter b s i v = (Inr (), s1)" by blast
  let ?p = "p\<lparr>pp_sent := pp_sent p @ [(i, v)], pp_dirty := False\<rparr>"
  have row: "list_row (pp_row p) (pp_parameters p)" "list_row (pp_list p) (pp_parameters p)"
    using assms(2) by (auto simp: panel_inv_def)
  have "panel_inv (ParameterError strerror a c ?p)" for a c
    using assms(2) by (simp add: panel_inv_def ParameterError_def shown_texts_def)
  moreover obtain p' where "RenderParameter w (?p\<lparr>pp_invalid := False\<rparr>) = Inr (p' w)" "panel_inv (p' w)" for w
    using Render_inv[of "?p\<lparr>pp_invalid := False\<rparr>"] row assms(3) by simp metis
  ultimately show ?thesis
    by (cases rule: backend_call_cases[OF assms(1), of s1 i]) (auto simp: write_and_read_def set Let_def)
next
  case 2
  with error_inv[of "p\<lparr>pp_sent := pp_sent p @ [(i, v)]\<rparr>"] assms(2) show ?thesis
    by (auto simp: write_and_read_def Let_def)
qed

lemma Apply_edited:
  assumes "panel_inv p"
  obtains w where "EditedParameter p = Inr w" "same_shape (pp_value p) w"
    "\<And>k. k \<in> set (pp_rows p) \<Longrightarrow> key_in (pp_value p) k \<and> key_in w k"
    "\<And>n. n < length (pp_rows p) \<Longrightarrow> text_at w (pp_rows p ! n) = pp_inputs p ! n"
proof -
  have rows: "pp_rows p = row_keys (pp_value p)" "length (pp_inputs p) = length (pp_rows p)"
    using assms by (auto simp: panel_inv_def)
  then obtain w where w: "EditedParameter p = Inr w" "same_shape (pp_value p) w"
    "\<And>k. key_in (pp_value p) k \<Longrightarrow> text_at w k = (case map_of (zip (pp_rows p) (pp_inputs p)) k of Some t \<Rightarrow> t | None \<Rightarrow> text_at (pp_value p) k)"
    using EditedFields_spec[of "pp_inputs p" "pp_rows p" "pp_value p"] by (auto simp: EditedParameter_def row_keys_in)
  have t: "text_at w (pp_rows p ! n) = pp_inputs p ! n" if "n < length (pp_rows p)" for n
    using that w(3)[of "pp_rows p ! n"] rows by (simp add: map_of_zip_nth row_keys_in)
  have k: "key_in (pp_value p) k \<and> key_in w k" if "k \<in> set (pp_rows p)" for k
    using that rows(1) row_keys_in[of k "pp_value p"] same_shape_key_in[OF w(2), of k] by simp
  show thesis by (rule that[OF w(1,2)]) (use t k in auto)
qed

lemma Apply_inv:
  assumes "backend_defined b" and "panel_inv p"
  shows "returns_inv (ApplyParameter b strerror busy (s, p))"
proof (cases "busy \<or> \<not> pp_dirty p \<or> pp_invalid p \<or> pp_row p < 0")
  case False
  let ?q = "pp_parameters p ! nat (pp_row p)"
  have row: "0 \<le> pp_row p" and c: "current_parameter p = Inr ?q" using False current_parameter_inv[OF assms(2)] by auto
  obtain w where w: "EditedParameter p = Inr w" "\<And>k. k \<in> set (pp_rows p) \<Longrightarrow> key_in (pp_value p) k \<and> key_in w k"
    using Apply_edited[OF assms(2)] by metis
  obtain o' where o: "overlay (pp_value p) w (pp_rows p) f = Inr (o' f)" for f using overlay_defined[OF w(2)] by metis
  note inv = error_inv[OF assms(2)] write_and_read_inv[OF assms row]
  show ?thesis
  proof (cases rule: validate_call_cases[OF assms(1), of s "pi_identity ?q" w])
    case 1
    then obtain s1 where v: "wb_ValidateParameter b s (pi_identity ?q) w = (Inr (), s1)" by blast
    show ?thesis using False v c w(1) o inv
      by (cases rule: backend_call_cases[OF assms(1), of s1 "pi_identity ?q"])
        (auto simp: ApplyParameter_def Let_def split: option.split)
  next
    case 2
    with False c w(1) inv assms(2) show ?thesis by (auto simp: ApplyParameter_def Let_def)
  qed
qed (use assms(2) in \<open>auto simp: ApplyParameter_def\<close>)

lemma panel_step_inv:
  assumes "backend_defined b" and "panel_inv p"
  shows "returns_inv (panel_step b strerror busy e (s, p))"
proof (cases e)
  case (Select row)
  have "panel_inv (p\<lparr>pp_list := pp_row p\<rparr>)" "list_row row (pp_parameters p) \<Longrightarrow> panel_inv (p\<lparr>pp_list := row\<rparr>)"
    using assms(2) by (simp_all add: panel_inv_def shown_texts_def)
  with Select assms show ?thesis by (auto simp: panel_step_def intro!: Show_inv)
next
  case (Edit r t)
  with Edited_inv[OF assms(2), of r t] assms(2) show ?thesis by (auto simp: panel_step_def)
next
  case Revert
  with Revert_inv[OF assms(2)] show ?thesis by (auto simp: panel_step_def)
next
  case (Reload ps row)
  with assms show ?thesis by (auto simp: panel_step_def reload_parameters_def intro!: Show_inv)
qed (use assms in \<open>auto simp: panel_step_def Apply_inv Refresh_value_inv\<close>)

interpretation panel: step_system "\<lambda>sp sp'. backend_defined b \<and> (\<exists>e. panel_step b strerror busy e sp = Inr sp')" "(s0, parameter_panel0)"
    "\<lambda>sp. panel_inv (snd sp)"
  for b strerror busy s0
proof unfold_locales
  fix sp sp' assume "backend_defined b \<and> (\<exists>e. panel_step b strerror busy e sp = Inr sp')" and "panel_inv (snd sp)"
  then obtain e where "backend_defined b" "panel_step b strerror busy e (fst sp, snd sp) = Inr sp'" "panel_inv (snd sp)" by auto
  with panel_step_inv[of b "snd sp" strerror busy e "fst sp"] show "panel_inv (snd sp')" by (auto simp: returns_inv_def)
qed (simp add: panel_inv_start)

section \<open>What Apply writes\<close>

lemma field_position_Some: "field_position n fs = Some i \<Longrightarrow> i < length fs \<and> fv_name (fs ! i) = n"
  by (induction fs arbitrary: i) (auto split: if_splits)

lemma field_position_shape: "map fv_name gs = map fv_name fs \<Longrightarrow> field_position n gs = field_position n fs"
proof (induction fs arbitrary: gs)
  case (Cons f fs)
  then obtain g gs' where "gs = g # gs'" "fv_name g = fv_name f" "map fv_name gs' = map fv_name fs" by auto
  with Cons.IH[of gs'] show ?case by simp
qed simp

text \<open>Where a row of the old value is in the fresh one: the same element of the field of the same name.\<close>

definition place :: "data_snapshot \<Rightarrow> data_snapshot \<Rightarrow> row_key \<Rightarrow> row_key option" where
  "place before fresh k = map_option (\<lambda>i. (i, snd k)) (field_position (fv_name (ds_fields before ! fst k)) (ds_fields fresh))"

definition changed :: "data_snapshot \<Rightarrow> data_snapshot \<Rightarrow> row_key \<Rightarrow> bool" where
  "changed before edited k \<longleftrightarrow> text_at edited k \<noteq> text_at before k"

text \<open>
  \<open>v\<close> is the fresh value with the changed rows laid over it: a changed row has the edited text, an unchanged one
  the fresh text, and so has every other text of the fresh value.
\<close>

definition lays_over :: "data_snapshot \<Rightarrow> data_snapshot \<Rightarrow> row_key list \<Rightarrow> data_snapshot \<Rightarrow> data_snapshot \<Rightarrow> bool" where
  "lays_over before edited ks fresh v \<longleftrightarrow> same_shape fresh v
     \<and> (\<forall>k \<in> set ks. \<exists>k'. place before fresh k = Some k' \<and> key_in fresh k'
          \<and> text_at v k' = (if changed before edited k then text_at edited k else text_at fresh k'))
     \<and> (\<forall>k'. key_in fresh k' \<longrightarrow> (\<forall>k \<in> set ks. changed before edited k \<longrightarrow> place before fresh k \<noteq> Some k') \<longrightarrow> text_at v k' = text_at fresh k')"

lemma same_shape_names: "same_shape v w \<Longrightarrow> map fv_name (ds_fields w) = map fv_name (ds_fields v)"
proof -
  assume "same_shape v w"
  then have "map fst (map field_shape (ds_fields w)) = map fst (map field_shape (ds_fields v))" by (simp add: same_shape_def)
  then show ?thesis by (simp add: comp_def field_shape_def)
qed

lemma place_same_shape: "same_shape v w \<Longrightarrow> place b w k = place b v k"
  unfolding place_def using field_position_shape[OF same_shape_names] by metis

lemma place_inject:
  assumes "distinct (map fv_name (ds_fields before))" and "key_in before k" and "key_in before k'"
    and "place before fresh k = Some x" and "place before fresh k' = Some x"
  shows "k = k'"
proof -
  have "fv_name (ds_fields before ! fst k) = fv_name (ds_fields before ! fst k')" "snd k = snd k'"
    using assms(4,5) by (auto simp: place_def dest!: field_position_Some)
  moreover have "fst k < length (ds_fields before)" "fst k' < length (ds_fields before)" using assms(2,3) by (auto simp: key_in_def)
  ultimately show ?thesis
    using nth_eq_iff_index_eq[OF assms(1), of "fst k" "fst k'"] by (simp add: prod_eq_iff)
qed

lemma overlay_lays_over:
  assumes "distinct (map fv_name (ds_fields before))" and "overlay before edited ks fresh = Inr (Some v)" and "distinct ks"
    and "\<And>k. k \<in> set ks \<Longrightarrow> key_in before k \<and> key_in edited k"
  shows "lays_over before edited ks fresh v"
  using assms(2-4)
proof (induction ks arbitrary: fresh)
  case (Cons k ks)
  let ?b = "ds_fields before ! fst k"
  have k: "key_in before k" "key_in edited k" using Cons.prems(3) by auto
  then have nth: "fst k < length (ds_fields before)" "fst k < length (ds_fields edited)" by (auto simp: key_in_def)
  with Cons.prems(1) obtain i where i: "field_position (fv_name ?b) (ds_fields fresh) = Some i"
    by (auto split: option.splits)
  with Cons.prems(1) nth have comp: "compatible_field (ds_fields fresh ! i) ?b" by (auto split: if_splits)
  define x where "x = (i, snd k)"
  define f where "f = (if changed before edited k then set_text x (text_at edited k) fresh else fresh)"
  have rest: "overlay before edited ks f = Inr (Some v)"
    using Cons.prems(1) nth i comp k by (simp add: get_text_def f_def x_def changed_def split: if_splits)
  have place: "place before fresh k = Some x" by (simp add: place_def i x_def)
  have x: "key_in fresh x" using field_position_Some[OF i] comp k(1)
    by (auto simp: key_in_def x_def compatible_field_def split: option.splits)
  have shape: "same_shape fresh f" by (simp add: f_def same_shape_set_text)
  have IH: "lays_over before edited ks f v" using Cons.IH[OF rest] Cons.prems by auto
  have others: "place before fresh k' \<noteq> Some x" if "k' \<in> set ks" for k'
    using place_inject[OF assms(1) k(1) _ place, of k'] that Cons.prems(2,3) by auto
  have f_text: "text_at f y = (if changed before edited k \<and> y = x then text_at edited k else text_at fresh y)" if "key_in fresh y" for y
    using text_at_set_text[OF x that, of "text_at edited k"] by (auto simp: f_def)
  have in_f: "key_in f y = key_in fresh y" for y by (rule same_shape_key_in[OF shape])
  have v: "same_shape f v" "\<And>k'. k' \<in> set ks \<Longrightarrow> \<exists>y. place before fresh k' = Some y \<and> key_in fresh y
          \<and> text_at v y = (if changed before edited k' then text_at edited k' else text_at f y)"
    "\<And>y. key_in fresh y \<Longrightarrow> (\<forall>k' \<in> set ks. changed before edited k' \<longrightarrow> place before fresh k' \<noteq> Some y) \<Longrightarrow> text_at v y = text_at f y"
    using IH by (auto simp: lays_over_def in_f place_same_shape[OF shape])
  show ?case
    unfolding lays_over_def
  proof (intro conjI ballI allI impI)
    show "same_shape fresh v" by (rule same_shape_trans[OF shape v(1)])
    have vx: "text_at v x = (if changed before edited k then text_at edited k else text_at fresh x)"
      using v(3)[OF x] others f_text[OF x] by auto
    fix k' assume "k' \<in> set (k # ks)"
    then consider "k' = k" | "k' \<in> set ks" by auto
    then show "\<exists>y. place before fresh k' = Some y \<and> key_in fresh y
          \<and> text_at v y = (if changed before edited k' then text_at edited k' else text_at fresh y)"
    proof cases
      case 1
      with place x vx show ?thesis by auto
    next
      case 2
      from v(2)[OF this] others[OF this] f_text show ?thesis by fastforce
    qed
  next
    fix y assume y: "key_in fresh y" "\<forall>k' \<in> set (k # ks). changed before edited k' \<longrightarrow> place before fresh k' \<noteq> Some y"
    then show "text_at v y = text_at fresh y" using v(3)[OF y(1)] f_text[OF y(1)] place by auto
  qed
qed (simp add: lays_over_def)

text \<open>What \<open>ApplyParameter\<close> sends: nothing, or one value.\<close>

lemma write_and_read_sent:
  "write_and_read b strerror i v (s, p) = Inr (s', p') \<Longrightarrow> pp_sent p' = pp_sent p @ [(i, v)]"
  unfolding write_and_read_def
  by (auto simp: Let_def on_result_def RenderParameter_def ParameterError_def res_simps split: prod.splits sum.splits err.splits)

section \<open>Properties\<close>

text \<open>
  Whatever the user does and whatever the backend answers, the parameter editor never touches memory
  outside its vectors and stays consistent: its rows are those of the value it last read, Apply is
  enabled exactly for changed and still valid edits of a writable parameter, and edits are never lost by
  another selection.
\<close>

theorem parameter_panel_safe:
  assumes "backend_defined b"
  shows "\<exists>s' p'. foldM_res (panel_step b strerror busy) events (s, parameter_panel0) = Inr (s', p') \<and> panel_inv p'"
proof -
  have "\<exists>s' p'. foldM_res (panel_step b strerror busy) events (s, p) = Inr (s', p') \<and> panel_inv p'" if "panel_inv p" for s p
    using that
  proof (induction events arbitrary: s p)
    case (Cons e es)
    obtain s1 p1 where "panel_step b strerror busy e (s, p) = Inr (s1, p1)" "panel_inv p1"
      using panel_step_inv[OF assms Cons.prems, of strerror busy e s] by (auto simp: returns_inv_def)
    with Cons.IH show ?case by simp
  qed simp
  with panel_inv_start show ?thesis by blast
qed

text \<open>
  C5. Apply writes at most once, to the selected parameter, and only valid edits of a current value. What it
  writes is the value it has just read from the backend with exactly the changed texts laid over it, so
  that a change another client made to an element the user did not touch is kept.
\<close>

theorem parameter_apply_overlays:
  assumes "panel_inv p" and "distinct (map fv_name (ds_fields (pp_value p)))" and "ApplyParameter b strerror busy (s, p) = Inr (s', p')"
  shows "pp_sent p' = pp_sent p \<or> (\<exists>edited fresh v s1 s2. pp_sent p' = pp_sent p @ [(pi_identity (pp_parameters p ! nat (pp_row p)), v)]
     \<and> \<not> busy \<and> pp_apply p \<and> EditedParameter p = Inr edited
     \<and> wb_ValidateParameter b s (pi_identity (pp_parameters p ! nat (pp_row p))) edited = (Inr (), s1)
     \<and> wb_GetParameter b s1 (pi_identity (pp_parameters p ! nat (pp_row p))) = (Inr fresh, s2)
     \<and> \<not> type_changed fresh (pp_value p) \<and> lays_over (pp_value p) edited (row_keys (pp_value p)) fresh v)"
proof (cases "busy \<or> \<not> pp_dirty p \<or> pp_invalid p \<or> pp_row p < 0")
  case False
  let ?i = "pi_identity (pp_parameters p ! nat (pp_row p))"
  have c: "current_parameter p = Inr (pp_parameters p ! nat (pp_row p))" and enabled: "pp_apply p" and rows: "pp_rows p = row_keys (pp_value p)"
    using False current_parameter_inv[OF assms(1)] assms(1) by (auto simp: panel_inv_def)
  obtain w where w: "EditedParameter p = Inr w" "\<And>k. k \<in> set (pp_rows p) \<Longrightarrow> key_in (pp_value p) k \<and> key_in w k"
    using Apply_edited[OF assms(1)] by metis
  have errors: "pp_sent (ParameterError strerror a e p) = pp_sent p" for a e by (simp add: ParameterError_def)
  show ?thesis
  proof (cases "fst (wb_ValidateParameter b s ?i w)" rule: on_result_cases)
    case (ok u)
    then obtain s1 where v: "wb_ValidateParameter b s ?i w = (Inr (), s1)" by (metis (full_types) old.unit.exhaust prod.collapse)
    show ?thesis
    proof (cases "fst (wb_GetParameter b s1 ?i)" rule: on_result_cases)
      case (ok fresh)
      then obtain s2 where g: "wb_GetParameter b s1 ?i = (Inr fresh, s2)" by (metis prod.collapse)
      obtain r where r: "overlay (pp_value p) w (pp_rows p) fresh = Inr r" using overlay_defined[OF w(2)] by blast
      show ?thesis
      proof (cases "type_changed fresh (pp_value p) \<or> r = None")
        case True
        with assms(3) False c w(1) v g r errors show ?thesis by (auto simp: ApplyParameter_def split: if_splits)
      next
        case sent: False
        then obtain x where x: "r = Some x" by auto
        with sent assms(3) False c w(1) v g r have "write_and_read b strerror ?i x (s2, p) = Inr (s', p')" by (simp add: ApplyParameter_def)
        from write_and_read_sent[OF this] have "pp_sent p' = pp_sent p @ [(?i, x)]" .
        moreover have "lays_over (pp_value p) w (row_keys (pp_value p)) fresh x"
          using overlay_lays_over[OF assms(2)] r x w(2) rows by simp
        ultimately show ?thesis using False enabled w(1) v g sent by blast
      qed
    qed (use assms(3) False c w(1) v errors in \<open>auto simp: ApplyParameter_def Let_def split: prod.splits\<close>)
  qed (use assms(3) False c w(1) errors in \<open>auto simp: ApplyParameter_def Let_def split: prod.splits if_splits\<close>)
qed (use assms(3) in \<open>auto simp: ApplyParameter_def\<close>)

section \<open>Witnesses\<close>

lemma mock_defined: "backend_defined (window_backend_of mock_backend)"
proof -
  have "code_ok r \<Longrightarrow> r \<noteq> Inl Undefined" for r :: "'a result" by auto
  then show ?thesis
    using Validate_parameter_codes Set_parameter_codes
    by (auto simp: backend_defined_def window_backend_of_def mock_backend_def Mock_GetParameter_id_def split: option.splits)
qed

text \<open>The wheel radius of the mock, shown and edited.\<close>

definition sample_strerror :: "int \<Rightarrow> string" where
  "sample_strerror c = ''error''"

definition sample_panel :: parameter_panel where
  "sample_panel = parameter_panel0\<lparr>pp_parameters := mock_parameters0, pp_list := 0, pp_row := 0,
     pp_value := (case Mock_GetParameter_id mock_init (mk_endpoint 12001 1 100) of Inr v \<Rightarrow> v | Inl e \<Rightarrow> data_snapshot0),
     pp_inputs := [''42.5''], pp_rows := [(0, None)], pp_dirty := True, pp_invalid := False, pp_editable := True, pp_apply := True,
     pp_revert := True\<rparr>"

lemma sample_panel_inv: "panel_inv sample_panel" "distinct (map fv_name (ds_fields (pp_value sample_panel)))"
  by code_simp+

lemma sample_panel_sent:
  "map_sum (\<lambda>e. e) (\<lambda>sp. map (\<lambda>e. map fv_value (ds_fields (snd e))) (pp_sent (snd sp)))
     (ApplyParameter (window_backend_of mock_backend) sample_strerror False (mock_init, sample_panel)) = Inr [[''42.5'']]"
  by code_simp

theorem parameter_panel_safe_witness:
  "\<exists>s' p'. foldM_res (panel_step (window_backend_of mock_backend) sample_strerror False) [Reload mock_parameters0 0, Edit 0 ''42.5'', Apply]
     (mock_init, parameter_panel0) = Inr (s', p') \<and> panel_inv p'"
  by (rule parameter_panel_safe[OF mock_defined])

theorem parameter_apply_overlays_witness:
  "\<exists>s' p' v. ApplyParameter (window_backend_of mock_backend) sample_strerror False (mock_init, sample_panel) = Inr (s', p')
     \<and> pp_sent p' = [(pi_identity (mock_parameters0 ! 0), v)]"
proof -
  obtain s' p' where a: "ApplyParameter (window_backend_of mock_backend) sample_strerror False (mock_init, sample_panel) = Inr (s', p')"
    using Apply_inv[OF mock_defined sample_panel_inv(1), of sample_strerror False mock_init] by (auto simp: returns_inv_def)
  from a sample_panel_sent have "pp_sent p' \<noteq> []" by auto
  moreover have "pp_sent sample_panel = []" "pp_parameters sample_panel = mock_parameters0" "pp_row sample_panel = 0"
    by (simp_all add: sample_panel_def parameter_panel0_def)
  ultimately show ?thesis using parameter_apply_overlays[OF sample_panel_inv a] a by auto
qed

end
