(* ===== verification/EchoPanel.thy ===== *)
theory EchoPanel
  imports WindowForms NetworkRates StepSystem
begin

text \<open>
  The topic page of \<open>src/ui/main_window.cpp\<close>: \<open>ShowTopic\<close>, \<open>StartEcho\<close>, \<open>StopEcho\<close> and \<open>PollEcho\<close> over any
  backend, with the history from which the publish rate is computed. How Qt prints a number with one
  decimal is the argument \<open>fixed\<close>. The locale \<open>echo_backend\<close> is what the page relies on.
\<close>

section \<open>State\<close>

text \<open>\<open>ep_history\<close> is \<open>echo_rate_history_\<close>: times of the steady clock in nanoseconds and sequence numbers.\<close>

record echo_panel =
  ep_topics :: "topic_info list"
  ep_list :: int
  ep_start :: bool
  ep_stop :: bool
  ep_timer :: bool
  ep_history :: "(int \<times> u64) list"
  ep_requires_refresh :: bool
  ep_fields :: "string list"
  ep_identity :: string
  ep_status :: string
  ep_table :: "(string \<times> string \<times> string) list"

definition blank_fields :: "string list" where
  "blank_fields = ['''', '''', '''', '''', '''', '''', '''']"

text \<open>The page without topics, as the constructor's first \<open>Refresh\<close> finds and leaves it.\<close>

definition echo_panel0 :: echo_panel where
  "echo_panel0 = \<lparr>ep_topics = [], ep_list = -1, ep_start = False, ep_stop = False, ep_timer = False, ep_history = [],
     ep_requires_refresh = False, ep_fields = blank_fields, ep_identity = [], ep_status = ''Echo stopped'', ep_table = []\<rparr>"

definition selected_topic :: "echo_panel \<Rightarrow> topic_info option" where
  "selected_topic p = (if 0 \<le> ep_list p \<and> nat (ep_list p) < length (ep_topics p) then Some (ep_topics p ! nat (ep_list p)) else None)"

section \<open>Handlers\<close>

definition frequency_text :: "(double \<Rightarrow> string) \<Rightarrow> topic_info option \<Rightarrow> string" where
  "frequency_text fixed t = (case t of
     None \<Rightarrow> ''N/A'' | Some t \<Rightarrow> if ti_frequency_available t then fixed (ti_frequency_hz t) @ '' Hz'' else ''N/A'')"

definition StopEcho :: "'s window_backend \<Rightarrow> (double \<Rightarrow> string) \<Rightarrow> 's \<times> echo_panel \<Rightarrow> 's \<times> echo_panel" where
  "StopEcho b fixed sp = (case sp of (s, p) \<Rightarrow> (wb_StopTopicEcho b s,
     p\<lparr>ep_timer := False, ep_history := [], ep_fields := (ep_fields p)[3 := frequency_text fixed (selected_topic p)],
       ep_start := (if ep_stop p then True else ep_start p), ep_status := (if ep_stop p then ''Echo stopped'' else ep_status p),
       ep_stop := False\<rparr>))"

definition topic_texts :: "(double \<Rightarrow> string) \<Rightarrow> topic_info \<Rightarrow> string list" where
  "topic_texts fixed t = [ti_name t, ti_type_name t, to_string_nat (ti_payload_size t) @ '' bytes'', frequency_text fixed (Some t),
     (if ti_sequence_available t then to_string_u64 (ti_sequence t) else ''N/A''), Names (ti_publishers t), Names (ti_subscribers t)]"

definition topic_identity_text :: "topic_info \<Rightarrow> string" where
  "topic_identity_text t = ''Runtime PID '' @ to_string_int (ri_pid (ei_runtime (ti_identity t)))
     @ '' / start '' @ to_string_u64 (ri_process_start_ticks (ei_runtime (ti_identity t)))
     @ '' / endpoint '' @ to_string_u64 (ei_registration_id (ti_identity t)) @ '' / type_id '' @ to_string_u64 (ti_type_id t)"

definition ShowTopic :: "'s window_backend \<Rightarrow> (int \<Rightarrow> string) \<Rightarrow> (double \<Rightarrow> string) \<Rightarrow> bool \<Rightarrow> 's \<times> echo_panel \<Rightarrow> ('s \<times> echo_panel) result" where
  "ShowTopic b strerror fixed busy sp =
     (if busy then Inr sp
      else case StopEcho b fixed sp of (s, p) \<Rightarrow>
        let p = p\<lparr>ep_start := False, ep_table := [], ep_status := ''Echo stopped'', ep_identity := [], ep_fields := blank_fields\<rparr>
        in case selected_topic p of
             None \<Rightarrow> Inr (s, p)
           | Some t \<Rightarrow>
               let p = p\<lparr>ep_fields := topic_texts fixed t, ep_identity := topic_identity_text t\<rparr>
               in if ti_type_id t = 0 then Inr (s, p\<lparr>ep_status := ''Type descriptor unavailable''\<rparr>)
                  else if ti_role t \<noteq> ''PUBLISHER'' \<or> ti_publishers t = []
                  then Inr (s, p\<lparr>ep_status := ''Select a publisher endpoint to echo''\<rparr>)
                  else if ep_requires_refresh p then Inr (s, p\<lparr>ep_status := ''Refresh before starting Echo again.''\<rparr>)
                  else case wb_StartTopicEcho b s (ti_identity t) of (r, s) \<Rightarrow>
                    let s = wb_StopTopicEcho b s
                    in on_result r (\<lambda>_. Inr (s, p\<lparr>ep_start := True\<rparr>))
                         (\<lambda>c. Inr (s, p\<lparr>ep_status := ''Echo unavailable: '' @ ErrorText strerror c\<rparr>)))"

text \<open>What \<open>StartEcho\<close> and \<open>PollEcho\<close> do with an error.\<close>

definition echo_failed :: "'s window_backend \<Rightarrow> (int \<Rightarrow> string) \<Rightarrow> (double \<Rightarrow> string) \<Rightarrow> int \<Rightarrow> 's \<times> echo_panel \<Rightarrow> 's \<times> echo_panel" where
  "echo_failed b strerror fixed c sp = (case StopEcho b fixed sp of (s, p) \<Rightarrow>
     (s, p\<lparr>ep_requires_refresh := True, ep_start := False,
       ep_status := (if c = - ESTALE then ''Echo error: Topic was removed or recreated. Refresh and start Echo again.''
         else ''Echo error: '' @ ErrorText strerror c)\<rparr>))"

text \<open>The loop that drops samples beyond 16 or older than a second.\<close>

fun trim_history :: "int \<Rightarrow> (int \<times> u64) list \<Rightarrow> (int \<times> u64) list" where
  "trim_history now [] = []"
| "trim_history now (x # xs) = (if 16 < length (x # xs) \<or> 1000000000 < now - fst x then trim_history now xs else x # xs)"

definition add_sample :: "int \<Rightarrow> u64 \<Rightarrow> (int \<times> u64) list \<Rightarrow> (int \<times> u64) list" where
  "add_sample now sequence history =
     trim_history now ((if history \<noteq> [] \<and> sequence < snd (last history) then [] else history) @ [(now, sequence)])"

definition rate_text :: "(double \<Rightarrow> string) \<Rightarrow> int \<Rightarrow> u64 \<Rightarrow> (int \<times> u64) list \<Rightarrow> string result" where
  "rate_text fixed now sequence history = (case history of
     [] \<Rightarrow> Inl Undefined
   | x # xs \<Rightarrow> let elapsed = ns_to_seconds (now - fst x)
       in if 2 \<le> length history \<and> 1 / 2 \<le> elapsed then Inr (fixed (per_second (sequence - snd x) elapsed) @ '' Hz'')
          else Inr ''Measuring...'')"

definition PollEcho :: "'s window_backend \<Rightarrow> (int \<Rightarrow> string) \<Rightarrow> (double \<Rightarrow> string) \<Rightarrow> int \<Rightarrow> bool \<Rightarrow> 's \<times> echo_panel \<Rightarrow> ('s \<times> echo_panel) result" where
  "PollEcho b strerror fixed now busy sp = (case sp of (s, p) \<Rightarrow>
     if busy \<or> \<not> ep_timer p then Inr (s, p)
     else case wb_ReadTopicEcho b s of (r, s) \<Rightarrow> on_result r
       (\<lambda>v. let history = add_sample now (ds_sequence v) (ep_history p)
            in res_bind (rate_text fixed now (ds_sequence v) history) (\<lambda>rate.
               Inr (s, p\<lparr>ep_history := history, ep_fields := (ep_fields p)[3 := rate, 4 := to_string_u64 (ds_sequence v)],
                 ep_table := map (row_cells v) (FieldRows v),
                 ep_status := ''Echo running '' @ em_dash @ '' 100 ms display refresh / sequence '' @ to_string_u64 (ds_sequence v)\<rparr>)))
       (\<lambda>c. if c = - EAGAIN
            then Inr (s, p\<lparr>ep_status := ''Echo waiting for a consistent sample '' @ em_dash @ '' 100 ms display refresh''\<rparr>)
            else Inr (echo_failed b strerror fixed c (s, p))))"

definition StartEcho :: "'s window_backend \<Rightarrow> (int \<Rightarrow> string) \<Rightarrow> (double \<Rightarrow> string) \<Rightarrow> int \<Rightarrow> bool \<Rightarrow> 's \<times> echo_panel \<Rightarrow> ('s \<times> echo_panel) result" where
  "StartEcho b strerror fixed now busy sp = (case sp of (s, p) \<Rightarrow>
     if busy \<or> \<not> ep_start p then Inr (s, p)
     else case selected_topic p of
       None \<Rightarrow> Inr (s, p)
     | Some t \<Rightarrow> case wb_StartTopicEcho b s (ti_identity t) of (r, s) \<Rightarrow> on_result r
         (\<lambda>_. PollEcho b strerror fixed now busy (s, p\<lparr>ep_start := False, ep_stop := True, ep_history := [],
            ep_fields := (ep_fields p)[3 := ''Measuring...''], ep_timer := True\<rparr>))
         (\<lambda>c. Inr (echo_failed b strerror fixed c (s, p))))"

section \<open>What a user and the clock can do\<close>

text \<open>
  A row of the list is chosen, the two buttons, the timer, and the part of \<open>MainWindow::Refresh\<close> that ends the
  echo and replaces the topics. While a service call runs (\<open>busy\<close>) the tabs are disabled, so that nobody clicks.
\<close>

datatype echo_event =
  Select_topic int
| Start_clicked int
| Stop_clicked
| Timer int
| New_topics "topic_info list" int

definition topic_row :: "int \<Rightarrow> topic_info list \<Rightarrow> bool" where
  "topic_row row ts \<longleftrightarrow> -1 \<le> row \<and> row < int (length ts)"

definition echo_step :: "'s window_backend \<Rightarrow> (int \<Rightarrow> string) \<Rightarrow> (double \<Rightarrow> string) \<Rightarrow> bool \<Rightarrow> echo_event \<Rightarrow> 's \<times> echo_panel
    \<Rightarrow> ('s \<times> echo_panel) result" where
  "echo_step b strerror fixed busy e sp = (case sp of (s, p) \<Rightarrow> case e of
     Select_topic row \<Rightarrow> if topic_row row (ep_topics p) \<and> row \<noteq> ep_list p \<and> \<not> busy
       then ShowTopic b strerror fixed busy (s, p\<lparr>ep_list := row\<rparr>) else Inr (s, p)
   | Start_clicked now \<Rightarrow> StartEcho b strerror fixed now busy (s, p)
   | Stop_clicked \<Rightarrow> if busy then Inr (s, p) else Inr (StopEcho b fixed (s, p))
   | Timer now \<Rightarrow> PollEcho b strerror fixed now busy (s, p)
   | New_topics ts row \<Rightarrow> if topic_row row ts \<and> \<not> busy
       then case StopEcho b fixed (s, p) of (s, p) \<Rightarrow>
         ShowTopic b strerror fixed busy (s, p\<lparr>ep_requires_refresh := False, ep_topics := ts, ep_list := row\<rparr>)
       else Inr (s, p))"

section \<open>The contract of an echo session\<close>

text \<open>
  A session is opened by a successful start, closed by a stop, and a read that gives a sample or -EAGAIN keeps
  it; any other error of a read ends it, so that \<open>session\<close> is what the page believes.
\<close>

locale echo_backend =
  fixes start :: "'s \<Rightarrow> endpoint_identity \<Rightarrow> unit result \<times> 's"
    and read :: "'s \<Rightarrow> data_snapshot result \<times> 's"
    and stop :: "'s \<Rightarrow> 's"
    and session :: "'s \<Rightarrow> endpoint_identity option"
  assumes start_opens: "start s i = (Inr (), s') \<Longrightarrow> session s' = Some i"
    and stop_closes: "session (stop s) = None"
    and read_keeps: "read s = (r, s') \<Longrightarrow> (\<exists>v. r = Inr v) \<or> r = fail (- EAGAIN) \<Longrightarrow> session s' = session s"

text \<open>The same over a backend of the window, whose reads and starts have a meaning.\<close>

locale echo_page = echo_backend "wb_StartTopicEcho b" "wb_ReadTopicEcho b" "wb_StopTopicEcho b" session
  for b :: "'s window_backend" and session +
  assumes start_defined: "fst (wb_StartTopicEcho b s i) \<noteq> Inl Undefined"
    and read_defined: "fst (wb_ReadTopicEcho b s) \<noteq> Inl Undefined"

end
