(* ===== verification/EchoProps.thy ===== *)
theory EchoProps
  imports EchoPanel MockBackend
begin

text \<open>
  What the topic page promises: the session of the backend and the buttons always agree, and the rate it shows
  is the exact one over the longest recent run of samples.
\<close>

section \<open>The page and the session\<close>

definition echoable :: "echo_panel \<Rightarrow> bool" where
  "echoable p \<longleftrightarrow> (case selected_topic p of None \<Rightarrow> False | Some t \<Rightarrow> ti_type_id t \<noteq> 0 \<and> ti_role t = ''PUBLISHER'' \<and> ti_publishers t \<noteq> [])"

definition echo_inv :: "echo_panel \<Rightarrow> bool" where
  "echo_inv p \<longleftrightarrow> topic_row (ep_list p) (ep_topics p) \<and> (ep_timer p \<longleftrightarrow> ep_stop p) \<and> \<not> (ep_timer p \<and> ep_start p)
     \<and> (ep_timer p \<or> ep_start p \<longrightarrow> echoable p \<and> \<not> ep_requires_refresh p)"

lemma echo_inv_start: "echo_inv echo_panel0"
  by (simp add: echo_inv_def echo_panel0_def topic_row_def)

text \<open>The session is one of the selected topic while the timer runs, and closed otherwise.\<close>

definition agrees :: "('s \<Rightarrow> endpoint_identity option) \<Rightarrow> 's \<Rightarrow> echo_panel \<Rightarrow> bool" where
  "agrees session s p \<longleftrightarrow> session s = (if ep_timer p then map_option ti_identity (selected_topic p) else None)"

definition page_ok :: "('s \<Rightarrow> endpoint_identity option) \<Rightarrow> 's \<times> echo_panel \<Rightarrow> bool" where
  "page_ok session sp \<longleftrightarrow> echo_inv (snd sp) \<and> agrees session (fst sp) (snd sp)"

definition page_returns :: "('s \<Rightarrow> endpoint_identity option) \<Rightarrow> ('s \<times> echo_panel) result \<Rightarrow> bool" where
  "page_returns session r \<longleftrightarrow> (\<exists>sp. r = Inr sp \<and> page_ok session sp)"

lemma page_returns_Inr [simp]: "page_returns session (Inr sp) = page_ok session sp"
  by (simp add: page_returns_def)

lemma selected_topic_update [simp]:
  "selected_topic (p\<lparr>ep_start := x1\<rparr>) = selected_topic p" "selected_topic (p\<lparr>ep_stop := x2\<rparr>) = selected_topic p"
  "selected_topic (p\<lparr>ep_timer := x3\<rparr>) = selected_topic p" "selected_topic (p\<lparr>ep_history := x4\<rparr>) = selected_topic p"
  "selected_topic (p\<lparr>ep_requires_refresh := x5\<rparr>) = selected_topic p" "selected_topic (p\<lparr>ep_fields := x6\<rparr>) = selected_topic p"
  "selected_topic (p\<lparr>ep_identity := x7\<rparr>) = selected_topic p" "selected_topic (p\<lparr>ep_status := x8\<rparr>) = selected_topic p"
  "selected_topic (p\<lparr>ep_table := x9\<rparr>) = selected_topic p"
  by (simp_all add: selected_topic_def)

lemmas page_defs = page_ok_def echo_inv_def agrees_def echoable_def

lemma trim_history_ne: "trim_history now (xs @ [(now, q)]) \<noteq> []"
  by (induction xs) auto

lemma rate_text_returns: "\<exists>t. rate_text fixed now q (add_sample now q h) = Inr t"
  using trim_history_ne[of now _ q] unfolding rate_text_def add_sample_def by (auto simp: Let_def split: list.split)

context echo_page
begin

lemma Stop_closed: "StopEcho b fixed (s, p) = (s', p') \<Longrightarrow> session s' = None \<and> \<not> ep_timer p' \<and> \<not> ep_stop p'"
  using stop_closes by (auto simp: StopEcho_def)

lemma Stop_ok: "page_ok session sp \<Longrightarrow> page_ok session (StopEcho b fixed sp)"
  using stop_closes by (cases sp) (auto simp: StopEcho_def page_defs)

lemma Show_ok:
  assumes "topic_row (ep_list p) (ep_topics p)"
  shows "page_returns session (ShowTopic b strerror fixed False (s, p))"
proof -
  obtain s1 p1 where stop: "StopEcho b fixed (s, p) = (s1, p1)" by fastforce
  then have closed: "session s1 = None" "\<not> ep_timer p1" "\<not> ep_stop p1" using Stop_closed by blast+
  have same: "ep_list p1 = ep_list p" "ep_topics p1 = ep_topics p" "selected_topic p1 = selected_topic p"
    using stop by (auto simp: StopEcho_def selected_topic_def)
  show ?thesis
  proof (cases "selected_topic p")
    case None
    with stop closed same assms show ?thesis by (simp add: ShowTopic_def Let_def page_defs)
  next
    case (Some t)
    obtain r s2 where start: "wb_StartTopicEcho b s1 (ti_identity t) = (r, s2)" by fastforce
    then have "r \<noteq> Inl Undefined" using start_defined by (metis fst_conv)
    with stop closed same Some assms start stop_closes[of s2] show ?thesis
      by (cases r rule: on_result_cases) (auto simp: ShowTopic_def Let_def page_defs)
  qed
qed

lemma failed_ok:
  assumes "topic_row (ep_list p) (ep_topics p)"
  shows "page_ok session (echo_failed b strerror fixed c (s, p))"
  using assms stop_closes by (auto simp: echo_failed_def StopEcho_def page_defs)

lemma Poll_ok:
  assumes "page_ok session (s, p)"
  shows "page_returns session (PollEcho b strerror fixed now busy (s, p))"
proof (cases "busy \<or> \<not> ep_timer p")
  case False
  obtain r s1 where r: "wb_ReadTopicEcho b s = (r, s1)" by fastforce
  then have d: "r \<noteq> Inl Undefined" using read_defined by (metis fst_conv)
  show ?thesis
  proof (cases r rule: on_result_cases)
    case (ok v)
    moreover obtain t where "rate_text fixed now (ds_sequence v) (add_sample now (ds_sequence v) (ep_history p)) = Inr t"
      using rate_text_returns by blast
    ultimately show ?thesis using False r assms read_keeps[OF r] by (simp add: PollEcho_def Let_def page_defs)
  next
    case (code c)
    with False r assms read_keeps[OF r] failed_ok[of p] show ?thesis
      by (auto simp: PollEcho_def page_defs)
  qed (use d in simp)
qed (use assms in \<open>auto simp: PollEcho_def\<close>)

lemma Start_ok:
  assumes "page_ok session (s, p)"
  shows "page_returns session (StartEcho b strerror fixed now busy (s, p))"
proof (cases "busy \<or> \<not> ep_start p")
  case False
  then obtain t where t: "selected_topic p = Some t" using assms by (auto simp: page_defs split: option.splits)
  obtain r s1 where r: "wb_StartTopicEcho b s (ti_identity t) = (r, s1)" by fastforce
  then have d: "r \<noteq> Inl Undefined" using start_defined by (metis fst_conv)
  show ?thesis
  proof (cases r rule: on_result_cases)
    case (ok u)
    let ?p = "p\<lparr>ep_start := False, ep_stop := True, ep_history := [], ep_fields := (ep_fields p)[3 := ''Measuring...''], ep_timer := True\<rparr>"
    have "page_ok session (s1, ?p)" using assms False t r ok start_opens by (auto simp: page_defs)
    from Poll_ok[OF this] False t r ok show ?thesis by (simp add: StartEcho_def)
  next
    case (code c)
    with False t r assms failed_ok[of p] show ?thesis by (simp add: StartEcho_def page_defs)
  qed (use d in simp)
qed (use assms in \<open>auto simp: StartEcho_def\<close>)

lemma echo_step_ok:
  assumes "page_ok session (s, p)"
  shows "page_returns session (echo_step b strerror fixed busy e (s, p))"
proof (cases e)
  case (New_topics ts row)
  obtain s1 p1 where "StopEcho b fixed (s, p) = (s1, p1)" by fastforce
  with New_topics assms show ?thesis by (auto simp: echo_step_def intro!: Show_ok)
qed (use assms in \<open>auto simp: echo_step_def Stop_ok Start_ok Poll_ok intro!: Show_ok\<close>)

lemma echo_steps_ok:
  "page_ok session sp \<Longrightarrow> page_returns session (foldM_res (echo_step b strerror fixed busy) es sp)"
proof (induction es arbitrary: sp)
  case (Cons e es)
  then obtain sp1 where "echo_step b strerror fixed busy e sp = Inr sp1" "page_ok session sp1"
    using echo_step_ok[of "fst sp" "snd sp" strerror fixed busy e] by (auto simp: page_returns_def)
  with Cons.IH show ?case by simp
qed simp

end

section \<open>The rate\<close>

text \<open>The samples of one session, oldest first, and what the page keeps of them.\<close>

definition kept :: "(int \<times> u64) list \<Rightarrow> (int \<times> u64) list" where
  "kept xs = fold (\<lambda>(t, q) h. add_sample t q h) xs []"

text \<open>A run: at most 16 samples, at most a second old at the last one, whose sequence numbers do not fall.\<close>

definition recent_run :: "(int \<times> u64) list \<Rightarrow> bool" where
  "recent_run ys \<longleftrightarrow> length ys \<le> 16 \<and> sorted (map snd ys) \<and> (\<forall>y \<in> set ys. fst (last ys) - fst y \<le> 1000000000)"

lemma trim_suffix: "\<exists>pre. l = pre @ trim_history now l"
  by (induction l) (auto intro: exI[of _ "[]"] exI[of _ "_ # _"])

lemma trim_longest:
  "l = pre @ z # zs \<Longrightarrow> length (z # zs) \<le> 16 \<Longrightarrow> now - fst z \<le> 1000000000 \<Longrightarrow> \<exists>pre'. trim_history now l = pre' @ z # zs"
proof (induction l arbitrary: pre)
  case (Cons x xs)
  then show ?case by (cases pre) auto
qed simp

lemma trim_front: "trim_history now l = x # xs \<Longrightarrow> length (x # xs) \<le> 16 \<and> now - fst x \<le> 1000000000"
  by (induction l) (auto split: if_splits)

lemma sorted_suffix: "sorted (map f (xs @ ys)) \<Longrightarrow> sorted (map f ys)"
  by (simp add: sorted_append)

lemma sorted_le_last: "sorted ys \<Longrightarrow> y \<in> set ys \<Longrightarrow> y \<le> last ys"
  by (induction ys rule: rev_induct) (auto simp: sorted_append)

lemma suffix_of_longer:
  assumes "p1 @ us = p2 @ ys" and "length us \<le> length ys"
  shows "\<exists>q. ys = q @ us"
proof -
  obtain zs where "p1 @ zs = p2 \<and> us = zs @ ys \<or> p1 = p2 @ zs \<and> zs @ us = ys"
    using assms(1) by (auto simp: append_eq_append_conv2)
  with assms(2) show ?thesis by auto
qed

lemma kept_longest:
  assumes "sorted (map fst xs)"
  shows "\<exists>pre. xs = pre @ kept xs \<and> recent_run (kept xs) \<and> (xs \<noteq> [] \<longrightarrow> kept xs \<noteq> [])
    \<and> (\<forall>pre' ys. xs = pre' @ ys \<longrightarrow> recent_run ys \<longrightarrow> length ys \<le> length (kept xs))"
  using assms
proof (induction xs rule: rev_induct)
  case Nil
  then show ?case by (simp add: kept_def recent_run_def)
next
  case (snoc x xs)
  have "sorted (map fst xs)" using snoc.prems by (simp add: sorted_append)
  from snoc.IH[OF this] obtain pre where pre: "xs = pre @ kept xs" and run: "recent_run (kept xs)" and ne: "xs \<noteq> [] \<longrightarrow> kept xs \<noteq> []"
    and longest: "\<And>pre' ys. xs = pre' @ ys \<Longrightarrow> recent_run ys \<Longrightarrow> length ys \<le> length (kept xs)" by blast
  define l where "l = (if kept xs \<noteq> [] \<and> snd x < snd (last (kept xs)) then [] else kept xs) @ [x]"
  have k: "kept (xs @ [x]) = trim_history (fst x) l" by (cases x) (simp add: kept_def l_def add_sample_def)
  obtain d where d: "l = d @ kept (xs @ [x])" using trim_suffix[of l "fst x"] k by metis
  have nonempty: "kept (xs @ [x]) \<noteq> []" unfolding k l_def using trim_history_ne by (cases x) auto
  have l: "\<exists>e. xs @ [x] = e @ l" using pre by (auto simp: l_def)
  then obtain e where e: "xs @ [x] = e @ d @ kept (xs @ [x])" using d by (metis append_assoc)
  have sorted_l: "sorted (map snd l)"
  proof (cases "kept xs = [] \<or> snd x < snd (last (kept xs))")
    case False
    have "sorted (map snd (kept xs))" using run by (simp add: recent_run_def)
    then have "snd y \<le> snd x" if "y \<in> set (kept xs)" for y
      using sorted_le_last[of "map snd (kept xs)" "snd y"] that False by (auto simp: last_map not_less)
    then have "\<forall>y \<in> set (kept xs). snd y \<le> snd x" by blast
    with run False show ?thesis by (simp add: l_def recent_run_def sorted_append)
  qed (auto simp: l_def)
  obtain y ys where y: "kept (xs @ [x]) = y # ys" using nonempty by (cases "kept (xs @ [x])") auto
  have front: "length (y # ys) \<le> 16" "fst x - fst y \<le> 1000000000" using trim_front[OF k[unfolded y, symmetric]] by simp_all
  have last_x: "last (kept (xs @ [x])) = x" using d nonempty by (metis l_def last_appendR last_snoc)
  have "sorted (map fst ((e @ d) @ (y # ys)))" using snoc.prems e y by (metis append_assoc)
  from sorted_suffix[OF this] have "fst y \<le> fst z" if "z \<in> set (kept (xs @ [x]))" for z
    using that y by auto
  then have run': "recent_run (kept (xs @ [x]))"
    using front last_x sorted_suffix[of snd d "kept (xs @ [x])"] sorted_l d y unfolding recent_run_def by (metis diff_left_mono order_trans)
  have "length zs \<le> length (kept (xs @ [x]))" if zs: "xs @ [x] = pre' @ zs" "recent_run zs" for pre' zs
  proof (cases zs rule: rev_cases)
    case (snoc us u)
    then have u: "u = x" "xs = pre' @ us" using zs(1) by auto
    have "fst (last us) \<le> fst x" if "us \<noteq> []" using snoc.prems u(2) that by (auto simp: sorted_append)
    moreover have "\<forall>y \<in> set us. fst x - fst y \<le> 1000000000" using zs(2) snoc u(1) by (auto simp: recent_run_def)
    ultimately have us: "recent_run us"
      using zs(2) snoc by (cases "us = []") (fastforce simp: recent_run_def sorted_append)+
    then obtain q where q: "kept xs = q @ us" using longest[OF u(2)] suffix_of_longer[of pre' us pre "kept xs"] u(2) pre by metis
    show ?thesis
    proof (cases "kept xs \<noteq> [] \<and> snd x < snd (last (kept xs))")
      case True
      have "us = []"
      proof (rule ccontr)
        assume "us \<noteq> []"
        then have "snd (last us) \<le> snd x" using zs(2) snoc u(1) by (simp add: recent_run_def sorted_append)
        with True q \<open>us \<noteq> []\<close> show False by simp
      qed
      with snoc nonempty show ?thesis by (simp add: Suc_le_eq)
    next
      case False
      then have "l = q @ zs" using q snoc u(1) by (auto simp: l_def)
      moreover obtain z zs' where z: "zs = z # zs'" using snoc by (metis append_is_Nil_conv neq_Nil_conv)
      moreover have "last zs = x" using snoc u(1) by simp
      moreover have "z \<in> set zs" unfolding z by simp
      ultimately have "fst x - fst z \<le> 1000000000" "length zs \<le> 16" "l = q @ z # zs'" using zs(2) by (auto simp: recent_run_def)
      then obtain r where "trim_history (fst x) l = r @ zs" using trim_longest[of l q z zs' "fst x"] z by auto
      then show ?thesis by (simp add: k)
    qed
  qed simp
  with e run' nonempty show ?case by (metis append_assoc)
qed

section \<open>Properties\<close>

definition mock_session :: "mock_state \<Rightarrow> endpoint_identity option" where
  "mock_session s = (if mb_echo_active s then Some (mb_echo_identity s) else None)"

interpretation mock_page: echo_page "window_backend_of mock_backend" mock_session
proof unfold_locales
  fix s i s'
  show "wb_StartTopicEcho (window_backend_of mock_backend) s i = (Inr (), s') \<Longrightarrow> mock_session s' = Some i"
    by (auto simp: window_backend_of_def mock_backend_def Mock_StartTopicEcho_def Let_def mock_session_def split: if_splits)
  show "mock_session (wb_StopTopicEcho (window_backend_of mock_backend) s) = None"
    by (simp add: window_backend_of_def mock_backend_def Mock_StopTopicEcho_def mock_session_def)
  show "fst (wb_StartTopicEcho (window_backend_of mock_backend) s i) \<noteq> Inl Undefined"
    by (simp add: window_backend_of_def mock_backend_def Mock_StartTopicEcho_def Let_def)
  show "fst (wb_ReadTopicEcho (window_backend_of mock_backend) s) \<noteq> Inl Undefined"
    by (simp add: window_backend_of_def mock_backend_def Mock_ReadTopicEcho_def Mock_ReadTopicLatest_id_def split: option.split)
next
  fix s r s'
  assume "wb_ReadTopicEcho (window_backend_of mock_backend) s = (r, s')"
  then show "mock_session s' = mock_session s"
    by (auto simp: window_backend_of_def mock_backend_def Mock_ReadTopicEcho_def Mock_ReadTopicLatest_id_def mock_session_def
        split: if_splits option.splits)
qed

text \<open>
  Over every backend that keeps the contract of an echo session, whatever the user does and whatever the
  backend answers: while the timer runs the backend has a session of the selected topic, otherwise it has
  none; Start and Stop are never enabled together, and Start only for a publisher with a type, not after an
  error before the next refresh.
\<close>

theorem echo_page_session:
  assumes "echo_page b session" and "session s = None"
  shows "\<exists>s' p'. foldM_res (echo_step b strerror fixed busy) events (s, echo_panel0) = Inr (s', p') \<and> echo_inv p' \<and> agrees session s' p'"
proof -
  have "page_ok session (s, echo_panel0)" using assms(2) echo_inv_start by (simp add: page_ok_def agrees_def echo_panel0_def)
  from echo_page.echo_steps_ok[OF assms(1) this, of strerror fixed busy events] show ?thesis by (auto simp: page_returns_def page_ok_def)
qed

text \<open>
  C14. The rate of an echo is computed over the longest run of samples that ends with the last one, has at
  most 16 samples within a second and in which no sequence number falls; it is the exact number of
  publications in it over its duration, and is shown once the run lasts half a second.
\<close>

theorem echo_rate_exact:
  assumes "sorted (map fst (xs @ [(now, q)]))"
  shows "\<exists>pre t0 q0 ys. xs @ [(now, q)] = pre @ (t0, q0) # ys \<and> kept (xs @ [(now, q)]) = (t0, q0) # ys
     \<and> recent_run ((t0, q0) # ys) \<and> (\<forall>pre' zs. xs @ [(now, q)] = pre' @ zs \<longrightarrow> recent_run zs \<longrightarrow> length zs \<le> length ((t0, q0) # ys))
     \<and> uint (q - q0) = uint q - uint q0
     \<and> rate_text fixed now q (kept (xs @ [(now, q)])) =
        Inr (if ys \<noteq> [] \<and> 1 / 2 \<le> ns_to_seconds (now - t0) then fixed (per_second (q - q0) (ns_to_seconds (now - t0))) @ '' Hz''
             else ''Measuring...'')"
proof -
  from kept_longest[OF assms] obtain pre where pre: "xs @ [(now, q)] = pre @ kept (xs @ [(now, q)])" "recent_run (kept (xs @ [(now, q)]))"
    "kept (xs @ [(now, q)]) \<noteq> []" and longest: "\<And>pre' zs. xs @ [(now, q)] = pre' @ zs \<Longrightarrow> recent_run zs \<Longrightarrow> length zs \<le> length (kept (xs @ [(now, q)]))"
    by auto
  then obtain t0 q0 ys where k: "kept (xs @ [(now, q)]) = (t0, q0) # ys" by (cases "kept (xs @ [(now, q)])") auto
  have "last ((t0, q0) # ys) = (now, q)" using pre(1) k by (metis last_appendR last_snoc list.distinct(1))
  moreover have "sorted (map snd ((t0, q0) # ys))" using pre(2) k by (simp add: recent_run_def)
  ultimately have "q0 \<le> q" using sorted_le_last[of "map snd ((t0, q0) # ys)" q0] by (metis last_map list.distinct(1) list.set_intros(1) list.simps(9) snd_conv)
  then have "uint (q - q0) = uint q - uint q0" by (simp add: uint_minus_simple_alt[symmetric])
  moreover have "rate_text fixed now q ((t0, q0) # ys) =
     Inr (if ys \<noteq> [] \<and> 1 / 2 \<le> ns_to_seconds (now - t0) then fixed (per_second (q - q0) (ns_to_seconds (now - t0))) @ '' Hz'' else ''Measuring...'')"
    by (cases ys) (simp_all add: rate_text_def Let_def)
  ultimately show ?thesis using pre longest k by (metis (no_types, lifting))
qed

section \<open>Witnesses\<close>

definition one_decimal :: "double \<Rightarrow> string" where
  "one_decimal x = ''1.0''"

theorem echo_page_session_witness:
  "\<exists>s' p'. foldM_res (echo_step (window_backend_of mock_backend) (\<lambda>c. ''error'') one_decimal False)
     [New_topics (mb_topics mock_init) 0, Start_clicked 0, Timer 100000000, Stop_clicked] (mock_init, echo_panel0) = Inr (s', p')
     \<and> echo_inv p' \<and> agrees mock_session s' p'"
  by (rule echo_page_session[OF mock_page.echo_page_axioms]) (simp add: mock_session_def mock_init_def)

theorem echo_rate_exact_witness:
  "\<exists>pre. [(0, 5), (600000000, 12)] @ [(700000000, 3)] = pre @ kept ([(0, 5), (600000000, 12)] @ [(700000000, 3)])"
  using echo_rate_exact[of "[(0, 5), (600000000, 12)]" 700000000 3 one_decimal] by auto

end
