(* ===== verification/ServicePanel.thy ===== *)
theory ServicePanel
  imports EchoPanel
begin

text \<open>
  The service page of \<open>src/ui/main_window.cpp\<close>: \<open>UpdateServices\<close>, \<open>ShowService\<close> and \<open>CallService\<close>, whose worker
  thread makes the call while the window waits for it. \<open>sv_worker\<close> is the job of the thread that runs;
  the calls it made are logged in \<open>sv_sent\<close>.
\<close>

record service_panel =
  sv_services :: "service_info list"
  sv_list :: int
  sv_row :: int
  sv_template :: data_snapshot
  sv_inputs :: "string list"
  sv_rows :: "row_key list"
  sv_call :: bool
  sv_busy :: bool
  sv_worker :: "(endpoint_identity \<times> data_snapshot) option"
  sv_request :: "(string \<times> string \<times> string) list"
  sv_response :: "(string \<times> string \<times> string) list"
  sv_metadata :: string
  sv_status :: string
  sv_sent :: "(endpoint_identity \<times> data_snapshot) list"

definition service_panel0 :: service_panel where
  "service_panel0 = \<lparr>sv_services = [], sv_list = -1, sv_row = -1, sv_template = data_snapshot0, sv_inputs = [], sv_rows = [],
     sv_call = False, sv_busy = False, sv_worker = None, sv_request = [], sv_response = [], sv_metadata = [], sv_status = [],
     sv_sent = []\<rparr>"

section \<open>Handlers\<close>

definition service_metadata :: "service_info \<Rightarrow> string" where
  "service_metadata q = si_name q @ '' / PID '' @ to_string_int (ri_pid (ei_runtime (si_identity q)))
     @ '' / start '' @ to_string_u64 (ri_process_start_ticks (ei_runtime (si_identity q)))
     @ '' / endpoint '' @ to_string_u64 (ei_registration_id (si_identity q))
     @ '' / port '' @ to_string_nat (unat (si_port q)) @ '' / service_id '' @ to_string_nat (unat (si_service_id q))
     @ [char_of (10 :: nat)] @ ''Request: '' @ si_diagnostic_request_type_name q @ '' / type_id '' @ to_string_u64 (si_request_type_id q)
     @ [char_of (10 :: nat)] @ ''Response: '' @ si_diagnostic_response_type_name q @ '' / type_id '' @ to_string_u64 (si_response_type_id q)"

text \<open>The page without a service.\<close>

definition blank_service :: "service_panel \<Rightarrow> service_panel" where
  "blank_service p = p\<lparr>sv_row := sv_list p, sv_call := False, sv_template := data_snapshot0, sv_inputs := [], sv_rows := [],
     sv_request := [], sv_response := [], sv_metadata := [], sv_status := []\<rparr>"

definition service_form :: "data_snapshot \<Rightarrow> data_snapshot \<Rightarrow> service_panel \<Rightarrow> service_panel" where
  "service_form request response p = p\<lparr>sv_template := request, sv_request := map (row_cells request) (FieldRows request),
     sv_inputs := map snd (FieldRows request), sv_rows := map fst (FieldRows request),
     sv_response := ResponseRows response False,
     sv_status := ''Ready '' @ em_dash @ '' Call sends one request'', sv_call := True\<rparr>"

definition ShowService :: "'s window_backend \<Rightarrow> (int \<Rightarrow> string) \<Rightarrow> 's \<times> service_panel \<Rightarrow> ('s \<times> service_panel) result" where
  "ShowService b strerror sp = (case sp of (s, p) \<Rightarrow>
     if sv_busy p then Inr (s, p\<lparr>sv_list := sv_row p\<rparr>)
     else let p = blank_service p; row = sv_row p
          in if row < 0 \<or> length (sv_services p) \<le> nat row then Inr (s, p)
             else let q = sv_services p ! nat row; p = p\<lparr>sv_metadata := service_metadata q\<rparr>;
                      unavailable = (\<lambda>s c. Inr (s, p\<lparr>sv_status := ''Service unavailable: '' @ ErrorText strerror c\<rparr>))
                  in if si_request_type_id q = 0 \<or> si_response_type_id q = 0
                     then Inr (s, p\<lparr>sv_status := ''Stable service type descriptor unavailable''\<rparr>)
                     else case wb_GetTypeTemplate b s (ei_runtime (si_identity q)) (si_request_type_id q) of (r, s) \<Rightarrow> on_result r
                       (\<lambda>request. case wb_GetTypeTemplate b s (ei_runtime (si_identity q)) (si_response_type_id q) of (r, s) \<Rightarrow> on_result r
                          (\<lambda>response. Inr (s, service_form request response p)) (unavailable s))
                       (unavailable s))"

text \<open>The list after a refresh: the service selected before, or the first one the first time.\<close>

definition UpdateServices :: "'s window_backend \<Rightarrow> (int \<Rightarrow> string) \<Rightarrow> bool \<Rightarrow> 's \<times> service_panel \<Rightarrow> ('s \<times> service_panel) result" where
  "UpdateServices b strerror refreshed sp = (case sp of (s, p) \<Rightarrow>
     let had = 0 \<le> sv_row p \<and> nat (sv_row p) < length (sv_services p);
         ident = (if had then si_identity (sv_services p ! nat (sv_row p)) else endpoint_identity0);
         services = wb_QueryServices b s;
         row = last_index (\<lambda>q. had \<and> endpoint_identity_eq (si_identity q) ident) 0 services
           (if had then -1 else if refreshed \<or> services = [] then -1 else 0)
     in ShowService b strerror (s, p\<lparr>sv_services := services, sv_list := row\<rparr>))"

text \<open>
  \<open>CallService\<close> up to the start of the thread. The row of an enabled button is one of the list; the code
  only checks that it is not negative.
\<close>

definition CallService :: "'s window_backend \<Rightarrow> (int \<Rightarrow> string) \<Rightarrow> (double \<Rightarrow> string) \<Rightarrow> 's \<times> echo_panel \<times> service_panel
    \<Rightarrow> ('s \<times> echo_panel \<times> service_panel) result" where
  "CallService b strerror fixed sp = (case sp of (s, e, p) \<Rightarrow>
     if sv_busy p \<or> \<not> sv_call p \<or> sv_row p < 0 then Inr (s, e, p)
     else res_bind (nth_res (sv_services p) (nat (sv_row p))) (\<lambda>q.
          res_bind (EditedFields (sv_template p) (sv_inputs p) (sv_rows p)) (\<lambda>request.
          let p = p\<lparr>sv_response := []\<rparr>
          in case wb_ValidateService b s (si_identity q) request of (r, s) \<Rightarrow> on_result r
            (\<lambda>_. case StopEcho b fixed (s, e) of (s, e) \<Rightarrow>
               Inr (s, e, p\<lparr>sv_worker := Some (si_identity q, request), sv_busy := True, sv_call := False, sv_status := ''Call in progress''\<rparr>))
            (\<lambda>c. Inr (s, e, p\<lparr>sv_status := ''Request rejected: '' @ ErrorText strerror c @ '' ('' @ to_string_int c @ '')''\<rparr>)))))"

text \<open>The thread's call, and what the window does when the thread has finished.\<close>

definition call_finished :: "(int \<Rightarrow> string) \<Rightarrow> data_snapshot result \<Rightarrow> service_panel \<Rightarrow> service_panel result" where
  "call_finished strerror r p =
     (let p = p\<lparr>sv_worker := None, sv_busy := False, sv_call := True\<rparr>
      in on_result r
        (\<lambda>response. Inr (p\<lparr>sv_response := ResponseRows response True, sv_status := ''Call succeeded''\<rparr>))
        (\<lambda>c. Inr (p\<lparr>sv_response := [],
           sv_status := (if c = - ETIMEDOUT
             then ''Call timed out: no response received. Server callback may have executed. No automatic retry.''
             else ''Call failed: '' @ ErrorText strerror c @ '' ('' @ to_string_int c @ '')'')\<rparr>)))"

definition worker_finishes :: "'s window_backend \<Rightarrow> (int \<Rightarrow> string) \<Rightarrow> 's \<times> service_panel \<Rightarrow> ('s \<times> service_panel) result" where
  "worker_finishes b strerror sp = (case sp of (s, p) \<Rightarrow> case sv_worker p of
     None \<Rightarrow> Inr (s, p)
   | Some (i, request) \<Rightarrow> case wb_CallService b s i request 200 2 of (r, s) \<Rightarrow>
       res_bind (call_finished strerror r (p\<lparr>sv_sent := sv_sent p @ [(i, request)]\<rparr>)) (\<lambda>p. Inr (s, p)))"

section \<open>Invariant\<close>

definition service_inv :: "service_panel \<Rightarrow> bool" where
  "service_inv p \<longleftrightarrow> -1 \<le> sv_list p \<and> sv_list p < int (length (sv_services p)) \<and> -1 \<le> sv_row p \<and> sv_row p < int (length (sv_services p))
     \<and> sv_rows p = row_keys (sv_template p) \<and> length (sv_inputs p) = length (sv_rows p)
     \<and> (sv_busy p \<longleftrightarrow> sv_worker p \<noteq> None) \<and> \<not> (sv_busy p \<and> sv_call p)"

lemma service_inv_start: "service_inv service_panel0"
  by (simp add: service_inv_def service_panel0_def row_keys_def data_snapshot0_def)

definition services_defined :: "'s window_backend \<Rightarrow> bool" where
  "services_defined b \<longleftrightarrow> (\<forall>s r t. fst (wb_GetTypeTemplate b s r t) \<noteq> Inl Undefined)
     \<and> (\<forall>s i v. fst (wb_ValidateService b s i v) \<noteq> Inl Undefined) \<and> (\<forall>s i v t n. fst (wb_CallService b s i v t n) \<noteq> Inl Undefined)"

lemma defined_cases:
  assumes "fst x \<noteq> Inl Undefined"
  obtains (ok) v s where "x = (Inr v, s)" | (code) c s where "x = (fail c, s)"
  using assms on_result_cases[of "fst x"] by (metis prod.collapse)

lemma blank_service_inv:
  "-1 \<le> sv_list p \<Longrightarrow> sv_list p < int (length (sv_services p)) \<Longrightarrow> sv_worker p = None \<Longrightarrow> \<not> sv_busy p \<Longrightarrow> service_inv (blank_service p)"
  by (simp add: service_inv_def blank_service_def row_keys_def data_snapshot0_def)

lemma service_inv_texts [simp]:
  "service_inv (p\<lparr>sv_status := t\<rparr>) = service_inv p" "service_inv (p\<lparr>sv_metadata := t\<rparr>) = service_inv p"
  "service_inv (p\<lparr>sv_response := x\<rparr>) = service_inv p" "service_inv (p\<lparr>sv_sent := l\<rparr>) = service_inv p"
  by (simp_all add: service_inv_def)

lemma service_form_inv: "service_inv p \<Longrightarrow> \<not> sv_busy p \<Longrightarrow> service_inv (service_form request response p)"
  by (simp add: service_inv_def service_form_def)

definition service_returns :: "('s \<times> service_panel) result \<Rightarrow> bool" where
  "service_returns r \<longleftrightarrow> (\<exists>s p. r = Inr (s, p) \<and> service_inv p)"

lemma service_returns_Inr [simp]: "service_returns (Inr (s, p)) = service_inv p"
  by (simp add: service_returns_def)

lemma ShowService_returns:
  assumes "services_defined b" and "-1 \<le> sv_list p" and "sv_list p < int (length (sv_services p))" and "\<not> sv_busy p" and "sv_worker p = None"
  shows "service_returns (ShowService b strerror (s, p))"
proof -
  let ?p = "blank_service p"
  have inv: "service_inv ?p" and idle: "\<not> sv_busy ?p" using blank_service_inv assms(2-5) by (auto simp: blank_service_def)
  show ?thesis
  proof (cases "sv_row ?p < 0 \<or> length (sv_services ?p) \<le> nat (sv_row ?p)")
    case False
    define q where "q = sv_services ?p ! nat (sv_row ?p)"
    let ?get = "\<lambda>s t. wb_GetTypeTemplate b s (ei_runtime (si_identity q)) t"
    have d: "fst (?get s t) \<noteq> Inl Undefined" for s t using assms(1) by (simp add: services_defined_def)
    show ?thesis
    proof (cases rule: defined_cases[OF d[of s "si_request_type_id q"]])
      case (1 request s1)
      then show ?thesis
        by (cases rule: defined_cases[OF d[of s1 "si_response_type_id q"]])
          (use False assms(4) inv idle in \<open>auto simp: ShowService_def Let_def q_def[symmetric] service_form_inv\<close>)
    qed (use False assms(4) inv in \<open>auto simp: ShowService_def Let_def q_def[symmetric]\<close>)
  qed (use assms(4) inv in \<open>auto simp: ShowService_def Let_def\<close>)
qed

lemma EditedFields_returns:
  assumes "rows = row_keys v" and "length ts = length rows"
  shows "\<exists>w. EditedFields v ts rows = Inr w"
  using EditedFields_spec[of ts rows v] assms row_keys_in by auto

lemma last_index_range: "-1 \<le> row \<Longrightarrow> row < int (length xs) \<Longrightarrow> -1 \<le> last_index P 0 xs row \<and> last_index P 0 xs row < int (length xs)"
  using last_index_spec[of xs P 0 row] by auto

lemma UpdateServices_returns:
  assumes "services_defined b" and "service_inv p" and "\<not> sv_busy p"
  shows "service_returns (UpdateServices b strerror refreshed (s, p))"
proof -
  have w: "sv_worker p = None" using assms(2,3) by (cases "sv_worker p") (auto simp: service_inv_def)
  define had where "had = (0 \<le> sv_row p \<and> nat (sv_row p) < length (sv_services p))"
  define services where "services = wb_QueryServices b s"
  define row where "row = last_index (\<lambda>q. had \<and> endpoint_identity_eq (si_identity q) (if had then si_identity (sv_services p ! nat (sv_row p))
     else endpoint_identity0)) 0 services (if had then -1 else if refreshed \<or> services = [] then -1 else 0)"
  have "UpdateServices b strerror refreshed (s, p) = ShowService b strerror (s, p\<lparr>sv_services := services, sv_list := row\<rparr>)"
    unfolding UpdateServices_def prod.case Let_def row_def had_def services_def by (rule refl)
  moreover have "-1 \<le> row \<and> row < int (length services)"
    unfolding row_def by (rule last_index_range) auto
  ultimately show ?thesis using w assms(3) by (auto intro!: ShowService_returns[OF assms(1)])
qed

lemma call_finished_returns:
  assumes "service_inv p" and "r \<noteq> Inl Undefined"
  shows "\<exists>p'. call_finished strerror r p = Inr p' \<and> service_inv p' \<and> sv_sent p' = sv_sent p"
  using assms by (cases r rule: on_result_cases) (auto simp: call_finished_def Let_def service_inv_def)

lemma worker_finishes_returns:
  assumes "services_defined b" and "service_inv p"
  shows "service_returns (worker_finishes b strerror (s, p))"
proof (cases "sv_worker p")
  case (Some job)
  obtain i v where job: "job = (i, v)" by (cases job)
  obtain r s1 where call: "wb_CallService b s i v 200 2 = (r, s1)" by fastforce
  then have "r \<noteq> Inl Undefined" using assms(1) unfolding services_defined_def by (metis fst_conv)
  from call_finished_returns[OF _ this, of "p\<lparr>sv_sent := sv_sent p @ [(i, v)]\<rparr>" strerror] Some job call assms(2)
  show ?thesis by (auto simp: worker_finishes_def)
qed (use assms(2) in \<open>simp add: worker_finishes_def\<close>)

end
