(* ===== verification/MainWindow.thy ===== *)
theory MainWindow
  imports ParameterPanel ServicePanel GraphModel
begin

text \<open>
  The class \<open>MainWindow\<close> of \<open>src/ui/main_window.cpp\<close> around its three pages: \<open>Refresh\<close>, the element page and the
  explorer tree, navigation, and closing. An event is a click, the timer or the end of the service thread;
  the layout of the widgets is Qt's.
\<close>

section \<open>State\<close>

text \<open>A row of a tree: its cells, and the tab and row it opens or the index of its element.\<close>

record endpoint_row =
  er_cells :: "string list"
  er_tab :: int
  er_index :: nat

record explorer_group =
  xg_cells :: "string list"
  xg_elements :: "(string list \<times> nat) list"

record main_window =
  mw_parameter :: parameter_panel
  mw_echo :: echo_panel
  mw_service :: service_panel
  mw_applications :: "application_info list"
  mw_elements :: "element_info list"
  mw_element :: int
  mw_refreshed :: bool
  mw_connection :: string
  mw_heading :: string
  mw_overview :: "string list"
  mw_element_texts :: "string list"
  mw_element_identity :: string
  mw_element_rows :: "endpoint_row list list"
  mw_explorer :: "explorer_group list"
  mw_graph :: "(application_info list \<times> element_info list \<times> topic_info list \<times> parameter_info list \<times> service_info list \<times> network_snapshot) option"
  mw_tab :: int
  mw_message :: string

definition main_window0 :: main_window where
  "main_window0 = \<lparr>mw_parameter = parameter_panel0, mw_echo = echo_panel0, mw_service = service_panel0, mw_applications = [],
     mw_elements = [], mw_element = -1, mw_refreshed = False, mw_connection = [], mw_heading = [], mw_overview = [],
     mw_element_texts = [], mw_element_identity = [], mw_element_rows = [], mw_explorer = [], mw_graph = None, mw_tab = 0,
     mw_message = []\<rparr>"

abbreviation busy :: "main_window \<Rightarrow> bool" where "busy w \<equiv> sv_busy (mw_service w)"
abbreviation edited :: "main_window \<Rightarrow> bool" where "edited w \<equiv> pp_dirty (mw_parameter w)"
abbreviation nl :: string where "nl \<equiv> [char_of (10 :: nat)]"

section \<open>The element page\<close>

definition selected_element :: "main_window \<Rightarrow> element_info option" where
  "selected_element w = (if row_ok (mw_element w) (mw_elements w) then Some (mw_elements w ! nat (mw_element w)) else None)"

definition element_texts :: "element_info \<Rightarrow> string list" where
  "element_texts e = [el_name e, to_string_int (el_pid e), el_executable e, el_mode e, el_state e,
     (if el_heartbeat_available e then to_string_u64 (el_heartbeat e) else ''N/A''), to_string_int (el_runtime_error e)]"

definition runtime_text :: "runtime_identity \<Rightarrow> string" where
  "runtime_text r = ''PID '' @ to_string_int (ri_pid r) @ '' / start_ticks '' @ to_string_u64 (ri_process_start_ticks r)"

definition element_identity_text :: "element_info \<Rightarrow> string" where
  "element_identity_text e = ''Runtime: '' @ runtime_text (el_identity e) @ nl @ ''Supervisor: '' @ runtime_text (el_supervisor e)
     @ nl @ ''Application: '' @ el_application_name e"

text \<open>The rows of one group: the endpoints of the runtime, with their place in the list of their tab.\<close>

definition endpoint_rows :: "runtime_identity \<Rightarrow> int \<Rightarrow> ('a \<Rightarrow> endpoint_identity) \<Rightarrow> ('a \<Rightarrow> string) \<Rightarrow> ('a \<Rightarrow> string) \<Rightarrow> 'a list \<Rightarrow> endpoint_row list" where
  "endpoint_rows runtime tab identity name role endpoints =
     map (\<lambda>(i, x). \<lparr>er_cells = [name x, role x, to_string_u64 (ei_registration_id (identity x))], er_tab = tab, er_index = i\<rparr>)
       (filter (\<lambda>(i, x). runtime_identity_eq (ei_runtime (identity x)) runtime) (enumerate 0 endpoints))"

definition ShowElement :: "main_window \<Rightarrow> main_window" where
  "ShowElement w = (let w = w\<lparr>mw_element_texts := blank_fields, mw_element_identity := [], mw_element_rows := []\<rparr>
     in case selected_element w of
          None \<Rightarrow> w
        | Some e \<Rightarrow> w\<lparr>mw_element_texts := element_texts e, mw_element_identity := element_identity_text e,
            mw_element_rows := [endpoint_rows (el_identity e) 2 ti_identity ti_name ti_role (ep_topics (mw_echo w)),
              endpoint_rows (el_identity e) 3 pi_identity pi_name pi_role (pp_parameters (mw_parameter w)),
              endpoint_rows (el_identity e) 5 si_identity si_name (\<lambda>_. []) (sv_services (mw_service w))]\<rparr>)"

section \<open>The explorer\<close>

text \<open>The group of an element: the first application it is a member of, or none (Standalone).\<close>

fun group_of :: "element_info \<Rightarrow> nat \<Rightarrow> application_info list \<Rightarrow> nat option" where
  "group_of e i [] = None"
| "group_of e i (a # as) =
     (if 0 < ri_pid (el_supervisor e) \<and> runtime_identity_eq (el_supervisor e) (ai_supervisor a) then Some i else group_of e (Suc i) as)"

definition explorer_items :: "application_info list \<Rightarrow> element_info list \<Rightarrow> nat option \<Rightarrow> (string list \<times> nat) list" where
  "explorer_items apps elements g =
     map (\<lambda>(i, e). ([el_name e, to_string_int (ri_pid (el_identity e)), to_string_u64 (ri_process_start_ticks (el_identity e)), el_state e], i))
       (filter (\<lambda>(i, e). group_of e 0 apps = g) (enumerate 0 elements))"

definition application_cells :: "application_info \<Rightarrow> string list" where
  "application_cells a = [ai_name a, to_string_int (ri_pid (ai_supervisor a)), to_string_u64 (ri_process_start_ticks (ai_supervisor a)),
     ai_state a @ '' / managed '' @ to_string_nat (unat (ai_managed_element_count a)) @ '' / revision '' @ to_string_u64 (ai_revision a)]"

definition explorer_tree :: "application_info list \<Rightarrow> element_info list \<Rightarrow> explorer_group list" where
  "explorer_tree apps elements =
     map (\<lambda>(i, a). \<lparr>xg_cells = application_cells a, xg_elements = explorer_items apps elements (Some i)\<rparr>) (enumerate 0 apps)
     @ [\<lparr>xg_cells = [''Standalone''], xg_elements = explorer_items apps elements None\<rparr>]"

definition UpdateExplorer :: "'s window_backend \<Rightarrow> 's \<Rightarrow> main_window \<Rightarrow> main_window" where
  "UpdateExplorer b s w = w\<lparr>mw_explorer := explorer_tree (mw_applications w) (mw_elements w),
     mw_graph := Some (mw_applications w, mw_elements w, ep_topics (mw_echo w), pp_parameters (mw_parameter w),
       sv_services (mw_service w), wb_GetNetworkSnapshot b s)\<rparr>"

section \<open>Refresh\<close>

definition connection_text :: "backend_connection_state \<Rightarrow> string" where
  "connection_text c = (case c of CONNECTED \<Rightarrow> ''Connection: Connected'' | DISCONNECTED \<Rightarrow> ''Connection: Disconnected''
     | CONNECTION_ERROR \<Rightarrow> ''Connection: Error'')"

text \<open>What was selected, by identity, and the row it has in the new list.\<close>

definition selected_identity :: "('a \<Rightarrow> 'i) \<Rightarrow> int \<Rightarrow> 'a list \<Rightarrow> 'i option" where
  "selected_identity identity row xs = (if row_ok row xs then Some (identity (xs ! nat row)) else None)"

definition new_row :: "('a \<Rightarrow> 'i) \<Rightarrow> 'i option \<Rightarrow> int \<Rightarrow> 'a list \<Rightarrow> int" where
  "new_row identity old first xs = (case old of
     None \<Rightarrow> if xs = [] then -1 else first
   | Some i \<Rightarrow> last_index (\<lambda>x. identity x = i) 0 xs (-1))"

text \<open>\<open>stable_sort\<close> by being an owner.\<close>

definition owners_first :: "parameter_info list \<Rightarrow> parameter_info list" where
  "owners_first ps = filter (\<lambda>p. pi_role p = ''OWNER'') ps @ filter (\<lambda>p. pi_role p \<noteq> ''OWNER'') ps"

definition overview_texts :: "application_info \<Rightarrow> element_info list \<Rightarrow> topic_info list \<Rightarrow> parameter_info list \<Rightarrow> string list" where
  "overview_texts a es ts ps = [ai_name a, ai_state a, to_string_nat (length es),
     to_string_nat (length (filter (\<lambda>e. el_state e = ''RUNNING'') es)),
     to_string_nat (length (filter (\<lambda>e. el_state e = ''ERROR'' \<or> el_runtime_error e \<noteq> 0) es)),
     to_string_nat (length ts), to_string_nat (length ps)]"

text \<open>The pages show what is selected now.\<close>

definition show_pages :: "'s window_backend \<Rightarrow> (int \<Rightarrow> string) \<Rightarrow> (double \<Rightarrow> string) \<Rightarrow> 's \<times> main_window \<Rightarrow> ('s \<times> main_window) result" where
  "show_pages b strerror fixed sw = (case sw of (s, w) \<Rightarrow>
     let w = ShowElement w
     in res_bind (ShowTopic b strerror fixed (busy w) (s, mw_echo w)) (\<lambda>(s, e). let w = w\<lparr>mw_echo := e\<rparr>
     in res_bind (ShowParameter b strerror (busy w) (s, mw_parameter w)) (\<lambda>(s, p). Inr (s, w\<lparr>mw_parameter := p\<rparr>))))"

text \<open>The lists and rows of the three pages, before they are shown.\<close>

definition set_lists :: "topic_info list \<Rightarrow> int \<Rightarrow> parameter_info list \<Rightarrow> int \<Rightarrow> main_window \<Rightarrow> main_window" where
  "set_lists ts topic ps parameter w =
     w\<lparr>mw_echo := (mw_echo w)\<lparr>ep_topics := ts, ep_list := topic\<rparr>, mw_parameter := reload_parameters ps parameter (mw_parameter w)\<rparr>"

definition refresh_failed :: "'s window_backend \<Rightarrow> (int \<Rightarrow> string) \<Rightarrow> (double \<Rightarrow> string) \<Rightarrow> string \<Rightarrow> 's \<times> main_window \<Rightarrow> ('s \<times> main_window) result" where
  "refresh_failed b strerror fixed reason sw = (case sw of (s, w) \<Rightarrow>
     let w = set_lists [] (-1) [] (-1) (w\<lparr>mw_applications := [], mw_elements := [], mw_element := -1, mw_overview := blank_fields,
           mw_heading := mw_connection w\<rparr>)
     in res_bind (show_pages b strerror fixed (s, w)) (\<lambda>(s, w).
        res_bind (ShowService b strerror (s, (mw_service w)\<lparr>sv_services := [], sv_list := -1\<rparr>)) (\<lambda>(s, v).
        Inr (s, (UpdateExplorer b s (w\<lparr>mw_service := v\<rparr>))\<lparr>mw_refreshed := True, mw_message := ''Last refresh: '' @ reason\<rparr>))))"

definition refresh_loaded :: "'s window_backend \<Rightarrow> (int \<Rightarrow> string) \<Rightarrow> (double \<Rightarrow> string) \<Rightarrow> runtime_identity option \<Rightarrow> endpoint_identity option
    \<Rightarrow> endpoint_identity option \<Rightarrow> 's \<times> main_window \<Rightarrow> ('s \<times> main_window) result" where
  "refresh_loaded b strerror fixed old_element old_topic old_parameter sw = (case sw of (s, w) \<Rightarrow>
     let a = wb_GetApplicationInfo b s; es = wb_GetElements b s; ts = wb_GetTopics b s; ps = owners_first (wb_GetParameters b s);
         first = (if mw_refreshed w then -1 else 0);
         w = w\<lparr>mw_applications := wb_GetApplications b s, mw_elements := es, mw_heading := ai_name a @ ''  '' @ ai_state a,
           mw_overview := overview_texts a es ts ps, mw_element := new_row el_identity old_element (-1) es\<rparr>;
         w = set_lists ts (new_row ti_identity old_topic first ts) ps (new_row pi_identity old_parameter first ps) w
     in res_bind (show_pages b strerror fixed (s, w)) (\<lambda>(s, w).
        res_bind (UpdateServices b strerror (mw_refreshed w) (s, mw_service w)) (\<lambda>(s, v).
        Inr (s, (ShowElement (UpdateExplorer b s (w\<lparr>mw_service := v\<rparr>)))\<lparr>mw_refreshed := True, mw_message := ''Last refresh: OK''\<rparr>))))"

definition Refresh :: "'s window_backend \<Rightarrow> (int \<Rightarrow> string) \<Rightarrow> (double \<Rightarrow> string) \<Rightarrow> 's \<times> main_window \<Rightarrow> ('s \<times> main_window) result" where
  "Refresh b strerror fixed sw = (case sw of (s, w) \<Rightarrow>
     if busy w then Inr (s, w)
     else if edited w then Inr (s, w\<lparr>mw_message := ''Unsaved parameter edits: Apply or Revert before Refresh.''\<rparr>)
     else let old_element = selected_identity el_identity (mw_element w) (mw_elements w);
              old_parameter = selected_identity pi_identity (pp_row (mw_parameter w)) (pp_parameters (mw_parameter w));
              old_topic = selected_identity ti_identity (ep_list (mw_echo w)) (ep_topics (mw_echo w))
          in case StopEcho b fixed (s, mw_echo w) of (s, e) \<Rightarrow>
             case wb_Refresh b s of (r, s) \<Rightarrow>
             let connection = wb_GetConnectionState b s;
                 w = w\<lparr>mw_echo := e\<lparr>ep_requires_refresh := False\<rparr>, mw_connection := connection_text connection\<rparr>
             in on_result r
               (\<lambda>_. if connection \<noteq> CONNECTED then refresh_failed b strerror fixed ''Backend unavailable'' (s, w)
                  else refresh_loaded b strerror fixed old_element old_topic old_parameter (s, w))
               (\<lambda>c. refresh_failed b strerror fixed (ErrorText strerror c) (s, w)))"

section \<open>Navigation\<close>

text \<open>A list emits a change only when its row changes.\<close>

definition choose_topic :: "'s window_backend \<Rightarrow> (int \<Rightarrow> string) \<Rightarrow> (double \<Rightarrow> string) \<Rightarrow> int \<Rightarrow> 's \<times> main_window \<Rightarrow> ('s \<times> main_window) result" where
  "choose_topic b strerror fixed row sw = (case sw of (s, w) \<Rightarrow>
     if row = ep_list (mw_echo w) then Inr (s, w)
     else res_bind (ShowTopic b strerror fixed (busy w) (s, (mw_echo w)\<lparr>ep_list := row\<rparr>)) (\<lambda>(s, e). Inr (s, w\<lparr>mw_echo := e\<rparr>)))"

definition choose_parameter :: "'s window_backend \<Rightarrow> (int \<Rightarrow> string) \<Rightarrow> int \<Rightarrow> 's \<times> main_window \<Rightarrow> ('s \<times> main_window) result" where
  "choose_parameter b strerror row sw = (case sw of (s, w) \<Rightarrow>
     if row = pp_list (mw_parameter w) then Inr (s, w)
     else res_bind (ShowParameter b strerror (busy w) (s, (mw_parameter w)\<lparr>pp_list := row\<rparr>)) (\<lambda>(s, p). Inr (s, w\<lparr>mw_parameter := p\<rparr>)))"

definition choose_service :: "'s window_backend \<Rightarrow> (int \<Rightarrow> string) \<Rightarrow> int \<Rightarrow> 's \<times> main_window \<Rightarrow> ('s \<times> main_window) result" where
  "choose_service b strerror row sw = (case sw of (s, w) \<Rightarrow>
     if row = sv_list (mw_service w) then Inr (s, w)
     else res_bind (ShowService b strerror (s, (mw_service w)\<lparr>sv_list := row\<rparr>)) (\<lambda>(s, v). Inr (s, w\<lparr>mw_service := v\<rparr>)))"

definition choose_element :: "int \<Rightarrow> main_window \<Rightarrow> main_window" where
  "choose_element row w = (if row = mw_element w then w else ShowElement (w\<lparr>mw_element := row\<rparr>))"

definition unsaved :: "main_window \<Rightarrow> main_window" where
  "unsaved w = w\<lparr>mw_message := ''Unsaved parameter edits: Apply or Revert before navigating.''\<rparr>"

text \<open>The first match of an identity, as the two callbacks of the graph look for it.\<close>

fun first_index :: "('a \<Rightarrow> bool) \<Rightarrow> nat \<Rightarrow> 'a list \<Rightarrow> nat option" where
  "first_index P i [] = None"
| "first_index P i (x # xs) = (if P x then Some i else first_index P (Suc i) xs)"

definition open_element :: "runtime_identity \<Rightarrow> main_window \<Rightarrow> main_window" where
  "open_element i w =
     (if busy w then w else if edited w then unsaved w
      else case first_index (\<lambda>e. runtime_identity_eq (el_identity e) i) 0 (mw_elements w) of
          None \<Rightarrow> w\<lparr>mw_message := ''Element is no longer discovered. Refresh Graph.''\<rparr>
        | Some row \<Rightarrow> (choose_element (int row) w)\<lparr>mw_tab := 1\<rparr>)"

definition open_topic :: "'s window_backend \<Rightarrow> (int \<Rightarrow> string) \<Rightarrow> (double \<Rightarrow> string) \<Rightarrow> endpoint_identity \<Rightarrow> 's \<times> main_window \<Rightarrow> ('s \<times> main_window) result" where
  "open_topic b strerror fixed i sw = (case sw of (s, w) \<Rightarrow>
     if busy w then Inr (s, w) else if edited w then Inr (s, unsaved w)
     else case first_index (\<lambda>t. endpoint_identity_eq (ti_identity t) i) 0 (ep_topics (mw_echo w)) of
         None \<Rightarrow> Inr (s, w\<lparr>mw_message := ''Topic endpoint is no longer discovered. Refresh Graph.''\<rparr>)
       | Some row \<Rightarrow> res_bind (choose_topic b strerror fixed (int row) (s, w)) (\<lambda>(s, w). Inr (s, w\<lparr>mw_tab := 2\<rparr>)))"

text \<open>\<open>setCurrentRow\<close>: a row the list does not have selects nothing.\<close>

definition set_row :: "nat \<Rightarrow> 'a list \<Rightarrow> int" where
  "set_row i xs = (if i < length xs then int i else -1)"

definition OpenElementEndpoint :: "'s window_backend \<Rightarrow> (int \<Rightarrow> string) \<Rightarrow> (double \<Rightarrow> string) \<Rightarrow> endpoint_row \<Rightarrow> 's \<times> main_window \<Rightarrow> ('s \<times> main_window) result" where
  "OpenElementEndpoint b strerror fixed item sw = (case sw of (s, w) \<Rightarrow>
     if busy w then Inr (s, w) else if edited w then Inr (s, unsaved w)
     else let i = er_index item
          in res_bind (if er_tab item = 2 then choose_topic b strerror fixed (set_row i (ep_topics (mw_echo w))) (s, w)
               else if er_tab item = 3 then choose_parameter b strerror (set_row i (pp_parameters (mw_parameter w))) (s, w)
               else choose_service b strerror (set_row i (sv_services (mw_service w))) (s, w))
             (\<lambda>(s, w). Inr (s, w\<lparr>mw_tab := er_tab item\<rparr>)))"

text \<open>Whether the window closes; the remote workspace may still object.\<close>

definition closeEvent :: "'s window_backend \<Rightarrow> (double \<Rightarrow> string) \<Rightarrow> bool \<Rightarrow> 's \<times> main_window \<Rightarrow> bool \<times> 's \<times> main_window" where
  "closeEvent b fixed remote_ready sw = (case sw of (s, w) \<Rightarrow>
     if busy w then (False, s, w\<lparr>mw_message := ''Service call in progress. Close after it finishes.''\<rparr>)
     else if edited w then (False, s, w\<lparr>mw_message := ''Unsaved parameter edits: Apply or Revert before closing.''\<rparr>)
     else case StopEcho b fixed (s, mw_echo w) of (s, e) \<Rightarrow> (remote_ready, s, w\<lparr>mw_echo := e\<rparr>))"

section \<open>What can happen\<close>

text \<open>
  The events of the window. A row that is chosen is one of its list; an item of the element page is one of
  those it shows. \<open>Service_finished\<close> is the end of the thread, with the call it made.
\<close>

datatype window_event =
  Refresh_clicked
| Element_row int
| Topic_row int
| Parameter_event panel_event
| Echo_start int
| Echo_stop
| Echo_timer int
| Service_row int
| Service_input nat string
| Service_call
| Service_finished
| Endpoint_activated nat nat
| Graph_element runtime_identity
| Graph_topic endpoint_identity
| Close_clicked bool

definition on_parameter :: "main_window \<Rightarrow> ('s \<times> parameter_panel) result \<Rightarrow> ('s \<times> main_window) result" where
  "on_parameter w r = res_bind r (\<lambda>(s, p). Inr (s, w\<lparr>mw_parameter := p\<rparr>))"

definition on_echo :: "main_window \<Rightarrow> ('s \<times> echo_panel) result \<Rightarrow> ('s \<times> main_window) result" where
  "on_echo w r = res_bind r (\<lambda>(s, e). Inr (s, w\<lparr>mw_echo := e\<rparr>))"

definition main_step :: "'s window_backend \<Rightarrow> (int \<Rightarrow> string) \<Rightarrow> (double \<Rightarrow> string) \<Rightarrow> window_event \<Rightarrow> 's \<times> main_window \<Rightarrow> ('s \<times> main_window) result" where
  "main_step b strerror fixed ev sw = (case sw of (s, w) \<Rightarrow> case ev of
     Refresh_clicked \<Rightarrow> Refresh b strerror fixed (s, w)
   | Element_row row \<Rightarrow> if list_row row (mw_elements w) \<and> \<not> busy w then Inr (s, choose_element row w) else Inr (s, w)
   | Topic_row row \<Rightarrow> if topic_row row (ep_topics (mw_echo w)) \<and> \<not> busy w then choose_topic b strerror fixed row (s, w) else Inr (s, w)
   | Parameter_event e \<Rightarrow> (case e of
         Reload ps row \<Rightarrow> Inr (s, w)
       | _ \<Rightarrow> on_parameter w (panel_step b strerror (busy w) e (s, mw_parameter w)))
   | Echo_start now \<Rightarrow> on_echo w (StartEcho b strerror fixed now (busy w) (s, mw_echo w))
   | Echo_stop \<Rightarrow> if busy w then Inr (s, w) else on_echo w (Inr (StopEcho b fixed (s, mw_echo w)))
   | Echo_timer now \<Rightarrow> on_echo w (PollEcho b strerror fixed now (busy w) (s, mw_echo w))
   | Service_row row \<Rightarrow> if list_row row (sv_services (mw_service w)) then choose_service b strerror row (s, w) else Inr (s, w)
   | Service_input r t \<Rightarrow> if busy w then Inr (s, w)
       else Inr (s, w\<lparr>mw_service := (mw_service w)\<lparr>sv_inputs := (sv_inputs (mw_service w))[r := t]\<rparr>\<rparr>)
   | Service_call \<Rightarrow> res_bind (CallService b strerror fixed (s, mw_echo w, mw_service w)) (\<lambda>(s, e, v).
       Inr (s, w\<lparr>mw_echo := e, mw_service := v\<rparr>))
   | Service_finished \<Rightarrow> res_bind (worker_finishes b strerror (s, mw_service w)) (\<lambda>(s, v). Inr (s, w\<lparr>mw_service := v\<rparr>))
   | Endpoint_activated g i \<Rightarrow> if g < length (mw_element_rows w) \<and> i < length (mw_element_rows w ! g)
       then OpenElementEndpoint b strerror fixed (mw_element_rows w ! g ! i) (s, w) else Inr (s, w)
   | Graph_element i \<Rightarrow> Inr (s, open_element i w)
   | Graph_topic i \<Rightarrow> open_topic b strerror fixed i (s, w)
   | Close_clicked ready \<Rightarrow> Inr (snd (closeEvent b fixed ready (s, w))))"

end
