(* ===== verification/WindowProps.thy ===== *)
theory WindowProps
  imports MainWindow ParameterProps EchoProps
begin

text \<open>
  What the window as a whole promises: no sequence of events breaks a page or touches memory it should not,
  nobody but the service thread uses the backend while a call runs, and a refresh keeps what was selected.
\<close>

section \<open>The backend\<close>

text \<open>The contract of the window: no undefined behaviour, and only the echo operations touch the echo session.\<close>

locale window_contract = echo_page b session for b :: "'s window_backend" and session +
  assumes parameters_defined: "backend_defined b"
    and services_defined: "services_defined b"
    and refresh_defined: "fst (wb_Refresh b s) \<noteq> Inl Undefined"
    and other_sessions: "session (snd (wb_GetParameter b s i)) = session s" "session (snd (wb_ValidateParameter b s i v)) = session s"
      "session (snd (wb_SetParameter b s i v)) = session s" "session (snd (wb_GetTypeTemplate b s r t)) = session s"
      "session (snd (wb_ValidateService b s i v)) = session s" "session (snd (wb_CallService b s i v ms n)) = session s"

definition window_ok :: "('s \<Rightarrow> endpoint_identity option) \<Rightarrow> 's \<times> main_window \<Rightarrow> bool" where
  "window_ok session sw \<longleftrightarrow> panel_inv (mw_parameter (snd sw)) \<and> page_ok session (fst sw, mw_echo (snd sw))
     \<and> service_inv (mw_service (snd sw)) \<and> list_row (mw_element (snd sw)) (mw_elements (snd sw))
     \<and> (busy (snd sw) \<longrightarrow> \<not> ep_timer (mw_echo (snd sw)))"

definition window_returns :: "('s \<Rightarrow> endpoint_identity option) \<Rightarrow> ('s \<times> main_window) result \<Rightarrow> bool" where
  "window_returns session r \<longleftrightarrow> (\<exists>sw. r = Inr sw \<and> window_ok session sw)"

lemma window_returns_Inr [simp]: "window_returns session (Inr sw) = window_ok session sw"
  by (simp add: window_returns_def)

section \<open>Sessions are kept\<close>

text \<open>What a handler establishes of the state and panel it returns with.\<close>

definition yields :: "('s \<Rightarrow> 'p \<Rightarrow> bool) \<Rightarrow> ('s \<times> 'p) result \<Rightarrow> bool" where
  "yields Q r \<longleftrightarrow> (\<forall>s x. r = Inr (s, x) \<longrightarrow> Q s x)"

abbreviation keeps :: "('s \<Rightarrow> endpoint_identity option) \<Rightarrow> endpoint_identity option \<Rightarrow> ('s \<times> 'p) result \<Rightarrow> bool" where
  "keeps session e \<equiv> yields (\<lambda>s x. session s = e)"

named_theorems yields_intros \<open>rules that establish \<open>yields\<close>\<close>

lemma yields_leaf [yields_intros]: "Q s x \<Longrightarrow> yields Q (Inr (s, x))" "yields Q (Inl u)"
  by (simp_all add: yields_def)

lemma yieldsD: "yields Q r \<Longrightarrow> r = Inr (s, x) \<Longrightarrow> Q s x"
  by (simp add: yields_def)

lemma yields_weaken: "yields Q r \<Longrightarrow> (\<And>s x. Q s x \<Longrightarrow> R s x) \<Longrightarrow> yields R r"
  by (simp add: yields_def)

lemma yields_on_result [yields_intros]:
  "(\<And>v. yields Q (f v)) \<Longrightarrow> (\<And>c. yields Q (g c)) \<Longrightarrow> yields Q (on_result r f g)"
  by (cases r rule: on_result_cases) (simp_all add: yields_def)

lemma yields_bind [yields_intros]: "(\<And>x. yields Q (f x)) \<Longrightarrow> yields Q (res_bind m f)"
  by (cases m) (simp_all add: yields_def)

lemma yields_if [yields_intros]: "(c \<Longrightarrow> yields Q m) \<Longrightarrow> (\<not> c \<Longrightarrow> yields Q n) \<Longrightarrow> yields Q (if c then m else n)"
  by simp

lemma yields_option [yields_intros]: "yields Q m \<Longrightarrow> (\<And>x. yields Q (f x)) \<Longrightarrow> yields Q (case y of None \<Rightarrow> m | Some x \<Rightarrow> f x)"
  by (cases y) simp_all

lemma yields_call: "(\<And>r s'. yields Q (f r s')) \<Longrightarrow> yields Q (case x of (r, s') \<Rightarrow> f r s')"
  by (cases x) simp

lemma keeps_call: "session (snd x) = session s \<Longrightarrow> session s = e \<Longrightarrow> (\<And>r s'. session s' = e \<Longrightarrow> keeps session e (f r s')) \<Longrightarrow>
    keeps session e (case x of (r, s') \<Rightarrow> f r s')"
  by (cases x) simp

lemma first_index_Some: "first_index P i xs = Some r \<Longrightarrow> i \<le> r \<and> r < i + length xs \<and> P (xs ! (r - i))"
proof (induction xs arbitrary: i)
  case (Cons x xs)
  show ?case
  proof (cases "P x")
    case False
    with Cons.prems have "first_index P (Suc i) xs = Some r" by simp
    from Cons.IH[OF this] show ?thesis by (auto simp: nth_Cons')
  qed (use Cons.prems in simp)
qed simp

lemma list_row_nth: "list_row (int r) xs \<longleftrightarrow> r < length xs" "list_row (set_row i xs) xs"
  by (auto simp: list_row_def set_row_def)

text \<open>The call that runs and those that were made.\<close>

definition job_of :: "service_panel \<Rightarrow> bool \<times> (endpoint_identity \<times> data_snapshot) option \<times> (endpoint_identity \<times> data_snapshot) list" where
  "job_of p = (sv_busy p, sv_worker p, sv_sent p)"

lemma ShowService_job: "yields (\<lambda>s v. job_of v = job_of p) (ShowService b strerror (s, p))"
  unfolding ShowService_def prod.case Let_def
  by (intro yields_intros yields_call) (simp_all add: blank_service_def service_form_def job_of_def)

lemma ShowService_busy: "yields (\<lambda>s v. sv_busy v = sv_busy p) (ShowService b strerror (s, p))"
  by (rule yields_weaken[OF ShowService_job]) (simp add: job_of_def)

lemma ShowElement_fields [simp]:
  "mw_parameter (ShowElement w) = mw_parameter w" "mw_echo (ShowElement w) = mw_echo w" "mw_service (ShowElement w) = mw_service w"
  "mw_elements (ShowElement w) = mw_elements w" "mw_element (ShowElement w) = mw_element w" "mw_refreshed (ShowElement w) = mw_refreshed w"
  by (simp_all add: ShowElement_def Let_def split: option.split)

lemma yields_seq: "yields Q r \<Longrightarrow> (\<And>s x. Q s x \<Longrightarrow> yields R (f s x)) \<Longrightarrow> yields R (res_bind r (\<lambda>(s, x). f s x))"
  by (auto simp: yields_def res_bind_def split: sum.splits)

lemma yields_leaf2: "(\<And>s p. Q s (f p)) \<Longrightarrow> yields Q (case x of (s, p) \<Rightarrow> Inr (s, f p))"
  by (cases x) (simp add: yields_def)

lemma show_pages_fields:
  "yields (\<lambda>s w'. mw_service w' = mw_service w \<and> mw_refreshed w' = mw_refreshed w) (show_pages b strerror fixed (s, w))"
  unfolding show_pages_def prod.case Let_def
  by (intro yields_bind yields_call yields_leaf2) simp

lemma UpdateServices_job: "yields (\<lambda>s v. job_of v = job_of p) (UpdateServices b strerror refreshed (s, p))"
proof -
  have "yields (\<lambda>s v. job_of v = job_of p) (ShowService b strerror (s, p\<lparr>sv_services := services, sv_list := row\<rparr>))" for services row
    using ShowService_job[where p = "p\<lparr>sv_services := services, sv_list := row\<rparr>"] by (simp add: job_of_def)
  then show ?thesis unfolding UpdateServices_def prod.case Let_def .
qed

lemma UpdateServices_busy: "yields (\<lambda>s v. sv_busy v = sv_busy p) (UpdateServices b strerror refreshed (s, p))"
  by (rule yields_weaken[OF UpdateServices_job]) (simp add: job_of_def)

context window_contract
begin

lemma keeps_reads:
  assumes "session s = e" and "\<And>r s'. session s' = e \<Longrightarrow> keeps session e (f r s')"
  shows "keeps session e (case wb_GetParameter b s i of (r, s') \<Rightarrow> f r s')"
    "keeps session e (case wb_GetTypeTemplate b s r t of (r, s') \<Rightarrow> f r s')"
    "keeps session e (case wb_CallService b s i v ms n of (r, s') \<Rightarrow> f r s')"
  by (rule keeps_call[where s = s], simp_all add: other_sessions assms)+

lemma keeps_checks:
  assumes "session s = e" and "\<And>r s'. session s' = e \<Longrightarrow> keeps session e (f r s')"
  shows "keeps session e (case wb_ValidateParameter b s i v of (r, s') \<Rightarrow> f r s')"
    "keeps session e (case wb_SetParameter b s i v of (r, s') \<Rightarrow> f r s')"
    "keeps session e (case wb_ValidateService b s i v of (r, s') \<Rightarrow> f r s')"
  by (rule keeps_call[where s = s], simp_all add: other_sessions assms)+

lemma keeps_refresh_value: "session s = e \<Longrightarrow> keeps session e (RefreshParameterValue b strerror z (s, p))"
  unfolding RefreshParameterValue_def prod.case
  by (intro yields_intros keeps_reads keeps_checks) simp_all

lemma keeps_show_parameter: "session s = e \<Longrightarrow> keeps session e (ShowParameter b strerror z (s, p))"
  unfolding ShowParameter_def prod.case Let_def by (intro yields_intros keeps_refresh_value) simp_all

lemma keeps_write: "session s = e \<Longrightarrow> keeps session e (write_and_read b strerror i v (s, p))"
  unfolding write_and_read_def prod.case Let_def
  by (intro yields_intros keeps_reads keeps_checks) simp_all

lemma keeps_apply: "session s = e \<Longrightarrow> keeps session e (ApplyParameter b strerror z (s, p))"
  unfolding ApplyParameter_def prod.case Let_def
  by (intro yields_intros keeps_reads keeps_checks keeps_write) simp_all

lemma keeps_panel: "session s = e \<Longrightarrow> keeps session e (panel_step b strerror z ev (s, p))"
  unfolding panel_step_def prod.case
  by (cases ev) (auto intro!: yields_intros keeps_show_parameter keeps_apply keeps_refresh_value)

lemma keeps_show_service: "session s = e \<Longrightarrow> keeps session e (ShowService b strerror (s, v))"
  unfolding ShowService_def prod.case Let_def
  by (intro yields_intros keeps_reads keeps_checks) simp_all

lemma keeps_update_services: "session s = e \<Longrightarrow> keeps session e (UpdateServices b strerror refreshed (s, v))"
  unfolding UpdateServices_def prod.case Let_def by (rule keeps_show_service)

lemma keeps_worker: "session s = e \<Longrightarrow> keeps session e (worker_finishes b strerror (s, v))"
  unfolding worker_finishes_def prod.case
  by (cases "sv_worker v") (auto intro!: yields_intros keeps_reads keeps_checks)

section \<open>Every event returns\<close>

lemma page_ok_session: "page_ok session (s, e) \<Longrightarrow> session s' = session s \<Longrightarrow> page_ok session (s', e)"
  by (simp add: page_ok_def agrees_def)

lemma parameter_event:
  assumes "window_ok session (s, w)" and "returns_inv r" and "keeps session (session s) r"
  shows "window_returns session (on_parameter w r)"
  using assms by (auto simp: on_parameter_def window_ok_def returns_inv_def yields_def intro: page_ok_session)

lemma echo_event:
  assumes "window_ok session (s, w)" and "page_returns session r" and "\<And>s' e'. r = Inr (s', e') \<Longrightarrow> busy w \<Longrightarrow> \<not> ep_timer e'"
  shows "window_returns session (on_echo w r)"
  using assms by (cases r) (auto simp: on_echo_def window_ok_def page_returns_def)

lemma service_event:
  assumes "window_ok session (s, w)" and "service_returns r" and "keeps session (session s) r"
    and "\<And>s' v'. r = Inr (s', v') \<Longrightarrow> sv_busy v' \<Longrightarrow> sv_busy (mw_service w)"
  shows "window_returns session (res_bind r (\<lambda>(s, v). Inr (s, w\<lparr>mw_service := v\<rparr>)))"
  using assms by (auto simp: window_ok_def service_returns_def yields_def intro: page_ok_session)

lemma ShowElement_ok [simp]: "window_ok session (s, ShowElement w) = window_ok session (s, w)"
  by (simp add: window_ok_def)

lemma display_ok [simp]: "window_ok session (s, w\<lparr>mw_tab := t\<rparr>) = window_ok session (s, w)"
  "window_ok session (s, w\<lparr>mw_message := m\<rparr>) = window_ok session (s, w)" "window_ok session (s, w\<lparr>mw_refreshed := r\<rparr>) = window_ok session (s, w)"
  "window_ok session (s, UpdateExplorer b s w) = window_ok session (s, w)"
  by (simp_all add: window_ok_def UpdateExplorer_def)

lemma list_row_topic: "list_row = topic_row"
  by (simp add: fun_eq_iff list_row_def topic_row_def)

lemma choose_topic_ok:
  assumes "window_ok session (s, w)" and "list_row row (ep_topics (mw_echo w))" and "\<not> busy w"
  shows "window_returns session (choose_topic b strerror fixed row (s, w))"
proof (cases "row = ep_list (mw_echo w)")
  case False
  have "page_returns session (ShowTopic b strerror fixed False (s, (mw_echo w)\<lparr>ep_list := row\<rparr>))"
    by (rule Show_ok) (use assms(2) in \<open>simp add: list_row_topic\<close>)
  with echo_event[OF assms(1) this] assms(3) False show ?thesis by (simp add: choose_topic_def on_echo_def)
qed (use assms in \<open>simp add: choose_topic_def\<close>)

lemma choose_parameter_ok:
  assumes "window_ok session (s, w)" and "list_row row (pp_parameters (mw_parameter w))" and "\<not> busy w"
  shows "window_returns session (choose_parameter b strerror row (s, w))"
proof (cases "row = pp_list (mw_parameter w)")
  case False
  have "panel_inv (mw_parameter w)" using assms(1) by (simp add: window_ok_def)
  then have "returns_inv (ShowParameter b strerror False (s, (mw_parameter w)\<lparr>pp_list := row\<rparr>))"
    by (intro Show_inv parameters_defined) (use assms(2) in \<open>auto simp: panel_inv_def shown_texts_def\<close>)
  with parameter_event[OF assms(1) this keeps_show_parameter] assms(3) False show ?thesis
    by (simp add: choose_parameter_def on_parameter_def)
qed (use assms in \<open>simp add: choose_parameter_def\<close>)

lemma ShowService_ok:
  assumes "service_inv (p\<lparr>sv_list := sv_row p\<rparr>)" and "list_row (sv_list p) (sv_services p)"
  shows "service_returns (ShowService b strerror (s, p))"
proof (cases "sv_busy p")
  case False
  then have "sv_worker p = None" using assms(1) by (cases "sv_worker p") (auto simp: service_inv_def)
  with False assms(2) ShowService_returns[OF services_defined] show ?thesis by (simp add: list_row_def)
qed (use assms in \<open>simp add: ShowService_def\<close>)

lemma service_list_inv: "service_inv p \<Longrightarrow> service_inv (p\<lparr>sv_list := sv_row p\<rparr>)"
  by (auto simp: service_inv_def)

lemma choose_service_ok:
  assumes "window_ok session (s, w)" and "list_row row (sv_services (mw_service w))"
  shows "window_returns session (choose_service b strerror row (s, w))"
proof (cases "row = sv_list (mw_service w)")
  case False
  let ?p = "(mw_service w)\<lparr>sv_list := row\<rparr>"
  have "service_inv (mw_service w)" using assms(1) by (simp add: window_ok_def)
  then have "service_returns (ShowService b strerror (s, ?p))"
    by (intro ShowService_ok) (use assms(2) in \<open>auto simp: service_inv_def\<close>)
  moreover have "sv_busy v' \<Longrightarrow> sv_busy (mw_service w)" if "ShowService b strerror (s, ?p) = Inr (s', v')" for s' v'
    using yieldsD[OF ShowService_busy that] by simp
  moreover have "keeps session (session s) (ShowService b strerror (s, ?p))" by (rule keeps_show_service) simp
  ultimately show ?thesis
    using service_event[OF assms(1)] False by (simp add: choose_service_def)
qed (use assms in \<open>simp add: choose_service_def\<close>)

lemma CallService_ok:
  assumes "window_ok session (s, w)"
  shows "window_returns session (res_bind (CallService b strerror fixed (s, mw_echo w, mw_service w)) (\<lambda>(s, e, v).
     Inr (s, w\<lparr>mw_echo := e, mw_service := v\<rparr>)))"
proof (cases "sv_busy (mw_service w) \<or> \<not> sv_call (mw_service w) \<or> sv_row (mw_service w) < 0")
  case False
  let ?p = "mw_service w"
  have inv: "service_inv ?p" and page: "page_ok session (s, mw_echo w)" using assms by (simp_all add: window_ok_def)
  define q where "q = sv_services ?p ! nat (sv_row ?p)"
  have q: "nth_res (sv_services ?p) (nat (sv_row ?p)) = Inr q" using inv False by (auto simp: service_inv_def nth_res_def q_def)
  obtain request where req: "EditedFields (sv_template ?p) (sv_inputs ?p) (sv_rows ?p) = Inr request"
    using EditedFields_returns inv unfolding service_inv_def by metis
  obtain r s1 where r: "wb_ValidateService b s (si_identity q) request = (r, s1)" by fastforce
  have d: "r \<noteq> Inl Undefined" using services_defined r unfolding services_defined_def by (metis fst_conv)
  have page1: "page_ok session (s1, mw_echo w)" using page_ok_session[OF page] other_sessions(5)[of s "si_identity q" request] r by simp
  obtain s2 e2 where stop: "StopEcho b fixed (s1, mw_echo w) = (s2, e2)" by fastforce
  have "page_ok session (s2, e2)" "\<not> ep_timer e2" using Stop_ok[OF page1, of fixed] Stop_closed[OF stop] stop by simp_all
  with False q req r d assms page1 inv stop show ?thesis
    by (cases r rule: on_result_cases) (auto simp: CallService_def Let_def window_ok_def service_inv_def)
qed (use assms in \<open>auto simp: CallService_def\<close>)

subsection \<open>Refresh\<close>

text \<open>The window with new lists, before its pages are shown.\<close>

definition loaded :: "main_window \<Rightarrow> bool" where
  "loaded w \<longleftrightarrow> list_row (ep_list (mw_echo w)) (ep_topics (mw_echo w)) \<and> list_row (pp_list (mw_parameter w)) (pp_parameters (mw_parameter w))
     \<and> \<not> edited w \<and> \<not> busy w \<and> service_inv (mw_service w) \<and> list_row (mw_element w) (mw_elements w)"

lemma loaded_ShowElement [simp]: "loaded (ShowElement w) = loaded w"
  by (simp add: loaded_def)

lemma show_pages_ok:
  assumes "loaded w"
  shows "window_returns session (show_pages b strerror fixed (s, w))"
proof -
  let ?w = "ShowElement w"
  have w: "loaded ?w" using assms by simp
  have "page_returns session (ShowTopic b strerror fixed False (s, mw_echo ?w))"
    by (rule Show_ok) (use w in \<open>simp add: loaded_def list_row_topic\<close>)
  then obtain s1 e1 where e: "ShowTopic b strerror fixed False (s, mw_echo ?w) = Inr (s1, e1)" "page_ok session (s1, e1)"
    by (auto simp: page_returns_def)
  have "returns_inv (ShowParameter b strerror False (s1, mw_parameter ?w))"
    by (rule Show_inv[OF parameters_defined]) (use w in \<open>simp_all add: loaded_def\<close>)
  then obtain s2 p where p: "ShowParameter b strerror False (s1, mw_parameter ?w) = Inr (s2, p)" "panel_inv p"
    by (auto simp: returns_inv_def)
  have "page_ok session (s2, e1)"
    using page_ok_session[OF e(2)] yieldsD[OF keeps_show_parameter p(1)] by simp
  with e(1) p w show ?thesis by (simp add: show_pages_def Let_def loaded_def window_ok_def)
qed

text \<open>The services come last, and the explorer.\<close>

lemma refresh_services:
  assumes "window_returns session (show_pages b strerror fixed (s, w))" and "\<not> busy w"
    and "\<And>s w'. window_ok session (s, w') \<Longrightarrow> \<not> busy w' \<Longrightarrow> mw_refreshed w' = mw_refreshed w \<Longrightarrow> service_returns (f s w') \<and> keeps session (session s) (f s w')
       \<and> yields (\<lambda>s v. \<not> sv_busy v) (f s w')"
    and "\<And>s w' v. window_ok session (s, w'\<lparr>mw_service := v\<rparr>) \<Longrightarrow> window_ok session (s, g s w' v)"
  shows "window_returns session (res_bind (show_pages b strerror fixed (s, w)) (\<lambda>(s, w). res_bind (f s w) (\<lambda>(s, v). Inr (s, g s w v))))"
proof -
  obtain s1 w1 where w1: "show_pages b strerror fixed (s, w) = Inr (s1, w1)" "window_ok session (s1, w1)"
    using assms(1) by (auto simp: window_returns_def)
  have idle: "\<not> busy w1" "mw_refreshed w1 = mw_refreshed w" using yieldsD[OF show_pages_fields w1(1)] assms(2) by simp_all
  obtain s2 v where v: "f s1 w1 = Inr (s2, v)" "service_inv v" "session s2 = session s1" "\<not> sv_busy v"
    using assms(3)[OF w1(2) idle] by (auto simp: service_returns_def yields_def)
  have "window_ok session (s2, w1\<lparr>mw_service := v\<rparr>)"
    using w1(2) v page_ok_session[of s1 "mw_echo w1" s2] by (simp add: window_ok_def)
  from assms(4)[OF this] w1(1) v(1) show ?thesis by simp
qed

lemma refresh_failed_ok:
  assumes "\<not> busy w" and "\<not> edited w" and "service_inv (mw_service w)"
  shows "window_returns session (refresh_failed b strerror fixed reason (s, w))"
  unfolding refresh_failed_def prod.case Let_def
proof (rule refresh_services)
  show "window_returns session (show_pages b strerror fixed (s, set_lists [] (-1) [] (-1)
     (w\<lparr>mw_applications := [], mw_elements := [], mw_element := -1, mw_overview := blank_fields, mw_heading := mw_connection w\<rparr>)))"
    by (rule show_pages_ok) (use assms in \<open>simp add: loaded_def set_lists_def reload_parameters_def list_row_def\<close>)
next
  fix s' w' assume w': "window_ok session (s', w')" "\<not> busy w'"
  let ?p = "(mw_service w')\<lparr>sv_services := [], sv_list := -1\<rparr>"
  have "sv_worker (mw_service w') = None" using w' by (cases "sv_worker (mw_service w')") (auto simp: window_ok_def service_inv_def)
  then have "service_returns (ShowService b strerror (s', ?p))" using w' by (intro ShowService_returns services_defined) simp_all
  moreover have "yields (\<lambda>s v. \<not> sv_busy v) (ShowService b strerror (s', ?p))"
    by (rule yields_weaken[OF ShowService_busy]) (use w'(2) in simp)
  ultimately show "service_returns (ShowService b strerror (s', ?p)) \<and> keeps session (session s') (ShowService b strerror (s', ?p))
       \<and> yields (\<lambda>s v. \<not> sv_busy v) (ShowService b strerror (s', ?p))"
    using keeps_show_service by blast
qed (use assms(1) in \<open>simp_all add: set_lists_def\<close>)

lemma new_row_range: "list_row first xs \<or> xs = [] \<Longrightarrow> list_row (new_row identity old first xs) xs"
  using last_index_range[of "-1" xs] by (auto simp: new_row_def list_row_def split: option.split)

lemma refresh_loaded_ok:
  assumes "\<not> busy w" and "\<not> edited w" and "service_inv (mw_service w)"
  shows "window_returns session (refresh_loaded b strerror fixed old_element old_topic old_parameter (s, w))"
  unfolding refresh_loaded_def prod.case Let_def
proof (rule refresh_services)
  let ?es = "wb_GetElements b s" and ?ts = "wb_GetTopics b s" and ?ps = "owners_first (wb_GetParameters b s)"
  let ?first = "if mw_refreshed w then -1 else 0 :: int"
  have first: "list_row ?first xs \<or> xs = []" for xs :: "'x list" by (cases xs) (simp_all add: list_row_def)
  have rows: "list_row (new_row ti_identity old_topic ?first ?ts) ?ts" "list_row (new_row pi_identity old_parameter ?first ?ps) ?ps"
    by (rule new_row_range, rule first)+
  have row: "list_row (new_row el_identity old_element (-1) ?es) ?es" by (rule new_row_range) (simp add: list_row_def)
  show "window_returns session (show_pages b strerror fixed (s, set_lists ?ts (new_row ti_identity old_topic ?first ?ts) ?ps
     (new_row pi_identity old_parameter ?first ?ps) (w\<lparr>mw_applications := wb_GetApplications b s, mw_elements := ?es,
       mw_heading := ai_name (wb_GetApplicationInfo b s) @ ''  '' @ ai_state (wb_GetApplicationInfo b s),
       mw_overview := overview_texts (wb_GetApplicationInfo b s) ?es ?ts ?ps, mw_element := new_row el_identity old_element (-1) ?es\<rparr>)))"
    by (rule show_pages_ok) (use assms rows row in \<open>simp only: loaded_def set_lists_def reload_parameters_def, simp\<close>)
next
  fix s' w' assume w': "window_ok session (s', w')" "\<not> busy w'"
  have "service_returns (UpdateServices b strerror (mw_refreshed w') (s', mw_service w'))"
    using w' by (intro UpdateServices_returns services_defined) (simp_all add: window_ok_def)
  moreover have "yields (\<lambda>s v. \<not> sv_busy v) (UpdateServices b strerror (mw_refreshed w') (s', mw_service w'))"
    by (rule yields_weaken[OF UpdateServices_busy]) (use w'(2) in simp)
  ultimately show "service_returns (UpdateServices b strerror (mw_refreshed w') (s', mw_service w'))
     \<and> keeps session (session s') (UpdateServices b strerror (mw_refreshed w') (s', mw_service w'))
     \<and> yields (\<lambda>s v. \<not> sv_busy v) (UpdateServices b strerror (mw_refreshed w') (s', mw_service w'))"
    using keeps_update_services by blast
qed (use assms(1) in \<open>simp_all add: set_lists_def\<close>)

lemma Refresh_ok:
  assumes "window_ok session (s, w)"
  shows "window_returns session (Refresh b strerror fixed (s, w))"
proof (cases "busy w \<or> edited w")
  case False
  obtain s1 e1 where stop: "StopEcho b fixed (s, mw_echo w) = (s1, e1)" by fastforce
  obtain r s2 where r: "wb_Refresh b s1 = (r, s2)" by fastforce
  have d: "r \<noteq> Inl Undefined" using refresh_defined r by (metis fst_conv)
  have inv: "service_inv (mw_service w)" using assms by (simp add: window_ok_def)
  show ?thesis
    by (cases r rule: on_result_cases)
      (use False stop r d inv in \<open>auto simp: Refresh_def Let_def intro!: refresh_failed_ok refresh_loaded_ok\<close>)
qed (use assms in \<open>auto simp: Refresh_def\<close>)

subsection \<open>All events\<close>

lemma choose_element_ok: "window_ok session (s, w) \<Longrightarrow> list_row row (mw_elements w) \<Longrightarrow> window_ok session (s, choose_element row w)"
  by (simp add: choose_element_def window_ok_def)

lemma open_element_ok:
  assumes "window_ok session (s, w)"
  shows "window_ok session (s, open_element i w)"
proof (cases "first_index (\<lambda>e. runtime_identity_eq (el_identity e) i) 0 (mw_elements w)")
  case (Some row)
  then have "list_row (int row) (mw_elements w)" by (auto simp: list_row_nth dest: first_index_Some)
  with choose_element_ok[OF assms this] Some assms show ?thesis by (simp add: open_element_def unsaved_def)
qed (use assms in \<open>simp add: open_element_def unsaved_def\<close>)

lemma tab_event: "window_returns session r \<Longrightarrow> window_returns session (res_bind r (\<lambda>(s, w). Inr (s, w\<lparr>mw_tab := t\<rparr>)))"
  by (auto simp: window_returns_def)

lemma open_topic_ok:
  assumes "window_ok session (s, w)"
  shows "window_returns session (open_topic b strerror fixed i (s, w))"
proof (cases "busy w \<or> edited w \<or> first_index (\<lambda>t. endpoint_identity_eq (ti_identity t) i) 0 (ep_topics (mw_echo w)) = None")
  case False
  then obtain row where row: "first_index (\<lambda>t. endpoint_identity_eq (ti_identity t) i) 0 (ep_topics (mw_echo w)) = Some row" by auto
  then have "list_row (int row) (ep_topics (mw_echo w))" by (auto simp: list_row_nth dest: first_index_Some)
  from tab_event[OF choose_topic_ok[OF assms this]] False row show ?thesis by (simp add: open_topic_def)
qed (use assms in \<open>auto simp: open_topic_def unsaved_def\<close>)

lemma OpenElementEndpoint_ok:
  assumes "window_ok session (s, w)"
  shows "window_returns session (OpenElementEndpoint b strerror fixed item (s, w))"
proof (cases "busy w \<or> edited w")
  case False
  then show ?thesis
    by (auto simp: OpenElementEndpoint_def Let_def list_row_nth assms
        intro!: tab_event choose_topic_ok choose_parameter_ok choose_service_ok)
qed (use assms in \<open>auto simp: OpenElementEndpoint_def unsaved_def\<close>)

lemma close_ok: "window_ok session (s, w) \<Longrightarrow> window_ok session (snd (closeEvent b fixed ready (s, w)))"
proof (cases "busy w \<or> edited w")
  case False
  assume w: "window_ok session (s, w)"
  obtain s1 e1 where stop: "StopEcho b fixed (s, mw_echo w) = (s1, e1)" by fastforce
  have "page_ok session (s1, e1)" using Stop_ok[of "(s, mw_echo w)" fixed] stop w by (simp add: window_ok_def)
  with False stop w show ?thesis by (simp add: closeEvent_def window_ok_def)
qed (auto simp: closeEvent_def)

lemma worker_busy: "yields (\<lambda>s v. sv_busy v \<longrightarrow> sv_busy p) (worker_finishes b strerror (s, p))"
proof (cases "sv_worker p")
  case (Some job)
  have "call_finished strerror r q = Inr q' \<Longrightarrow> \<not> sv_busy q'" for r q q'
    by (cases r rule: on_result_cases) (auto simp: call_finished_def Let_def)
  with Some show ?thesis by (auto simp: worker_finishes_def yields_def res_bind_def split: prod.splits sum.splits)
qed (simp add: worker_finishes_def yields_def)

lemma main_step_ok:
  assumes "window_ok session (s, w)"
  shows "window_returns session (main_step b strerror fixed ev (s, w))"
proof (cases ev)
  case Refresh_clicked
  then show ?thesis using Refresh_ok[OF assms] by (simp add: main_step_def)
next
  case (Element_row row)
  then show ?thesis using choose_element_ok[OF assms] assms by (simp add: main_step_def)
next
  case (Topic_row row)
  then show ?thesis using choose_topic_ok[OF assms] assms by (simp add: main_step_def list_row_topic)
next
  case (Parameter_event e)
  have "panel_inv (mw_parameter w)" using assms by (simp add: window_ok_def)
  from parameter_event[OF assms panel_step_inv[OF parameters_defined this] keeps_panel[OF refl]] assms
  show ?thesis unfolding Parameter_event main_step_def by (auto split: panel_event.split)
next
  case (Echo_start now)
  have "page_ok session (s, mw_echo w)" using assms by (simp add: window_ok_def)
  from echo_event[OF assms Start_ok[OF this, of strerror fixed now "busy w"]] assms show ?thesis
    unfolding Echo_start main_step_def by (auto simp: StartEcho_def window_ok_def)
next
  case Echo_stop
  have "page_ok session (s, mw_echo w)" using assms by (simp add: window_ok_def)
  from echo_event[OF assms, of "Inr (StopEcho b fixed (s, mw_echo w))"] Stop_ok[OF this] assms show ?thesis
    unfolding Echo_stop main_step_def by auto
next
  case (Echo_timer now)
  have "page_ok session (s, mw_echo w)" using assms by (simp add: window_ok_def)
  from echo_event[OF assms Poll_ok[OF this, of strerror fixed now "busy w"]] assms show ?thesis
    unfolding Echo_timer main_step_def by (auto simp: PollEcho_def window_ok_def)
next
  case (Service_row row)
  then show ?thesis using choose_service_ok[OF assms] assms by (simp add: main_step_def)
next
  case (Service_input r t)
  then show ?thesis using assms by (auto simp: main_step_def window_ok_def service_inv_def)
next
  case Service_call
  then show ?thesis using CallService_ok[OF assms] by (simp add: main_step_def)
next
  case Service_finished
  have "service_inv (mw_service w)" using assms by (simp add: window_ok_def)
  from service_event[OF assms worker_finishes_returns[OF services_defined this] keeps_worker[OF refl]] worker_busy
  show ?thesis unfolding Service_finished main_step_def yields_def by auto
next
  case (Endpoint_activated g i)
  then show ?thesis using OpenElementEndpoint_ok[OF assms] assms by (simp add: main_step_def)
next
  case (Graph_element i)
  then show ?thesis using open_element_ok[OF assms] by (simp add: main_step_def)
next
  case (Graph_topic i)
  then show ?thesis using open_topic_ok[OF assms] by (simp add: main_step_def)
next
  case (Close_clicked ready)
  then show ?thesis using close_ok[OF assms] by (simp add: main_step_def)
qed

lemma main_steps_ok:
  "window_ok session sw \<Longrightarrow> window_returns session (foldM_res (main_step b strerror fixed) events sw)"
proof (induction events arbitrary: sw)
  case (Cons ev events)
  then obtain sw1 where "main_step b strerror fixed ev sw = Inr sw1" "window_ok session sw1"
    using main_step_ok[of "fst sw" "snd sw" strerror fixed ev] by (auto simp: window_returns_def)
  with Cons.IH show ?case by simp
qed simp

end

section \<open>The service call\<close>

text \<open>Handlers that leave the service page alone.\<close>

definition idle_step :: "main_window \<Rightarrow> ('s \<times> main_window) result \<Rightarrow> bool" where
  "idle_step w r \<longleftrightarrow> yields (\<lambda>s w'. job_of (mw_service w') = job_of (mw_service w)) r"

lemma idle_leaf [simp]: "idle_step w (Inr (s, w')) \<longleftrightarrow> job_of (mw_service w') = job_of (mw_service w)"
  by (simp add: idle_step_def yields_def)

lemma yields_any: "(\<And>s x. Q s (f s x)) \<Longrightarrow> yields Q (res_bind r (\<lambda>(s, x). Inr (s, f s x)))"
  by (cases r) (auto simp: yields_def split: prod.split)

lemma yields_map: "yields (\<lambda>s x. Q s (f s x)) r \<Longrightarrow> yields Q (res_bind r (\<lambda>(s, x). Inr (s, f s x)))"
  by (cases r) (auto simp: yields_def split: prod.split)

lemma idle_on: "idle_step w (on_parameter w r)" "idle_step w (on_echo w r')"
  unfolding idle_step_def on_parameter_def on_echo_def by (rule yields_any, simp)+

lemma idle_tab: "idle_step w r \<Longrightarrow> idle_step w (res_bind r (\<lambda>(s, w). Inr (s, w\<lparr>mw_tab := t\<rparr>)))"
  unfolding idle_step_def by (rule yields_map) simp

lemma idle_if: "idle_step w m \<Longrightarrow> idle_step w n \<Longrightarrow> idle_step w (if c then m else n)"
  by simp

lemma idle_choose:
  "idle_step w (choose_topic b strerror fixed row (s, w))" "idle_step w (choose_parameter b strerror row (s, w))"
  "idle_step w (choose_service b strerror row (s, w))"
proof -
  show "idle_step w (choose_topic b strerror fixed row (s, w))"
    unfolding choose_topic_def prod.case by (rule idle_if, simp, unfold idle_step_def, rule yields_any) simp
  show "idle_step w (choose_parameter b strerror row (s, w))"
    unfolding choose_parameter_def prod.case by (rule idle_if, simp, unfold idle_step_def, rule yields_any) simp
  show "idle_step w (choose_service b strerror row (s, w))"
    unfolding choose_service_def prod.case
    by (rule idle_if, simp, unfold idle_step_def, rule yields_map, rule yields_weaken[OF ShowService_job]) (simp add: job_of_def)
qed

lemma idle_services:
  assumes "mw_service v = mw_service w" and "\<And>s w'. mw_service w' = mw_service w \<Longrightarrow> yields (\<lambda>s v. job_of v = job_of (mw_service w)) (f s w')"
    and "\<And>s w' v. mw_service (g s w' v) = v"
  shows "idle_step w (res_bind (show_pages b strerror fixed (s, v)) (\<lambda>(s, w). res_bind (f s w) (\<lambda>(s, v). Inr (s, g s w v))))"
  unfolding idle_step_def
  by (rule yields_seq[OF show_pages_fields], rule yields_map) (use assms in simp)

lemma idle_on_result: "(\<And>x. idle_step w (f x)) \<Longrightarrow> (\<And>c. idle_step w (g c)) \<Longrightarrow> idle_step w (on_result r f g)"
  unfolding idle_step_def by (rule yields_on_result)

lemma idle_refresh: "idle_step w (Refresh b strerror fixed (s, w))"
proof -
  have failed: "idle_step w (refresh_failed b strerror fixed reason (s, v))" if "mw_service v = mw_service w" for s v reason
    unfolding refresh_failed_def prod.case Let_def
  proof (rule idle_services)
    show "yields (\<lambda>s v. job_of v = job_of (mw_service w)) (ShowService b strerror (s, (mw_service w')\<lparr>sv_services := [], sv_list := -1\<rparr>))"
      if "mw_service w' = mw_service w" for s w'
      by (rule yields_weaken[OF ShowService_job]) (simp add: that job_of_def)
  qed (use that in \<open>simp_all add: set_lists_def UpdateExplorer_def\<close>)
  have loaded: "idle_step w (refresh_loaded b strerror fixed e t p (s, v))" if "mw_service v = mw_service w" for s v e t p
    unfolding refresh_loaded_def prod.case Let_def
  proof (rule idle_services)
    show "yields (\<lambda>s v. job_of v = job_of (mw_service w)) (UpdateServices b strerror (mw_refreshed w') (s, mw_service w'))"
      if "mw_service w' = mw_service w" for s w'
      by (rule yields_weaken[OF UpdateServices_job]) (simp add: that)
  qed (use that in \<open>simp_all add: set_lists_def UpdateExplorer_def\<close>)
  show ?thesis
    unfolding Refresh_def prod.case Let_def
    by (auto split: prod.split intro!: idle_if idle_on_result failed loaded)
qed

lemma idle_worker:
  "worker_finishes b strerror (s, p) = Inr (s', p') \<Longrightarrow> (sv_worker p = None \<and> p' = p)
     \<or> (\<exists>job. sv_worker p = Some job \<and> job_of p' = (False, None, sv_sent p @ [job]))"
proof (cases "sv_worker p")
  case (Some job)
  have "call_finished strerror r q = Inr q' \<Longrightarrow> job_of q' = (False, None, sv_sent q)" for r q q'
    by (cases r rule: on_result_cases) (auto simp: call_finished_def Let_def job_of_def)
  moreover assume "worker_finishes b strerror (s, p) = Inr (s', p')"
  ultimately show ?thesis using Some by (auto simp: worker_finishes_def res_bind_def split: prod.splits sum.splits)
qed (simp add: worker_finishes_def)

text \<open>What starts a call: a valid request of the form to the selected service, with the echo closed.\<close>

definition call_started :: "'s window_backend \<Rightarrow> 's \<Rightarrow> service_panel \<Rightarrow> service_panel \<Rightarrow> bool" where
  "call_started b s p p' \<longleftrightarrow> (\<exists>request s'. \<not> sv_busy p \<and> sv_call p \<and> row_ok (sv_row p) (sv_services p)
     \<and> EditedFields (sv_template p) (sv_inputs p) (sv_rows p) = Inr request
     \<and> wb_ValidateService b s (si_identity (sv_services p ! nat (sv_row p))) request = (Inr (), s')
     \<and> job_of p' = (True, Some (si_identity (sv_services p ! nat (sv_row p)), request), sv_sent p))"

lemma CallService_starts:
  "CallService b strerror fixed (s, e, p) = Inr (s', e', p') \<Longrightarrow> job_of p' = job_of p \<or> call_started b s p p'"
proof (cases "sv_busy p \<or> \<not> sv_call p \<or> sv_row p < 0")
  case False
  assume c: "CallService b strerror fixed (s, e, p) = Inr (s', e', p')"
  then obtain request where row: "nat (sv_row p) < length (sv_services p)" and req: "EditedFields (sv_template p) (sv_inputs p) (sv_rows p) = Inr request"
    using False by (auto simp: CallService_def res_bind_Inr_iff nth_res_Inr_iff)
  obtain r s1 where r: "wb_ValidateService b s (si_identity (sv_services p ! nat (sv_row p))) request = (r, s1)" by fastforce
  have q: "nth_res (sv_services p) (nat (sv_row p)) = Inr (sv_services p ! nat (sv_row p))" using row by (simp add: nth_res_def)
  show ?thesis
    by (cases r rule: on_result_cases)
      (use c False q req r row in \<open>auto simp: CallService_def Let_def job_of_def call_started_def row_ok_def split: prod.splits\<close>)
qed (simp add: CallService_def)

lemma idle_open: "idle_step w (open_topic b strerror fixed i (s, w))" "idle_step w (OpenElementEndpoint b strerror fixed item (s, w))"
proof -
  have row: "idle_step w (case r of None \<Rightarrow> Inr (s, w\<lparr>mw_message := t\<rparr>) | Some row \<Rightarrow>
      res_bind (choose_topic b strerror fixed (int row) (s, w)) (\<lambda>(s, w). Inr (s, w\<lparr>mw_tab := 2\<rparr>)))" for r t
    by (cases r) (simp_all add: idle_tab idle_choose)
  show "idle_step w (open_topic b strerror fixed i (s, w))"
    unfolding open_topic_def prod.case by (intro idle_if row) (simp_all add: unsaved_def)
  show "idle_step w (OpenElementEndpoint b strerror fixed item (s, w))"
    unfolding OpenElementEndpoint_def prod.case Let_def by (intro idle_if idle_tab idle_choose) (simp_all add: unsaved_def)
qed

lemma idle_element: "mw_service (open_element i w) = mw_service w" "mw_service (choose_element row w) = mw_service w"
  by (simp_all add: open_element_def choose_element_def unsaved_def split: option.split)

lemma idle_close: "mw_service (snd (snd (closeEvent b fixed ready (s, w)))) = mw_service w"
  by (simp add: closeEvent_def split: prod.split)

lemma idle_events:
  assumes "ev \<noteq> Service_call" and "ev \<noteq> Service_finished"
  shows "idle_step w (main_step b strerror fixed ev (s, w))"
proof (cases ev)
  case (Parameter_event e)
  show ?thesis unfolding Parameter_event main_step_def by (cases e) (simp_all add: idle_on)
next
  case (Service_input r t)
  then show ?thesis by (simp add: main_step_def job_of_def)
next
  case (Close_clicked ready)
  then show ?thesis using idle_close[of b fixed ready s w]
    by (cases "snd (closeEvent b fixed ready (s, w))") (simp add: main_step_def)
qed (use assms in \<open>simp_all add: main_step_def idle_refresh idle_choose idle_on idle_open idle_element\<close>)

subsection \<open>While the call runs\<close>

abbreviation untouched :: "'s \<Rightarrow> ('s \<times> 'p) result \<Rightarrow> bool" where
  "untouched s \<equiv> yields (\<lambda>s' x. s' = s)"

lemma untouched_panel: "untouched s (panel_step b strerror True e (s, p))"
  by (cases e) (auto simp: panel_step_def ShowParameter_def ApplyParameter_def RefreshParameterValue_def
      intro: yields_leaf yields_bind)

lemma untouched_busy:
  assumes "busy w" and "ev \<noteq> Service_finished"
  shows "untouched s (main_step b strerror fixed ev (s, w))"
proof (cases ev)
  case (Parameter_event e)
  have "untouched s (on_parameter w (panel_step b strerror True e (s, mw_parameter w)))"
    unfolding on_parameter_def by (rule yields_map) (rule untouched_panel)
  with assms(1) show ?thesis unfolding Parameter_event main_step_def by (cases e) (auto intro: yields_leaf)
qed (use assms in \<open>auto simp: main_step_def Refresh_def on_echo_def StartEcho_def PollEcho_def choose_service_def ShowService_def
    CallService_def OpenElementEndpoint_def open_topic_def closeEvent_def intro: yields_leaf\<close>)

section \<open>Selections\<close>

text \<open>The new row is that of the old identity, where it is still listed.\<close>

definition selection_kept :: "('a \<Rightarrow> 'i) \<Rightarrow> 'i option \<Rightarrow> int \<Rightarrow> 'a list \<Rightarrow> bool" where
  "selection_kept identity old row xs \<longleftrightarrow> (case old of
     None \<Rightarrow> True
   | Some i \<Rightarrow> if i \<in> identity ` set xs then row_ok row xs \<and> identity (xs ! nat row) = i else row = -1)"

lemma new_row_kept: "selection_kept identity old (new_row identity old first xs) xs"
proof (cases old)
  case (Some i)
  from last_index_spec[of xs "\<lambda>x. identity x = i" 0 "-1"] show ?thesis
  proof (elim disjE exE conjE)
    fix j assume "j < length xs" "identity (xs ! j) = i" "last_index (\<lambda>x. identity x = i) 0 xs (-1) = int (0 + j)"
    then show ?thesis using Some nth_mem[of j xs] by (auto simp: selection_kept_def new_row_def row_ok_def)
  next
    assume "\<forall>x \<in> set xs. \<not> identity x = i" "last_index (\<lambda>x. identity x = i) 0 xs (-1) = -1"
    then show ?thesis using Some by (auto simp: selection_kept_def new_row_def)
  qed
qed (simp add: selection_kept_def)

lemma ShowTopic_lists: "yields (\<lambda>s e. ep_topics e = ep_topics p \<and> ep_list e = ep_list p) (ShowTopic b strerror fixed z (s, p))"
  unfolding ShowTopic_def StopEcho_def prod.case Let_def
  by (intro yields_intros yields_call) simp_all

lemma RefreshParameterValue_lists:
  "yields (\<lambda>s q. pp_parameters q = pp_parameters p \<and> pp_list q = pp_list p \<and> pp_row q = pp_row p) (RefreshParameterValue b strerror z (s, p))"
  unfolding RefreshParameterValue_def RenderParameter_def ParameterError_def prod.case Let_def res_bind_assoc res_bind_simps
  by (intro yields_intros yields_call) simp_all

lemma ShowParameter_lists:
  assumes "\<not> pp_dirty p"
  shows "yields (\<lambda>s q. pp_parameters q = pp_parameters p \<and> pp_list q = pp_list p \<and> pp_row q = pp_list p) (ShowParameter b strerror False (s, p))"
proof -
  have again: "yields (\<lambda>s q. pp_parameters q = pp_parameters p \<and> pp_list q = pp_list p \<and> pp_row q = pp_list p)
      (RefreshParameterValue b strerror False (s, q))"
    if "pp_parameters q = pp_parameters p" "pp_list q = pp_list p" "pp_row q = pp_list p" for q
    by (rule yields_weaken[OF RefreshParameterValue_lists]) (use that in simp)
  show ?thesis
    unfolding ShowParameter_def prod.case Let_def
    by (intro yields_intros again) (use assms in \<open>simp_all add: blank_parameter_def\<close>)
qed

definition lists_shown :: "main_window \<Rightarrow> main_window \<Rightarrow> bool" where
  "lists_shown w w' \<longleftrightarrow> ep_topics (mw_echo w') = ep_topics (mw_echo w) \<and> ep_list (mw_echo w') = ep_list (mw_echo w)
     \<and> pp_parameters (mw_parameter w') = pp_parameters (mw_parameter w) \<and> pp_list (mw_parameter w') = pp_list (mw_parameter w)
     \<and> pp_row (mw_parameter w') = pp_list (mw_parameter w) \<and> mw_elements w' = mw_elements w \<and> mw_element w' = mw_element w"

lemma show_pages_lists:
  assumes "\<not> edited w" and "\<not> busy w"
  shows "yields (\<lambda>s w'. lists_shown w w') (show_pages b strerror fixed (s, w))"
  unfolding show_pages_def prod.case Let_def
proof (rule yields_seq)
  show "yields (\<lambda>s e. ep_topics e = ep_topics (mw_echo w) \<and> ep_list e = ep_list (mw_echo w))
      (ShowTopic b strerror fixed (busy (ShowElement w)) (s, mw_echo (ShowElement w)))"
    using ShowTopic_lists[where p = "mw_echo w"] by simp
next
  fix s and e :: echo_panel assume e: "ep_topics e = ep_topics (mw_echo w) \<and> ep_list e = ep_list (mw_echo w)"
  show "yields (\<lambda>s w'. lists_shown w w') (res_bind (ShowParameter b strerror (busy ((ShowElement w)\<lparr>mw_echo := e\<rparr>))
      (s, mw_parameter ((ShowElement w)\<lparr>mw_echo := e\<rparr>))) (\<lambda>(s, p). Inr (s, (ShowElement w)\<lparr>mw_echo := e, mw_parameter := p\<rparr>)))"
    by (rule yields_map, rule yields_weaken, simp add: assms(2), rule ShowParameter_lists)
      (use assms(1) e in \<open>simp_all add: lists_shown_def\<close>)
qed

lemma refresh_loaded_lists:
  assumes "\<not> edited w" and "\<not> busy w"
    and "refresh_loaded b strerror fixed old_element old_topic old_parameter (s, w) = Inr (s', w')"
  shows "ep_topics (mw_echo w') = wb_GetTopics b s \<and> pp_parameters (mw_parameter w') = owners_first (wb_GetParameters b s)
     \<and> mw_elements w' = wb_GetElements b s \<and> selection_kept ti_identity old_topic (ep_list (mw_echo w')) (ep_topics (mw_echo w'))
     \<and> selection_kept pi_identity old_parameter (pp_row (mw_parameter w')) (pp_parameters (mw_parameter w'))
     \<and> selection_kept el_identity old_element (mw_element w') (mw_elements w')"
proof -
  define first where "first = (if mw_refreshed w then -1 else 0 :: int)"
  define v where "v = set_lists (wb_GetTopics b s) (new_row ti_identity old_topic first (wb_GetTopics b s)) (owners_first (wb_GetParameters b s))
     (new_row pi_identity old_parameter first (owners_first (wb_GetParameters b s)))
     (w\<lparr>mw_applications := wb_GetApplications b s, mw_elements := wb_GetElements b s,
       mw_heading := ai_name (wb_GetApplicationInfo b s) @ ''  '' @ ai_state (wb_GetApplicationInfo b s),
       mw_overview := overview_texts (wb_GetApplicationInfo b s) (wb_GetElements b s) (wb_GetTopics b s) (owners_first (wb_GetParameters b s)),
       mw_element := new_row el_identity old_element (-1) (wb_GetElements b s)\<rparr>)"
  have "\<not> edited v" "\<not> busy v" using assms(1,2) by (simp_all add: v_def set_lists_def reload_parameters_def)
  note shown = show_pages_lists[OF this]
  obtain s1 w1 s2 x where w1: "show_pages b strerror fixed (s, v) = Inr (s1, w1)" and
    w': "w' = (ShowElement (UpdateExplorer b s2 (w1\<lparr>mw_service := x\<rparr>)))\<lparr>mw_refreshed := True, mw_message := ''Last refresh: OK''\<rparr>"
    using assms(3) unfolding refresh_loaded_def prod.case Let_def v_def[symmetric, unfolded first_def] by (auto simp: res_bind_Inr_iff)
  have "lists_shown v w1" using yieldsD[OF shown w1] .
  moreover have "lists_shown v w' = lists_shown v w1" unfolding w' lists_shown_def by (simp add: UpdateExplorer_def)
  ultimately have l: "lists_shown v w'" by simp
  have v: "ep_topics (mw_echo v) = wb_GetTopics b s" "ep_list (mw_echo v) = new_row ti_identity old_topic first (wb_GetTopics b s)"
    "pp_parameters (mw_parameter v) = owners_first (wb_GetParameters b s)"
    "pp_list (mw_parameter v) = new_row pi_identity old_parameter first (owners_first (wb_GetParameters b s))"
    "mw_elements v = wb_GetElements b s" "mw_element v = new_row el_identity old_element (-1) (wb_GetElements b s)"
    unfolding v_def set_lists_def reload_parameters_def by simp_all
  show ?thesis using l unfolding lists_shown_def v by (simp add: new_row_kept)
qed

section \<open>The explorer\<close>

lemma group_of_range: "group_of e i apps = Some k \<Longrightarrow> k < i + length apps"
  by (induction apps arbitrary: i) (force split: if_splits)+

definition tree_indices :: "explorer_group list \<Rightarrow> nat list" where
  "tree_indices tree = concat (map (\<lambda>g. map snd (xg_elements g)) tree)"

lemma item_indices: "map snd (explorer_items apps elements g) = filter (\<lambda>i. group_of (elements ! i) 0 apps = g) [0..<length elements]"
proof -
  have "map snd (explorer_items apps elements g) = map fst (filter (\<lambda>(i, e). group_of e 0 apps = g) (enumerate 0 elements))"
    by (simp add: explorer_items_def comp_def case_prod_beta)
  also have "\<dots> = map fst (filter (\<lambda>x. group_of (elements ! fst x) 0 apps = g) (enumerate 0 elements))"
    by (rule arg_cong[where f = "map fst"], rule filter_cong) (auto simp: in_set_enumerate_eq)
  also have "\<dots> = filter (\<lambda>i. group_of (elements ! i) 0 apps = g) (map fst (enumerate 0 elements))"
    by (simp only: filter_map comp_def)
  finally show ?thesis by simp
qed

lemma tree_indices_groups:
  "tree_indices (explorer_tree apps elements)
     = concat (map (\<lambda>g. filter (\<lambda>i. group_of (elements ! i) 0 apps = g) [0..<length elements]) (map Some [0..<length apps] @ [None]))"
proof -
  have "map (\<lambda>x. f (fst x)) (enumerate 0 apps) = map f (map fst (enumerate 0 apps))" for f :: "nat \<Rightarrow> nat list"
    by (simp only: map_map comp_def)
  then have eq: "map (\<lambda>x. f (fst x)) (enumerate 0 apps) = map f [0..<length apps]" for f :: "nat \<Rightarrow> nat list" by simp
  from eq[of "\<lambda>k. filter (\<lambda>i. group_of (elements ! i) 0 apps = Some k) [0..<length elements]"] show ?thesis
    by (simp add: tree_indices_def explorer_tree_def comp_def case_prod_beta item_indices)
qed

lemma concat_classes:
  assumes "distinct gs"
  shows "distinct (concat (map (\<lambda>g. filter (\<lambda>i. f i = g) [0..<n]) gs))"
    and "set (concat (map (\<lambda>g. filter (\<lambda>i. f i = g) [0..<n]) gs)) = {i. i < n \<and> f i \<in> set gs}"
  using assms by (induction gs) auto

section \<open>Properties\<close>

text \<open>
  C21. Whatever the user, the clock and the service thread do and whatever the backend answers, no handler of the
  window accesses memory it should not, and the window stays consistent: its pages keep their invariants,
  the echo session of the backend is the one the topic page shows, and none is open while a call runs.
\<close>

theorem window_safe:
  assumes "window_contract b session" and "session s = None"
  shows "\<exists>s' w'. foldM_res (main_step b strerror fixed) events (s, main_window0) = Inr (s', w') \<and> window_ok session (s', w')"
proof -
  have "window_ok session (s, main_window0)"
    using assms(2) panel_inv_start echo_inv_start service_inv_start
    by (simp add: window_ok_def page_ok_def agrees_def main_window0_def echo_panel0_def list_row_def service_panel0_def)
  from window_contract.main_steps_ok[OF assms(1) this, of strerror fixed events] show ?thesis by (auto simp: window_returns_def)
qed

text \<open>
  C7. A service call of the main window is sent once: a click starts at most one, with a request the backend has
  validated and the echo closed, the end of the thread logs that call and no other, and no other event of the main window starts
  or repeats one. While it runs, no event of the main window but its end changes the backend. (The remote
  workspace has the same backend and its timer goes on meanwhile; its calls, those of the network, are not events of the main
  window and not part of this.)
\<close>

theorem service_call_exclusive:
  assumes "main_step b strerror fixed ev (s, w) = Inr (s', w')"
  shows "(job_of (mw_service w') = job_of (mw_service w)
     \<or> (ev = Service_call \<and> call_started b s (mw_service w) (mw_service w'))
     \<or> (\<exists>job. ev = Service_finished \<and> sv_worker (mw_service w) = Some job
          \<and> job_of (mw_service w') = (False, None, sv_sent (mw_service w) @ [job])))
   \<and> (if sv_busy (mw_service w) \<and> ev \<noteq> Service_finished then s' = s else True)"
proof
  show "job_of (mw_service w') = job_of (mw_service w) \<or> (ev = Service_call \<and> call_started b s (mw_service w) (mw_service w'))
     \<or> (\<exists>job. ev = Service_finished \<and> sv_worker (mw_service w) = Some job
          \<and> job_of (mw_service w') = (False, None, sv_sent (mw_service w) @ [job]))"
  proof (cases "ev = Service_call \<or> ev = Service_finished")
    case True
    with assms CallService_starts[of b strerror fixed s "mw_echo w" "mw_service w"] idle_worker[of b strerror s "mw_service w"] show ?thesis
      by (auto simp: main_step_def res_bind_Inr_iff)
  next
    case False
    with yieldsD[OF idle_events[unfolded idle_step_def] assms] show ?thesis by simp
  qed
  show "if sv_busy (mw_service w) \<and> ev \<noteq> Service_finished then s' = s else True"
    using yieldsD[OF untouched_busy assms] by simp
qed

text \<open>
  C22. A refresh shows the new lists and keeps what was selected: a topic, parameter or element that is still
  listed stays selected by its identity, wherever it has moved, and one that is gone leaves no selection.
\<close>

theorem refresh_keeps_selection:
  assumes "\<not> sv_busy (mw_service w)" and "\<not> pp_dirty (mw_parameter w)" and "StopEcho b fixed (s, mw_echo w) = (s1, e1)"
    and "wb_Refresh b s1 = (Inr (), s2)" and "wb_GetConnectionState b s2 = CONNECTED"
    and "Refresh b strerror fixed (s, w) = Inr (s', w')"
  shows "ep_topics (mw_echo w') = wb_GetTopics b s2 \<and> pp_parameters (mw_parameter w') = owners_first (wb_GetParameters b s2)
     \<and> mw_elements w' = wb_GetElements b s2
     \<and> selection_kept ti_identity (selected_identity ti_identity (ep_list (mw_echo w)) (ep_topics (mw_echo w)))
         (ep_list (mw_echo w')) (ep_topics (mw_echo w'))
     \<and> selection_kept pi_identity (selected_identity pi_identity (pp_row (mw_parameter w)) (pp_parameters (mw_parameter w)))
         (pp_row (mw_parameter w')) (pp_parameters (mw_parameter w'))
     \<and> selection_kept el_identity (selected_identity el_identity (mw_element w) (mw_elements w)) (mw_element w') (mw_elements w')"
proof -
  let ?w = "w\<lparr>mw_echo := e1\<lparr>ep_requires_refresh := False\<rparr>, mw_connection := connection_text CONNECTED\<rparr>"
  have loaded: "refresh_loaded b strerror fixed (selected_identity el_identity (mw_element w) (mw_elements w))
     (selected_identity ti_identity (ep_list (mw_echo w)) (ep_topics (mw_echo w)))
     (selected_identity pi_identity (pp_row (mw_parameter w)) (pp_parameters (mw_parameter w))) (s2, ?w) = Inr (s', w')"
    using assms by (simp add: Refresh_def Let_def)
  have "\<not> edited ?w" "\<not> busy ?w" using assms(1,2) by simp_all
  from refresh_loaded_lists[OF this loaded] show ?thesis .
qed

text \<open>
  The explorer shows every element exactly once: the tree has a group for each application and one for the
  others, and the rows of its groups together are the rows of the element list.
\<close>

theorem explorer_complete:
  "length (explorer_tree apps elements) = Suc (length apps) \<and> distinct (tree_indices (explorer_tree apps elements))
     \<and> set (tree_indices (explorer_tree apps elements)) = {..<length elements}"
proof -
  let ?gs = "map Some [0..<length apps] @ [None]"
  have gs: "distinct ?gs" by (simp add: distinct_map)
  have "group_of e 0 apps \<in> set ?gs" for e using group_of_range[of e 0 apps] by (cases "group_of e 0 apps") auto
  then have "{i. i < length elements \<and> group_of (elements ! i) 0 apps \<in> set ?gs} = {..<length elements}" by auto
  with concat_classes[OF gs, of "\<lambda>i. group_of (elements ! i) 0 apps" "length elements"] show ?thesis
    unfolding tree_indices_groups by (simp add: explorer_tree_def)
qed

end
