(* ===== verification/WindowBackends.thy ===== *)
theory WindowBackends
  imports WindowProps KcfProps
begin

text \<open>
  The two backends the program gives its window: the mock, and the framework backend over any framework that
  keeps its contract. Both satisfy what the window relies on, so that its guarantees hold of the whole program.
\<close>

section \<open>The mock\<close>

interpretation mock_window: window_contract "window_backend_of mock_backend" mock_session
proof unfold_locales
  show "backend_defined (window_backend_of mock_backend)" by (rule mock_defined)
  have ok: "code_ok r \<Longrightarrow> r \<noteq> Inl Undefined" for r :: "'a result" by auto
  have template: "Mock_GetTypeTemplate i t \<noteq> Inl Undefined" for i t by (simp add: Mock_GetTypeTemplate_def)
  show "services_defined (window_backend_of mock_backend)"
    using ok[OF CallService_codes] ok[OF Validate_service_codes] template
    by (simp add: services_defined_def window_backend_of_def mock_backend_def)
qed (simp_all add: window_backend_of_def mock_backend_def Mock_Refresh_def Mock_SetParameter_id_def mock_session_def Let_def
     split: sum.split option.split)

section \<open>The framework backend\<close>

text \<open>
  \<open>KcfBackend\<close> as the window calls it. Its state is that of the object and of the framework; the network snapshot is
  the argument \<open>network\<close>.
\<close>

definition on_object :: "(kcf_state \<Rightarrow> kcf_io \<Rightarrow> 'r \<times> kcf_io) \<Rightarrow> kcf_state \<times> kcf_io \<Rightarrow> 'r \<times> kcf_state \<times> kcf_io" where
  "on_object f bs = (case f (fst bs) (snd bs) of (r, s) \<Rightarrow> (r, fst bs, s))"

definition kcf_window_backend :: "kcf \<Rightarrow> network_snapshot \<Rightarrow> (kcf_state \<times> kcf_io) window_backend" where
  "kcf_window_backend w network =
    \<lparr>wb_Refresh = (\<lambda>(b, s). Kcf_Refresh w b s), wb_GetConnectionState = (\<lambda>(b, s). Kcf_GetConnectionState b),
      wb_GetApplicationInfo = (\<lambda>(b, s). Kcf_GetApplicationInfo b), wb_GetApplications = (\<lambda>(b, s). kb_applications b),
      wb_GetElements = (\<lambda>(b, s). kb_elements b), wb_GetTopics = (\<lambda>(b, s). Models (kb_topics b)),
      wb_GetParameters = (\<lambda>(b, s). Models (kb_parameters b)), wb_QueryServices = (\<lambda>(b, s). Models (kb_services b)),
      wb_GetNetworkSnapshot = (\<lambda>_. network),
      wb_StartTopicEcho = (\<lambda>(b, s) i. Kcf_StartTopicEcho w b i s), wb_ReadTopicEcho = (\<lambda>(b, s). Kcf_ReadTopicEcho w b s),
      wb_StopTopicEcho = (\<lambda>(b, s). (Kcf_CloseTopicRead b, s)),
      wb_GetParameter = (\<lambda>bs i. on_object (\<lambda>b. Kcf_GetParameter_id w b i) bs),
      wb_ValidateParameter = (\<lambda>bs i v. on_object (\<lambda>b. Kcf_ValidateParameter w b i v) bs),
      wb_SetParameter = (\<lambda>bs i v. on_object (\<lambda>b. Kcf_SetParameter_id w b i v) bs),
      wb_GetTypeTemplate = (\<lambda>bs r t. on_object (\<lambda>b. Kcf_GetTypeTemplate w b r t) bs),
      wb_ValidateService = (\<lambda>bs i v. on_object (\<lambda>b. Kcf_ValidateService w b i v) bs),
      wb_CallService = (\<lambda>bs i v timeout retries. on_object (\<lambda>b. Kcf_CallService w b i v timeout retries) bs)\<rparr>"

definition kcf_session :: "kcf_state \<times> kcf_io \<Rightarrow> endpoint_identity option" where
  "kcf_session bs = map_option pt_identity (kb_prepared (fst bs))"

lemma kcf_window_calls [simp]:
  "wb_StartTopicEcho (kcf_window_backend w network) bs i = Kcf_StartTopicEcho w (fst bs) i (snd bs)"
  "wb_ReadTopicEcho (kcf_window_backend w network) bs = Kcf_ReadTopicEcho w (fst bs) (snd bs)"
  "wb_StopTopicEcho (kcf_window_backend w network) bs = (Kcf_CloseTopicRead (fst bs), snd bs)"
  "wb_Refresh (kcf_window_backend w network) bs = Kcf_Refresh w (fst bs) (snd bs)"
  "fst (wb_GetParameter (kcf_window_backend w network) bs i) = fst (Kcf_GetParameter_id w (fst bs) i (snd bs))"
  "fst (wb_ValidateParameter (kcf_window_backend w network) bs i v) = fst (Kcf_ValidateParameter w (fst bs) i v (snd bs))"
  "fst (wb_SetParameter (kcf_window_backend w network) bs i v) = fst (Kcf_SetParameter_id w (fst bs) i v (snd bs))"
  "fst (wb_GetTypeTemplate (kcf_window_backend w network) bs r t) = fst (Kcf_GetTypeTemplate w (fst bs) r t (snd bs))"
  "fst (wb_ValidateService (kcf_window_backend w network) bs i v) = fst (Kcf_ValidateService w (fst bs) i v (snd bs))"
  "fst (wb_CallService (kcf_window_backend w network) bs i v ms n) = fst (Kcf_CallService w (fst bs) i v ms n (snd bs))"
  by (simp_all add: kcf_window_backend_def on_object_def case_prod_beta)

lemma kcf_window_objects [simp]:
  "fst (snd (wb_GetParameter (kcf_window_backend w network) bs i)) = fst bs"
  "fst (snd (wb_ValidateParameter (kcf_window_backend w network) bs i v)) = fst bs"
  "fst (snd (wb_SetParameter (kcf_window_backend w network) bs i v)) = fst bs"
  "fst (snd (wb_GetTypeTemplate (kcf_window_backend w network) bs r t)) = fst bs"
  "fst (snd (wb_ValidateService (kcf_window_backend w network) bs i v)) = fst bs"
  "fst (snd (wb_CallService (kcf_window_backend w network) bs i v ms n)) = fst bs"
  by (simp_all add: kcf_window_backend_def on_object_def case_prod_beta)

lemma prepared_identity: "prepare_topic w b i s = (Ret (Inr p), s') \<Longrightarrow> pt_identity p = i"
  by (auto simp: prepare_topic_def Let_def k_bind_Inr k_res_Inr)

lemma kcf_session_echo:
  "Kcf_StartTopicEcho w b i s = (Inr (), bs) \<Longrightarrow> kcf_session bs = Some i"
  "Kcf_ReadTopicEcho w b s = (r, bs) \<Longrightarrow> (\<exists>v. r = Inr v) \<or> r = fail (- EAGAIN) \<Longrightarrow> kcf_session bs = kcf_session (b, s)"
proof -
  assume start: "Kcf_StartTopicEcho w b i s = (Inr (), bs)"
  obtain r s' where g: "Guard (prepare_topic w (Kcf_CloseTopicRead b) i) s = (r, s')" by fastforce
  with start obtain p where p: "r = Inr p" "bs = ((Kcf_CloseTopicRead b)\<lparr>kb_prepared := Some p\<rparr>, s')"
    by (cases r) (auto simp: Kcf_StartTopicEcho_def Let_def)
  with g have "pt_identity p = i" by (auto simp: Guard_Inr intro: prepared_identity)
  with p show "kcf_session bs = Some i" by (simp add: kcf_session_def)
next
  assume "Kcf_ReadTopicEcho w b s = (r, bs)" "(\<exists>v. r = Inr v) \<or> r = fail (- EAGAIN)"
  then show "kcf_session bs = kcf_session (b, s)"
    by (auto simp: Kcf_ReadTopicEcho_def Let_def kcf_session_def fail_def)
qed

lemma kcf_window_contract:
  assumes "framework_ok w"
  shows "window_contract (kcf_window_backend w network) kcf_session"
proof unfold_locales
  have ok: "code_ok r \<Longrightarrow> r \<noteq> Inl Undefined" for r :: "'a result" by auto
  note d = ok[OF id_codes(1)[OF assms]] ok[OF id_codes(2)[OF assms]] ok[OF id_codes(3)[OF assms]] ok[OF id_codes(4)[OF assms]]
    ok[OF id_codes(5)[OF assms]] ok[OF id_codes(6)[OF assms]] ok[OF id_codes(7)[OF assms]]
    ok[OF session_codes(1)[OF assms]] ok[OF session_codes(2)[OF assms]] ok[OF session_codes(3)[OF assms]]
  show "backend_defined (kcf_window_backend w network)" "services_defined (kcf_window_backend w network)"
    by (simp_all add: backend_defined_def services_defined_def d)
  show "fst (wb_Refresh (kcf_window_backend w network) s) \<noteq> Inl Undefined"
    "fst (wb_StartTopicEcho (kcf_window_backend w network) s i) \<noteq> Inl Undefined"
    "fst (wb_ReadTopicEcho (kcf_window_backend w network) s) \<noteq> Inl Undefined" for s i
    by (simp_all add: d)
  show "kcf_session (wb_StopTopicEcho (kcf_window_backend w network) s) = None" for s
    by (simp add: kcf_session_def Kcf_CloseTopicRead_def)
  show "wb_StartTopicEcho (kcf_window_backend w network) s i = (Inr (), s') \<Longrightarrow> kcf_session s' = Some i" for s i s'
    using kcf_session_echo(1) by simp
  show "kcf_session s' = kcf_session s"
    if "wb_ReadTopicEcho (kcf_window_backend w network) s = (r, s')" "(\<exists>v. r = Inr v) \<or> r = fail (- EAGAIN)" for s r s'
    using kcf_session_echo(2)[of w "fst s" "snd s" r s'] that by simp
qed (simp_all add: kcf_session_def)

section \<open>The whole program\<close>

text \<open>
  C2. The window over the framework backend: whatever a framework that keeps its contract answers and throws, and
  whatever happens, no handler does anything undefined, and the topic the backend has prepared is the one
  the window echoes.
\<close>

theorem kcf_window_safe:
  assumes "framework_ok w" and "kb_prepared b = None"
  shows "\<exists>s' v. foldM_res (main_step (kcf_window_backend w network) strerror fixed) events ((b, s), main_window0) = Inr (s', v)
     \<and> window_ok kcf_session (s', v)"
proof -
  have "window_ok kcf_session ((b, s), main_window0)"
    using assms(2) panel_inv_start echo_inv_start service_inv_start
    by (simp add: window_ok_def page_ok_def agrees_def main_window0_def echo_panel0_def list_row_def service_panel0_def kcf_session_def)
  from window_contract.main_steps_ok[OF kcf_window_contract[OF assms(1)] this, of network strerror fixed events] show ?thesis
    by (auto simp: window_returns_def)
qed

section \<open>Witnesses\<close>

theorem kcf_window_safe_witness:
  "\<exists>s' v. foldM_res (main_step (kcf_window_backend sample_kcf network_snapshot0) sample_strerror one_decimal)
      [Refresh_clicked, Topic_row 0, Echo_start 0, Echo_timer 100000000, Close_clicked True]
      ((kcf_state0, \<lparr>ki_time = 0, ki_log = []\<rparr>), main_window0) = Inr (s', v) \<and> window_ok kcf_session (s', v)"
  by (rule kcf_window_safe[OF sample_framework]) (simp add: kcf_state0_def)

theorem window_safe_witness:
  "\<exists>s' w'. foldM_res (main_step (window_backend_of mock_backend) sample_strerror one_decimal)
      [Refresh_clicked, Service_row 0, Service_call, Topic_row 0, Service_finished] (mock_init, main_window0) = Inr (s', w')
      \<and> window_ok mock_session (s', w')"
  by (rule window_safe[OF mock_window.window_contract_axioms]) (simp add: mock_session_def mock_init_def)

text \<open>A window whose service thread runs.\<close>

definition sample_busy :: main_window where
  "sample_busy = main_window0\<lparr>mw_service := service_panel0\<lparr>sv_busy := True, sv_worker := Some (mk_endpoint 12001 1 900, data_snapshot0)\<rparr>\<rparr>"

theorem service_call_exclusive_witness:
  "\<exists>w'. main_step (window_backend_of mock_backend) sample_strerror one_decimal Refresh_clicked (mock_init, sample_busy) = Inr (mock_init, w')
      \<and> job_of (mw_service w') = job_of (mw_service sample_busy)"
proof -
  have step: "main_step (window_backend_of mock_backend) sample_strerror one_decimal Refresh_clicked (mock_init, sample_busy) = Inr (mock_init, sample_busy)"
    by (simp add: main_step_def Refresh_def sample_busy_def)
  from service_call_exclusive[OF this] step show ?thesis by auto
qed

theorem refresh_keeps_selection_witness:
  "\<exists>s' w'. Refresh (window_backend_of mock_backend) sample_strerror one_decimal (mock_init, main_window0) = Inr (s', w')
     \<and> mw_elements w' = map (\<lambda>e. if el_state e = ''RUNNING'' then e\<lparr>el_heartbeat := el_heartbeat e + 1\<rparr> else e) (mb_elements mock_init)"
proof -
  let ?b = "window_backend_of mock_backend"
  obtain s1 e1 where stop: "StopEcho ?b one_decimal (mock_init, mw_echo main_window0) = (s1, e1)" by fastforce
  have s1: "s1 = Mock_StopTopicEcho mock_init" using stop by (simp add: StopEcho_def window_backend_of_def mock_backend_def)
  obtain s2 where s2: "wb_Refresh ?b s1 = (Inr (), s2)" by (simp add: window_backend_of_def mock_backend_def Mock_Refresh_def Let_def)
  have conn: "wb_GetConnectionState ?b s2 = CONNECTED" by (simp add: window_backend_of_def mock_backend_def Mock_GetConnectionState_def)
  have "window_ok mock_session (mock_init, main_window0)"
    using panel_inv_start echo_inv_start service_inv_start
    by (simp add: window_ok_def page_ok_def agrees_def main_window0_def echo_panel0_def list_row_def service_panel0_def mock_session_def mock_init_def)
  from mock_window.Refresh_ok[OF this, of sample_strerror one_decimal] obtain s' w'
    where r: "Refresh ?b sample_strerror one_decimal (mock_init, main_window0) = Inr (s', w')" by (auto simp: window_returns_def)
  have "mw_elements w' = wb_GetElements ?b s2"
    using refresh_keeps_selection[OF _ _ stop s2 conn r] by (simp add: main_window0_def service_panel0_def parameter_panel0_def)
  also have "\<dots> = map (\<lambda>e. if el_state e = ''RUNNING'' then e\<lparr>el_heartbeat := el_heartbeat e + 1\<rparr> else e) (mb_elements mock_init)"
    using s2 by (auto simp: s1 window_backend_of_def mock_backend_def Mock_Refresh_def Let_def Mock_GetElements_def Mock_StopTopicEcho_def)
  finally show ?thesis using r by blast
qed

end
