(* ===== verification/GraphWidget.thy ===== *)
theory GraphWidget
  imports RemoteGraph
begin

text \<open>
  \<open>src/ui/graph_widget.cpp\<close>: the filters of the graph page, \<open>Draw\<close>, which lays the nodes of the graph out on a
  scene, and what activating a node asks for. An item of the scene is where the code puts it and the texts it
  gives it. All coordinates of the code are whole numbers, so that \<open>qreal\<close> is exact and is \<open>int\<close> here;
  colours, fonts and the view's transformation are Qt's.
\<close>

section \<open>Scene\<close>

record box =
  bx_left :: int
  bx_top :: int
  bx_width :: int
  bx_height :: int

definition bx_right :: "box \<Rightarrow> int" where "bx_right b = bx_left b + bx_width b"
definition bx_bottom :: "box \<Rightarrow> int" where "bx_bottom b = bx_top b + bx_height b"
definition bx_middle :: "box \<Rightarrow> int" where "bx_middle b = bx_top b + bx_height b div 2"

record node_item =
  ni_id :: string
  ni_kind :: graph_kind
  ni_box :: box
  ni_dashed :: bool
  ni_arrow :: bool
  ni_label :: string
  ni_identity :: "string option"
  ni_tooltip :: string

text \<open>The curve of an edge: its ends and control points, the direction of its head, and its style.\<close>

record link =
  lk_start :: "int \<times> int"
  lk_control1 :: "int \<times> int"
  lk_control2 :: "int \<times> int"
  lk_end :: "int \<times> int"
  lk_direction :: int
  lk_route :: bool
  lk_dashed :: bool
  lk_tooltip :: string

datatype scene_item = Node node_item | Title string int int | Frame box bool | Link link

record canvas =
  cv_items :: "scene_item list"
  cv_boxes :: "(string, box) omap"

definition canvas0 :: canvas where "canvas0 = \<lparr>cv_items = [], cv_boxes = []\<rparr>"

definition add_scene :: "scene_item \<Rightarrow> canvas \<Rightarrow> canvas" where
  "add_scene i c = c\<lparr>cv_items := cv_items c @ [i]\<rparr>"

section \<open>Nodes\<close>

definition node_width :: "graph_kind \<Rightarrow> int" where
  "node_width k = (if k = GHost then 830 else if k = GElement then 270 else 240)"

definition node_height :: "graph_kind \<Rightarrow> int" where
  "node_height k = (if k = GElement then 58 else 38)"

text \<open>\<open>QString::toHtmlEscaped\<close>.\<close>

definition html_char :: "char \<Rightarrow> string" where
  "html_char c = (if c = CHR ''<'' then ''&lt;'' else if c = CHR ''>'' then ''&gt;'' else if c = CHR ''&'' then ''&amp;''
     else if c = CHR 0x22 then ''&quot;'' else [c])"

definition toHtmlEscaped :: "string \<Rightarrow> string" where
  "toHtmlEscaped s = concat (map html_char s)"

definition endpoint_line :: "graph_endpoint \<Rightarrow> string" where
  "endpoint_line e = nl @ ge_role e @ '' PID '' @ to_string_int (ri_pid (ei_runtime (ge_identity e)))
     @ '' / start '' @ to_string_u64 (ri_process_start_ticks (ei_runtime (ge_identity e)))
     @ '' / registration '' @ to_string_u64 (ei_registration_id (ge_identity e))"

definition local_element :: "graph_node \<Rightarrow> bool" where
  "local_element n \<longleftrightarrow> gn_kind n = GElement \<and> gn_host n = []"

definition node_tooltip :: "graph_node \<Rightarrow> string" where
  "node_tooltip n = (if gn_host n = []
     then gn_label n @ (if local_element n then [] else concat (map endpoint_line (gn_endpoints n)))
     else ''<pre>'' @ toHtmlEscaped (gn_detail n) @ ''</pre>'')"

definition node_box :: "graph_node \<Rightarrow> int \<Rightarrow> int \<Rightarrow> box" where
  "node_box n x y = \<lparr>bx_left = x, bx_top = y, bx_width = node_width (gn_kind n), bx_height = node_height (gn_kind n)\<rparr>"

text \<open>The lambda \<open>node_item\<close>.\<close>

definition place :: "graph_node \<Rightarrow> int \<Rightarrow> int \<Rightarrow> canvas \<Rightarrow> canvas" where
  "place n x y c =
     (let c = add_scene (Node \<lparr>ni_id = gn_id n, ni_kind = gn_kind n, ni_box = node_box n x y, ni_dashed = gn_lost n,
            ni_arrow = (gn_host n = [] \<and> gn_kind n \<noteq> GElement \<and> gn_kind n \<noteq> GTopic), ni_label = gn_label n,
            ni_identity = (if local_element n then Some (''PID '' @ to_string_int (ri_pid (gn_runtime n)) @ '' / start ''
              @ to_string_u64 (ri_process_start_ticks (gn_runtime n))) else None),
            ni_tooltip = node_tooltip n\<rparr>) c
      in c\<lparr>cv_boxes := om_put (gn_id n) (node_box n x y) (cv_boxes c)\<rparr>)"

section \<open>Layout\<close>

subsection \<open>The local part\<close>

definition draw_element :: "string \<Rightarrow> graph_node \<Rightarrow> int \<times> canvas \<Rightarrow> int \<times> canvas" where
  "draw_element gid n yc = (case yc of (y, c) \<Rightarrow>
     if gn_kind n = GElement \<and> gn_group n = gid then (y + 82, place n 20 y c) else (y, c))"

definition draw_local_group :: "string \<Rightarrow> graph_node list \<Rightarrow> graph_group \<Rightarrow> int \<times> canvas \<Rightarrow> int \<times> canvas" where
  "draw_local_group chosen nodes g yc = (case yc of (start, c) \<Rightarrow>
     if gg_host g \<noteq> [] \<or> (chosen \<noteq> [] \<and> gg_id g \<noteq> chosen) then (start, c)
     else let c = add_scene (Title (gg_label g) 10 start) c
          in case fold (draw_element (gg_id g)) nodes (start + 30, c) of (y, c) \<Rightarrow>
             let y = (if y = start + 30 then y + 30 else y);
                 c = add_scene (Frame \<lparr>bx_left = 0, bx_top = start - 8, bx_width = 310, bx_height = y - start + 4\<rparr> False) c
             in (y + 24, c))"

definition kind_title :: "graph_kind \<Rightarrow> string" where
  "kind_title k = (if k = GTopic then ''Topics'' else if k = GParameter then ''Parameters'' else ''Service servers'')"

definition draw_endpoint :: "graph_node \<Rightarrow> int \<times> graph_kind \<times> canvas \<Rightarrow> int \<times> graph_kind \<times> canvas" where
  "draw_endpoint n yc = (case yc of (y, previous, c) \<Rightarrow>
     if gn_host n = [] \<and> gn_kind n \<noteq> GElement
     then if gn_kind n \<noteq> previous
          then (y + 30 + 66, gn_kind n, place n 600 (y + 30) (add_scene (Title (kind_title (gn_kind n)) 600 y) c))
          else (y + 66, previous, place n 600 y c)
     else (y, previous, c))"

subsection \<open>The hosts\<close>

definition draw_remote_node :: "string \<Rightarrow> graph_node \<Rightarrow> int \<times> int \<times> canvas \<Rightarrow> int \<times> int \<times> canvas" where
  "draw_remote_node gid n yc = (case yc of (y, right, c) \<Rightarrow>
     if gn_group n \<noteq> gid then (y, right, c)
     else if gn_kind n = GElement then (y + 82, right, place n 30 y c) else (y, right + 66, place n 600 right c))"

definition draw_remote_group :: "string \<Rightarrow> graph_node list \<Rightarrow> string \<Rightarrow> graph_group \<Rightarrow> int \<times> canvas \<Rightarrow> int \<times> canvas" where
  "draw_remote_group chosen nodes host g yc = (case yc of (start, c) \<Rightarrow>
     if gg_host g \<noteq> host \<or> (chosen \<noteq> [] \<and> chosen \<noteq> gg_id g) then (start, c)
     else let c = add_scene (Title (gg_label g) 20 start) c; y = start + 30
          in case fold (draw_remote_node (gg_id g)) nodes (y, y, c) of (y, right, c) \<Rightarrow>
             let y = max y right;
                 c = add_scene (Frame \<lparr>bx_left = 10, bx_top = start - 5, bx_width = 850, bx_height = y - start + 8\<rparr> False) c
             in (y + 30, c))"

definition draw_host :: "string \<Rightarrow> graph_model \<Rightarrow> graph_node \<Rightarrow> int \<times> canvas \<Rightarrow> int \<times> canvas" where
  "draw_host chosen m h yc = (case yc of (start, c) \<Rightarrow>
     if gn_kind h \<noteq> GHost then (start, c)
     else case fold (draw_remote_group chosen (gm_nodes m) (gn_host h)) (gm_groups m) (start + 60, place h 0 start c) of (y, c) \<Rightarrow>
          (y + 40, add_scene (Frame \<lparr>bx_left = -10, bx_top = start - 10, bx_width = 890, bx_height = y - start + 10\<rparr> (gn_lost h)) c))"

text \<open>All nodes: local groups, local endpoints, hosts.\<close>

definition draw_nodes :: "string \<Rightarrow> graph_model \<Rightarrow> canvas" where
  "draw_nodes chosen m =
     (case fold (draw_local_group chosen (gm_nodes m)) (gm_groups m) (40, canvas0) of (y, c) \<Rightarrow>
      case fold draw_endpoint (gm_nodes m) (40, GElement, c) of (endpoint_y, _, c) \<Rightarrow>
      snd (fold (draw_host chosen m) (gm_nodes m) (max y endpoint_y + 30, c)))"

subsection \<open>Edges\<close>

text \<open>\<open>QString::find\<close> of the mark of an ownership edge.\<close>

fun has_text :: "string \<Rightarrow> string \<Rightarrow> bool" where
  "has_text mark [] \<longleftrightarrow> mark = []"
| "has_text mark (x # xs) \<longleftrightarrow> take (length mark) (x # xs) = mark \<or> has_text mark xs"

definition edge_link :: "graph_edge \<Rightarrow> int \<Rightarrow> box \<Rightarrow> box \<Rightarrow> link" where
  "edge_link e lane source destination =
     (let forward = bx_left source < bx_left destination; route = gd_network_route e;
          shift = (if forward then -7 else 7);
          a = (if route then bx_right source else if forward then bx_right source else bx_left source, bx_middle source + shift);
          b = (if route then bx_right destination else if forward then bx_left destination else bx_right destination, bx_middle destination + shift);
          direction = (if route then -1 else if forward then 1 else -1)
      in \<lparr>lk_start = a, lk_control1 = (fst a + (if route then 140 + lane else 110 * direction), snd a),
          lk_control2 = (fst b - (if route then -110 - lane else 110 * direction), snd b), lk_end = b, lk_direction = direction,
          lk_route = route, lk_dashed = has_text ''metadata ownership'' (gd_role e),
          lk_tooltip = (if route then gd_detail e else gd_role e @ '' / registration '' @ to_string_u64 (ei_registration_id (gd_endpoint e)))\<rparr>)"

text \<open>The lanes of the routes between the same two nodes.\<close>

definition draw_edge :: "graph_edge \<Rightarrow> (string \<times> string \<Rightarrow> nat) \<times> canvas \<Rightarrow> (string \<times> string \<Rightarrow> nat) \<times> canvas" where
  "draw_edge e lc = (case lc of (lanes, c) \<Rightarrow>
     case (map_of (cv_boxes c) (gd_from e), map_of (cv_boxes c) (gd_to e)) of
       (Some source, Some destination) \<Rightarrow>
         if gd_network_route e
         then (lanes((gd_from e, gd_to e) := Suc (lanes (gd_from e, gd_to e))),
               add_scene (Link (edge_link e (24 * int (lanes (gd_from e, gd_to e))) source destination)) c)
         else (lanes, add_scene (Link (edge_link e 0 source destination)) c)
     | _ \<Rightarrow> (lanes, c))"

definition draw_graph :: "string \<Rightarrow> graph_model \<Rightarrow> canvas" where
  "draw_graph chosen m = snd (fold draw_edge (gm_edges m) (\<lambda>_. 0, draw_nodes chosen m))"

section \<open>The page\<close>

text \<open>
  The two filters hold the choices they offer and the data of the current one; a detail that is not shown is
  \<open>None\<close>.
\<close>

record graph_widget =
  gw_applications :: "application_info list"
  gw_elements :: "element_info list"
  gw_topics :: "topic_info list"
  gw_parameters :: "parameter_info list"
  gw_services :: "service_info list"
  gw_network :: network_snapshot
  gw_show_topics :: bool
  gw_show_parameters :: bool
  gw_show_services :: bool
  gw_show_actions :: bool
  gw_show_local :: bool
  gw_show_remote :: bool
  gw_hosts :: "(string \<times> string) list"
  gw_host :: string
  gw_groups :: "(string \<times> string) list"
  gw_group :: string
  gw_model :: graph_model
  gw_canvas :: canvas
  gw_detail :: "string option"
  gw_status :: string
  gw_status_tooltip :: string

text \<open>The page as the constructor leaves it.\<close>

definition graph_widget0 :: "network_snapshot \<Rightarrow> graph_widget" where
  "graph_widget0 network = \<lparr>gw_applications = [], gw_elements = [], gw_topics = [], gw_parameters = [], gw_services = [],
     gw_network = network, gw_show_topics = True, gw_show_parameters = False, gw_show_services = False, gw_show_actions = False,
     gw_show_local = True, gw_show_remote = True, gw_hosts = [(''All'', [])], gw_host = [], gw_groups = [(''All'', [])],
     gw_group = [], gw_model = graph_model0, gw_canvas = canvas0, gw_detail = None, gw_status = [], gw_status_tooltip = []\<rparr>"

definition widget_options :: "graph_widget \<Rightarrow> graph_options" where
  "widget_options w = \<lparr>go_topics = gw_show_topics w, go_parameters = gw_show_parameters w, go_services = gw_show_services w,
     go_group = gw_group w, go_actions = gw_show_actions w, go_local = gw_show_local w, go_remote = gw_show_remote w,
     go_host = gw_host w\<rparr>"

definition widget_model :: "u64 \<Rightarrow> graph_options \<Rightarrow> graph_widget \<Rightarrow> graph_model" where
  "widget_model now options w =
     AddRemoteGraph now (BuildGraph (gw_applications w) (gw_elements w) (gw_topics w) (gw_parameters w) (gw_services w) options)
       (gw_network w) options"

abbreviation bullet :: string where "bullet \<equiv> [CHR 0x20, CHR 0xE2, CHR 0x80, CHR 0xA2, CHR 0x20]"

fun join_hidden :: "string list \<Rightarrow> string" where
  "join_hidden [] = []"
| "join_hidden [x] = x"
| "join_hidden (x # y # xs) = x @ '', '' @ join_hidden (y # xs)"

definition hidden_kinds :: "graph_widget \<Rightarrow> string list" where
  "hidden_kinds w = (if gw_show_topics w then [] else [''Topics'']) @ (if gw_show_parameters w then [] else [''Parameters''])
     @ (if gw_show_services w then [] else [''Services'']) @ (if gw_show_actions w then [] else [''Actions''])"

definition graph_status :: "graph_widget \<Rightarrow> graph_model \<Rightarrow> string" where
  "graph_status w m =
     (let routes = length (filter gd_network_route (gm_edges m))
      in to_string_nat (length (gm_nodes m)) @ '' nodes'' @ bullet @ to_string_nat (length (gm_edges m) - routes)
         @ '' metadata relations'' @ bullet @ to_string_nat routes @ '' verified network routes'' @ bullet @ ns_status (gw_network w)
         @ (if hidden_kinds w = [] then [] else bullet @ ''Hidden by filter: '' @ join_hidden (hidden_kinds w)))"

definition Draw :: "u64 \<Rightarrow> graph_widget \<Rightarrow> graph_widget" where
  "Draw now w =
     (let m = widget_model now (widget_options w) w
      in w\<lparr>gw_model := m, gw_detail := None, gw_canvas := draw_graph (gw_group w) m, gw_status := graph_status w m,
           gw_status_tooltip := ns_route_status (gw_network w) @ nl @ ''Visible endpoints depend on Topics / Parameters / Services / Actions ''
             @ ''toggles and Host/Application filters. Network routes require both endpoints visible.''\<rparr>)"

text \<open>A filter that is filled again keeps its choice where that is still offered, and falls back to All.\<close>

definition keep_choice :: "string \<Rightarrow> (string \<times> string) list \<Rightarrow> string" where
  "keep_choice previous choices = (if previous \<in> snd ` set choices then previous else snd (hd choices))"

definition host_choices :: "network_snapshot \<Rightarrow> (string \<times> string) list" where
  "host_choices network = [(''All'', []), (''Local'', ''local'')]
     @ map (\<lambda>h. (rh_label h @ '' ['' @ rh_id h @ '']'', rh_id h)) (ns_hosts network)"

definition group_choices :: "graph_model \<Rightarrow> (string \<times> string) list" where
  "group_choices m = (''All'', []) # map (\<lambda>g. (gg_label g, gg_id g)) (gm_groups m)"

definition SetSnapshot :: "u64 \<Rightarrow> application_info list \<Rightarrow> element_info list \<Rightarrow> topic_info list \<Rightarrow> parameter_info list
    \<Rightarrow> service_info list \<Rightarrow> network_snapshot \<Rightarrow> graph_widget \<Rightarrow> graph_widget" where
  "SetSnapshot now applications elements topics parameters services network w =
     (let w = w\<lparr>gw_applications := applications, gw_elements := elements, gw_topics := topics, gw_parameters := parameters,
            gw_services := services, gw_network := network\<rparr>;
          hosts = host_choices network; groups = group_choices (widget_model now graph_options0 w)
      in Draw now (w\<lparr>gw_hosts := hosts, gw_host := keep_choice (gw_host w) hosts,
           gw_groups := groups, gw_group := keep_choice (gw_group w) groups\<rparr>))"

text \<open>What activating a node asks for: a callback, or a menu of its endpoints.\<close>

datatype activation =
  Open_remote graph_node
| Open_element runtime_identity
| Open_topic endpoint_identity
| Topic_menu "(string \<times> endpoint_identity) list"
| No_activation

definition menu_text :: "graph_endpoint \<Rightarrow> string" where
  "menu_text e = ge_role e @ [CHR 0x20, CHR 0xE2, CHR 0x80, CHR 0x94, CHR 0x20] @ ''PID '' @ to_string_int (ri_pid (ei_runtime (ge_identity e)))
     @ '' / start '' @ to_string_u64 (ri_process_start_ticks (ei_runtime (ge_identity e)))
     @ '' / endpoint '' @ to_string_u64 (ei_registration_id (ge_identity e))"

definition Activate :: "graph_node \<Rightarrow> graph_widget \<Rightarrow> activation \<times> graph_widget" where
  "Activate n w =
     (if gn_host n \<noteq> [] then (Open_remote n, w\<lparr>gw_detail := Some (gn_detail n)\<rparr>)
      else if gn_kind n = GElement then (Open_element (gn_runtime n), w)
      else if gn_kind n \<noteq> GTopic then (No_activation, w)
      else case gn_endpoints n of
          [e] \<Rightarrow> (Open_topic (ge_identity e), w)
        | es \<Rightarrow> (Topic_menu (map (\<lambda>e. (menu_text e, ge_identity e)) es), w))"

text \<open>The selection of an item, and the return key on it.\<close>

definition select_item :: "string \<Rightarrow> graph_widget \<Rightarrow> graph_widget" where
  "select_item i w = w\<lparr>gw_detail := map_option gn_detail (find (\<lambda>n. gn_id n = i \<and> gn_host n \<noteq> []) (gm_nodes (gw_model w)))\<rparr>"

definition return_key :: "string \<Rightarrow> graph_widget \<Rightarrow> activation \<times> graph_widget" where
  "return_key i w = (case find (\<lambda>n. gn_id n = i) (gm_nodes (gw_model w)) of None \<Rightarrow> (No_activation, w) | Some n \<Rightarrow> Activate n w)"

text \<open>A check box or a filter that changes draws the graph again; Show all kinds checks four of them.\<close>

datatype toggle = T_topics | T_parameters | T_services | T_actions | T_local | T_remote

definition set_toggle :: "u64 \<Rightarrow> toggle \<Rightarrow> bool \<Rightarrow> graph_widget \<Rightarrow> graph_widget" where
  "set_toggle now t x w = (case t of
     T_topics \<Rightarrow> if gw_show_topics w = x then w else Draw now (w\<lparr>gw_show_topics := x\<rparr>)
   | T_parameters \<Rightarrow> if gw_show_parameters w = x then w else Draw now (w\<lparr>gw_show_parameters := x\<rparr>)
   | T_services \<Rightarrow> if gw_show_services w = x then w else Draw now (w\<lparr>gw_show_services := x\<rparr>)
   | T_actions \<Rightarrow> if gw_show_actions w = x then w else Draw now (w\<lparr>gw_show_actions := x\<rparr>)
   | T_local \<Rightarrow> if gw_show_local w = x then w else Draw now (w\<lparr>gw_show_local := x\<rparr>)
   | T_remote \<Rightarrow> if gw_show_remote w = x then w else Draw now (w\<lparr>gw_show_remote := x\<rparr>))"

definition show_all_kinds :: "u64 \<Rightarrow> graph_widget \<Rightarrow> graph_widget" where
  "show_all_kinds now w =
     set_toggle now T_actions True (set_toggle now T_services True (set_toggle now T_parameters True (set_toggle now T_topics True w)))"

definition choose_host :: "u64 \<Rightarrow> nat \<Rightarrow> graph_widget \<Rightarrow> graph_widget" where
  "choose_host now i w = (if i < length (gw_hosts w) then Draw now (w\<lparr>gw_host := snd (gw_hosts w ! i)\<rparr>) else w)"

definition choose_group :: "u64 \<Rightarrow> nat \<Rightarrow> graph_widget \<Rightarrow> graph_widget" where
  "choose_group now i w = (if i < length (gw_groups w) then Draw now (w\<lparr>gw_group := snd (gw_groups w ! i)\<rparr>) else w)"

text \<open>\<open>GraphView::Zoom\<close>: the scale stays between 0.15 and 4.\<close>

definition Zoom :: "double \<Rightarrow> double \<Rightarrow> double" where
  "Zoom factor current = (if 0 < current then max (15 / 100) (min 4 (current * factor)) else current)"

end
