(* ===== verification/GraphProps.thy ===== *)
theory GraphProps
  imports GraphWidget RemoteProps
begin

text \<open>
  What the drawing of the graph promises: no two nodes overlap, whatever the graph is, and of a graph the program
  builds every node is drawn and so is every edge. The columns of the layout carry the first part: each has a
  height below which it is still free.
\<close>

section \<open>The nodes on a canvas\<close>

definition node_items :: "canvas \<Rightarrow> node_item list" where
  "node_items c = concat (map (\<lambda>i. case i of Node n \<Rightarrow> [n] | _ \<Rightarrow> []) (cv_items c))"

definition links :: "canvas \<Rightarrow> link list" where
  "links c = concat (map (\<lambda>i. case i of Link l \<Rightarrow> [l] | _ \<Rightarrow> []) (cv_items c))"

definition drawn :: "canvas \<Rightarrow> box list" where
  "drawn c = map ni_box (node_items c)"

definition drawn_ids :: "canvas \<Rightarrow> string set" where
  "drawn_ids c = set (map fst (cv_boxes c))"

text \<open>Two boxes that do not overlap.\<close>

definition apart :: "box \<Rightarrow> box \<Rightarrow> bool" where
  "apart a b \<longleftrightarrow> bx_right a \<le> bx_left b \<or> bx_right b \<le> bx_left a \<or> bx_bottom a \<le> bx_top b \<or> bx_bottom b \<le> bx_top a"

definition laid_out :: "canvas \<Rightarrow> bool" where
  "laid_out c \<longleftrightarrow> sorted_wrt apart (drawn c) \<and> (\<forall>b \<in> set (drawn c). bx_left b < bx_right b)"

text \<open>The column from \<open>lo\<close> to \<open>hi\<close> is free from \<open>y\<close> on.\<close>

definition column :: "int \<Rightarrow> int \<Rightarrow> int \<Rightarrow> canvas \<Rightarrow> bool" where
  "column lo hi y c \<longleftrightarrow> (\<forall>b \<in> set (drawn c). bx_right b \<le> lo \<or> hi \<le> bx_left b \<or> bx_bottom b \<le> y)"

lemma drawn_add [simp]:
  "drawn (add_scene (Title t x y) c) = drawn c" "drawn (add_scene (Frame b z) c) = drawn c" "drawn (add_scene (Link l) c) = drawn c"
  "drawn (place n x y c) = drawn c @ [node_box n x y]" "drawn canvas0 = []"
  by (simp_all add: drawn_def node_items_def add_scene_def place_def Let_def canvas0_def)

lemma drawn_ids_add [simp]:
  "drawn_ids (add_scene i c) = drawn_ids c" "drawn_ids (place n x y c) = insert (gn_id n) (drawn_ids c)" "drawn_ids canvas0 = {}"
  by (simp_all add: drawn_ids_def add_scene_def place_def Let_def canvas0_def fst_set_om_put image_image[symmetric] set_map[symmetric] del: set_map)
     (simp_all add: fst_set_om_put)

lemma layout_frames [simp]:
  "laid_out (add_scene (Title t x y) c) = laid_out c" "laid_out (add_scene (Frame b z) c) = laid_out c" "laid_out (add_scene (Link l) c) = laid_out c"
  "column lo hi v (add_scene (Title t x y) c) = column lo hi v c" "column lo hi v (add_scene (Frame b z) c) = column lo hi v c"
  "laid_out canvas0" "column lo hi v canvas0"
  by (simp_all add: laid_out_def column_def)

lemma node_box_ends [simp]:
  "bx_left (node_box n x y) = x" "bx_top (node_box n x y) = y" "bx_right (node_box n x y) = x + node_width (gn_kind n)"
  "bx_bottom (node_box n x y) = y + node_height (gn_kind n)"
  by (simp_all add: node_box_def bx_right_def bx_bottom_def)

lemma node_sizes [simp]: "0 < node_width k" "node_width k \<le> 830" "node_height k \<le> 58" "k \<noteq> GElement \<Longrightarrow> node_height k = 38"
  "node_width GElement = 270" "node_height GElement = 58"
  by (simp_all add: node_width_def node_height_def)

lemma place_laid_out:
  assumes "laid_out c" and "column lo hi y c" and "lo \<le> x" and "x + node_width (gn_kind n) \<le> hi"
  shows "laid_out (place n x y c)"
  using assms by (fastforce simp: laid_out_def sorted_wrt_append column_def apart_def)

lemma place_column:
  "column lo hi y c \<Longrightarrow> y \<le> y' \<Longrightarrow> x + node_width (gn_kind n) \<le> lo \<or> hi \<le> x \<or> v + node_height (gn_kind n) \<le> y' \<Longrightarrow> column lo hi y' (place n x v c)"
  by (fastforce simp: column_def)

lemma column_mono: "column lo hi y c \<Longrightarrow> y \<le> y' \<Longrightarrow> column lo hi y' c"
  by (fastforce simp: column_def)

section \<open>No two nodes overlap\<close>

text \<open>The left column holds elements, the right one endpoints; a host takes both.\<close>

definition columns :: "int \<Rightarrow> int \<Rightarrow> canvas \<Rightarrow> bool" where
  "columns l r c \<longleftrightarrow> laid_out c \<and> column 0 600 l c \<and> column 600 1500 r c"

lemma columns_frames [simp]:
  "columns l r (add_scene (Title t x y) c) = columns l r c" "columns l r (add_scene (Frame b z) c) = columns l r c"
  by (simp_all add: columns_def)

lemma columns_mono: "columns l r c \<Longrightarrow> l \<le> l' \<Longrightarrow> r \<le> r' \<Longrightarrow> columns l' r' c"
  by (auto simp: columns_def intro: column_mono)

lemma columns_left: "columns l r c \<Longrightarrow> gn_kind n = GElement \<Longrightarrow> 0 \<le> x \<Longrightarrow> x \<le> 40 \<Longrightarrow> l + 58 \<le> l' \<Longrightarrow> columns l' r (place n x l c)"
  by (auto simp: columns_def intro: place_laid_out[of c 0 600] place_column)

lemma columns_right: "columns l r c \<Longrightarrow> gn_kind n \<noteq> GElement \<Longrightarrow> r + 38 \<le> r' \<Longrightarrow> columns l r' (place n 600 r c)"
proof -
  assume "columns l r c" "gn_kind n \<noteq> GElement" "r + 38 \<le> r'"
  moreover have "600 + node_width (gn_kind n) \<le> 1500" using node_sizes(2)[of "gn_kind n"] by linarith
  ultimately show ?thesis by (auto simp: columns_def intro: place_laid_out[of c 600 1500] place_column)
qed

lemma columns_host: "columns l r c \<Longrightarrow> l \<le> y \<Longrightarrow> r \<le> y \<Longrightarrow> y + 58 \<le> y' \<Longrightarrow> columns y' y' (place n 0 y c)"
proof -
  assume c: "columns l r c" and y: "l \<le> y" "r \<le> y" "y + 58 \<le> y'"
  have "column 0 1500 y c" unfolding column_def
  proof
    fix b assume b: "b \<in> set (drawn c)"
    then have "bx_left b < bx_right b" "bx_right b \<le> 0 \<or> 600 \<le> bx_left b \<or> bx_bottom b \<le> l" "bx_right b \<le> 600 \<or> 1500 \<le> bx_left b \<or> bx_bottom b \<le> r"
      using c by (auto simp: columns_def laid_out_def column_def)
    with y show "bx_right b \<le> 0 \<or> 1500 \<le> bx_left b \<or> bx_bottom b \<le> y" by auto
  qed
  moreover have "node_width (gn_kind n) \<le> 1500" "y + node_height (gn_kind n) \<le> y'" "y \<le> y'"
    using node_sizes(2,3)[of "gn_kind n"] y(3) by linarith+
  ultimately show ?thesis using c y
    by (auto simp: columns_def intro: place_laid_out[of c 0 1500] place_column[of 0 600 l] place_column[of 600 1500 r])
qed

lemma draw_elements_columns:
  "columns y r c \<Longrightarrow> fold (draw_element g) ns (y, c) = (y', c') \<Longrightarrow> columns y' r c' \<and> y \<le> y'"
proof (induction ns arbitrary: y c)
  case (Cons n ns)
  show ?case
  proof (cases "gn_kind n = GElement \<and> gn_group n = g")
    case True
    have "columns (y + 82) r (place n 20 y c)" by (rule columns_left) (use Cons.prems(1) True in simp_all)
    from Cons.IH[OF this] Cons.prems(2) True show ?thesis by (simp add: draw_element_def)
  next
    case False
    with Cons.IH[OF Cons.prems(1)] Cons.prems(2) show ?thesis by (simp add: draw_element_def)
  qed
qed simp

lemma draw_local_group_columns:
  assumes "columns y r c" and "draw_local_group chosen ns g (y, c) = (y', c')"
  shows "columns y' r c' \<and> y \<le> y'"
proof (cases "gg_host g \<noteq> [] \<or> (chosen \<noteq> [] \<and> gg_id g \<noteq> chosen)")
  case False
  obtain v d where v: "fold (draw_element (gg_id g)) ns (y + 30, add_scene (Title (gg_label g) 10 y) c) = (v, d)" by fastforce
  have "columns (y + 30) r (add_scene (Title (gg_label g) 10 y) c)" using assms(1) by (auto intro: columns_mono)
  from draw_elements_columns[OF this v] have d: "columns v r d" "y + 30 \<le> v" by simp_all
  then have "columns w r d" if "v \<le> w" for w using that by (auto intro: columns_mono)
  with False v d assms(2) show ?thesis by (auto simp: draw_local_group_def Let_def split: if_splits)
qed (use assms in \<open>auto simp: draw_local_group_def\<close>)

lemma draw_endpoints_columns:
  "columns l y c \<Longrightarrow> fold draw_endpoint ns (y, k, c) = (y', k', c') \<Longrightarrow> columns l y' c'"
proof (induction ns arbitrary: y k c)
  case (Cons n ns)
  show ?case
  proof (cases "gn_host n = [] \<and> gn_kind n \<noteq> GElement")
    case True
    have "columns l (y + 66) (place n 600 y c)" "columns l (y + 30 + 66) (place n 600 (y + 30) (add_scene (Title t 600 y) c))" for t
      by (rule columns_right; use Cons.prems(1) True in \<open>auto intro: columns_mono\<close>)+
    with Cons.IH Cons.prems(2) True show ?thesis by (auto simp: draw_endpoint_def split: if_splits)
  next
    case False
    with Cons.IH[OF Cons.prems(1)] Cons.prems(2) show ?thesis by (auto simp: draw_endpoint_def)
  qed
qed simp

lemma draw_remote_nodes_columns:
  "columns y r c \<Longrightarrow> fold (draw_remote_node g) ns (y, r, c) = (y', r', c') \<Longrightarrow> columns y' r' c' \<and> y \<le> y' \<and> r \<le> r'"
proof (induction ns arbitrary: y r c)
  case (Cons n ns)
  have left: "columns (y + 82) r (place n 30 y c)" if "gn_kind n = GElement" by (rule columns_left) (use Cons.prems(1) that in simp_all)
  have right: "columns y (r + 66) (place n 600 r c)" if "gn_kind n \<noteq> GElement" by (rule columns_right) (use Cons.prems(1) that in simp_all)
  show ?case
    using Cons.prems Cons.IH[OF left] Cons.IH[OF right] Cons.IH[OF Cons.prems(1)] by (auto simp: draw_remote_node_def split: if_splits)
qed simp

lemma draw_remote_group_columns:
  assumes "columns y y c" and "draw_remote_group chosen ns host g (y, c) = (y', c')"
  shows "columns y' y' c' \<and> y \<le> y'"
proof (cases "gg_host g \<noteq> host \<or> (chosen \<noteq> [] \<and> chosen \<noteq> gg_id g)")
  case False
  obtain v r d where v: "fold (draw_remote_node (gg_id g)) ns (y + 30, y + 30, add_scene (Title (gg_label g) 20 y) c) = (v, r, d)"
    by (metis prod_cases3)
  have "columns (y + 30) (y + 30) (add_scene (Title (gg_label g) 20 y) c)" using assms(1) by (auto intro: columns_mono)
  from draw_remote_nodes_columns[OF this v] have d: "columns v r d" "y + 30 \<le> v" "y + 30 \<le> r" by simp_all
  then have "columns (max v r + 30) (max v r + 30) d" by (auto intro: columns_mono)
  with False v d assms(2) show ?thesis by (auto simp: draw_remote_group_def Let_def)
qed (use assms in \<open>auto simp: draw_remote_group_def\<close>)

text \<open>A loop whose body keeps its columns keeps them.\<close>

definition column_step :: "('x \<Rightarrow> int \<times> canvas \<Rightarrow> int \<times> canvas) \<Rightarrow> bool" where
  "column_step f \<longleftrightarrow> (\<forall>x y c y' c'. columns y y c \<longrightarrow> f x (y, c) = (y', c') \<longrightarrow> columns y' y' c' \<and> y \<le> y')"

lemma fold_columns: "column_step f \<Longrightarrow> columns y y c \<Longrightarrow> fold f xs (y, c) = (y', c') \<Longrightarrow> columns y' y' c' \<and> y \<le> y'"
proof (induction xs arbitrary: y c)
  case (Cons x xs)
  obtain v d where v: "f x (y, c) = (v, d)" by fastforce
  then have "columns v v d" "y \<le> v" using Cons.prems(1,2) unfolding column_step_def by blast+
  with Cons.IH[of v d] Cons.prems(1,3) v show ?case by auto
qed simp

lemma remote_group_step: "column_step (draw_remote_group chosen ns host)"
  unfolding column_step_def using draw_remote_group_columns by blast

lemma draw_host_columns:
  assumes "columns y y c" and "draw_host chosen m h (y, c) = (y', c')"
  shows "columns y' y' c' \<and> y \<le> y'"
proof (cases "gn_kind h = GHost")
  case True
  obtain v d where v: "fold (draw_remote_group chosen (gm_nodes m) (gn_host h)) (gm_groups m) (y + 60, place h 0 y c) = (v, d)" by fastforce
  have "columns (y + 60) (y + 60) (place h 0 y c)" by (rule columns_host[OF assms(1)]) simp_all
  from fold_columns[OF remote_group_step this v] have d: "columns v v d" "y + 60 \<le> v" by simp_all
  then have "columns (v + 40) (v + 40) d" by (auto intro: columns_mono)
  with True v d assms(2) show ?thesis by (auto simp: draw_host_def)
qed (use assms in \<open>auto simp: draw_host_def\<close>)

lemma host_step: "column_step (draw_host chosen m)"
  unfolding column_step_def using draw_host_columns by blast

lemma draw_local_groups_columns:
  "columns y r c \<Longrightarrow> fold (draw_local_group chosen ns) gs (y, c) = (y', c') \<Longrightarrow> columns y' r c' \<and> y \<le> y'"
proof (induction gs arbitrary: y c)
  case (Cons g gs)
  obtain v d where v: "draw_local_group chosen ns g (y, c) = (v, d)" by fastforce
  from draw_local_group_columns[OF Cons.prems(1) v] Cons.IH[of v d] Cons.prems(2) v show ?case by auto
qed simp

lemma draw_nodes_laid_out: "laid_out (draw_nodes chosen m)"
proof -
  obtain y c where c: "fold (draw_local_group chosen (gm_nodes m)) (gm_groups m) (40, canvas0) = (y, c)" by fastforce
  obtain v k d where d: "fold draw_endpoint (gm_nodes m) (40, GElement, c) = (v, k, d)" by (metis prod_cases3)
  obtain z e where e: "fold (draw_host chosen m) (gm_nodes m) (max y v + 30, d) = (z, e)" by fastforce
  have "columns 40 40 canvas0" by (simp add: columns_def)
  from draw_local_groups_columns[OF this c] have "columns y 40 c" ..
  from draw_endpoints_columns[OF this d] have "columns (max y v + 30) (max y v + 30) d" by (auto intro: columns_mono)
  from fold_columns[OF host_step this e] have "columns z z e" ..
  then show ?thesis using c d e by (simp add: draw_nodes_def columns_def)
qed

lemma draw_edges_drawn: "drawn (snd (fold draw_edge es (l, c))) = drawn c \<and> cv_boxes (snd (fold draw_edge es (l, c))) = cv_boxes c"
proof (induction es arbitrary: l c)
  case (Cons e es)
  obtain l' c' where "draw_edge e (l, c) = (l', c')" by fastforce
  moreover from this have "drawn c' = drawn c" "cv_boxes c' = cv_boxes c"
    by (auto simp: draw_edge_def add_scene_def drawn_def node_items_def split: option.splits if_splits)
  ultimately show ?case using Cons.IH by simp
qed simp

section \<open>Which nodes are drawn\<close>

lemma fold_ids:
  assumes "\<And>x s. drawn_ids (p (f x s)) = drawn_ids (p s) \<union> A x"
  shows "drawn_ids (p (fold f xs s)) = drawn_ids (p s) \<union> \<Union> (A ` set xs)"
  by (induction xs arbitrary: s) (auto simp: assms)

definition chosen_group :: "string \<Rightarrow> graph_group \<Rightarrow> bool" where
  "chosen_group chosen g \<longleftrightarrow> chosen = [] \<or> gg_id g = chosen"

definition ids_where :: "graph_node list \<Rightarrow> (graph_node \<Rightarrow> bool) \<Rightarrow> string set" where
  "ids_where ns P = gn_id ` {n \<in> set ns. P n}"

lemma ids_where_UN: "ids_where ns P = \<Union> ((\<lambda>n. if P n then {gn_id n} else {}) ` set ns)"
  by (auto simp: ids_where_def)

lemma draw_elements_ids:
  "drawn_ids (snd (fold (draw_element g) ns yc)) = drawn_ids (snd yc) \<union> ids_where ns (\<lambda>n. gn_kind n = GElement \<and> gn_group n = g)"
  unfolding ids_where_UN by (rule fold_ids) (auto simp: draw_element_def split: prod.split)

lemma draw_local_group_ids:
  "drawn_ids (snd (draw_local_group chosen ns g yc)) = drawn_ids (snd yc)
     \<union> ids_where ns (\<lambda>n. gg_host g = [] \<and> chosen_group chosen g \<and> gn_kind n = GElement \<and> gn_group n = gg_id g)"
proof -
  obtain y c where yc: "yc = (y, c)" by (cases yc)
  let ?f = "fold (draw_element (gg_id g)) ns (y + 30, add_scene (Title (gg_label g) 10 y) c)"
  have "drawn_ids (snd ?f) = drawn_ids c \<union> ids_where ns (\<lambda>n. gn_kind n = GElement \<and> gn_group n = gg_id g)"
    by (simp add: draw_elements_ids)
  then show ?thesis
    by (cases ?f) (auto simp: yc draw_local_group_def Let_def chosen_group_def ids_where_def)
qed

lemma draw_endpoints_ids:
  "drawn_ids (snd (snd (fold draw_endpoint ns s))) = drawn_ids (snd (snd s)) \<union> ids_where ns (\<lambda>n. gn_host n = [] \<and> gn_kind n \<noteq> GElement)"
  unfolding ids_where_UN by (rule fold_ids[of "\<lambda>s. snd (snd s)"]) (auto simp: draw_endpoint_def split: prod.split)

lemma draw_remote_nodes_ids:
  "drawn_ids (snd (snd (fold (draw_remote_node g) ns s))) = drawn_ids (snd (snd s)) \<union> ids_where ns (\<lambda>n. gn_group n = g)"
  unfolding ids_where_UN by (rule fold_ids[of "\<lambda>s. snd (snd s)"]) (auto simp: draw_remote_node_def split: prod.split)

lemma draw_remote_group_ids:
  "drawn_ids (snd (draw_remote_group chosen ns host g yc)) = drawn_ids (snd yc)
     \<union> ids_where ns (\<lambda>n. gg_host g = host \<and> chosen_group chosen g \<and> gn_group n = gg_id g)"
proof -
  obtain y c where yc: "yc = (y, c)" by (cases yc)
  let ?f = "fold (draw_remote_node (gg_id g)) ns (y + 30, y + 30, add_scene (Title (gg_label g) 20 y) c)"
  have "drawn_ids (snd (snd ?f)) = drawn_ids c \<union> ids_where ns (\<lambda>n. gn_group n = gg_id g)"
    by (simp add: draw_remote_nodes_ids)
  then show ?thesis
    by (cases ?f) (auto simp: yc draw_remote_group_def Let_def chosen_group_def ids_where_def)
qed

text \<open>The nodes in a section of a host.\<close>

definition host_section :: "string \<Rightarrow> graph_model \<Rightarrow> graph_node \<Rightarrow> graph_node \<Rightarrow> bool" where
  "host_section chosen m h n \<longleftrightarrow> (\<exists>g \<in> set (gm_groups m). gg_host g = gn_host h \<and> chosen_group chosen g \<and> gn_group n = gg_id g)"

lemma draw_host_ids:
  "drawn_ids (snd (draw_host chosen m h yc)) = drawn_ids (snd yc)
     \<union> (if gn_kind h = GHost then insert (gn_id h) (ids_where (gm_nodes m) (host_section chosen m h)) else {})"
proof -
  obtain y c where yc: "yc = (y, c)" by (cases yc)
  let ?f = "fold (draw_remote_group chosen (gm_nodes m) (gn_host h)) (gm_groups m) (y + 60, place h 0 y c)"
  have "drawn_ids (snd ?f) = insert (gn_id h) (drawn_ids c) \<union> ids_where (gm_nodes m) (host_section chosen m h)"
    by (subst fold_ids[of snd, OF draw_remote_group_ids]) (auto simp: ids_where_def host_section_def)
  then show ?thesis by (cases ?f) (auto simp: yc draw_host_def)
qed

definition node_drawn :: "string \<Rightarrow> graph_model \<Rightarrow> graph_node \<Rightarrow> bool" where
  "node_drawn chosen m n \<longleftrightarrow> gn_kind n = GHost \<or> (gn_host n = [] \<and> gn_kind n \<noteq> GElement)
     \<or> (\<exists>g \<in> set (gm_groups m). gg_host g = [] \<and> chosen_group chosen g \<and> gn_kind n = GElement \<and> gn_group n = gg_id g)
     \<or> (\<exists>h \<in> set (gm_nodes m). gn_kind h = GHost \<and> host_section chosen m h n)"

lemma draw_nodes_ids: "drawn_ids (draw_nodes chosen m) = ids_where (gm_nodes m) (node_drawn chosen m)"
proof -
  let ?c = "fold (draw_local_group chosen (gm_nodes m)) (gm_groups m) (40, canvas0)"
  let ?d = "fold draw_endpoint (gm_nodes m) (40, GElement, snd ?c)"
  have c: "drawn_ids (snd ?c) = (\<Union>g \<in> set (gm_groups m). ids_where (gm_nodes m)
     (\<lambda>n. gg_host g = [] \<and> chosen_group chosen g \<and> gn_kind n = GElement \<and> gn_group n = gg_id g))"
    by (subst fold_ids[of snd, OF draw_local_group_ids]) simp
  have d: "drawn_ids (snd (snd ?d)) = drawn_ids (snd ?c) \<union> ids_where (gm_nodes m) (\<lambda>n. gn_host n = [] \<and> gn_kind n \<noteq> GElement)"
    by (simp add: draw_endpoints_ids)
  have e: "drawn_ids (snd (fold (draw_host chosen m) (gm_nodes m) (y, snd (snd ?d)))) = drawn_ids (snd (snd ?d))
     \<union> (\<Union>h \<in> set (gm_nodes m). if gn_kind h = GHost then insert (gn_id h) (ids_where (gm_nodes m) (host_section chosen m h)) else {})" for y
    by (subst fold_ids[of snd, OF draw_host_ids]) simp
  have "draw_nodes chosen m = snd (fold (draw_host chosen m) (gm_nodes m) (max (fst ?c) (fst ?d) + 30, snd (snd ?d)))"
    by (simp add: draw_nodes_def split: prod.split)
  then have all: "drawn_ids (draw_nodes chosen m) = (\<Union>g \<in> set (gm_groups m). ids_where (gm_nodes m)
       (\<lambda>n. gg_host g = [] \<and> chosen_group chosen g \<and> gn_kind n = GElement \<and> gn_group n = gg_id g))
     \<union> ids_where (gm_nodes m) (\<lambda>n. gn_host n = [] \<and> gn_kind n \<noteq> GElement)
     \<union> (\<Union>h \<in> set (gm_nodes m). if gn_kind h = GHost then insert (gn_id h) (ids_where (gm_nodes m) (host_section chosen m h)) else {})"
    by (simp only: e d c)
  show ?thesis
    unfolding all
  proof (intro equalityI subsetI)
    fix x assume "x \<in> ids_where (gm_nodes m) (node_drawn chosen m)"
    then obtain n where n: "x = gn_id n" "n \<in> set (gm_nodes m)" "node_drawn chosen m n" by (auto simp: ids_where_def)
    from n(3) show "x \<in> (\<Union>g \<in> set (gm_groups m). ids_where (gm_nodes m)
         (\<lambda>n. gg_host g = [] \<and> chosen_group chosen g \<and> gn_kind n = GElement \<and> gn_group n = gg_id g))
       \<union> ids_where (gm_nodes m) (\<lambda>n. gn_host n = [] \<and> gn_kind n \<noteq> GElement)
       \<union> (\<Union>h \<in> set (gm_nodes m). if gn_kind h = GHost then insert (gn_id h) (ids_where (gm_nodes m) (host_section chosen m h)) else {})"
      unfolding node_drawn_def using n(1,2) by (elim disjE bexE) (auto simp: ids_where_def)
  qed (auto simp: ids_where_def node_drawn_def split: if_splits)
qed

text \<open>Only the loop over the edges draws links.\<close>

lemma links_add [simp]:
  "links (add_scene (Title t x y) c) = links c" "links (add_scene (Frame b z) c) = links c" "links (place n x y c) = links c"
  "links canvas0 = []"
  by (simp_all add: links_def add_scene_def place_def Let_def canvas0_def)

lemma fold_links: "(\<And>x s. links (p (f x s)) = links (p s)) \<Longrightarrow> links (p (fold f xs s)) = links (p s)"
  by (induction xs arbitrary: s) auto

lemma draw_nodes_links: "links (draw_nodes chosen m) = []"
proof -
  have els: "links (snd (fold (draw_element g) ns yc)) = links (snd yc)" for g ns yc
    by (rule fold_links) (auto simp: draw_element_def split: prod.split)
  have local: "links (snd (draw_local_group chosen ns g (y, c))) = links c" for ns g y c
    using els[of "gg_id g" ns "(y + 30, add_scene (Title (gg_label g) 10 y) c)"]
    by (cases "fold (draw_element (gg_id g)) ns (y + 30, add_scene (Title (gg_label g) 10 y) c)") (auto simp: draw_local_group_def Let_def)
  have ends: "links (snd (snd (fold draw_endpoint ns s))) = links (snd (snd s))" for ns s
    by (rule fold_links[of "\<lambda>s. snd (snd s)"]) (auto simp: draw_endpoint_def split: prod.split)
  have nodes: "links (snd (snd (fold (draw_remote_node g) ns s))) = links (snd (snd s))" for g ns s
    by (rule fold_links[of "\<lambda>s. snd (snd s)"]) (auto simp: draw_remote_node_def split: prod.split)
  have group: "links (snd (draw_remote_group chosen ns host g (y, c))) = links c" for ns host g y c
    using nodes[of "gg_id g" ns "(y + 30, y + 30, add_scene (Title (gg_label g) 20 y) c)"]
    by (cases "fold (draw_remote_node (gg_id g)) ns (y + 30, y + 30, add_scene (Title (gg_label g) 20 y) c)")
      (auto simp: draw_remote_group_def Let_def)
  have groups: "links (snd (fold (draw_remote_group chosen ns host) gs yc)) = links (snd yc)" for ns host gs yc
    by (rule fold_links) (metis group prod.collapse)
  have host: "links (snd (draw_host chosen m h (y, c))) = links c" for h y c
    using groups[of "gm_nodes m" "gn_host h" "gm_groups m" "(y + 60, place h 0 y c)"]
    by (cases "fold (draw_remote_group chosen (gm_nodes m) (gn_host h)) (gm_groups m) (y + 60, place h 0 y c)") (auto simp: draw_host_def)
  have hosts: "links (snd (fold (draw_host chosen m) ns yc)) = links (snd yc)" for ns yc
    by (rule fold_links) (metis host prod.collapse)
  have locals: "links (snd (fold (draw_local_group chosen ns) gs yc)) = links (snd yc)" for ns gs yc
    by (rule fold_links) (metis local prod.collapse)
  let ?c = "fold (draw_local_group chosen (gm_nodes m)) (gm_groups m) (40, canvas0)"
  let ?d = "fold draw_endpoint (gm_nodes m) (40, GElement, snd ?c)"
  have "draw_nodes chosen m = snd (fold (draw_host chosen m) (gm_nodes m) (max (fst ?c) (fst ?d) + 30, snd (snd ?d)))"
    by (simp add: draw_nodes_def split: prod.split)
  then show ?thesis by (simp add: hosts locals ends)
qed

section \<open>The graphs of the program\<close>

lemma app_group_kept: "g \<in> fst ` set (fst gn) \<Longrightarrow> g \<in> fst ` set (fst (fold (add_element opts) es gn))"
proof (induction es arbitrary: gn)
  case (Cons e es)
  have "g \<in> fst ` set (fst (add_element opts e gn))" using Cons.prems by (simp add: add_element_def Let_def fst_set_om_put)
  from Cons.IH[OF this] show ?case by simp
qed simp

lemma element_group_listed: "e \<in> set es \<Longrightarrow> element_group e \<in> fst ` set (fst (fold (add_element opts) es gn))"
proof (induction es arbitrary: gn)
  case (Cons x es)
  have "element_group x \<in> fst ` set (fst (add_element opts x gn))"
    by (cases "map_of (fst gn) (element_group x)") (force simp: add_element_def Let_def fst_set_om_put dest: map_of_SomeD)+
  from app_group_kept[OF this] Cons.IH[of "add_element opts x gn"] Cons.prems show ?case by (cases "e = x") auto
qed simp

lemma BuildGraph_groups:
  "gm_groups (BuildGraph apps elements topics parameters services opts)
     = map (\<lambda>g. \<lparr>gg_id = fst g, gg_label = snd g, gg_host = []\<rparr>) (fst (elements_pass apps elements opts))"
  by (simp add: BuildGraph_def Let_def)

lemma shown_kind: "i \<in> shown opts elements topics parameters services \<Longrightarrow> it_kind i \<noteq> GElement"
  by (auto simp: shown_def graph_items_def split: if_splits)

lemma local_node_drawn:
  assumes "n \<in> set (gm_nodes (local_part opts (BuildGraph apps elements topics parameters services opts)))"
    and "set (gm_groups (local_part opts (BuildGraph apps elements topics parameters services opts))) \<subseteq> set (gm_groups m)"
  shows "node_drawn (go_group opts) m n"
proof -
  let ?b = "BuildGraph apps elements topics parameters services opts"
  have l: "local_part opts ?b = ?b" and n: "n \<in> set (gm_nodes ?b)" using assms(1) by (auto simp: local_part_def graph_model0_def split: if_splits)
  show ?thesis
  proof (cases "gn_kind n = GElement")
    case True
    have "gn_kind n = it_kind i" if "n\<lparr>gn_endpoints := []\<rparr> = item_node i" for i
      using arg_cong[OF that, of gn_kind] by (simp add: item_node_def)
    with graph_nodes_cases[OF n] True shown_kind obtain e where e: "e \<in> set (kept_elements opts elements)" "n = element_node e"
      by metis
    then have "element_group e \<in> fst ` set (fst (elements_pass apps elements opts))"
      by (auto simp: kept_elements_def elements_pass_def intro: element_group_listed)
    then obtain g where "g \<in> set (gm_groups ?b)" "gg_id g = element_group e" "gg_host g = []" by (force simp: BuildGraph_groups)
    moreover have "gn_group n = element_group e" "go_group opts = [] \<or> element_group e = go_group opts"
      using e by (auto simp: element_node_def kept_elements_def)
    ultimately show ?thesis using assms(2) l True unfolding node_drawn_def chosen_group_def by auto
  qed (use graph_nodes_local[OF n] in \<open>simp add: node_drawn_def\<close>)
qed

lemma host_node_drawn:
  assumes "n \<in> set (host_nodes opts network host)" and "set (host_nodes opts network host) \<subseteq> set (gm_nodes m)"
    and "set (host_groups opts network host) \<subseteq> set (gm_groups m)"
  shows "node_drawn (go_group opts) m n"
proof (cases "n = host_heading network host")
  case False
  with host_nodes_cases[OF assms(1)] obtain e where e: "e \<in> set (rh_endpoints host)" "in_group opts e" "gn_group n = remote_group e"
    by (auto simp: pass_node_def endpoint_shown_def remote_element_def remote_node_def)
  have groups: "fst ` set (rps_groups (host_pass opts network host)) = remote_group ` set (rh_endpoints host)"
    using host_pass_ok[of opts network host] by (simp add: pass_ok_def)
  then have "remote_group e \<in> fst ` set (rps_groups (host_pass opts network host))" using e(1) by blast
  then obtain g where g: "g \<in> set (host_groups opts network host)" "gg_id g = remote_group e" "gg_host g = rh_id host"
    by (force simp: host_groups_def)
  have "go_group opts = [] \<or> go_group opts = remote_group e" using e(2) by (auto simp: in_group_def)
  moreover have "go_group opts \<noteq> [] \<Longrightarrow> map_of (rps_groups (host_pass opts network host)) (go_group opts) \<noteq> None"
    using calculation groups e(1) by (auto simp: map_of_eq_None_iff)
  ultimately have "host_heading network host \<in> set (gm_nodes m)" "chosen_group (go_group opts) g"
    using assms(2) g(2) by (auto simp: host_nodes_def chosen_group_def)
  moreover have "gn_kind (host_heading network host) = GHost" "gn_host (host_heading network host) = rh_id host"
    by (simp_all add: host_heading_def)
  moreover have "g \<in> set (gm_groups m)" "gn_group n = gg_id g" using g e(3) assms(3) by auto
  ultimately have "host_section (go_group opts) m (host_heading network host) n" using g(3) unfolding host_section_def by metis
  with \<open>host_heading network host \<in> set (gm_nodes m)\<close> \<open>gn_kind (host_heading network host) = GHost\<close> show ?thesis
    unfolding node_drawn_def by blast
qed (simp add: node_drawn_def host_heading_def)

lemma program_nodes_drawn:
  assumes "m = AddRemoteGraph now (BuildGraph apps elements topics parameters services opts) network opts" and "n \<in> set (gm_nodes m)"
  shows "node_drawn (go_group opts) m n"
proof -
  let ?b = "BuildGraph apps elements topics parameters services opts"
  have nodes: "gm_nodes m = gm_nodes (local_part opts ?b) @ concat (map (host_nodes opts network) (shown_hosts opts network))"
    and groups: "gm_groups m = gm_groups (local_part opts ?b) @ concat (map (host_groups opts network) (shown_hosts opts network))"
    unfolding assms(1) by (rule AddRemoteGraph_nodes, rule AddRemoteGraph_groups)
  from assms(2) consider "n \<in> set (gm_nodes (local_part opts ?b))"
    | h where "h \<in> set (shown_hosts opts network)" "n \<in> set (host_nodes opts network h)" unfolding nodes by auto
  then show ?thesis
  proof cases
    case 1
    then show ?thesis by (rule local_node_drawn) (simp add: groups)
  next
    case 2
    show ?thesis by (rule host_node_drawn[OF 2(2)]) (use 2(1) in \<open>auto simp: nodes groups\<close>)
  qed
qed

lemma draw_edges_links:
  assumes "\<And>e. e \<in> set es \<Longrightarrow> gd_from e \<in> drawn_ids c \<and> gd_to e \<in> drawn_ids c"
  shows "length (links (snd (fold draw_edge es (l, c)))) = length (links c) + length es"
  using assms
proof (induction es arbitrary: l c)
  case (Cons e es)
  obtain l' c' where step: "draw_edge e (l, c) = (l', c')" by fastforce
  from Cons.prems[of e] obtain a b where ab: "map_of (cv_boxes c) (gd_from e) = Some a" "map_of (cv_boxes c) (gd_to e) = Some b"
    by (auto simp: drawn_ids_def dest!: weak_map_of_SomeI)
  then have "length (links c') = Suc (length (links c))" "drawn_ids c' = drawn_ids c"
    using step by (auto simp: draw_edge_def links_def add_scene_def drawn_ids_def split: if_splits)
  with Cons.IH[of c' l'] Cons.prems step show ?case by simp
qed simp

section \<open>Properties\<close>

text \<open>
  C11. However large the graph and whatever its filter, no two nodes of the drawing overlap, and each has a positive
  width.
\<close>

theorem graph_nodes_apart:
  "sorted_wrt apart (drawn (draw_graph chosen m)) \<and> list_all (\<lambda>b. bx_left b < bx_right b) (drawn (draw_graph chosen m))"
  using draw_nodes_laid_out[of chosen m] draw_edges_drawn unfolding draw_graph_def laid_out_def list_all_iff by metis

text \<open>
  C12. Of a graph of the program, whatever is filtered, every node is on the canvas and nothing else is, and
  every edge is drawn: none of its ends is missing.
\<close>

theorem graph_drawn_whole:
  "(let m = AddRemoteGraph now (BuildGraph apps elements topics parameters services opts) network opts;
        c = draw_graph (go_group opts) m
    in drawn_ids c = gn_id ` set (gm_nodes m) \<and> length (links c) = length (gm_edges m))"
proof -
  define m where "m = AddRemoteGraph now (BuildGraph apps elements topics parameters services opts) network opts"
  have ids: "drawn_ids (draw_nodes (go_group opts) m) = gn_id ` set (gm_nodes m)"
    using program_nodes_drawn[OF m_def] by (auto simp: draw_nodes_ids ids_where_def)
  have "length (links (draw_graph (go_group opts) m)) = length (links (draw_nodes (go_group opts) m)) + length (gm_edges m)"
    unfolding draw_graph_def
    by (rule draw_edges_links) (use remote_graph_closed[of now apps elements topics parameters services opts network opts] ids in \<open>auto simp: m_def\<close>)
  moreover have "links (draw_nodes (go_group opts) m) = []" by (rule draw_nodes_links)
  moreover have "drawn_ids (draw_graph (go_group opts) m) = drawn_ids (draw_nodes (go_group opts) m)"
    unfolding draw_graph_def drawn_ids_def using draw_edges_drawn by metis
  ultimately show ?thesis unfolding m_def[symmetric] Let_def by (simp add: ids)
qed

end
