(* ===== verification/RemoteWorkspace.thy ===== *)
theory RemoteWorkspace
  imports ParameterPanel NetworkRates GraphModel
begin

text \<open>
  The class \<open>RemoteWorkspace\<close> of \<open>src/ui/remote_workspace.cpp\<close>: the pages that show and control the endpoints
  of another host. A command goes to the backend with a future for its reply; the timer looks every 100 ms
  for the replies that have come (\<open>Tick\<close>). While a question is open the timer still runs: a \<open>dialog\<close> is the ticks
  that pass, and the answer. A widget is what the code reads from it or shows in it.
\<close>

section \<open>Texts\<close>

text \<open>\<open>QString::arg\<close>: the lowest numbered marker of the text, everywhere it stands.\<close>

definition marker :: "string \<Rightarrow> (nat \<times> nat) option" where
  "marker s = (let k = (case s of c # _ \<Rightarrow> if c = CHR ''L'' then 1 else 0 | [] \<Rightarrow> 0)
     in case drop k s of
          [] \<Rightarrow> None
        | c # r \<Rightarrow> if \<not> is_digit c then None
            else (case r of d # _ \<Rightarrow> if is_digit d then Some (10 * digit_val c + digit_val d, k + 2) else Some (digit_val c, k + 1)
                  | [] \<Rightarrow> Some (digit_val c, k + 1)))"

fun lowest_marker :: "string \<Rightarrow> nat option" where
  "lowest_marker [] = None"
| "lowest_marker (c # s) = (case (if c = CHR ''%'' then marker s else None) of
     None \<Rightarrow> lowest_marker s
   | Some (n, k) \<Rightarrow> (case lowest_marker (drop k s) of None \<Rightarrow> Some n | Some m \<Rightarrow> Some (min n m)))"

fun put_marker :: "nat \<Rightarrow> string \<Rightarrow> string \<Rightarrow> string" where
  "put_marker n t [] = []"
| "put_marker n t (c # s) = (case (if c = CHR ''%'' then marker s else None) of
     None \<Rightarrow> c # put_marker n t s
   | Some (m, k) \<Rightarrow> (if m = n then t else c # take k s) @ put_marker n t (drop k s))"

definition arg :: "string \<Rightarrow> string \<Rightarrow> string" where
  "arg s t = (case lowest_marker s of None \<Rightarrow> s | Some n \<Rightarrow> put_marker n t s)"

definition args :: "string \<Rightarrow> string list \<Rightarrow> string" where
  "args s ts = foldl arg s ts"

definition flag_text :: "bool \<Rightarrow> string" where
  "flag_text b = (if b then ''1'' else ''0'')"

fun replace_all :: "string \<Rightarrow> string \<Rightarrow> string \<Rightarrow> string" where
  "replace_all t u [] = []"
| "replace_all t u (c # s) = (if t \<noteq> [] \<and> take (length t) (c # s) = t then u @ replace_all t u (drop (length t - 1) s)
     else c # replace_all t u s)"

definition contains_text :: "string \<Rightarrow> string \<Rightarrow> bool" where
  "contains_text t s = list_ex (\<lambda>i. take (length t) (drop i s) = t) [0..<Suc (length s)]"

definition Error_text :: "(int \<Rightarrow> string) \<Rightarrow> int \<Rightarrow> string" where
  "Error_text strerror e = (if e \<noteq> 0 then strerror (- e) @ arg '' (%1)'' (to_string_int e) else ''OK'')"

definition Summary :: "(int \<Rightarrow> string) \<Rightarrow> remote_reply \<Rightarrow> remote_operation \<Rightarrow> string" where
  "Summary strerror r op =
     args ''%1 | response_received=%2 execution_unknown=%3 cancel_unknown=%4 ACK accepted=%5''
       [Error_text strerror (rp_error r), flag_text (rp_response_received r), flag_text (rp_execution_unknown r),
        flag_text (rp_cancel_unknown r), flag_text (rp_accepted r)]
     @ (if op = OpSet then '' | Readback: '' @ (if rp_error r \<noteq> 0 then ''not attempted'' else Error_text strerror (rp_readback_error r)) else [])"

definition Key :: "remote_endpoint \<Rightarrow> string" where
  "Key e = re_id e @ '':'' @ to_string_u64 (re_session e)"

section \<open>Forms\<close>

record form =
  fm_data :: data_snapshot
  fm_rows :: "row_key list"
  fm_cells :: "(string \<times> string) list"
  fm_texts :: "string list"
  fm_editable :: bool
  fm_dirty :: bool

definition Render :: "data_snapshot \<Rightarrow> bool \<Rightarrow> form" where
  "Render d editable = \<lparr>fm_data = d, fm_rows = row_keys d,
     fm_cells = map (\<lambda>k. (row_name d k, fv_type_name (ds_fields d ! fst k))) (row_keys d),
     fm_texts = map (text_at d) (row_keys d), fm_editable = editable, fm_dirty = False\<rparr>"

definition Edited :: "form \<Rightarrow> data_snapshot result" where
  "Edited f = EditedFields (fm_data f) (fm_texts f) (fm_rows f)"

definition no_form :: form where "no_form = Render data_snapshot0 False"

text \<open>The user types into the value cell of a row, which only an editable form allows.\<close>

definition edit_cell :: "nat \<Rightarrow> string \<Rightarrow> form \<Rightarrow> form" where
  "edit_cell r t f = (if fm_editable f \<and> r < length (fm_texts f) \<and> fm_texts f ! r \<noteq> t
     then f\<lparr>fm_texts := (fm_texts f)[r := t], fm_dirty := True\<rparr> else f)"

section \<open>State\<close>

definition remote_endpoint0 :: remote_endpoint where
  "remote_endpoint0 = \<lparr>re_identity = \<lparr>rei_host_id = [], rei_boot_id = [], rei_pid = 0, rei_start_ticks = 0, rei_registration_id = 0\<rparr>,
     re_session = 0, re_value_type = \<lparr>rti_type_id = 0, rti_schema_id = 0, rti_encoding_id = 0, rti_payload_size = 0\<rparr>,
     re_request_type = \<lparr>rti_type_id = 0, rti_schema_id = 0, rti_encoding_id = 0, rti_payload_size = 0\<rparr>,
     re_response_type = \<lparr>rti_type_id = 0, rti_schema_id = 0, rti_encoding_id = 0, rti_payload_size = 0\<rparr>,
     re_feedback_type = \<lparr>rti_type_id = 0, rti_schema_id = 0, rti_encoding_id = 0, rti_payload_size = 0\<rparr>,
     re_id = [], re_runtime_id = [], re_application_id = [], re_application = [], re_element = [], re_name = [], re_kind = [],
     re_role = [], re_scope = [], re_type = [], re_diagnostic = []\<rparr>"

definition remote_command0 :: remote_command where
  "remote_command0 = \<lparr>rc_operation = OpPrepare, rc_endpoint = remote_endpoint0, rc_input = data_snapshot0, rc_handle = 0,
     rc_timeout_ms = 1000, rc_tracking_ms = 60000\<rparr>"

definition remote_activity0 :: remote_activity where
  "remote_activity0 = \<lparr>ra_handle = 0, ra_endpoint = remote_endpoint0, ra_topic = False, ra_accepted = False, ra_terminal = False,
     ra_communication_lost = False, ra_execution_unknown = False, ra_cancel_unknown = False, ra_cancel_accepted = False,
     ra_has_value = False, ra_state = 0, ra_error = 0, ra_sequence = 0, ra_received_packets = 0, ra_route_id = 0, ra_observed_at = 0,
     ra_feedback = data_snapshot0, ra_result = data_snapshot0\<rparr>"

text \<open>The pages, which the code numbers by their tab.\<close>

datatype remote_tab = TopicTab | ParameterTab | ServiceTab | ActionTab

definition remote_tabs :: "remote_tab list" where "remote_tabs = [TopicTab, ParameterTab, ServiceTab, ActionTab]"

definition tab_index :: "remote_tab \<Rightarrow> int" where
  "tab_index t = (case t of TopicTab \<Rightarrow> 2 | ParameterTab \<Rightarrow> 3 | ServiceTab \<Rightarrow> 5 | ActionTab \<Rightarrow> 7)"

definition tab_kind :: "remote_tab \<Rightarrow> string" where
  "tab_kind t = (case t of TopicTab \<Rightarrow> ''T'' | ParameterTab \<Rightarrow> ''P'' | ServiceTab \<Rightarrow> ''S'' | ActionTab \<Rightarrow> ''A'')"

definition tab_role :: "remote_tab \<Rightarrow> string" where
  "tab_role t = (case t of TopicTab \<Rightarrow> ''PUBLISHER'' | ParameterTab \<Rightarrow> ''OWNER'' | ServiceTab \<Rightarrow> ''SERVER'' | ActionTab \<Rightarrow> ''SERVER'')"

text \<open>The operations of the two buttons of a page.\<close>

definition tab_operation :: "remote_tab \<Rightarrow> bool \<Rightarrow> remote_operation" where
  "tab_operation t second = (case t of
     TopicTab \<Rightarrow> if second then OpUnsubscribe else OpSubscribe
   | ParameterTab \<Rightarrow> if second then OpSet else OpGet
   | ServiceTab \<Rightarrow> if second then OpCall else OpPrepare
   | ActionTab \<Rightarrow> if second then OpGoal else OpPrepare)"

record remote_page =
  wp_choices :: "remote_endpoint list"
  wp_items :: "string list"
  wp_row :: int
  wp_metadata :: string
  wp_status :: string
  wp_input :: form
  wp_output :: form
  wp_buttons :: "bool \<times> bool"
  wp_selected :: remote_endpoint
  wp_revision :: u64
  wp_subscription :: u64
  wp_busy :: bool

definition remote_page0 :: remote_page where
  "remote_page0 = \<lparr>wp_choices = [], wp_items = [], wp_row = -1, wp_metadata = [], wp_status = [], wp_input = no_form, wp_output = no_form,
     wp_buttons = (True, True), wp_selected = remote_endpoint0, wp_revision = 0, wp_subscription = 0, wp_busy = False\<rparr>"

text \<open>A request whose reply has not been looked at: \<open>pd_ticket\<close> is its place among the commands sent.\<close>

record pending =
  pd_ticket :: nat
  pd_command :: remote_command
  pd_tab :: remote_tab
  pd_epoch :: u64
  pd_revision :: u64

record topic_rate =
  tr_at :: int
  tr_packets :: u64
  tr_route :: u64
  tr_hz :: double

record network_form =
  nf_text :: string
  nf_item_text :: string
  nf_item_data :: string
  nf_port :: u16
  nf_host_id :: string
  nf_enabled :: bool

text \<open>The trees: cells, the identity a row carries, and the rows below it.\<close>

record tree_item =
  ti_cells :: "string list"
  ti_id :: string

record tree_runtime =
  tt_cells :: "string list"
  tt_id :: string
  tt_items :: "tree_item list"

record tree_application =
  ta_cells :: "string list"
  ta_id :: string
  ta_runtimes :: "tree_runtime list"

record host_view =
  hv_hosts :: "(string \<times> string) list"
  hv_row :: int
  hv_selected :: string
  hv_remote :: bool
  hv_applications :: "tree_application list"
  hv_elements :: "tree_runtime list"
  hv_element_row :: int

record network_view =
  nv_snapshot :: network_snapshot
  nv_form :: network_form
  nv_epoch :: u64
  nv_configuring :: bool
  nv_configuration_status :: string
  nv_shutdown :: bool
  nv_closing :: bool
  nv_closed :: bool
  nv_apply :: bool
  nv_calls :: "(network_options \<times> bool) list"
  nv_saved :: "string option"

record activity_view =
  av_activities :: "(u64, remote_activity) omap"
  av_items :: "(string \<times> u64) list"
  av_row :: int
  av_status :: string
  av_feedback :: form
  av_result :: form
  av_cancel :: bool

record local_view =
  lv_status :: string
  lv_peers :: "(string list \<times> string list list) list"
  lv_observed :: u64

record remote_workspace =
  rw_host :: host_view
  rw_network :: network_view
  rw_activity :: activity_view
  rw_local :: local_view
  rw_pages :: "remote_tab \<Rightarrow> remote_page"
  rw_pending :: "pending list"
  rw_polling :: "nat option"
  rw_poll_epoch :: u64
  rw_rates :: "(u64, topic_rate) omap"
  rw_ticks :: nat
  rw_tab :: int
  rw_status :: string
  rw_timeout :: u32
  rw_tracking :: u32
  rw_sent :: "remote_command list"

text \<open>
  What a tick sees: the snapshots of the backend, the replies that have come by the place of their command, the
  code of \<open>ConfigureNetwork\<close> where it has returned, and the clock.
\<close>

record tick_input =
  tk_gateway :: local_gateway_snapshot
  tk_snapshot :: network_snapshot
  tk_configured :: "int option"
  tk_reply :: "nat \<Rightarrow> remote_reply option"
  tk_now :: int
  tk_date :: string

type_synonym dialog = "tick_input list \<times> bool"

section \<open>Pages\<close>

definition set_page :: "remote_tab \<Rightarrow> remote_page \<Rightarrow> remote_workspace \<Rightarrow> remote_workspace" where
  "set_page t p w = w\<lparr>rw_pages := (rw_pages w)(t := p)\<rparr>"

definition send_command :: "remote_command \<Rightarrow> remote_workspace \<Rightarrow> remote_workspace" where
  "send_command c w = w\<lparr>rw_sent := rw_sent w @ [c]\<rparr>"

definition Dirty :: "remote_workspace \<Rightarrow> bool" where
  "Dirty w = list_ex (\<lambda>t. fm_dirty (wp_input (rw_pages w t))) remote_tabs"

definition Clear :: "remote_page \<Rightarrow> remote_page" where
  "Clear p = p\<lparr>wp_revision := wp_revision p + 1, wp_selected := remote_endpoint0, wp_input := no_form, wp_output := no_form,
     wp_metadata := [], wp_status := ''Select a current Remote endpoint''\<rparr>"

definition is_current :: "network_snapshot \<Rightarrow> remote_endpoint \<Rightarrow> bool" where
  "is_current n e = list_ex (\<lambda>h. rh_id h = rei_host_id (re_identity e) \<and> rh_boot_id h = rei_boot_id (re_identity e)
     \<and> rh_session h = re_session e \<and> rh_state h = ''ONLINE'' \<and> rh_compatibility h = ''COMPATIBLE'' \<and> rh_metadata_ready h
     \<and> list_ex (\<lambda>v. re_id v = re_id e \<and> re_session v = re_session e) (rh_endpoints h)) (ns_hosts n)"

definition unsubscribe_command :: "u64 \<Rightarrow> remote_command" where
  "unsubscribe_command handle = remote_command0\<lparr>rc_operation := OpUnsubscribe, rc_handle := handle\<rparr>"

text \<open>What is left behind is unsubscribed, without waiting for the reply.\<close>

definition leave_subscription :: "remote_tab \<Rightarrow> remote_workspace \<Rightarrow> remote_workspace" where
  "leave_subscription t w = (let p = rw_pages w t in if wp_subscription p = 0 then w
     else set_page t (p\<lparr>wp_subscription := 0\<rparr>) (send_command (unsubscribe_command (wp_subscription p)) w))"

section \<open>Populate\<close>

definition selected_host :: "remote_workspace \<Rightarrow> remote_host option" where
  "selected_host w = List.find (\<lambda>h. rh_id h = hv_selected (rw_host w)) (rev (ns_hosts (nv_snapshot (rw_network w))))"

definition endpoint_item :: "remote_endpoint \<Rightarrow> tree_item" where
  "endpoint_item e = \<lparr>ti_cells = [re_name e, re_kind e @ '' / '' @ re_role e], ti_id = re_id e\<rparr>"

definition runtime_item :: "remote_endpoint \<Rightarrow> tree_runtime" where
  "runtime_item e = \<lparr>tt_cells = [re_element e, re_runtime_id e], tt_id = re_runtime_id e, tt_items = []\<rparr>"

definition application_item :: "remote_endpoint \<Rightarrow> tree_application" where
  "application_item e = \<lparr>ta_cells = [re_application e, re_application_id e], ta_id = re_application_id e, ta_runtimes = []\<rparr>"

definition add_item :: "remote_endpoint \<Rightarrow> tree_runtime \<Rightarrow> tree_runtime" where
  "add_item e r = (if tt_id r = re_runtime_id e then r\<lparr>tt_items := tt_items r @ [endpoint_item e]\<rparr> else r)"

text \<open>An item is made for an identity that has none yet; a runtime stays under the application it was first seen with.\<close>

definition add_application_row :: "remote_endpoint \<Rightarrow> tree_application list \<Rightarrow> tree_application list" where
  "add_application_row e apps =
     (let apps = (if list_ex (\<lambda>a. ta_id a = re_application_id e) apps then apps else apps @ [application_item e]);
          apps = (if list_ex (\<lambda>a. list_ex (\<lambda>r. tt_id r = re_runtime_id e) (ta_runtimes a)) apps then apps
            else map (\<lambda>a. if ta_id a = re_application_id e then a\<lparr>ta_runtimes := ta_runtimes a @ [runtime_item e]\<rparr> else a) apps)
      in map (\<lambda>a. a\<lparr>ta_runtimes := map (add_item e) (ta_runtimes a)\<rparr>) apps)"

definition add_element_row :: "remote_endpoint \<Rightarrow> tree_runtime list \<Rightarrow> tree_runtime list" where
  "add_element_row e rs =
     map (add_item e) (if list_ex (\<lambda>r. tt_id r = re_runtime_id e) rs then rs else rs @ [runtime_item e])"

definition host_endpoints :: "remote_host option \<Rightarrow> remote_endpoint list" where
  "host_endpoints h = (case h of None \<Rightarrow> [] | Some h \<Rightarrow> rh_endpoints h)"

definition populate_page :: "network_snapshot \<Rightarrow> remote_endpoint list \<Rightarrow> remote_tab \<Rightarrow> remote_page \<Rightarrow> remote_page" where
  "populate_page n es t p =
     (let es = filter (\<lambda>e. re_kind e = tab_kind t) es;
          row = last_index (\<lambda>e. Key e = Key (wp_selected p)) 0 es (-1);
          p = p\<lparr>wp_choices := es, wp_items := map (\<lambda>e. re_name e @ '' ['' @ re_role e @ ''] '' @ re_id e) es, wp_row := row\<rparr>
      in if re_id (wp_selected p) \<noteq> [] \<and> (\<not> is_current n (wp_selected p) \<or> row < 0)
         then (Clear p)\<lparr>wp_status := ''Selection invalidated: LOST / generation changed. Execution may continue on hardware; reselect explicitly.''\<rparr>
         else p)"

definition Populate :: "remote_workspace \<Rightarrow> remote_workspace" where
  "Populate w = (let n = nv_snapshot (rw_network w); es = host_endpoints (selected_host w)
     in w\<lparr>rw_host := (rw_host w)\<lparr>hv_applications := fold add_application_row es [], hv_elements := fold add_element_row es [], hv_element_row := -1\<rparr>,
          rw_pages := (\<lambda>t. populate_page n es t (rw_pages w t))\<rparr>)"

section \<open>Activities\<close>

definition current_activity :: "activity_view \<Rightarrow> u64 option" where
  "current_activity v = (if row_ok (av_row v) (av_items v) then Some (snd (av_items v ! nat (av_row v))) else None)"

definition activity_states :: "string list" where
  "activity_states = [''IDLE'', ''ACCEPTED'', ''RUNNING'', ''SUCCEEDED'', ''FAILED'', ''CANCELED'']"

definition state_text :: "string list \<Rightarrow> int \<Rightarrow> string" where
  "state_text names s = (if 0 \<le> s \<and> s < 6 then names ! nat s else ''UNKNOWN'')"

definition activity_text :: "(int \<Rightarrow> string) \<Rightarrow> remote_activity \<Rightarrow> string" where
  "activity_text strerror a = args (''Goal ACK=%1 | Cancel ACK=%2 | Terminal=%3 | State=%4 | %5'' @ [CHR 0x0A] @ ''execution_unknown=%6 cancel_unknown=%7 | %8'')
     [flag_text (ra_accepted a), flag_text (ra_cancel_accepted a), flag_text (ra_terminal a), state_text activity_states (ra_state a),
      Error_text strerror (ra_error a), flag_text (ra_execution_unknown a), flag_text (ra_cancel_unknown a),
      (if ra_communication_lost a then ''LOST/detached: hardware state unknown'' else ''Current session'')]"

definition ShowActivity :: "(int \<Rightarrow> string) \<Rightarrow> remote_workspace \<Rightarrow> remote_workspace" where
  "ShowActivity strerror w = (let v = rw_activity w; n = rw_network w in case current_activity v of
     None \<Rightarrow> w\<lparr>rw_activity := v\<lparr>av_cancel := False\<rparr>\<rparr>
   | Some h \<Rightarrow> (case map_of (av_activities v) h of
       None \<Rightarrow> w
     | Some a \<Rightarrow> let a = (if is_current (nv_snapshot n) (ra_endpoint a) then a else a\<lparr>ra_communication_lost := True\<rparr>)
         in w\<lparr>rw_activity := v\<lparr>av_activities := om_put h a (av_activities v), av_status := activity_text strerror a,
              av_feedback := Render (if ra_communication_lost a then data_snapshot0 else ra_feedback a) False,
              av_result := Render (if ra_communication_lost a then data_snapshot0 else ra_result a) False,
              av_cancel := (ns_remote_control_available (nv_snapshot n) \<and> \<not> ra_terminal a \<and> \<not> ra_communication_lost a
                \<and> \<not> nv_configuring n \<and> \<not> nv_closing n \<and> \<not> wp_busy (rw_pages w ActionTab))\<rparr>\<rparr>))"

section \<open>Configuration\<close>

definition is_space :: "char \<Rightarrow> bool" where
  "is_space c \<longleftrightarrow> of_char c \<in> {9, 10, 11, 12, 13, 32 :: nat}"

definition trimmed :: "string \<Rightarrow> string" where
  "trimmed s = rev (dropWhile is_space (rev (dropWhile is_space s)))"

definition lower_char :: "char \<Rightarrow> char" where
  "lower_char c = (if 65 \<le> (of_char c :: nat) \<and> (of_char c :: nat) \<le> 90 then char_of (of_char c + 32 :: nat) else c)"

definition host_id_ok :: "string \<Rightarrow> bool" where
  "host_id_ok s \<longleftrightarrow> length s = 32 \<and> list_all (\<lambda>c. hex_digit c \<noteq> -1 \<and> lower_char c = c) s \<and> s \<noteq> replicate 32 (CHR ''0'')"

definition form_options :: "network_form \<Rightarrow> network_options" where
  "form_options f = \<lparr>no_interface_address = (if nf_text f = nf_item_text f then nf_item_data f else nf_text f), no_port = nf_port f,
     no_host_id = map lower_char (trimmed (nf_host_id f))\<rparr>"

text \<open>\<open>Configure\<close> after its question.\<close>

definition configure_now :: "bool \<Rightarrow> remote_workspace \<Rightarrow> remote_workspace" where
  "configure_now shutdown w = (let n = rw_network w; opts = form_options (nv_form n)
     in if \<not> shutdown \<and> no_host_id opts \<noteq> [] \<and> \<not> host_id_ok (no_host_id opts)
        then w\<lparr>rw_status := ''Host ID must contain 32 hexadecimal digits and must not be zero''\<rparr>
        else w\<lparr>rw_pages := (\<lambda>t. (Clear (rw_pages w t))\<lparr>wp_subscription := 0\<rparr>),
           rw_activity := (rw_activity w)\<lparr>av_activities := map (\<lambda>(h, a). (h, a\<lparr>ra_communication_lost := True, ra_execution_unknown := \<not> ra_terminal a\<rparr>))
             (av_activities (rw_activity w))\<rparr>,
           rw_network := n\<lparr>nv_saved := (if shutdown then nv_saved n else Some (no_host_id opts)), nv_epoch := nv_epoch n + 1,
             nv_shutdown := shutdown, nv_apply := False, nv_configuring := True,
             nv_calls := nv_calls n @ [(opts, \<not> shutdown \<and> nf_enabled (nv_form n))]\<rparr>\<rparr>)"

section \<open>The local gateway\<close>

definition connection_name :: "local_gateway_connection \<Rightarrow> string" where
  "connection_name c = (case c of GW_READY \<Rightarrow> ''CONNECTED'' | GW_ERROR \<Rightarrow> ''ERROR'' | GW_CONNECTING \<Rightarrow> ''CONNECTING'' | GW_DISABLED \<Rightarrow> ''DISABLED'')"

definition gateway_text :: "local_gateway_snapshot \<Rightarrow> string" where
  "gateway_text s = args ''Local Gateway IPC: %1 | %2 | error=%3'' [connection_name (lgs_connection s), lgs_socket_path s, to_string_int (lgs_error s)]
     @ (if lgs_connection s = GW_READY
        then args ([CHR 0x0A] @ ''%1 | Host %2 | Boot %3 | Session %4 | %5 / %6 | Network error %7'')
          [lgs_state s, lgs_host s, lgs_boot s, to_string_u64 (lgs_session s), lgs_interface_name s, lgs_ipv4 s, to_string_int (lgs_last_network_error s)]
        else '' | no current snapshot'')"

definition peer_rows :: "local_gateway_peer \<Rightarrow> string list \<times> string list list" where
  "peer_rows p = ([lp_address p @ '' | '' @ lp_state p,
       lp_host p @ args '' | session %1 | revision %2'' [to_string_u64 (lp_session p), to_string_u64 (lp_metadata_revision p)]],
     map (\<lambda>e. [le_name e, rei_host_id (le_identity e) @ args '' / %1 / %2 / %3'' [to_string_int (rei_pid (le_identity e)),
       to_string_u64 (rei_start_ticks (le_identity e)), to_string_u64 (rei_registration_id (le_identity e))]]) (lp_endpoints p))"

definition LocalTick :: "local_gateway_snapshot \<Rightarrow> local_view \<Rightarrow> local_view" where
  "LocalTick s v = (let v = v\<lparr>lv_status := gateway_text s\<rparr>
     in if lgs_observed_at_unix_ms s = lv_observed v then v
        else v\<lparr>lv_observed := lgs_observed_at_unix_ms s, lv_peers := (if lgs_connection s = GW_READY then map peer_rows (lgs_peers s) else [])\<rparr>)"

section \<open>The timer\<close>

subsection \<open>Hosts and status\<close>

fun find_data :: "string \<Rightarrow> int \<Rightarrow> (string \<times> string) list \<Rightarrow> int" where
  "find_data d i [] = -1"
| "find_data d i (x # xs) = (if snd x = d then i else find_data d (i + 1) xs)"

definition host_label :: "remote_host \<Rightarrow> string" where
  "host_label h = rh_label h @ '' | '' @ rh_address h @ '' | '' @ rh_id h @ '' | '' @ rh_state h @ '' | '' @ rh_compatibility h
     @ arg '' | session %1'' (to_string_u64 (rh_session h))"

definition list_hosts :: "network_snapshot \<Rightarrow> host_view \<Rightarrow> host_view" where
  "list_hosts n v =
     (let hosts = (''Local'', []) # map (\<lambda>h. (host_label h, rh_id h)) (ns_hosts n);
          i = find_data (hv_selected v) 0 hosts
      in if i < 0 \<and> hv_selected v \<noteq> []
         then v\<lparr>hv_hosts := hosts @ [(''Unavailable Host '' @ hv_selected v, hv_selected v)], hv_row := int (length hosts)\<rparr>
         else v\<lparr>hv_hosts := hosts, hv_row := max 0 i\<rparr>)"

definition freshness :: "int \<Rightarrow> remote_host \<Rightarrow> string" where
  "freshness now h = (let observed = rnd_observed_at_unix_ms (rh_diagnostics h); age = now - sint observed
     in args '' | Session %1 | announce age %2 ms | Diagnostics observation %3 / age %4 ms%5''
       [to_string_u64 (rh_session h), to_string_u64 (rh_age_ms h), to_string_u64 observed,
        to_string_int (if observed \<noteq> 0 then age else -1),
        (if observed = 0 \<or> age < 0 \<or> 10000 < age then '' (Unavailable/stale)'' else [])])"

definition network_text :: "tick_input \<Rightarrow> string" where
  "network_text k = (let n = tk_snapshot k
     in ns_status n @ args '' | Remote Hosts ONLINE %1 / %2'' [to_string_nat (length (filter (\<lambda>h. rh_state h = ''ONLINE'') (ns_hosts n))),
          to_string_nat (length (ns_hosts n))]
        @ [CHR 0x0A] @ ''Tool Host: '' @ ns_observer_host n
        @ (if ns_remote_control_available n then '' | explicit Control Client'' else if ns_network_client_available n then '' | temporary Topic Observer''
           else '' | Discovery-only / unavailable'') @ '' | snapshot '' @ tk_date k)"

definition show_status :: "tick_input \<Rightarrow> remote_workspace \<Rightarrow> remote_workspace" where
  "show_status k w = w\<lparr>rw_status := nv_configuration_status (rw_network w) @ '' ''
     @ replace_all '' | snapshot '' '' | Snapshot read '' (network_text k)
     @ (case selected_host w of None \<Rightarrow> [] | Some h \<Rightarrow> freshness (tk_now k) h)\<rparr>"

subsection \<open>Replies\<close>

definition accept_reply :: "remote_operation \<Rightarrow> remote_reply \<Rightarrow> remote_page \<Rightarrow> remote_page" where
  "accept_reply op r p = (if rp_error r \<noteq> 0 then p else case op of
     OpPrepare \<Rightarrow> p\<lparr>wp_input := Render (rp_value r) True\<rparr>
   | OpGet \<Rightarrow> p\<lparr>wp_input := Render (rp_value r) True\<rparr>
   | OpSet \<Rightarrow> (if rp_readback_error r = 0 then p\<lparr>wp_input := Render (rp_value r) True, wp_output := Render (rp_value r) False\<rparr>
       else p\<lparr>wp_input := no_form, wp_output := no_form\<rparr>)
   | OpCall \<Rightarrow> p\<lparr>wp_output := Render (rp_value r) False, wp_input := (wp_input p)\<lparr>fm_dirty := False\<rparr>\<rparr>
   | OpGoal \<Rightarrow> p\<lparr>wp_input := (wp_input p)\<lparr>fm_dirty := False\<rparr>\<rparr>
   | OpSubscribe \<Rightarrow> p\<lparr>wp_subscription := rp_handle r\<rparr>
   | OpUnsubscribe \<Rightarrow> p\<lparr>wp_subscription := 0, wp_output := no_form\<rparr>
   | OpCancel \<Rightarrow> p | OpPoll \<Rightarrow> p)"

definition goal_activity :: "remote_command \<Rightarrow> remote_reply \<Rightarrow> remote_activity" where
  "goal_activity c r = remote_activity0\<lparr>ra_handle := rp_handle r, ra_endpoint := rc_endpoint c,
     ra_accepted := (rp_response_received r \<and> rp_error r = 0), ra_execution_unknown := rp_execution_unknown r\<rparr>"

definition reply_page :: "(int \<Rightarrow> string) \<Rightarrow> network_view \<Rightarrow> pending \<Rightarrow> remote_reply \<Rightarrow> remote_page \<Rightarrow> remote_page" where
  "reply_page strerror n d r p =
     (let c = pd_command d; op = rc_operation c; p = p\<lparr>wp_busy := False\<rparr>
      in if pd_epoch d = nv_epoch n \<and> pd_revision d = wp_revision p \<and> (op = OpUnsubscribe \<or> is_current (nv_snapshot n) (rc_endpoint c))
         then accept_reply op r (p\<lparr>wp_status := Summary strerror r op\<rparr>)
         else if op = OpSet \<or> op = OpCall \<or> op = OpGoal
         then p\<lparr>wp_status := ''Stale selection result (not applied to new fields): '' @ Summary strerror r op\<rparr>
         else p)"

text \<open>A goal is listed and a subscription of a former selection ended also when the page has moved on.\<close>

definition apply_reply :: "(int \<Rightarrow> string) \<Rightarrow> pending \<Rightarrow> remote_reply \<Rightarrow> remote_workspace \<Rightarrow> remote_workspace" where
  "apply_reply strerror d r w =
     (let c = pd_command d; op = rc_operation c; p = rw_pages w (pd_tab d); same = (pd_epoch d = nv_epoch (rw_network w));
          w = (if same \<and> op = OpGoal \<and> rp_handle r \<noteq> 0
               then w\<lparr>rw_activity := (rw_activity w)\<lparr>av_activities := om_put (rp_handle r) (goal_activity c r) (av_activities (rw_activity w))\<rparr>\<rparr> else w);
          w = (if same \<and> pd_revision d \<noteq> wp_revision p \<and> op = OpSubscribe \<and> rp_handle r \<noteq> 0
               then send_command (unsubscribe_command (rp_handle r)) w else w)
      in set_page (pd_tab d) (reply_page strerror (rw_network w) d r p) w)"

definition finish_requests :: "(int \<Rightarrow> string) \<Rightarrow> (nat \<Rightarrow> remote_reply option) \<Rightarrow> remote_workspace \<Rightarrow> remote_workspace" where
  "finish_requests strerror reply w =
     (fold (\<lambda>d w. case reply (pd_ticket d) of None \<Rightarrow> w | Some r \<Rightarrow> apply_reply strerror d r w) (rw_pending w) w)
       \<lparr>rw_pending := filter (\<lambda>d. reply (pd_ticket d) = None) (rw_pending w)\<rparr>"

subsection \<open>Polling\<close>

definition topic_states :: "string list" where
  "topic_states = [''WAITING_ROUTE'', ''ACTIVE'', ''LOST'', ''STALE'', ''ERROR'', ''CLOSED'']"

text \<open>The rate of a topic: it starts over when the route changes or the counter falls, and is measured over half a second.\<close>

definition measure_topic :: "remote_activity \<Rightarrow> topic_rate \<Rightarrow> topic_rate" where
  "measure_topic a rate =
     (let rate = (if tr_at rate = 0 \<or> tr_route rate \<noteq> ra_route_id a \<or> ra_received_packets a < tr_packets rate
            then \<lparr>tr_at = ra_observed_at a, tr_packets = ra_received_packets a, tr_route = ra_route_id a, tr_hz = -1\<rparr> else rate);
          dt = ns_to_seconds (ra_observed_at a - tr_at rate)
      in if 1 / 2 \<le> dt
         then rate\<lparr>tr_hz := per_second (ra_received_packets a - tr_packets rate) dt, tr_at := ra_observed_at a, tr_packets := ra_received_packets a\<rparr>
         else rate)"

definition topic_rate0 :: topic_rate where
  "topic_rate0 = \<lparr>tr_at = 0, tr_packets = 0, tr_route = 0, tr_hz = -1\<rparr>"

definition topic_measured :: "remote_activity \<Rightarrow> (u64, topic_rate) omap \<Rightarrow> double \<times> (u64, topic_rate) omap" where
  "topic_measured a rates = (if ra_state a = 1 \<and> \<not> ra_communication_lost a
     then let rate = measure_topic a (case map_of rates (ra_handle a) of None \<Rightarrow> topic_rate0 | Some rate \<Rightarrow> rate)
          in (tr_hz rate, om_put (ra_handle a) rate rates)
     else (-1, om_erase (ra_handle a) rates))"

definition topic_text :: "(int \<Rightarrow> string) \<Rightarrow> (double \<Rightarrow> string) \<Rightarrow> remote_activity \<Rightarrow> double \<Rightarrow> string" where
  "topic_text strerror fixed a hz = args ''Topic state=%1 | Sequence=%2 | Receive Hz=%3 | %4%5''
     [state_text topic_states (ra_state a), to_string_u64 (ra_sequence a),
      (if ra_communication_lost a \<or> ra_terminal a then ''Unavailable'' else if hz < 0 then ''Measuring'' else fixed hz),
      Error_text strerror (ra_error a),
      (if ra_communication_lost a then '' | LOST/stale; retained handle must be unsubscribed'' else [])]"

definition show_topic :: "(int \<Rightarrow> string) \<Rightarrow> (double \<Rightarrow> string) \<Rightarrow> remote_activity \<Rightarrow> remote_workspace \<Rightarrow> remote_workspace" where
  "show_topic strerror fixed a w = (let p = rw_pages w TopicTab in if wp_subscription p \<noteq> ra_handle a then w
     else case topic_measured a (rw_rates w) of (hz, rates) \<Rightarrow>
       let p = p\<lparr>wp_status := topic_text strerror fixed a hz\<rparr>
       in if ra_has_value a then set_page TopicTab (p\<lparr>wp_output := Render (ra_feedback a) False\<rparr>) (w\<lparr>rw_rates := rates\<rparr>)
          else if ra_communication_lost a \<or> ra_terminal a
          then set_page TopicTab (p\<lparr>wp_output := no_form\<rparr>) (w\<lparr>rw_rates := om_erase (ra_handle a) rates\<rparr>)
          else set_page TopicTab p (w\<lparr>rw_rates := rates\<rparr>))"

definition poll_activity :: "(int \<Rightarrow> string) \<Rightarrow> (double \<Rightarrow> string) \<Rightarrow> remote_activity \<Rightarrow> remote_workspace \<Rightarrow> remote_workspace" where
  "poll_activity strerror fixed a w = (if ra_topic a then show_topic strerror fixed a w
     else w\<lparr>rw_activity := (rw_activity w)\<lparr>av_activities := om_put (ra_handle a) a (av_activities (rw_activity w))\<rparr>\<rparr>)"

text \<open>Over 128 activities the ones that are over go, the oldest handles first.\<close>

definition ended :: "remote_activity \<Rightarrow> bool" where
  "ended a \<longleftrightarrow> ra_terminal a \<or> ra_communication_lost a"

fun drop_ended :: "nat \<Rightarrow> (u64 \<times> remote_activity) list \<Rightarrow> (u64 \<times> remote_activity) list" where
  "drop_ended excess [] = []"
| "drop_ended excess (x # xs) = (if excess = 0 then x # xs else if ended (snd x) then drop_ended (excess - 1) xs else x # drop_ended excess xs)"

definition list_activities :: "activity_view \<Rightarrow> activity_view" where
  "list_activities v =
     (let activities = drop_ended (length (av_activities v) - 128) (av_activities v);
          selected = (case current_activity v of None \<Rightarrow> 0 | Some h \<Rightarrow> h)
      in v\<lparr>av_activities := activities,
           av_items := map (\<lambda>(h, a). (re_name (ra_endpoint a) @ '' | '' @ rei_host_id (re_identity (ra_endpoint a)) @ arg '' | Goal handle %1'' (to_string_u64 h), h)) activities,
           av_row := last_index (\<lambda>(h, a). h = selected) 0 activities (-1)\<rparr>)"

definition finish_poll :: "(int \<Rightarrow> string) \<Rightarrow> (double \<Rightarrow> string) \<Rightarrow> (nat \<Rightarrow> remote_reply option) \<Rightarrow> remote_workspace \<Rightarrow> remote_workspace" where
  "finish_poll strerror fixed reply w = (case rw_polling w of None \<Rightarrow> w | Some ticket \<Rightarrow> (case reply ticket of None \<Rightarrow> w | Some r \<Rightarrow>
     let n = rw_network w; w = w\<lparr>rw_polling := None\<rparr>;
         w = (if rw_poll_epoch w = nv_epoch n \<and> \<not> nv_configuring n \<and> \<not> nv_closing n then fold (poll_activity strerror fixed) (rp_activities r) w else w)
     in ShowActivity strerror (w\<lparr>rw_activity := list_activities (rw_activity w)\<rparr>)))"

definition start_poll :: "remote_workspace \<Rightarrow> remote_workspace" where
  "start_poll w = (let n = rw_network w
     in if rw_ticks w mod 5 = 0 \<and> rw_polling w = None \<and> ns_network_client_available (nv_snapshot n) \<and> \<not> nv_configuring n \<and> \<not> nv_closing n
        then send_command (remote_command0\<lparr>rc_operation := OpPoll\<rparr>) (w\<lparr>rw_poll_epoch := nv_epoch n, rw_polling := Some (length (rw_sent w))\<rparr>) else w)"

subsection \<open>Buttons\<close>

definition page_live :: "network_view \<Rightarrow> remote_tab \<Rightarrow> remote_page \<Rightarrow> bool" where
  "page_live n t p \<longleftrightarrow> is_current (nv_snapshot n) (wp_selected p) \<and> re_scope (wp_selected p) = ''REMOTE''
     \<and> (if t = TopicTab then ns_network_client_available (nv_snapshot n) else ns_remote_control_available (nv_snapshot n))
     \<and> \<not> wp_busy p \<and> \<not> nv_configuring n \<and> \<not> nv_closing n"

definition enable_buttons :: "network_view \<Rightarrow> remote_tab \<Rightarrow> remote_page \<Rightarrow> remote_page" where
  "enable_buttons n t p = (let on = (page_live n t p \<and> re_role (wp_selected p) = tab_role t)
     in p\<lparr>wp_buttons := (if t = TopicTab then (on \<and> wp_subscription p = 0, wp_subscription p \<noteq> 0 \<and> \<not> wp_busy p \<and> \<not> nv_configuring n)
          else (on, on \<and> ds_fields (fm_data (wp_input p)) \<noteq> []))\<rparr>)"

subsection \<open>Tick\<close>

text \<open>The end of \<open>ConfigureNetwork\<close>; whether the tick ends there.\<close>

definition finish_configuration :: "(int \<Rightarrow> string) \<Rightarrow> tick_input \<Rightarrow> remote_workspace \<Rightarrow> bool \<times> remote_workspace" where
  "finish_configuration strerror k w = (let n = rw_network w in case tk_configured k of
     Some code \<Rightarrow> if \<not> nv_configuring n then (False, w)
       else let text = ''Network settings: '' @ Error_text strerror code; n = n\<lparr>nv_configuring := False, nv_configuration_status := text, nv_apply := True\<rparr>;
                w = w\<lparr>rw_network := n, rw_status := text\<rparr>
            in if \<not> nv_closing n then (False, w)
               else if nv_shutdown n then (True, w\<lparr>rw_network := n\<lparr>nv_closed := True\<rparr>\<rparr>)
               else (True, configure_now True w)
   | None \<Rightarrow> (False, w))"

text \<open>A tick first looks at the network and then takes up the replies that have come.\<close>

definition look_around :: "(int \<Rightarrow> string) \<Rightarrow> tick_input \<Rightarrow> remote_workspace \<Rightarrow> remote_workspace" where
  "look_around strerror k w =
     (let w = w\<lparr>rw_network := (rw_network w)\<lparr>nv_snapshot := tk_snapshot k\<rparr>\<rparr>;
          w = (if current_activity (rw_activity w) = None then w else ShowActivity strerror w);
          w = w\<lparr>rw_ticks := Suc (rw_ticks w)\<rparr>
      in show_status k (if rw_ticks w mod 5 = 0 then Populate (w\<lparr>rw_host := list_hosts (tk_snapshot k) (rw_host w)\<rparr>) else w))"

definition take_replies :: "(int \<Rightarrow> string) \<Rightarrow> (double \<Rightarrow> string) \<Rightarrow> tick_input \<Rightarrow> remote_workspace \<Rightarrow> remote_workspace" where
  "take_replies strerror fixed k w =
     (let w = start_poll (finish_poll strerror fixed (tk_reply k) (finish_requests strerror (tk_reply k) w))
      in w\<lparr>rw_pages := (\<lambda>t. enable_buttons (rw_network w) t (rw_pages w t))\<rparr>)"

definition Tick :: "(int \<Rightarrow> string) \<Rightarrow> (double \<Rightarrow> string) \<Rightarrow> tick_input \<Rightarrow> remote_workspace \<Rightarrow> remote_workspace" where
  "Tick strerror fixed k w =
     (case finish_configuration strerror k (w\<lparr>rw_local := LocalTick (tk_gateway k) (rw_local w)\<rparr>) of (stop, w) \<Rightarrow>
      if stop then w else take_replies strerror fixed k (look_around strerror k w))"

section \<open>Requests\<close>

text \<open>A question: the ticks that pass while it is open, and the answer.\<close>

definition ask :: "(int \<Rightarrow> string) \<Rightarrow> (double \<Rightarrow> string) \<Rightarrow> dialog \<Rightarrow> remote_workspace \<Rightarrow> bool \<times> remote_workspace" where
  "ask strerror fixed d w = (snd d, fold (Tick strerror fixed) (fst d) w)"

definition Submit :: "remote_tab \<Rightarrow> remote_command \<Rightarrow> remote_workspace \<Rightarrow> remote_workspace" where
  "Submit t c w = (let p = rw_pages w t
     in send_command c (set_page t (p\<lparr>wp_busy := True, wp_status := ''Request in progress; no automatic retry''\<rparr>)
          (w\<lparr>rw_pending := rw_pending w @ [\<lparr>pd_ticket = length (rw_sent w), pd_command = c, pd_tab = t, pd_epoch = nv_epoch (rw_network w),
             pd_revision = wp_revision p\<rparr>]\<rparr>)))"

definition request_command :: "remote_tab \<Rightarrow> remote_operation \<Rightarrow> remote_workspace \<Rightarrow> remote_command result" where
  "request_command t op w = (let p = rw_pages w t in res_bind (Edited (wp_input p)) (\<lambda>v.
     Inr \<lparr>rc_operation = op, rc_endpoint = wp_selected p, rc_input = v, rc_handle = wp_subscription p, rc_timeout_ms = rw_timeout w,
          rc_tracking_ms = rw_tracking w\<rparr>))"

definition send_request :: "remote_tab \<Rightarrow> remote_operation \<Rightarrow> remote_workspace \<Rightarrow> remote_workspace result" where
  "send_request t op w = res_bind (request_command t op w) (\<lambda>c. let p = rw_pages w t in
     if op = OpSubscribe \<and> wp_subscription p \<noteq> 0 then Inr (set_page t (p\<lparr>wp_status := ''Unsubscribe the existing subscription first.''\<rparr>) w)
     else Inr (Submit t c w))"

definition Request :: "(int \<Rightarrow> string) \<Rightarrow> (double \<Rightarrow> string) \<Rightarrow> dialog \<Rightarrow> remote_tab \<Rightarrow> remote_operation \<Rightarrow> remote_workspace \<Rightarrow> remote_workspace result" where
  "Request strerror fixed d t op w = (let p = rw_pages w t in
     if wp_busy p then Inr w
     else if (op = OpGet \<or> op = OpPrepare) \<and> fm_dirty (wp_input p)
     then (case ask strerror fixed d w of (yes, w) \<Rightarrow> if yes then send_request t op w else Inr w)
     else send_request t op w)"

text \<open>\<open>Select\<close> after its question; the row may have gone meanwhile.\<close>

definition metadata_text :: "remote_endpoint \<Rightarrow> string" where
  "metadata_text e = re_id e @ arg ([CHR 0x0A] @ ''Session %1 | '') (to_string_u64 (re_session e)) @ re_scope e @ [CHR 0x0A] @ re_type e"

definition select_now :: "(int \<Rightarrow> string) \<Rightarrow> (double \<Rightarrow> string) \<Rightarrow> dialog \<Rightarrow> remote_tab \<Rightarrow> int \<Rightarrow> remote_workspace \<Rightarrow> remote_workspace result" where
  "select_now strerror fixed d t row w = (let w = leave_subscription t w; p = Clear (rw_pages w t) in
     res_bind (nth_res (wp_choices p) (nat row)) (\<lambda>e.
       let w = set_page t (p\<lparr>wp_selected := e, wp_metadata := metadata_text e\<rparr>) w; n = nv_snapshot (rw_network w)
       in if t \<noteq> TopicTab \<and> is_current n e \<and> ns_remote_control_available n \<and> re_scope e = ''REMOTE''
          then Request strerror fixed d t (if t = ParameterTab then OpGet else OpPrepare) w else Inr w))"

definition Select :: "(int \<Rightarrow> string) \<Rightarrow> (double \<Rightarrow> string) \<Rightarrow> dialog \<Rightarrow> remote_tab \<Rightarrow> int \<Rightarrow> remote_workspace \<Rightarrow> remote_workspace result" where
  "Select strerror fixed d t row w = (let p = rw_pages w t in
     if \<not> row_ok row (wp_choices p) then Inr w
     else if fm_dirty (wp_input p)
     then (case ask strerror fixed d w of (yes, w) \<Rightarrow>
       if yes then select_now strerror fixed d t row w
       else let p = rw_pages w t in Inr (set_page t (p\<lparr>wp_row := last_index (\<lambda>e. Key e = Key (wp_selected p)) 0 (wp_choices p) (wp_row p)\<rparr>) w))
     else select_now strerror fixed d t row w)"

text \<open>A list tells of a row only when it changes.\<close>

definition choose_row :: "(int \<Rightarrow> string) \<Rightarrow> (double \<Rightarrow> string) \<Rightarrow> dialog \<Rightarrow> remote_tab \<Rightarrow> int \<Rightarrow> remote_workspace \<Rightarrow> remote_workspace result" where
  "choose_row strerror fixed d t row w = (let p = rw_pages w t in if row = wp_row p then Inr w
     else Select strerror fixed d t row (set_page t (p\<lparr>wp_row := row\<rparr>) w))"

fun first_index :: "('a \<Rightarrow> bool) \<Rightarrow> nat \<Rightarrow> 'a list \<Rightarrow> nat option" where
  "first_index P i [] = None"
| "first_index P i (x # xs) = (if P x then Some i else first_index P (Suc i) xs)"

fun navigate_in :: "string \<Rightarrow> remote_workspace \<Rightarrow> remote_tab list \<Rightarrow> (remote_tab \<times> nat) option" where
  "navigate_in i w [] = None"
| "navigate_in i w (t # ts) = (case first_index (\<lambda>e. re_id e = i) 0 (wp_choices (rw_pages w t)) of
     Some row \<Rightarrow> Some (t, row) | None \<Rightarrow> navigate_in i w ts)"

definition Navigate :: "(int \<Rightarrow> string) \<Rightarrow> (double \<Rightarrow> string) \<Rightarrow> dialog \<Rightarrow> string \<Rightarrow> remote_workspace \<Rightarrow> remote_workspace result" where
  "Navigate strerror fixed d i w = (case navigate_in i w remote_tabs of
     None \<Rightarrow> Inr w | Some (t, row) \<Rightarrow> choose_row strerror fixed d t (int row) (w\<lparr>rw_tab := tab_index t\<rparr>))"

section \<open>Handlers\<close>

definition current_data :: "host_view \<Rightarrow> string" where
  "current_data v = (if row_ok (hv_row v) (hv_hosts v) then snd (hv_hosts v ! nat (hv_row v)) else [])"

definition change_host :: "remote_workspace \<Rightarrow> remote_workspace" where
  "change_host w = (let v = rw_host w; host = current_data v;
       w = fold leave_subscription remote_tabs (w\<lparr>rw_host := v\<lparr>hv_selected := host, hv_remote := host \<noteq> []\<rparr>\<rparr>)
     in Populate (w\<lparr>rw_pages := (\<lambda>t. Clear (rw_pages w t))\<rparr>))"

definition host_changed :: "(int \<Rightarrow> string) \<Rightarrow> (double \<Rightarrow> string) \<Rightarrow> dialog \<Rightarrow> remote_workspace \<Rightarrow> remote_workspace" where
  "host_changed strerror fixed d w = (if hv_selected (rw_host w) = current_data (rw_host w) then w
     else if Dirty w
     then (case ask strerror fixed d w of (yes, w) \<Rightarrow> if yes then change_host w
       else w\<lparr>rw_host := (rw_host w)\<lparr>hv_row := find_data (hv_selected (rw_host w)) 0 (hv_hosts (rw_host w))\<rparr>\<rparr>)
     else change_host w)"

definition choose_host :: "(int \<Rightarrow> string) \<Rightarrow> (double \<Rightarrow> string) \<Rightarrow> dialog \<Rightarrow> int \<Rightarrow> remote_workspace \<Rightarrow> remote_workspace" where
  "choose_host strerror fixed d row w = (if row = hv_row (rw_host w) then w
     else host_changed strerror fixed d (w\<lparr>rw_host := (rw_host w)\<lparr>hv_row := row\<rparr>\<rparr>))"

definition Configure :: "(int \<Rightarrow> string) \<Rightarrow> (double \<Rightarrow> string) \<Rightarrow> dialog \<Rightarrow> bool \<Rightarrow> remote_workspace \<Rightarrow> remote_workspace" where
  "Configure strerror fixed d shutdown w = (if nv_configuring (rw_network w) then w
     else if \<not> shutdown \<and> Dirty w
     then (case ask strerror fixed d w of (yes, w) \<Rightarrow> if yes then configure_now shutdown w else w)
     else configure_now shutdown w)"

definition cancel_goal :: "remote_workspace \<Rightarrow> remote_workspace" where
  "cancel_goal w = (let v = rw_activity w in if wp_busy (rw_pages w ActionTab) then w
     else case current_activity v of None \<Rightarrow> w | Some h \<Rightarrow> (case map_of (av_activities v) h of None \<Rightarrow> w | Some a \<Rightarrow>
       if ended a then w
       else Submit ActionTab (remote_command0\<lparr>rc_operation := OpCancel, rc_endpoint := ra_endpoint a, rc_handle := h, rc_timeout_ms := rw_timeout w\<rparr>) w))"

text \<open>What activating a node of the graph opens; \<open>substr\<close> past the end throws.\<close>

definition endpoint_prefix :: string where "endpoint_prefix = ''remote-endpoint:''"

definition open_remote :: "(int \<Rightarrow> string) \<Rightarrow> (double \<Rightarrow> string) \<Rightarrow> dialog \<Rightarrow> dialog \<Rightarrow> graph_node \<Rightarrow> remote_workspace \<Rightarrow> remote_workspace result" where
  "open_remote strerror fixed d d' g w = (let row = find_data (gn_host g) 0 (hv_hosts (rw_host w)) in if row < 0 then Inr w
     else let w = choose_host strerror fixed d row w
     in if hv_selected (rw_host w) \<noteq> gn_host g then Inr w
     else if gn_kind g = GHost then Inr (w\<lparr>rw_tab := 0\<rparr>)
     else if gn_kind g = GElement
     then if hv_elements (rw_host w) \<noteq> [] \<and> length (gn_id g) < 15 then Inl Undefined
       else let v = rw_host w in Inr (w\<lparr>rw_tab := 1, rw_host := v\<lparr>hv_element_row :=
         last_index (\<lambda>r. tt_id r = drop 15 (gn_id g)) 0 (hv_elements v) (hv_element_row v)\<rparr>\<rparr>)
     else if take (length endpoint_prefix) (gn_id g) = endpoint_prefix then Navigate strerror fixed d' (drop (length endpoint_prefix) (gn_id g)) w
     else Inr w)"

definition BeginClose :: "(int \<Rightarrow> string) \<Rightarrow> (double \<Rightarrow> string) \<Rightarrow> dialog \<Rightarrow> remote_workspace \<Rightarrow> bool \<times> remote_workspace" where
  "BeginClose strerror fixed d w = (let n = rw_network w in
     if nv_closed n then (True, w)
     else if \<not> nv_configuring n \<and> rw_pending w = [] \<and> contains_text ''disabled / unavailable'' (ns_status (nv_snapshot n)) then (True, w)
     else case (if Dirty w then ask strerror fixed d w else (True, w)) of (yes, w) \<Rightarrow>
       if \<not> yes then (False, w)
       else (False, Configure strerror fixed d True (w\<lparr>rw_network := (rw_network w)\<lparr>nv_closing := True\<rparr>\<rparr>)))"

section \<open>What can happen\<close>

datatype workspace_event =
  Ticked tick_input
| Host_chosen dialog int
| Row_chosen dialog remote_tab int
| Button_clicked dialog remote_tab bool
| Cell_typed remote_tab nat string
| Apply_network dialog
| Network_typed network_form
| Timeouts_typed u32 u32
| Activity_chosen int
| Cancel_clicked
| Item_activated dialog string
| Graph_activated dialog dialog graph_node
| Close_wanted dialog

definition press_button :: "(int \<Rightarrow> string) \<Rightarrow> (double \<Rightarrow> string) \<Rightarrow> dialog \<Rightarrow> remote_tab \<Rightarrow> bool \<Rightarrow> remote_workspace \<Rightarrow> remote_workspace result" where
  "press_button strerror fixed d t second w = (let buttons = wp_buttons (rw_pages w t) in
     if (if second then snd buttons else fst buttons) then Request strerror fixed d t (tab_operation t second) w else Inr w)"

definition workspace_step :: "(int \<Rightarrow> string) \<Rightarrow> (double \<Rightarrow> string) \<Rightarrow> workspace_event \<Rightarrow> remote_workspace \<Rightarrow> remote_workspace result" where
  "workspace_step strerror fixed ev w = (case ev of
     Ticked k \<Rightarrow> Inr (Tick strerror fixed k w)
   | Host_chosen d row \<Rightarrow> Inr (choose_host strerror fixed d row w)
   | Row_chosen d t row \<Rightarrow> choose_row strerror fixed d t row w
   | Button_clicked d t second \<Rightarrow> press_button strerror fixed d t second w
   | Cell_typed t r text \<Rightarrow> let p = rw_pages w t in Inr (set_page t (p\<lparr>wp_input := edit_cell r text (wp_input p)\<rparr>) w)
   | Apply_network d \<Rightarrow> Inr (if nv_apply (rw_network w) then Configure strerror fixed d False w else w)
   | Network_typed f \<Rightarrow> Inr (w\<lparr>rw_network := (rw_network w)\<lparr>nv_form := f\<rparr>\<rparr>)
   | Timeouts_typed timeout tracking \<Rightarrow> Inr (w\<lparr>rw_timeout := timeout, rw_tracking := tracking\<rparr>)
   | Activity_chosen row \<Rightarrow> Inr (if row = av_row (rw_activity w) then w else ShowActivity strerror (w\<lparr>rw_activity := (rw_activity w)\<lparr>av_row := row\<rparr>\<rparr>))
   | Cancel_clicked \<Rightarrow> Inr (if av_cancel (rw_activity w) then cancel_goal w else w)
   | Item_activated d i \<Rightarrow> if i = [] then Inr w else Navigate strerror fixed d i w
   | Graph_activated d d' g \<Rightarrow> open_remote strerror fixed d d' g w
   | Close_wanted d \<Rightarrow> Inr (snd (BeginClose strerror fixed d w)))"

text \<open>The constructor: \<open>options\<close> and \<open>snapshot\<close> are the backend's, \<open>interfaces\<close> the items of the list.\<close>

definition initial_form :: "network_options \<Rightarrow> network_snapshot \<Rightarrow> (string \<times> string) list \<Rightarrow> network_form" where
  "initial_form options snapshot interfaces =
     (let items = (''0.0.0.0 (all)'', ''0.0.0.0'') # interfaces; i = find_data (no_interface_address options) 0 items;
          item = (if i < 0 then items ! 0 else items ! nat i)
      in \<lparr>nf_text = (if i < 0 then no_interface_address options else fst item), nf_item_text = fst item, nf_item_data = snd item,
          nf_port = no_port options, nf_host_id = no_host_id options,
          nf_enabled = (ns_observer_host snapshot \<noteq> [] \<or> \<not> contains_text ''disabled'' (ns_status snapshot))\<rparr>)"

definition initial_workspace :: "network_options \<Rightarrow> network_snapshot \<Rightarrow> (string \<times> string) list \<Rightarrow> remote_workspace" where
  "initial_workspace options snapshot interfaces =
     \<lparr>rw_host = \<lparr>hv_hosts = [(''Local'', [])], hv_row = 0, hv_selected = [], hv_remote = False, hv_applications = [], hv_elements = [], hv_element_row = -1\<rparr>,
      rw_network = \<lparr>nv_snapshot = network_snapshot0, nv_form = initial_form options snapshot interfaces, nv_epoch = 0, nv_configuring = False,
        nv_configuration_status = [], nv_shutdown = False, nv_closing = False, nv_closed = False, nv_apply = True, nv_calls = [], nv_saved = None\<rparr>,
      rw_activity = \<lparr>av_activities = [], av_items = [], av_row = -1, av_status = [], av_feedback = no_form, av_result = no_form, av_cancel = True\<rparr>,
      rw_local = \<lparr>lv_status = [], lv_peers = [], lv_observed = 0\<rparr>, rw_pages = (\<lambda>_. remote_page0), rw_pending = [], rw_polling = None,
      rw_poll_epoch = 0, rw_rates = [], rw_ticks = 0, rw_tab = 0, rw_status = [], rw_timeout = 1000, rw_tracking = 60000, rw_sent = []\<rparr>"

definition new_workspace :: "(int \<Rightarrow> string) \<Rightarrow> (double \<Rightarrow> string) \<Rightarrow> network_options \<Rightarrow> network_snapshot \<Rightarrow> (string \<times> string) list
    \<Rightarrow> tick_input \<Rightarrow> remote_workspace" where
  "new_workspace strerror fixed options snapshot interfaces k = Tick strerror fixed k (initial_workspace options snapshot interfaces)"

end
