(* ===== verification/RemoteWorkspaceProps.thy ===== *)
theory RemoteWorkspaceProps
  imports RemoteWorkspace "HOL-Library.Sublist"
begin

text \<open>
  What the workspace for other hosts promises: one request at a time on each page, replies that are accepted only for
  the selection they were asked for, rates over unbroken routes, complete trees, and a closing that ends. Two
  questions stay open too long for the code: what it does then is stated as well.
\<close>

section \<open>Forms\<close>

definition wf_form :: "form \<Rightarrow> bool" where
  "wf_form f \<longleftrightarrow> fm_rows f = row_keys (fm_data f) \<and> length (fm_texts f) = length (fm_rows f)"

lemma wf_form_intros [simp, intro]: "wf_form (Render d e)" "wf_form no_form" "wf_form f \<Longrightarrow> wf_form (edit_cell r t f)"
  "wf_form f \<Longrightarrow> wf_form (f\<lparr>fm_dirty := b\<rparr>)"
  by (auto simp: wf_form_def Render_def no_form_def edit_cell_def)

lemma Edited_ok: "wf_form f \<Longrightarrow> \<exists>v. Edited f = Inr v \<and> same_shape (fm_data f) v"
  using EditedFields_spec[of "fm_texts f" "fm_rows f" "fm_data f"] by (auto simp: wf_form_def Edited_def row_keys_in)

lemma no_form_clean [simp]: "\<not> fm_dirty no_form" "\<not> fm_dirty (Render d e)"
  by (simp_all add: no_form_def Render_def)

section \<open>What a step may do to a page\<close>

text \<open>At most \<open>k\<close> selections are given up; the selection stays where none is.\<close>

definition page_moved :: "nat \<Rightarrow> remote_page \<Rightarrow> remote_page \<Rightarrow> bool" where
  "page_moved k p p' \<longleftrightarrow> wp_busy p' = wp_busy p \<and> (wf_form (wp_input p) \<longrightarrow> wf_form (wp_input p'))
     \<and> (\<exists>j \<le> k. wp_revision p' = wp_revision p + of_nat j \<and> (j = 0 \<longrightarrow> wp_selected p' = wp_selected p))"

definition moved :: "nat \<Rightarrow> remote_workspace \<Rightarrow> remote_workspace \<Rightarrow> bool" where
  "moved k w w' \<longleftrightarrow> rw_pending w' = rw_pending w \<and> prefix (rw_sent w) (rw_sent w') \<and> (\<forall>t. page_moved k (rw_pages w t) (rw_pages w' t))"

named_theorems moves

lemma page_moved_same [moves]:
  "wp_busy p' = wp_busy p \<Longrightarrow> wf_form (wp_input p') \<or> wp_input p' = wp_input p \<Longrightarrow> wp_revision p' = wp_revision p
    \<Longrightarrow> wp_selected p' = wp_selected p \<Longrightarrow> page_moved k p p'"
  by (auto simp: page_moved_def intro: exI[of _ 0])

lemma page_moved_refl [simp]: "page_moved k p p"
  by (rule page_moved_same) simp_all

lemma page_moved_trans:
  assumes "page_moved j p q" and "page_moved k q r"
  shows "page_moved (j + k) p r"
proof -
  from assms obtain a b where a: "a \<le> j" "wp_revision q = wp_revision p + of_nat a" "a = 0 \<longrightarrow> wp_selected q = wp_selected p"
    and b: "b \<le> k" "wp_revision r = wp_revision q + of_nat b" "b = 0 \<longrightarrow> wp_selected r = wp_selected q"
    by (auto simp: page_moved_def)
  then show ?thesis using assms by (auto simp: page_moved_def intro!: exI[of _ "a + b"])
qed

lemma page_moved_Clear: "page_moved (Suc 0) p (Clear p)"
  by (auto simp: page_moved_def Clear_def intro: exI[of _ 1])

lemma moved_refl [simp]: "moved k w w"
  by (simp add: moved_def)

lemma moved_trans: "moved j w x \<Longrightarrow> moved k x y \<Longrightarrow> moved (j + k) w y"
  by (auto simp: moved_def intro: page_moved_trans prefix_order.trans)

lemma moved_still: "moved 0 w x \<Longrightarrow> moved k x y \<Longrightarrow> moved k w y" "moved k w x \<Longrightarrow> moved 0 x y \<Longrightarrow> moved k w y"
  using moved_trans[of 0 w x k y] moved_trans[of k w x 0 y] by simp_all

lemma moved_frame: "rw_pages w' = rw_pages w \<Longrightarrow> rw_pending w' = rw_pending w \<Longrightarrow> prefix (rw_sent w) (rw_sent w') \<Longrightarrow> moved k w w'"
  by (simp add: moved_def)

lemma moved_pages:
  assumes "\<And>t. page_moved k (rw_pages w t) (rw_pages w' t)" and "rw_pending w' = rw_pending w" and "rw_sent w' = rw_sent w"
  shows "moved k w w'"
  using assms by (simp add: moved_def)

lemma moved_set_page: "page_moved k (rw_pages w t) p \<Longrightarrow> moved k w (set_page t p w)"
  by (simp add: moved_def set_page_def)

lemma moved_send [simp]: "moved k w (send_command c w)"
  by (rule moved_frame) (simp_all add: send_command_def)

lemma set_page_simps [simp]:
  "rw_pages (set_page t p w) = (rw_pages w)(t := p)" "rw_host (set_page t p w) = rw_host w" "rw_network (set_page t p w) = rw_network w"
  "rw_pending (set_page t p w) = rw_pending w" "rw_sent (set_page t p w) = rw_sent w" "rw_ticks (set_page t p w) = rw_ticks w"
  "rw_polling (set_page t p w) = rw_polling w" "rw_activity (set_page t p w) = rw_activity w"
  "rw_pages (send_command c w) = rw_pages w" "rw_host (send_command c w) = rw_host w" "rw_network (send_command c w) = rw_network w"
  "rw_pending (send_command c w) = rw_pending w" "rw_sent (send_command c w) = rw_sent w @ [c]" "rw_ticks (send_command c w) = rw_ticks w"
  "rw_polling (send_command c w) = rw_polling w" "rw_activity (send_command c w) = rw_activity w"
  by (simp_all add: set_page_def send_command_def)

lemma moved_fold: "(\<And>x w. moved 0 w (f x w)) \<Longrightarrow> moved 0 w (fold f xs w)"
  by (induction xs arbitrary: w) (auto intro: moved_still(1))

lemma moved_leave: "moved 0 w (leave_subscription t w)"
proof -
  have "page_moved 0 p (p\<lparr>wp_subscription := 0\<rparr>)" for p by (rule page_moved_same) simp_all
  then have "moved 0 w (set_page t ((rw_pages w t)\<lparr>wp_subscription := 0\<rparr>) (send_command c w))" for c
    by (intro moved_still(1)[OF moved_send moved_set_page]) simp
  then show ?thesis by (simp add: leave_subscription_def Let_def)
qed

lemma ShowActivity_simps [simp]:
  "rw_pages (ShowActivity strerror w) = rw_pages w" "rw_host (ShowActivity strerror w) = rw_host w"
  "rw_network (ShowActivity strerror w) = rw_network w" "rw_pending (ShowActivity strerror w) = rw_pending w"
  "rw_sent (ShowActivity strerror w) = rw_sent w" "rw_ticks (ShowActivity strerror w) = rw_ticks w"
  "rw_polling (ShowActivity strerror w) = rw_polling w"
  unfolding ShowActivity_def Let_def by (auto split: option.split simp del: if_split)

lemma moved_ShowActivity: "moved k w (ShowActivity strerror w)"
  by (rule moved_frame) simp_all

lemma page_moved_populate: "page_moved (Suc 0) p (populate_page n es t p)"
proof -
  have c: "page_moved 0 p (p\<lparr>wp_choices := a, wp_items := b, wp_row := c\<rparr>)" for a b c by (rule page_moved_same) simp_all
  have s: "page_moved 0 p (p\<lparr>wp_status := x\<rparr>)" for p x by (rule page_moved_same) simp_all
  from page_moved_trans[OF page_moved_trans[OF c page_moved_Clear] s] page_moved_trans[OF c page_moved_refl[of "Suc 0"]]
  show ?thesis unfolding populate_page_def Let_def by auto
qed

lemma moved_Populate: "moved (Suc 0) w (Populate w)"
  unfolding Populate_def Let_def by (rule moved_pages) (simp_all add: page_moved_populate)

lemma moved_look_around: "moved (Suc 0) w (look_around strerror k w)"
proof -
  have s: "moved 0 w (show_status k w)" for w by (rule moved_frame) (simp_all add: show_status_def)
  have u: "moved 0 w (w\<lparr>rw_network := x\<rparr>)" for w x by (rule moved_frame) simp_all
  have f: "moved 0 w (if b then w\<lparr>rw_network := x\<rparr> else ShowActivity strerror (w\<lparr>rw_network := x\<rparr>))" for b w x
    using moved_still(1)[OF u moved_ShowActivity] u by simp
  have t: "moved 0 w (w\<lparr>rw_ticks := x\<rparr>)" for w x by (rule moved_frame) simp_all
  have h: "moved 0 w (w\<lparr>rw_host := x\<rparr>)" for w x by (rule moved_frame) simp_all
  have p: "moved (Suc 0) w (if b then Populate (w\<lparr>rw_host := x\<rparr>) else w)" for b w x
    using moved_still(1)[OF h moved_Populate] by simp
  show ?thesis unfolding look_around_def Let_def
    by (rule moved_still(2)[OF _ s], rule moved_still(1)[OF _ p], rule moved_still(1)[OF _ t], rule f)
qed

lemma moved_configure: "moved (Suc 0) w (configure_now shutdown w)"
proof -
  have "page_moved 0 p (p\<lparr>wp_subscription := 0\<rparr>)" for p by (rule page_moved_same) simp_all
  from page_moved_trans[OF page_moved_Clear this] have c: "page_moved (Suc 0) p ((Clear p)\<lparr>wp_subscription := 0\<rparr>)" for p by simp
  show ?thesis unfolding configure_now_def Let_def by (simp add: moved_def c)
qed

lemma moved_finish_configuration: "moved (Suc 0) w (snd (finish_configuration strerror k w))"
proof -
  have u: "moved 0 w (w\<lparr>rw_network := x, rw_status := y\<rparr>)" for x y by (rule moved_frame) simp_all
  have c: "moved (Suc 0) w (configure_now True (w\<lparr>rw_network := x, rw_status := y\<rparr>))" for x y
    by (rule moved_still(1)[OF u moved_configure])
  show ?thesis unfolding finish_configuration_def Let_def
    by (auto simp del: append.simps split: option.split intro: c moved_frame)
qed

lemma finish_configuration_runs: "\<not> fst (finish_configuration strerror k w) \<Longrightarrow> moved 0 w (snd (finish_configuration strerror k w))"
  by (auto simp: finish_configuration_def Let_def split: option.split if_splits intro: moved_frame)

lemma moved_show_topic: "moved 0 w (show_topic strerror fixed a w)"
proof -
  have r: "moved 0 w (set_page TopicTab p (w\<lparr>rw_rates := x\<rparr>))" if "page_moved 0 (rw_pages w TopicTab) p" for p x
    by (rule moved_still(1)[OF moved_frame moved_set_page]) (simp_all add: that)
  show ?thesis unfolding show_topic_def Let_def
    by (auto split: prod.split intro!: r page_moved_same)
qed

lemma moved_poll_activity: "moved 0 w (poll_activity strerror fixed a w)"
  unfolding poll_activity_def by (auto simp: moved_show_topic intro: moved_frame)

lemma moved_finish_poll: "moved 0 w (finish_poll strerror fixed reply w)"
proof -
  have u: "moved 0 w (w\<lparr>rw_polling := x\<rparr>)" for w x by (rule moved_frame) simp_all
  have a: "moved 0 w (w\<lparr>rw_activity := x\<rparr>)" for w x by (rule moved_frame) simp_all
  have f: "moved 0 w (if b then fold (poll_activity strerror fixed) xs w else w)" for b xs w
    by (simp add: moved_fold moved_poll_activity)
  note l = moved_still(1)[OF a moved_ShowActivity]
  have "moved 0 w (let w = w\<lparr>rw_polling := None\<rparr>; w = (if b then fold (poll_activity strerror fixed) xs w else w)
      in ShowActivity strerror (w\<lparr>rw_activity := list_activities (rw_activity w)\<rparr>))" for b xs
    unfolding Let_def by (rule moved_still(1)[OF u], rule moved_still(1)[OF f], rule l)
  note this[unfolded Let_def]
  then show ?thesis unfolding finish_poll_def Let_def by (simp split: option.split del: if_split)
qed

lemma moved_start_poll: "moved 0 w (start_poll w)"
  unfolding start_poll_def Let_def by (auto intro: moved_still(1)[OF moved_frame moved_send])

lemma moved_buttons: "moved 0 w (w\<lparr>rw_pages := (\<lambda>t. enable_buttons n t (rw_pages w t))\<rparr>)"
  by (rule moved_pages) (auto simp: enable_buttons_def Let_def intro: page_moved_same)

section \<open>The requests of the pages\<close>

text \<open>
  Each page has as many requests under way as its \<open>busy\<close> says; a request of the present revision is for the
  present selection. The revisions are counted, so that their 64 bits cannot wrap around unnoticed.
\<close>

definition request_ok :: "remote_workspace \<Rightarrow> pending \<Rightarrow> bool" where
  "request_ok w d \<longleftrightarrow> (let p = rw_pages w (pd_tab d); c = pd_command d in
     pd_ticket d < length (rw_sent w) \<and> rw_sent w ! pd_ticket d = c \<and> pd_revision d \<le> wp_revision p
     \<and> (pd_revision d = wp_revision p \<longrightarrow> rc_operation c = OpCancel \<or> rc_endpoint c = wp_selected p))"

definition requests_of :: "remote_tab \<Rightarrow> remote_workspace \<Rightarrow> pending list" where
  "requests_of t w = filter (\<lambda>d. pd_tab d = t) (rw_pending w)"

definition requests_ok :: "nat \<Rightarrow> remote_workspace \<Rightarrow> bool" where
  "requests_ok n w \<longleftrightarrow> (\<forall>t. unat (wp_revision (rw_pages w t)) \<le> n \<and> length (requests_of t w) = (if wp_busy (rw_pages w t) then 1 else 0))
     \<and> distinct (map pd_ticket (rw_pending w)) \<and> (\<forall>d \<in> set (rw_pending w). request_ok w d)"

definition workspace_ok :: "nat \<Rightarrow> remote_workspace \<Rightarrow> bool" where
  "workspace_ok n w \<longleftrightarrow> (\<forall>t. wf_form (wp_input (rw_pages w t))) \<and> (n < 2 ^ 64 \<longrightarrow> requests_ok n w)"

lemma workspace_ok_mono: "workspace_ok m w \<Longrightarrow> m \<le> n \<Longrightarrow> workspace_ok n w"
  unfolding workspace_ok_def requests_ok_def by (meson le_trans order.strict_trans1)

lemma revision_moves:
  assumes "page_moved k p p'" and "unat (wp_revision p) \<le> n" and "n + k < 2 ^ 64"
  shows "\<exists>j \<le> k. unat (wp_revision p') = unat (wp_revision p) + j \<and> (j = 0 \<longrightarrow> wp_selected p' = wp_selected p)"
proof -
  from assms(1) obtain j where j: "j \<le> k" "wp_revision p' = wp_revision p + of_nat j" "j = 0 \<longrightarrow> wp_selected p' = wp_selected p"
    by (auto simp: page_moved_def)
  have "unat (wp_revision p') = unat (wp_revision p) + j"
    using j(1,2) assms(2,3) by (simp add: unat_word_ariths unat_of_nat)
  with j show ?thesis by blast
qed

lemma request_ok_moved:
  assumes "request_ok w d" and "page_moved k (rw_pages w (pd_tab d)) (rw_pages w' (pd_tab d))" and "prefix (rw_sent w) (rw_sent w')"
    and "unat (wp_revision (rw_pages w (pd_tab d))) \<le> n" and "n + k < 2 ^ 64"
  shows "request_ok w' d"
proof -
  let ?p = "rw_pages w (pd_tab d)" and ?p' = "rw_pages w' (pd_tab d)"
  obtain j where j: "unat (wp_revision ?p') = unat (wp_revision ?p) + j" "j = 0 \<longrightarrow> wp_selected ?p' = wp_selected ?p"
    using revision_moves[OF assms(2,4,5)] by blast
  have le: "unat (pd_revision d) \<le> unat (wp_revision ?p)" using assms(1) by (simp add: request_ok_def Let_def word_le_nat_alt)
  have "rc_operation (pd_command d) = OpCancel \<or> rc_endpoint (pd_command d) = wp_selected ?p'" if "pd_revision d = wp_revision ?p'"
  proof -
    from that le j(1) have "j = 0" "unat (pd_revision d) = unat (wp_revision ?p)" by simp_all
    with j(2) assms(1) show ?thesis by (simp add: request_ok_def Let_def word_unat_eq_iff)
  qed
  moreover have "rw_sent w' ! pd_ticket d = rw_sent w ! pd_ticket d" "length (rw_sent w) \<le> length (rw_sent w')" if "pd_ticket d < length (rw_sent w)"
    using assms(3) that by (auto simp: prefix_def nth_append)
  ultimately show ?thesis using assms(1) le j(1) by (simp add: request_ok_def Let_def word_le_nat_alt)
qed

lemma workspace_ok_moved:
  assumes "workspace_ok n w" and "moved k w w'"
  shows "workspace_ok (n + k) w'"
proof -
  have m: "page_moved k (rw_pages w t) (rw_pages w' t)" for t using assms(2) by (simp add: moved_def)
  have s: "rw_pending w' = rw_pending w" "prefix (rw_sent w) (rw_sent w')" using assms(2) by (simp_all add: moved_def)
  have "requests_ok (n + k) w'" if b: "n + k < 2 ^ 64"
  proof -
    have r: "requests_ok n w" using assms(1) b by (simp add: workspace_ok_def)
    then have le: "unat (wp_revision (rw_pages w t)) \<le> n" for t by (simp add: requests_ok_def)
    have "unat (wp_revision (rw_pages w' t)) \<le> n + k" for t
      using revision_moves[OF m le b, of t] le[of t] by auto
    moreover have "wp_busy (rw_pages w' t) = wp_busy (rw_pages w t)" for t using m[of t] by (simp add: page_moved_def)
    moreover have "request_ok w' d" if "d \<in> set (rw_pending w)" for d
      using request_ok_moved[OF _ m s(2) le b] r that by (simp add: requests_ok_def)
    ultimately show ?thesis using r s(1) by (simp add: requests_ok_def requests_of_def)
  qed
  with m assms(1) show ?thesis by (auto simp: workspace_ok_def page_moved_def)
qed

section \<open>Replies\<close>

lemma reply_page_simps [simp]:
  "wp_selected (reply_page strerror n d r p) = wp_selected p" "wp_revision (reply_page strerror n d r p) = wp_revision p"
  "\<not> wp_busy (reply_page strerror n d r p)" "wf_form (wp_input p) \<Longrightarrow> wf_form (wp_input (reply_page strerror n d r p))"
  unfolding reply_page_def accept_reply_def Let_def by (simp_all split: remote_operation.split)

lemma apply_reply_simps:
  "rw_pages (apply_reply strerror d r w) = (rw_pages w)(pd_tab d := reply_page strerror (rw_network w) d r (rw_pages w (pd_tab d)))"
  "rw_network (apply_reply strerror d r w) = rw_network w" "rw_pending (apply_reply strerror d r w) = rw_pending w"
  "prefix (rw_sent w) (rw_sent (apply_reply strerror d r w))" "rw_host (apply_reply strerror d r w) = rw_host w"
  "rw_ticks (apply_reply strerror d r w) = rw_ticks w" "rw_polling (apply_reply strerror d r w) = rw_polling w"
  unfolding apply_reply_def Let_def by simp_all

definition take_reply :: "(int \<Rightarrow> string) \<Rightarrow> (nat \<Rightarrow> remote_reply option) \<Rightarrow> pending \<Rightarrow> remote_workspace \<Rightarrow> remote_workspace" where
  "take_reply strerror reply d w = (case reply (pd_ticket d) of None \<Rightarrow> w | Some r \<Rightarrow> apply_reply strerror d r w)"

lemma finish_requests_take:
  "finish_requests strerror reply w = (fold (take_reply strerror reply) (rw_pending w) w)\<lparr>rw_pending := filter (\<lambda>d. reply (pd_ticket d) = None) (rw_pending w)\<rparr>"
  unfolding finish_requests_def take_reply_def[abs_def] by simp

lemma take_reply_frame [simp]:
  "rw_network (take_reply strerror reply d w) = rw_network w" "rw_host (take_reply strerror reply d w) = rw_host w"
  "prefix (rw_sent w) (rw_sent (take_reply strerror reply d w))" "rw_ticks (take_reply strerror reply d w) = rw_ticks w"
  by (simp_all add: take_reply_def apply_reply_simps split: option.split)

lemma take_replies_frame:
  "rw_network (fold (take_reply strerror reply) ds w) = rw_network w" "rw_host (fold (take_reply strerror reply) ds w) = rw_host w"
  "prefix (rw_sent w) (rw_sent (fold (take_reply strerror reply) ds w))" "rw_ticks (fold (take_reply strerror reply) ds w) = rw_ticks w"
  by (induction ds arbitrary: w) (simp_all, metis prefix_order.trans take_reply_frame(3))

definition page_reply :: "(int \<Rightarrow> string) \<Rightarrow> (nat \<Rightarrow> remote_reply option) \<Rightarrow> network_view \<Rightarrow> pending \<Rightarrow> remote_page \<Rightarrow> remote_page" where
  "page_reply strerror reply n d p = (case reply (pd_ticket d) of None \<Rightarrow> p | Some r \<Rightarrow> reply_page strerror n d r p)"

lemma take_reply_pages:
  "rw_pages (take_reply strerror reply d w) = (rw_pages w)(pd_tab d := page_reply strerror reply (rw_network w) d (rw_pages w (pd_tab d)))"
  by (simp add: take_reply_def page_reply_def apply_reply_simps split: option.split)

lemma take_replies_pages:
  "rw_pages (fold (take_reply strerror reply) ds w) t = fold (page_reply strerror reply (rw_network w)) (filter (\<lambda>d. pd_tab d = t) ds) (rw_pages w t)"
  by (induction ds arbitrary: w) (simp_all add: take_reply_pages)

text \<open>A page has at most one request under way: its reply, if it has come, is all that changes the page.\<close>

lemma finish_requests_page:
  "rw_pages (finish_requests strerror reply w) t = fold (page_reply strerror reply (rw_network w)) (requests_of t w) (rw_pages w t)"
  by (simp add: finish_requests_take take_replies_pages requests_of_def)

lemma finish_requests_simps [simp]:
  "rw_network (finish_requests strerror reply w) = rw_network w" "rw_host (finish_requests strerror reply w) = rw_host w"
  "rw_ticks (finish_requests strerror reply w) = rw_ticks w"
  "rw_pending (finish_requests strerror reply w) = filter (\<lambda>d. reply (pd_ticket d) = None) (rw_pending w)"
  by (simp_all add: finish_requests_take take_replies_frame)

lemma fold_page_reply:
  assumes "length ds = (if wp_busy p then 1 else 0)"
  shows "let p' = fold (page_reply strerror reply n) ds p in wp_selected p' = wp_selected p \<and> wp_revision p' = wp_revision p
    \<and> length (filter (\<lambda>d. reply (pd_ticket d) = None) ds) = (if wp_busy p' then 1 else 0)"
proof (cases "wp_busy p")
  case True
  with assms obtain d where "ds = [d]" by (auto simp: length_Suc_conv)
  then show ?thesis using True by (simp add: page_reply_def split: option.split)
qed (use assms in simp)

lemma fold_page_reply_form: "wf_form (wp_input p) \<Longrightarrow> wf_form (wp_input (fold (page_reply strerror reply n) ds p))"
  by (induction ds arbitrary: p) (auto simp: page_reply_def split: option.splits)

lemma workspace_ok_finish_requests:
  assumes "workspace_ok n w"
  shows "workspace_ok n (finish_requests strerror reply w)"
proof -
  let ?w = "finish_requests strerror reply w"
  have "requests_ok n ?w" if r: "requests_ok n w"
  proof -
    have l: "length (requests_of t w) = (if wp_busy (rw_pages w t) then 1 else 0)" for t using r by (simp add: requests_ok_def)
    note f = fold_page_reply[OF l, of strerror reply "rw_network w", folded finish_requests_page, unfolded Let_def]
    have s: "prefix (rw_sent w) (rw_sent ?w)" by (simp add: finish_requests_take take_replies_frame)
    have p: "wp_selected (rw_pages ?w t) = wp_selected (rw_pages w t)" "wp_revision (rw_pages ?w t) = wp_revision (rw_pages w t)"
      "requests_of t ?w = filter (\<lambda>d. reply (pd_ticket d) = None) (requests_of t w)" for t
      using f[of t] by (simp_all add: requests_of_def conj_commute)
    have "request_ok ?w d" if "request_ok w d" for d
      using that s by (auto simp: request_ok_def Let_def p prefix_def nth_append)
    moreover have "distinct (map pd_ticket (filter P (rw_pending w)))" for P
      using r by (auto simp: requests_ok_def distinct_map_filter)
    ultimately show ?thesis using r f by (auto simp: requests_ok_def p)
  qed
  with assms show ?thesis by (auto simp: workspace_ok_def finish_requests_page fold_page_reply_form)
qed

text \<open>A tick moves the pages, takes the replies, and moves the pages again.\<close>

lemma Tick_parts:
  obtains x where "moved (Suc 0) w x" and "Tick strerror fixed k w = x \<or> moved 0 (finish_requests strerror (tk_reply k) x) (Tick strerror fixed k w)"
proof -
  define v where "v = w\<lparr>rw_local := LocalTick (tk_gateway k) (rw_local w)\<rparr>"
  have v: "moved 0 w v" unfolding v_def by (rule moved_frame) simp_all
  obtain stop x where x: "finish_configuration strerror k v = (stop, x)" by (cases "finish_configuration strerror k v")
  show ?thesis
  proof (cases stop)
    case True
    have "moved (Suc 0) w x" using moved_still(1)[OF v moved_finish_configuration[of v strerror k]] by (simp add: x)
    then show ?thesis by (rule that) (simp add: Tick_def v_def[symmetric] x True)
  next
    case False
    then have "moved 0 v x" using finish_configuration_runs[of strerror k v] by (simp add: x)
    from moved_still(1)[OF moved_still(1)[OF v this] moved_look_around] have l: "moved (Suc 0) w (look_around strerror k x)" .
    have "moved 0 y (end_of y)" if "end_of = (\<lambda>y. let w = start_poll (finish_poll strerror fixed (tk_reply k) y)
        in w\<lparr>rw_pages := (\<lambda>t. enable_buttons (rw_network w) t (rw_pages w t))\<rparr>)" for y end_of
      unfolding that Let_def by (rule moved_still(1)[OF moved_finish_poll moved_still(1)[OF moved_start_poll moved_buttons]])
    note e = this[OF refl, of "finish_requests strerror (tk_reply k) (look_around strerror k x)"]
    have "Tick strerror fixed k w = take_replies strerror fixed k (look_around strerror k x)"
      by (simp add: Tick_def v_def[symmetric] x False)
    with e show ?thesis by (intro that[OF l]) (simp add: take_replies_def Let_def)
  qed
qed

lemma Tick_ok: "workspace_ok n w \<Longrightarrow> workspace_ok (Suc n) (Tick strerror fixed k w)"
  by (rule Tick_parts[of w strerror fixed k]) (metis workspace_ok_moved workspace_ok_finish_requests add_0_right add_Suc_right)

lemma ticks_ok: "workspace_ok n w \<Longrightarrow> workspace_ok (n + length ks) (fold (Tick strerror fixed) ks w)"
proof (induction ks arbitrary: n w)
  case (Cons k ks)
  from Cons.IH[OF Tick_ok[OF Cons.prems]] show ?case by simp
qed simp

lemma moved_busy: "moved k w w' \<Longrightarrow> wp_busy (rw_pages w' t) = wp_busy (rw_pages w t)"
  by (simp add: moved_def page_moved_def)

lemma Tick_idle: "\<not> wp_busy (rw_pages w t) \<Longrightarrow> \<not> wp_busy (rw_pages (Tick strerror fixed k w) t)"
proof -
  assume a: "\<not> wp_busy (rw_pages w t)"
  have f: "\<not> wp_busy p \<Longrightarrow> \<not> wp_busy (fold (page_reply strerror reply n) ds p)" for reply n ds p
    by (induction ds arbitrary: p) (simp_all add: page_reply_def split: option.split)
  show ?thesis
    by (rule Tick_parts[of w strerror fixed k]) (metis a f moved_busy finish_requests_page)
qed

lemma ticks_idle: "\<not> wp_busy (rw_pages w t) \<Longrightarrow> \<not> wp_busy (rw_pages (fold (Tick strerror fixed) ks w) t)"
  by (induction ks arbitrary: w) (simp_all add: Tick_idle)

section \<open>The handlers\<close>

text \<open>A handler ends well where \<open>safe\<close> says so, and then the requests are as they should be.\<close>

definition ends :: "bool \<Rightarrow> nat \<Rightarrow> remote_workspace result \<Rightarrow> bool" where
  "ends safe n r \<longleftrightarrow> (case r of Inl _ \<Rightarrow> \<not> safe | Inr w \<Rightarrow> workspace_ok n w)"

lemma ends_Inr [simp]: "ends safe n (Inr w) = workspace_ok n w"
  by (simp add: ends_def)

lemma ends_mono: "ends safe m r \<Longrightarrow> m \<le> n \<Longrightarrow> (safe' \<Longrightarrow> safe) \<Longrightarrow> ends safe' n r"
  by (auto simp: ends_def workspace_ok_mono split: sum.splits)

lemma Submit_ok:
  assumes "workspace_ok n w" and "\<not> wp_busy (rw_pages w t)" and "rc_operation c = OpCancel \<or> rc_endpoint c = wp_selected (rw_pages w t)"
  shows "workspace_ok n (Submit t c w)"
proof -
  let ?w = "Submit t c w" and ?p = "rw_pages w t"
  let ?d = "\<lparr>pd_ticket = length (rw_sent w), pd_command = c, pd_tab = t, pd_epoch = nv_epoch (rw_network w), pd_revision = wp_revision ?p\<rparr>"
  have p: "rw_pages ?w = (rw_pages w)(t := ?p\<lparr>wp_busy := True, wp_status := ''Request in progress; no automatic retry''\<rparr>)"
    "rw_sent ?w = rw_sent w @ [c]" "rw_pending ?w = rw_pending w @ [?d]" by (simp_all add: Submit_def Let_def)
  have "requests_ok n ?w" if r: "requests_ok n w"
  proof -
    have "request_ok ?w d" if "request_ok w d" for d using that by (auto simp: request_ok_def Let_def p nth_append)
    moreover have "request_ok ?w ?d" using assms(3) by (auto simp: request_ok_def Let_def p)
    moreover have "requests_of t' ?w = requests_of t' w @ (if t' = t then [?d] else [])" for t' by (auto simp: requests_of_def p)
    moreover have "length (rw_sent w) \<notin> pd_ticket ` set (rw_pending w)" using r by (auto simp: requests_ok_def request_ok_def Let_def)
    ultimately show ?thesis using r assms(2) by (auto simp: requests_ok_def p)
  qed
  with assms(1) show ?thesis by (auto simp: workspace_ok_def p)
qed

lemma send_request_ok:
  assumes "workspace_ok n w" and "\<not> wp_busy (rw_pages w t)"
  shows "ends True n (send_request t op w)"
proof -
  obtain v where v: "Edited (wp_input (rw_pages w t)) = Inr v" using Edited_ok assms(1) by (auto simp: workspace_ok_def)
  have "moved 0 w (set_page t ((rw_pages w t)\<lparr>wp_status := x\<rparr>) w)" for x by (intro moved_set_page page_moved_same) simp_all
  from workspace_ok_moved[OF assms(1) this] Submit_ok[OF assms] show ?thesis
    by (auto simp: send_request_def request_command_def v Let_def)
qed

lemma Request_ok: "workspace_ok n w \<Longrightarrow> ends True (n + length (fst d)) (Request strerror fixed d t op w)"
  unfolding Request_def ask_def Let_def
  using ticks_ok[of n w "fst d" strerror fixed] ticks_idle[of w t strerror fixed "fst d"]
  by (auto intro: workspace_ok_mono ends_mono[OF send_request_ok] send_request_ok)

lemma moved_select: "moved (Suc 0) w (set_page t ((Clear (rw_pages w t))\<lparr>wp_selected := e, wp_metadata := m\<rparr>) w)"
  by (rule moved_set_page) (auto simp: page_moved_def Clear_def intro: exI[of _ "Suc 0"])

lemma leave_subscription_choices [simp]: "wp_choices (rw_pages (leave_subscription t w) t') = wp_choices (rw_pages w t')"
  "wp_input (rw_pages (leave_subscription t w) t') = wp_input (rw_pages w t')" "rw_host (leave_subscription t w) = rw_host w"
  "rw_network (leave_subscription t w) = rw_network w"
  by (simp_all add: leave_subscription_def Let_def)

lemma wp_choices_Clear [simp]: "wp_choices (Clear p) = wp_choices p"
  by (simp add: Clear_def)

lemma select_now_ok:
  assumes "workspace_ok n w"
  shows "ends (row_ok row (wp_choices (rw_pages w t))) (Suc n + length (fst d)) (select_now strerror fixed d t row w)"
proof (cases "nat row < length (wp_choices (rw_pages w t))")
  case True
  let ?w = "\<lambda>e m. set_page t ((Clear (rw_pages (leave_subscription t w) t))\<lparr>wp_selected := e, wp_metadata := m\<rparr>) (leave_subscription t w)"
  have ok: "workspace_ok (Suc n) (?w e m)" for e m
    using workspace_ok_moved[OF assms moved_still(1)[OF moved_leave moved_select]] by simp
  have "ends safe (Suc n + length (fst d)) (Request strerror fixed d t op (?w e m))" for safe op e m
    by (rule ends_mono[OF Request_ok[OF ok]]) simp_all
  moreover have "workspace_ok (Suc n + length (fst d)) (?w e m)" for e m by (rule workspace_ok_mono[OF ok]) simp
  ultimately show ?thesis using True unfolding select_now_def Let_def by (simp split del: if_split split: if_split)
next
  case False
  then show ?thesis by (simp add: select_now_def Let_def nth_res_def row_ok_def ends_def)
qed

lemma Select_ok:
  assumes "workspace_ok n w"
  shows "ends (fst d = []) (Suc n + 2 * length (fst d)) (Select strerror fixed d t row w)"
proof -
  let ?x = "fold (Tick strerror fixed) (fst d) w"
  have x: "workspace_ok (n + length (fst d)) ?x" using ticks_ok[OF assms] .
  have "moved 0 y (set_page t ((rw_pages y t)\<lparr>wp_row := r\<rparr>) y)" for y r by (intro moved_set_page page_moved_same) simp_all
  from workspace_ok_moved[OF x this] have no: "workspace_ok (Suc n + 2 * length (fst d)) (set_page t ((rw_pages ?x t)\<lparr>wp_row := r\<rparr>) ?x)" for r
    by (rule workspace_ok_mono) simp
  have yes: "ends (fst d = []) (Suc n + 2 * length (fst d)) (select_now strerror fixed d t row ?x)" if "row_ok row (wp_choices (rw_pages w t))"
    by (rule ends_mono[OF select_now_ok[OF x]]) (use that in simp_all)
  have clean: "ends (fst d = []) (Suc n + 2 * length (fst d)) (select_now strerror fixed d t row w)" if "row_ok row (wp_choices (rw_pages w t))"
    by (rule ends_mono[OF select_now_ok[OF assms]]) (use that in simp_all)
  have same: "workspace_ok (Suc n + 2 * length (fst d)) w" by (rule workspace_ok_mono[OF assms]) simp
  from no yes clean same show ?thesis unfolding Select_def ask_def Let_def prod.case by (simp split: if_split)
qed

lemma choose_row_ok:
  assumes "workspace_ok n w"
  shows "ends (fst d = []) (Suc n + 2 * length (fst d)) (choose_row strerror fixed d t row w)"
proof -
  have "moved 0 w (set_page t ((rw_pages w t)\<lparr>wp_row := row\<rparr>) w)" by (intro moved_set_page page_moved_same) simp_all
  from workspace_ok_moved[OF assms this] Select_ok[of n] workspace_ok_mono[OF assms] show ?thesis by (simp add: choose_row_def Let_def)
qed

lemma Navigate_ok:
  assumes "workspace_ok n w"
  shows "ends (fst d = []) (Suc n + 2 * length (fst d)) (Navigate strerror fixed d i w)"
proof -
  have "moved 0 w (w\<lparr>rw_tab := x\<rparr>)" for x by (rule moved_frame) simp_all
  from workspace_ok_moved[OF assms this] choose_row_ok[of n] workspace_ok_mono[OF assms] show ?thesis
    by (auto simp: Navigate_def split: option.split)
qed

lemma change_host_moved: "moved (Suc (Suc 0)) w (change_host w)"
proof -
  have h: "moved 0 w (w\<lparr>rw_host := x\<rparr>)" for w x by (rule moved_frame) simp_all
  have c: "moved (Suc 0) w (w\<lparr>rw_pages := (\<lambda>t. Clear (rw_pages w t))\<rparr>)" for w by (rule moved_pages) (simp_all add: page_moved_Clear)
  note l = moved_still(1)[OF h moved_fold[where f = leave_subscription, OF moved_leave]]
  from moved_trans[OF moved_still(1)[OF l c] moved_Populate] show ?thesis by (simp add: change_host_def Let_def)
qed

lemma choose_host_ok: "workspace_ok n w \<Longrightarrow> workspace_ok (Suc (Suc n) + length (fst d)) (choose_host strerror fixed d row w)"
proof -
  assume ok: "workspace_ok n w"
  have h: "moved 0 w (w\<lparr>rw_host := x\<rparr>)" for w x by (rule moved_frame) simp_all
  have hn: "workspace_ok m y \<Longrightarrow> m \<le> Suc (Suc n) + length (fst d) \<Longrightarrow> workspace_ok (Suc (Suc n) + length (fst d)) (y\<lparr>rw_host := x\<rparr>)" for y x m
    using workspace_ok_moved[OF _ h, of m y x] workspace_ok_mono by simp
  have ch: "workspace_ok m y \<Longrightarrow> m \<le> n + length (fst d) \<Longrightarrow> workspace_ok (Suc (Suc n) + length (fst d)) (change_host y)" for y m
    using workspace_ok_moved[OF _ change_host_moved, of m y] workspace_ok_mono[of "m + Suc (Suc 0)" "change_host y"] by simp
  have s: "workspace_ok (Suc (Suc n) + length (fst d)) w" by (rule workspace_ok_mono[OF ok]) simp
  have w: "workspace_ok n (w\<lparr>rw_host := x\<rparr>)" for x using workspace_ok_moved[OF ok h] by simp
  note t = ticks_ok[OF w, where ks = "fst d" and strerror = strerror and fixed = fixed]
  show ?thesis unfolding choose_host_def host_changed_def ask_def prod.case
    using s ch[OF w] ch[OF t] hn[OF ok] hn[OF t] by (simp split: if_split)
qed

lemma Configure_ok:
  assumes "workspace_ok n w"
  shows "workspace_ok (Suc n + length (fst d)) (Configure strerror fixed d shutdown w)"
proof -
  have c: "workspace_ok (Suc n + length (fst d)) (configure_now b y)" if "workspace_ok m y" "m \<le> n + length (fst d)" for m y b
    using workspace_ok_mono[OF workspace_ok_moved[OF that(1) moved_configure[of y b]], of "Suc n + length (fst d)"] that(2) by simp
  have t: "workspace_ok (n + length (fst d)) (fold (Tick strerror fixed) (fst d) w)" using ticks_ok[OF assms] .
  show ?thesis unfolding Configure_def ask_def prod.case
    using c[OF assms] c[OF t] workspace_ok_mono[OF t] workspace_ok_mono[OF assms] by (simp split: if_split)
qed

lemma cancel_goal_ok: "workspace_ok n w \<Longrightarrow> workspace_ok n (cancel_goal w)"
  unfolding cancel_goal_def Let_def by (auto intro!: Submit_ok split: option.split)

lemma open_remote_ok:
  assumes "workspace_ok n w"
  shows "ends (fst d' = [] \<and> (gn_kind g = GElement \<longrightarrow> 15 \<le> length (gn_id g))) (Suc (Suc (Suc n)) + length (fst d) + 2 * length (fst d'))
     (open_remote strerror fixed d d' g w)"
proof -
  let ?n = "Suc (Suc (Suc n)) + length (fst d) + 2 * length (fst d')"
  let ?x = "choose_host strerror fixed d (find_data (gn_host g) 0 (hv_hosts (rw_host w))) w"
  have x: "workspace_ok (Suc (Suc n) + length (fst d)) ?x" using choose_host_ok[OF assms] .
  have s: "workspace_ok ?n w" "workspace_ok ?n ?x" by (rule workspace_ok_mono[OF assms], simp, rule workspace_ok_mono[OF x], simp)
  have "moved 0 ?x (?x\<lparr>rw_tab := a\<rparr>)" "moved 0 ?x (?x\<lparr>rw_tab := a, rw_host := b\<rparr>)" for a b by (rule moved_frame, simp_all)+
  from this[THEN workspace_ok_moved[OF s(2)]]
  have m: "workspace_ok ?n (?x\<lparr>rw_tab := a\<rparr>)" "workspace_ok ?n (?x\<lparr>rw_tab := a, rw_host := b\<rparr>)" for a b by simp_all
  have "ends (fst d' = []) ?n (Navigate strerror fixed d' i ?x)" for i
    by (rule ends_mono[OF Navigate_ok[OF x]]) simp_all
  then have nav: "ends (fst d' = [] \<and> b) ?n (Navigate strerror fixed d' i ?x)" for i b by (rule ends_mono) simp_all
  show ?thesis unfolding open_remote_def Let_def using s m nav by (auto simp: ends_def)
qed

lemma BeginClose_ok:
  assumes "workspace_ok n w"
  shows "workspace_ok (Suc n + 2 * length (fst d)) (snd (BeginClose strerror fixed d w))"
proof -
  let ?n = "Suc n + 2 * length (fst d)"
  have t: "workspace_ok (n + length (fst d)) (fold (Tick strerror fixed) (fst d) w)" using ticks_ok[OF assms] .
  have "moved 0 y (y\<lparr>rw_network := x\<rparr>)" for y x by (rule moved_frame) simp_all
  note c = workspace_ok_moved[OF _ this]
  have "workspace_ok ?n (Configure strerror fixed d True (y\<lparr>rw_network := x\<rparr>))" if "workspace_ok m y" "m \<le> n + length (fst d)" for m y x
    by (rule workspace_ok_mono[OF Configure_ok[OF c[OF that(1)]]]) (use that(2) in simp)
  from this[OF t] this[OF assms] workspace_ok_mono[OF t, of ?n] workspace_ok_mono[OF assms, of ?n] show ?thesis
    unfolding BeginClose_def Let_def ask_def by (auto simp: if_distrib[of "\<lambda>x. case x of (yes, w) \<Rightarrow> f yes w" for f] split: prod.split)
qed

section \<open>Events\<close>

fun quick :: "workspace_event \<Rightarrow> bool" where
  "quick (Row_chosen d t row) = (fst d = [])"
| "quick (Item_activated d i) = (fst d = [])"
| "quick (Graph_activated d d' g) = (fst d' = [] \<and> (gn_kind g = GElement \<longrightarrow> 15 \<le> length (gn_id g)))"
| "quick ev = True"

text \<open>How many selections an event can give up at most.\<close>

fun weight :: "workspace_event \<Rightarrow> nat" where
  "weight (Host_chosen d row) = 2 + length (fst d)"
| "weight (Row_chosen d t row) = 1 + 2 * length (fst d)"
| "weight (Button_clicked d t second) = length (fst d)"
| "weight (Apply_network d) = 1 + length (fst d)"
| "weight (Item_activated d i) = 1 + 2 * length (fst d)"
| "weight (Graph_activated d d' g) = 3 + length (fst d) + 2 * length (fst d')"
| "weight (Close_wanted d) = 1 + 2 * length (fst d)"
| "weight ev = 1"

lemma workspace_step_ok:
  assumes "workspace_ok n w"
  shows "ends (quick ev) (n + weight ev) (workspace_step strerror fixed ev w)"
proof (cases ev)
  case (Button_clicked d t second)
  then show ?thesis unfolding workspace_step_def press_button_def Let_def
    using ends_mono[OF Request_ok[OF assms]] workspace_ok_mono[OF assms] by simp
next
  case (Cell_typed t r s)
  have "moved 0 w (set_page t ((rw_pages w t)\<lparr>wp_input := edit_cell r s (wp_input (rw_pages w t))\<rparr>) w)"
    by (intro moved_set_page) (auto simp: page_moved_def)
  from workspace_ok_mono[OF workspace_ok_moved[OF assms this]] Cell_typed show ?thesis by (simp add: workspace_step_def Let_def)
next
  case (Apply_network d)
  then show ?thesis using Configure_ok[OF assms, of d strerror fixed False] workspace_ok_mono[OF assms] by (simp add: workspace_step_def)
next
  case (Network_typed f)
  have "moved 0 w (w\<lparr>rw_network := (rw_network w)\<lparr>nv_form := f\<rparr>\<rparr>)" by (rule moved_frame) simp_all
  from workspace_ok_mono[OF workspace_ok_moved[OF assms this]] Network_typed show ?thesis by (simp add: workspace_step_def)
next
  case (Timeouts_typed a b)
  have "moved 0 w (w\<lparr>rw_timeout := a, rw_tracking := b\<rparr>)" by (rule moved_frame) simp_all
  from workspace_ok_mono[OF workspace_ok_moved[OF assms this]] Timeouts_typed show ?thesis by (simp add: workspace_step_def)
next
  case (Activity_chosen row)
  have "moved 0 w (w\<lparr>rw_activity := x\<rparr>)" for x by (rule moved_frame) simp_all
  from workspace_ok_mono[OF workspace_ok_moved[OF assms moved_still(1)[OF this moved_ShowActivity[where k = 0]]]] workspace_ok_mono[OF assms] Activity_chosen
  show ?thesis by (simp add: workspace_step_def)
next
  case (Item_activated d i)
  then show ?thesis using Navigate_ok[OF assms, of d strerror fixed i] workspace_ok_mono[OF assms] by (simp add: workspace_step_def)
next
  case (Graph_activated d d' g)
  then show ?thesis using open_remote_ok[OF assms, of d' g d strerror fixed]
    by (simp add: workspace_step_def eval_nat_numeral add.assoc)
qed (use Tick_ok[OF assms] choose_host_ok[OF assms] choose_row_ok[OF assms] cancel_goal_ok[OF assms]
    BeginClose_ok[OF assms] workspace_ok_mono[OF assms] in \<open>auto simp: workspace_step_def intro: workspace_ok_mono\<close>)

lemma new_workspace_ok: "workspace_ok 1 (new_workspace strerror fixed options snapshot interfaces k)"
proof -
  have "workspace_ok 0 (initial_workspace options snapshot interfaces)"
    by (auto simp: workspace_ok_def requests_ok_def requests_of_def initial_workspace_def remote_page0_def)
  from Tick_ok[OF this] show ?thesis by (simp add: new_workspace_def)
qed

lemma workspace_run_ok:
  assumes "workspace_ok n w"
  shows "ends (list_all quick events) (n + sum_list (map weight events)) (foldM_res (workspace_step strerror fixed) events w)"
  using assms
proof (induction events arbitrary: n w)
  case (Cons ev events)
  from workspace_step_ok[OF Cons.prems, of ev strerror fixed] Cons.IH show ?case
    by (cases "workspace_step strerror fixed ev w") (fastforce simp: ends_def add.assoc intro: ends_mono split: sum.splits)+
qed simp

section \<open>Hosts, network and closing\<close>

lemma fold_frame: "(\<And>x w. g (f x w) = g w) \<Longrightarrow> g (fold f xs w) = g w"
  by (induction xs arbitrary: w) simp_all

lemma poll_activity_frame [simp]: "rw_network (poll_activity strerror fixed a w) = rw_network w" "rw_host (poll_activity strerror fixed a w) = rw_host w"
  "rw_ticks (poll_activity strerror fixed a w) = rw_ticks w"
  by (auto simp: poll_activity_def show_topic_def Let_def split: prod.split)

lemma finish_poll_frame [simp]: "rw_network (finish_poll strerror fixed reply w) = rw_network w" "rw_host (finish_poll strerror fixed reply w) = rw_host w"
  "rw_ticks (finish_poll strerror fixed reply w) = rw_ticks w"
  by (auto simp: finish_poll_def Let_def fold_frame[of rw_network] fold_frame[of rw_host] fold_frame[of rw_ticks] split: option.split)

lemma take_replies_frame' [simp]: "rw_network (take_replies strerror fixed k w) = rw_network w" "rw_host (take_replies strerror fixed k w) = rw_host w"
  "rw_ticks (take_replies strerror fixed k w) = rw_ticks w"
  by (simp_all add: take_replies_def start_poll_def Let_def)

lemma look_around_network [simp]: "rw_network (look_around strerror k w) = (rw_network w)\<lparr>nv_snapshot := tk_snapshot k\<rparr>"
  "rw_ticks (look_around strerror k w) = Suc (rw_ticks w)"
  by (simp_all add: look_around_def show_status_def Populate_def Let_def)

lemma list_hosts_synced [simp]: "current_data (list_hosts n v) = hv_selected v" "hv_selected (list_hosts n v) = hv_selected v"
proof -
  have f: "find_data d i xs = -1 \<or> (\<exists>j < length xs. find_data d i xs = i + int j \<and> snd (xs ! j) = d)" for d i xs
  proof (induction xs arbitrary: i)
    case (Cons x xs)
    show ?case
    proof (cases "snd x = d")
      case False
      from Cons[of "i + 1"] show ?thesis
      proof (elim disjE exE conjE)
        fix j assume "j < length xs" "find_data d (i + 1) xs = i + 1 + int j" "snd (xs ! j) = d"
        then show ?thesis using False by (intro disjI2 exI[of _ "Suc j"]) simp
      qed (use False in simp)
    qed (auto intro: exI[of _ 0])
  qed simp
  show "hv_selected (list_hosts n v) = hv_selected v" by (simp add: list_hosts_def Let_def)
  let ?hosts = "(''Local'', []) # map (\<lambda>h. (host_label h, rh_id h)) (ns_hosts n)"
  show "current_data (list_hosts n v) = hv_selected v"
  proof (cases "find_data (hv_selected v) 0 ?hosts < 0")
    case True
    moreover then have "hv_selected v \<noteq> []" by (auto split: if_splits)
    moreover have "current_data (u\<lparr>hv_hosts := hosts @ [x], hv_row := int (length hosts)\<rparr>) = snd x" for u hosts x
      by (simp add: current_data_def row_ok_def nth_append)
    ultimately show ?thesis unfolding list_hosts_def Let_def by (simp only: simp_thms if_True snd_conv)
  next
    case False
    with f[of "hv_selected v" 0 ?hosts] show ?thesis unfolding list_hosts_def Let_def by (auto simp: current_data_def row_ok_def max_def)
  qed
qed

definition synced :: "remote_workspace \<Rightarrow> bool" where
  "synced w \<longleftrightarrow> current_data (rw_host w) = hv_selected (rw_host w)"

lemma current_data_cong: "hv_hosts v = hv_hosts u \<Longrightarrow> hv_row v = hv_row u \<Longrightarrow> current_data v = current_data u"
  by (simp add: current_data_def)

lemma look_around_host:
  "hv_selected (rw_host (look_around strerror k w)) = hv_selected (rw_host w)"
  "Suc (rw_ticks w) mod 5 = 0 \<or> synced w \<Longrightarrow> synced (look_around strerror k w)"
proof -
  have s: "rw_host (show_status k w) = rw_host w" for w by (simp add: show_status_def)
  have p: "hv_selected (rw_host (Populate w)) = hv_selected (rw_host w)" "current_data (rw_host (Populate w)) = current_data (rw_host w)" for w
    by (simp_all add: Populate_def Let_def current_data_def)
  show "hv_selected (rw_host (look_around strerror k w)) = hv_selected (rw_host w)" by (simp add: look_around_def s p Let_def)
  assume "Suc (rw_ticks w) mod 5 = 0 \<or> synced w"
  then show "synced (look_around strerror k w)" by (auto simp: look_around_def s p Let_def synced_def)
qed

text \<open>A tick of a workspace that is not closing runs to its end.\<close>

lemma Tick_runs:
  assumes "\<not> nv_closing (rw_network w)"
  shows "\<not> nv_closing (rw_network (Tick strerror fixed k w))" and "hv_selected (rw_host (Tick strerror fixed k w)) = hv_selected (rw_host w)"
    and "rw_ticks (Tick strerror fixed k w) = Suc (rw_ticks w)" and "nv_shutdown (rw_network (Tick strerror fixed k w)) = nv_shutdown (rw_network w)"
    and "nv_closed (rw_network (Tick strerror fixed k w)) = nv_closed (rw_network w)"
    and "Suc (rw_ticks w) mod 5 = 0 \<or> synced w \<Longrightarrow> synced (Tick strerror fixed k w)"
proof -
  obtain stop v where f: "finish_configuration strerror k (w\<lparr>rw_local := LocalTick (tk_gateway k) (rw_local w)\<rparr>) = (stop, v)"
    by (cases "finish_configuration strerror k (w\<lparr>rw_local := LocalTick (tk_gateway k) (rw_local w)\<rparr>)")
  then have v: "\<not> stop" "rw_host v = rw_host w" "rw_ticks v = rw_ticks w" "\<not> nv_closing (rw_network v)"
      "nv_shutdown (rw_network v) = nv_shutdown (rw_network w)" "nv_closed (rw_network v) = nv_closed (rw_network w)"
    using assms by (auto simp: finish_configuration_def Let_def simp del: append.simps split: option.splits if_splits)
  have t: "Tick strerror fixed k w = take_replies strerror fixed k (look_around strerror k v)" by (simp add: Tick_def f v(1))
  show "\<not> nv_closing (rw_network (Tick strerror fixed k w))" "hv_selected (rw_host (Tick strerror fixed k w)) = hv_selected (rw_host w)"
    "rw_ticks (Tick strerror fixed k w) = Suc (rw_ticks w)" "nv_shutdown (rw_network (Tick strerror fixed k w)) = nv_shutdown (rw_network w)"
    "nv_closed (rw_network (Tick strerror fixed k w)) = nv_closed (rw_network w)"
    by (simp_all add: t v look_around_host)
  assume "Suc (rw_ticks w) mod 5 = 0 \<or> synced w"
  then have "synced (look_around strerror k v)" by (intro look_around_host) (simp add: v synced_def)
  then show "synced (Tick strerror fixed k w)" by (simp add: t synced_def)
qed

text \<open>Whether the next \<open>n\<close> ticks after \<open>m\<close> have a fifth one among them.\<close>

definition fifth :: "nat \<Rightarrow> nat \<Rightarrow> bool" where
  "fifth m n \<longleftrightarrow> (\<exists>i < n. Suc (m + i) mod 5 = 0)"

lemma fifth_Suc: "fifth m (Suc n) \<Longrightarrow> Suc m mod 5 = 0 \<or> fifth (Suc m) n"
  unfolding fifth_def by (metis add_0_right add_Suc add_Suc_right less_Suc_eq_0_disj)

lemma fifth_five: "5 \<le> n \<Longrightarrow> fifth m n"
  unfolding fifth_def by (intro exI[of _ "4 - m mod 5"]) presburger

lemma ticks_run:
  assumes "\<not> nv_closing (rw_network w)"
  shows "\<not> nv_closing (rw_network (fold (Tick strerror fixed) ks w)) \<and> hv_selected (rw_host (fold (Tick strerror fixed) ks w)) = hv_selected (rw_host w)
    \<and> nv_shutdown (rw_network (fold (Tick strerror fixed) ks w)) = nv_shutdown (rw_network w)
    \<and> nv_closed (rw_network (fold (Tick strerror fixed) ks w)) = nv_closed (rw_network w)
    \<and> (synced w \<or> fifth (rw_ticks w) (length ks) \<longrightarrow> synced (fold (Tick strerror fixed) ks w))"
  using assms
proof (induction ks arbitrary: w)
  case Nil
  then show ?case by (simp add: fifth_def)
next
  case (Cons k ks)
  note t = Tick_runs[OF Cons.prems, where k = k and strerror = strerror and fixed = fixed]
  show ?case using Cons.IH[OF t(1)] t fifth_Suc[of "rw_ticks w" "length ks"] by auto
qed

text \<open>
  C38. A confirmed change of the host can be lost: while the question about unsent edits is open, every fifth tick lists the hosts anew and goes
  back to the former one. When the answer is yes, that is the host the workspace then changes to, and the edits are gone.
\<close>

theorem confirmed_host_change_lost:
  assumes "\<not> nv_closing (rw_network w)" and "Dirty w" and "5 \<le> length (fst d)"
  shows "hv_selected (rw_host (choose_host strerror fixed d row w)) = hv_selected (rw_host w)"
proof -
  let ?w = "w\<lparr>rw_host := (rw_host w)\<lparr>hv_row := row\<rparr>\<rparr>"
  let ?x = "fold (Tick strerror fixed) (fst d) ?w"
  have "synced ?x" "hv_selected (rw_host ?x) = hv_selected (rw_host w)"
    using ticks_run[of ?w strerror fixed "fst d"] fifth_five[OF assms(3)] assms(1) by auto
  moreover have "hv_selected (rw_host (change_host y)) = current_data (rw_host y)" for y
  proof -
    have "rw_host (fold leave_subscription remote_tabs y) = rw_host y" for y by (rule fold_frame) simp
    then show ?thesis by (simp add: change_host_def Populate_def Let_def)
  qed
  moreover have "Dirty ?w = Dirty w" by (simp add: Dirty_def)
  ultimately show ?thesis using assms(2)
    by (simp add: choose_host_def host_changed_def ask_def synced_def)
qed

text \<open>The state in which a tick takes up the replies.\<close>

definition looked_around :: "(int \<Rightarrow> string) \<Rightarrow> tick_input \<Rightarrow> remote_workspace \<Rightarrow> remote_workspace" where
  "looked_around strerror k w =
     look_around strerror k (snd (finish_configuration strerror k (w\<lparr>rw_local := LocalTick (tk_gateway k) (rw_local w)\<rparr>)))"

lemma Tick_looked_around:
  "Tick strerror fixed k w = (if fst (finish_configuration strerror k (w\<lparr>rw_local := LocalTick (tk_gateway k) (rw_local w)\<rparr>))
     then snd (finish_configuration strerror k (w\<lparr>rw_local := LocalTick (tk_gateway k) (rw_local w)\<rparr>))
     else take_replies strerror fixed k (looked_around strerror k w))"
  by (simp add: Tick_def looked_around_def split: prod.split)

lemma moved_looked_around: "moved (Suc (Suc 0)) w (looked_around strerror k w)"
proof -
  have "moved 0 w (w\<lparr>rw_local := x\<rparr>)" for x by (rule moved_frame) simp_all
  from moved_trans[OF moved_still(1)[OF this moved_finish_configuration] moved_look_around]
  show ?thesis unfolding looked_around_def by simp
qed

text \<open>What a reply can change on a page.\<close>

definition page_fields :: "remote_page \<Rightarrow> form \<times> form \<times> u64" where
  "page_fields p = (wp_input p, wp_output p, wp_subscription p)"

text \<open>The page after a reply, as one choice between the accepted reply and a new status.\<close>

lemma reply_page_eq:
  "reply_page strerror n d r p =
     (let c = pd_command d; op = rc_operation c
      in if pd_epoch d = nv_epoch n \<and> pd_revision d = wp_revision p \<and> (op = OpUnsubscribe \<or> is_current (nv_snapshot n) (rc_endpoint c))
         then accept_reply op r (p\<lparr>wp_busy := False, wp_status := Summary strerror r op\<rparr>)
         else p\<lparr>wp_busy := False, wp_status := (if op = OpSet \<or> op = OpCall \<or> op = OpGoal
             then ''Stale selection result (not applied to new fields): '' @ Summary strerror r op else wp_status p)\<rparr>)"
  by (cases p) (auto simp: reply_page_def Let_def simp del: append.simps)

lemma page_fields_status [simp]:
  "page_fields (p\<lparr>wp_busy := b\<rparr>) = page_fields p" "page_fields (p\<lparr>wp_busy := b, wp_status := t\<rparr>) = page_fields p"
  by (simp_all add: page_fields_def)

lemma reply_page_fields:
  assumes "\<not> (pd_epoch d = nv_epoch n \<and> pd_revision d = wp_revision p \<and> rc_operation (pd_command d) \<noteq> OpCancel)"
  shows "page_fields (reply_page strerror n d r p) = page_fields p"
proof (cases "pd_epoch d = nv_epoch n \<and> pd_revision d = wp_revision p")
  case True
  with assms have "rc_operation (pd_command d) = OpCancel" by blast
  then show ?thesis by (simp add: reply_page_eq Let_def accept_reply_def del: append.simps)
next
  case False
  then show ?thesis unfolding reply_page_eq Let_def by (subst if_not_P) (auto simp del: append.simps)
qed

lemma if_choice: "x = (if c then a else b) \<Longrightarrow> if c then x = a else x = b"
  by simp

section \<open>Rows that go away\<close>

lemma wp_choices_reply [simp]: "wp_choices (reply_page strerror n d r p) = wp_choices p"
  unfolding reply_page_def accept_reply_def Let_def by (simp split: remote_operation.split)

lemma finish_requests_choices [simp]: "wp_choices (rw_pages (finish_requests strerror reply w) t) = wp_choices (rw_pages w t)"
proof -
  have "wp_choices (fold (page_reply strerror reply n) ds p) = wp_choices p" for n ds p
    by (rule fold_frame) (simp add: page_reply_def split: option.split)
  then show ?thesis by (simp add: finish_requests_page)
qed

lemma finish_poll_choices [simp]: "wp_choices (rw_pages (finish_poll strerror fixed reply w) t) = wp_choices (rw_pages w t)"
proof -
  have "wp_choices (rw_pages (poll_activity strerror fixed a w) t) = wp_choices (rw_pages w t)" for a w
    by (auto simp: poll_activity_def show_topic_def Let_def split: prod.split)
  then have "wp_choices (rw_pages (fold (poll_activity strerror fixed) as w) t) = wp_choices (rw_pages w t)" for as w
    by (rule fold_frame[where g = "\<lambda>w. wp_choices (rw_pages w t)"])
  then show ?thesis by (auto simp: finish_poll_def Let_def split: option.split)
qed

lemma take_replies_choices [simp]: "wp_choices (rw_pages (take_replies strerror fixed k w) t) = wp_choices (rw_pages w t)"
  by (simp add: take_replies_def start_poll_def enable_buttons_def Let_def)

lemma populate_page_choices [simp]: "wp_choices (populate_page n es t p) = filter (\<lambda>e. re_kind e = tab_kind t) es"
  by (simp add: populate_page_def Let_def)

lemma Tick_choices:
  assumes "\<not> nv_closing (rw_network w)" and "ns_hosts (tk_snapshot k) = []" and "Suc (rw_ticks w) mod 5 = 0 \<or> wp_choices (rw_pages w t) = []"
  shows "wp_choices (rw_pages (Tick strerror fixed k w) t) = []"
proof -
  obtain stop v where f: "finish_configuration strerror k (w\<lparr>rw_local := LocalTick (tk_gateway k) (rw_local w)\<rparr>) = (stop, v)"
    by (cases "finish_configuration strerror k (w\<lparr>rw_local := LocalTick (tk_gateway k) (rw_local w)\<rparr>)")
  then have v: "\<not> stop" "rw_ticks v = rw_ticks w" "rw_pages v = rw_pages w"
    using assms(1) by (auto simp: finish_configuration_def Let_def simp del: append.simps split: option.splits if_splits)
  have p: "rw_pages (show_status k w) = rw_pages w" for w by (simp add: show_status_def)
  have "wp_choices (rw_pages (look_around strerror k v) t) = []"
    using assms(2,3) v by (auto simp: look_around_def Let_def p Populate_def selected_host_def host_endpoints_def)
  then show ?thesis by (simp add: Tick_def f v(1))
qed

lemma ticks_choices:
  assumes "\<not> nv_closing (rw_network w)" and "\<forall>k \<in> set ks. ns_hosts (tk_snapshot k) = []"
    and "fifth (rw_ticks w) (length ks) \<or> wp_choices (rw_pages w t) = []"
  shows "wp_choices (rw_pages (fold (Tick strerror fixed) ks w) t) = []"
  using assms
proof (induction ks arbitrary: w)
  case Nil
  then show ?case by (simp add: fifth_def)
next
  case (Cons k ks)
  note t = Tick_runs[OF Cons.prems(1), where k = k and strerror = strerror and fixed = fixed]
  have "fifth (Suc (rw_ticks w)) (length ks) \<or> wp_choices (rw_pages (Tick strerror fixed k w) t) = []"
    using Cons.prems fifth_Suc[of "rw_ticks w" "length ks"] Tick_choices[OF Cons.prems(1), of k] by auto
  with Cons.IH[OF t(1)] t(3) Cons.prems(2) show ?case by simp
qed

text \<open>
  C37. A selection can read past its list: the row is checked before the question about unsent edits, and used after it. When the host is lost
  meanwhile, the choices are gone and the answer yes reads past the end of the vector.
\<close>

theorem row_lost_while_asked:
  assumes "\<not> nv_closing (rw_network w)" and "fm_dirty (wp_input (rw_pages w t))" and "row_ok row (wp_choices (rw_pages w t))"
    and "5 \<le> length ks" and "\<forall>k \<in> set ks. ns_hosts (tk_snapshot k) = []"
  shows "Select strerror fixed (ks, True) t row w = Inl Undefined"
  using assms(2,3) ticks_choices[OF assms(1,5), of t strerror fixed] fifth_five[OF assms(4)]
  by (simp add: Select_def ask_def Let_def select_now_def nth_res_def)

text \<open>
  A subscription can leak: one whose endpoint is lost just before its reply, while the page still has it selected, is neither
  kept by the page nor ended, and no button of the page can end it any more.
\<close>

theorem subscription_leaks:
  assumes "rc_operation (pd_command d) = OpSubscribe" and "pd_epoch d = nv_epoch (rw_network w)"
    and "pd_revision d = wp_revision (rw_pages w (pd_tab d))" and "\<not> is_current (nv_snapshot (rw_network w)) (rc_endpoint (pd_command d))"
  shows "let w' = apply_reply strerror d r w in rw_sent w' = rw_sent w \<and> page_fields (rw_pages w' (pd_tab d)) = page_fields (rw_pages w (pd_tab d))"
  using assms by (simp add: apply_reply_def reply_page_def Let_def page_fields_def)

section \<open>Properties\<close>

text \<open>
  C9. Whatever the user and the network do, the workspace for other hosts stays consistent: every page has
  exactly one request under way while it says so and none otherwise, the requests are those that were sent, and each that
  belongs to the present revision of its page is for the endpoint selected there. A handler fails only where a question
  about a row, or a foreign graph node, is not dealt with at once.
\<close>

theorem remote_workspace_safe:
  "case foldM_res (workspace_step strerror fixed) events (new_workspace strerror fixed options snapshot interfaces k) of
     Inl _ \<Rightarrow> \<not> list_all quick events
   | Inr w \<Rightarrow> workspace_ok (Suc (sum_list (map weight events))) w"
  using workspace_run_ok[OF new_workspace_ok, of events strerror fixed] by (simp add: ends_def)

text \<open>
  C3. What a reply does to its page: when a tick takes up the reply of a request, the page of the request is free again.
  The reply is accepted into its fields (the value, the readback, the form or the subscription, as \<open>accept_reply\<close> does for the
  operation) with its summary as the status if the network was not turned off or on and nothing was selected anew since the
  request, and its endpoint is current; ending a subscription does not need a current endpoint. Accepted, it is that of the
  endpoint that is still selected, unless it cancels a goal, which has its own endpoint and changes no field. Any other
  reply changes the status of the page at most, to a text that calls the result of a write, a call or a goal stale.
\<close>

theorem remote_reply_current:
  assumes "workspace_ok n w" and "n + 2 < 2 ^ 64"
    and "d \<in> set (rw_pending w)" and "tk_reply k (pd_ticket d) = Some r"
  shows "let x = looked_around strerror k w; p = rw_pages x (pd_tab d); p' = rw_pages (finish_requests strerror (tk_reply k) x) (pd_tab d);
           c = pd_command d; op = rc_operation c; unchanged = (pd_epoch d = nv_epoch (rw_network x) \<and> pd_revision d = wp_revision p)
         in (if unchanged \<and> (op = OpUnsubscribe \<or> is_current (tk_snapshot k) (rc_endpoint c))
             then p' = accept_reply op r (p\<lparr>wp_busy := False, wp_status := Summary strerror r op\<rparr>)
             else p' = p\<lparr>wp_busy := False, wp_status := (if op = OpSet \<or> op = OpCall \<or> op = OpGoal
                 then ''Stale selection result (not applied to new fields): '' @ Summary strerror r op else wp_status p)\<rparr>)
          \<and> (if unchanged \<and> op \<noteq> OpCancel then rc_endpoint c = wp_selected p else page_fields p' = page_fields p)
          \<and> \<not> wp_busy p' \<and> wp_selected p' = wp_selected p"
proof -
  let ?x = "looked_around strerror k w"
  from workspace_ok_moved[OF assms(1) moved_looked_around[of w strerror k]] assms(2) have ok: "requests_ok (n + 2) ?x"
    by (simp add: workspace_ok_def)
  have d: "d \<in> set (rw_pending ?x)" using assms(3) moved_looked_around[of w strerror k] by (simp add: moved_def)
  then have one: "requests_of (pd_tab d) ?x = [d]"
  proof -
    have "d \<in> set (requests_of (pd_tab d) ?x)" using d by (simp add: requests_of_def)
    moreover have "length (requests_of (pd_tab d) ?x) \<le> 1" using ok by (simp add: requests_ok_def)
    ultimately show ?thesis by (cases "requests_of (pd_tab d) ?x") auto
  qed
  have e: "rc_operation (pd_command d) = OpCancel \<or> rc_endpoint (pd_command d) = wp_selected (rw_pages ?x (pd_tab d))"
    if "pd_revision d = wp_revision (rw_pages ?x (pd_tab d))" using ok d that by (auto simp: requests_ok_def request_ok_def Let_def)
  have n: "nv_snapshot (rw_network ?x) = tk_snapshot k" by (simp add: looked_around_def)
  have p: "rw_pages (finish_requests strerror (tk_reply k) ?x) (pd_tab d) = reply_page strerror (rw_network ?x) d r (rw_pages ?x (pd_tab d))"
    by (simp add: finish_requests_page one page_reply_def assms(4))
  show ?thesis
    unfolding Let_def p
  proof (intro conjI)
    show "if (pd_epoch d = nv_epoch (rw_network ?x) \<and> pd_revision d = wp_revision (rw_pages ?x (pd_tab d)))
          \<and> rc_operation (pd_command d) \<noteq> OpCancel
        then rc_endpoint (pd_command d) = wp_selected (rw_pages ?x (pd_tab d))
        else page_fields (reply_page strerror (rw_network ?x) d r (rw_pages ?x (pd_tab d))) = page_fields (rw_pages ?x (pd_tab d))"
      using e reply_page_fields[of d "rw_network ?x" "rw_pages ?x (pd_tab d)" strerror r] by (cases "rc_operation (pd_command d) = OpCancel") auto
  qed (simp_all only: reply_page_simps not_False_eq_True, rule if_choice, simp only: reply_page_eq Let_def n conj_assoc)
qed


definition demo_request :: remote_workspace where
  "demo_request = Submit ParameterTab (remote_command0\<lparr>rc_operation := OpGet\<rparr>) (initial_workspace network_options0 network_snapshot0 [])"

definition demo_tick :: tick_input where
  "demo_tick = \<lparr>tk_gateway = local_gateway_snapshot0, tk_snapshot = network_snapshot0, tk_configured = None,
     tk_reply = (\<lambda>_. Some remote_reply0), tk_now = 0, tk_date = []\<rparr>"

lemma demo_request_ok: "workspace_ok 0 demo_request"
proof -
  have "workspace_ok 0 (initial_workspace network_options0 network_snapshot0 [])"
    by (auto simp: workspace_ok_def requests_ok_def requests_of_def initial_workspace_def remote_page0_def)
  then show ?thesis unfolding demo_request_def
    by (rule Submit_ok) (simp_all add: initial_workspace_def remote_page0_def remote_command0_def)
qed

text \<open>The reply of a read of an endpoint that is not there any more.\<close>

theorem remote_reply_current_witness:
  "\<exists>d. d \<in> set (rw_pending demo_request) \<and>
     (let x = looked_around (\<lambda>_. []) demo_tick demo_request; p = rw_pages x (pd_tab d);
          p' = rw_pages (finish_requests (\<lambda>_. []) (tk_reply demo_tick) x) (pd_tab d)
      in p' = p\<lparr>wp_busy := False, wp_status := wp_status p\<rparr> \<and> \<not> wp_busy p' \<and> wp_selected p' = wp_selected p)"
proof -
  obtain d where d: "d \<in> set (rw_pending demo_request)" "rc_operation (pd_command d) = OpGet"
    by (fastforce simp: demo_request_def Submit_def Let_def)
  have "\<not> is_current (tk_snapshot demo_tick) e" for e by (simp add: is_current_def demo_tick_def network_snapshot0_def)
  with d remote_reply_current[OF demo_request_ok, of d demo_tick remote_reply0 "\<lambda>_. []"] show ?thesis
    by (intro exI[of _ d]) (simp add: demo_tick_def Let_def)
qed

definition demo_edited :: remote_workspace where
  "demo_edited = set_page ParameterTab (remote_page0\<lparr>wp_choices := [remote_endpoint0], wp_input := (Render data_snapshot0 True)\<lparr>fm_dirty := True\<rparr>\<rparr>)
     (initial_workspace network_options0 network_snapshot0 [])"

lemma demo_edited: "\<not> nv_closing (rw_network demo_edited)" "Dirty demo_edited" "fm_dirty (wp_input (rw_pages demo_edited ParameterTab))"
  "wp_choices (rw_pages demo_edited ParameterTab) = [remote_endpoint0]"
  by (simp_all add: demo_edited_def initial_workspace_def Dirty_def remote_tabs_def)

theorem confirmed_host_change_lost_witness:
  "hv_selected (rw_host (choose_host (\<lambda>_. []) (\<lambda>_. []) (replicate 5 demo_tick, True) 1 demo_edited)) = hv_selected (rw_host demo_edited)"
  by (rule confirmed_host_change_lost) (simp_all add: demo_edited)

theorem row_lost_while_asked_witness:
  "Select (\<lambda>_. []) (\<lambda>_. []) (replicate 5 demo_tick, True) ParameterTab 0 demo_edited = Inl Undefined"
  by (rule row_lost_while_asked) (simp_all add: demo_edited row_ok_def demo_tick_def network_snapshot0_def)

end
