(* ===== verification/RemoteWorkspaceViews.thy ===== *)
theory RemoteWorkspaceViews
  imports RemoteWorkspaceProps
begin

text \<open>
  What the workspace shows: the rate of a topic, the list of goals, the trees of a host; and how closing it ends.
\<close>

section \<open>Receive rates\<close>

definition topic_run :: "remote_activity list \<Rightarrow> double \<times> (u64, topic_rate) omap" where
  "topic_run as = foldl (\<lambda>(hz, rates) a. topic_measured a rates) (-1, []) as"

lemma topic_run_snoc [simp]: "topic_run (as @ [a]) = topic_measured a (snd (topic_run as))" "topic_run [] = (-1, [])"
  by (simp_all add: topic_run_def case_prod_beta)

definition live_topic :: "u64 \<Rightarrow> remote_activity \<Rightarrow> bool" where
  "live_topic route a \<longleftrightarrow> ra_state a = 1 \<and> \<not> ra_communication_lost a \<and> ra_route_id a = route"

text \<open>From \<open>i\<close> on the topic is active on one route, and the counter is never below what it was there.\<close>

definition unbroken_from :: "remote_activity list \<Rightarrow> u64 \<Rightarrow> nat \<Rightarrow> bool" where
  "unbroken_from as route i \<longleftrightarrow> i < length as \<and> list_all (live_topic route) (drop i as)"

definition measured_over :: "remote_activity list \<Rightarrow> nat \<Rightarrow> nat \<Rightarrow> double \<Rightarrow> bool" where
  "measured_over as i j hz \<longleftrightarrow> i < j \<and> j < length as \<and> ra_received_packets (as ! i) \<le> ra_received_packets (as ! j)
     \<and> 1 / 2 \<le> ns_to_seconds (ra_observed_at (as ! j) - ra_observed_at (as ! i))
     \<and> hz = per_second (ra_received_packets (as ! j) - ra_received_packets (as ! i))
         (ns_to_seconds (ra_observed_at (as ! j) - ra_observed_at (as ! i)))"

definition rate_inv :: "remote_activity list \<Rightarrow> topic_rate \<Rightarrow> bool" where
  "rate_inv as rate \<longleftrightarrow> (\<exists>j. unbroken_from as (tr_route rate) j \<and> tr_at rate = ra_observed_at (as ! j) \<and> tr_packets rate = ra_received_packets (as ! j)
     \<and> (tr_hz rate = -1 \<or> (\<exists>i. unbroken_from as (tr_route rate) i \<and> measured_over as i j (tr_hz rate))))"

lemma unbroken_snoc: "unbroken_from as route i \<Longrightarrow> live_topic route a \<Longrightarrow> unbroken_from (as @ [a]) route i"
  by (simp add: unbroken_from_def)

lemma unbroken_last: "live_topic route a \<Longrightarrow> unbroken_from (as @ [a]) route (length as)"
  by (simp add: unbroken_from_def)

lemma measured_snoc: "measured_over as i j hz \<Longrightarrow> measured_over (as @ [a]) i j hz"
  by (auto simp: measured_over_def nth_append)

lemma ns_to_seconds_0 [simp]: "ns_to_seconds 0 = 0"
proof -
  have "round_bits binary64 (0, Suc 0) = 0" by (simp add: round_bits_def)
  then have "rnd64 0 = 0" by (simp add: rnd64_def bits_value_def mag_mant_def)
  then show ?thesis by (simp add: ns_to_seconds_def)
qed

lemma measure_topic_inv:
  assumes "rate_inv as rate \<or> rate = topic_rate0" and "ra_state a = 1" and "\<not> ra_communication_lost a"
  shows "rate_inv (as @ [a]) (measure_topic a rate)"
proof (cases "tr_at rate = 0 \<or> tr_route rate \<noteq> ra_route_id a \<or> ra_received_packets a < tr_packets rate")
  case True
  then have "measure_topic a rate = \<lparr>tr_at = ra_observed_at a, tr_packets = ra_received_packets a, tr_route = ra_route_id a, tr_hz = -1\<rparr>"
    by (simp add: measure_topic_def Let_def)
  then show ?thesis using assms(2,3) unbroken_last[of "ra_route_id a" a as]
    by (auto simp: rate_inv_def live_topic_def intro!: exI[of _ "length as"])
next
  case False
  then have "rate \<noteq> topic_rate0" by (auto simp: topic_rate0_def)
  with assms(1) obtain j where j: "unbroken_from as (tr_route rate) j" "tr_at rate = ra_observed_at (as ! j)" "tr_packets rate = ra_received_packets (as ! j)"
    and hz: "tr_hz rate = -1 \<or> (\<exists>i. unbroken_from as (tr_route rate) i \<and> measured_over as i j (tr_hz rate))" by (auto simp: rate_inv_def)
  have live: "live_topic (tr_route rate) a" using False assms(2,3) by (simp add: live_topic_def)
  note j' = unbroken_snoc[OF j(1) live] and l = unbroken_last[OF live, of as]
  have len: "j < length as" using j(1) by (simp add: unbroken_from_def)
  let ?dt = "ns_to_seconds (ra_observed_at a - tr_at rate)"
  show ?thesis
  proof (cases "1 / 2 \<le> ?dt")
    case True
    let ?hz = "per_second (ra_received_packets a - tr_packets rate) ?dt"
    have "measured_over (as @ [a]) j (length as) ?hz" using True False len j by (simp add: measured_over_def nth_append not_less)
    moreover have "measure_topic a rate = rate\<lparr>tr_hz := ?hz, tr_at := ra_observed_at a, tr_packets := ra_received_packets a\<rparr>"
      using True False by (simp add: measure_topic_def Let_def)
    ultimately show ?thesis unfolding rate_inv_def by (intro exI[where x = "length as"]) (use j' l in auto)
  next
    case dt: False
    then have "measure_topic a rate = rate" using False by (simp add: measure_topic_def Let_def)
    moreover have "tr_hz rate = -1 \<or> (\<exists>i. unbroken_from (as @ [a]) (tr_route rate) i \<and> measured_over (as @ [a]) i j (tr_hz rate))"
      using hz unbroken_snoc[OF _ live] measured_snoc by metis
    ultimately show ?thesis unfolding rate_inv_def by (intro exI[where x = j]) (use j' j len in \<open>simp add: nth_append\<close>)
  qed
qed

lemma topic_run_inv:
  assumes "\<forall>a \<in> set as. ra_handle a = h"
  shows "case map_of (snd (topic_run as)) h of None \<Rightarrow> fst (topic_run as) = -1
    | Some rate \<Rightarrow> fst (topic_run as) = tr_hz rate \<and> rate_inv as rate"
  using assms
proof (induction as rule: rev_induct)
  case (snoc a as)
  let ?old = "case map_of (snd (topic_run as)) h of None \<Rightarrow> topic_rate0 | Some rate \<Rightarrow> rate"
  have "rate_inv as ?old \<or> ?old = topic_rate0" using snoc by (auto split: option.splits)
  from measure_topic_inv[OF this, of a] show ?case using snoc.prems by (auto simp: topic_measured_def Let_def)
qed simp

section \<open>The list of goals\<close>

lemma drop_ended_sub: "x \<in> set (drop_ended k xs) \<Longrightarrow> x \<in> set xs"
  by (induction k xs rule: drop_ended.induct) (auto split: if_splits)

lemma drop_ended_running: "filter (\<lambda>x. \<not> ended (snd x)) (drop_ended k xs) = filter (\<lambda>x. \<not> ended (snd x)) xs"
  by (induction k xs rule: drop_ended.induct) auto

lemma drop_ended_length: "length (drop_ended k xs) = length xs - min k (length (filter (\<lambda>x. ended (snd x)) xs))"
proof (induction k xs rule: drop_ended.induct)
  case (2 k x xs)
  define m where "m = length (filter (\<lambda>x. ended (snd x)) xs)"
  have "m \<le> length xs" by (simp add: m_def)
  with 2[folded m_def] show ?case by (cases k) (auto simp: min_def Suc_diff_le m_def[symmetric])
qed simp

lemma drop_ended_all:
  assumes "length xs - k < length (drop_ended k xs)"
  shows "list_all (\<lambda>x. \<not> ended (snd x)) (drop_ended k xs)"
proof -
  have e: "length (filter (\<lambda>x. ended (snd x)) xs) < k" "length (filter (\<lambda>x. ended (snd x)) xs) \<le> length xs"
    using assms by (auto simp: drop_ended_length)
  then have "length (drop_ended k xs) = length (filter (\<lambda>x. \<not> ended (snd x)) xs)"
    using sum_length_filter_compl[of "\<lambda>x. ended (snd x)" xs] by (simp add: drop_ended_length)
  then have "filter (\<lambda>x. \<not> ended (snd x)) (drop_ended k xs) = drop_ended k xs"
    unfolding drop_ended_running[symmetric, of xs k] by (metis filter_True length_filter_less nat_neq_iff)
  then show ?thesis unfolding list_all_iff by (metis filter_id_conv)
qed

section \<open>The trees of a host\<close>

definition runtime_leaves :: "tree_runtime list \<Rightarrow> tree_item list" where
  "runtime_leaves rs = concat (map tt_items rs)"

definition all_runtimes :: "tree_application list \<Rightarrow> tree_runtime list" where
  "all_runtimes apps = concat (map ta_runtimes apps)"

lemma add_item_leaves:
  assumes "distinct (map tt_id rs)"
  shows "mset (runtime_leaves (map (add_item e) rs))
    = mset (runtime_leaves rs) + (if re_runtime_id e \<in> tt_id ` set rs then {#endpoint_item e#} else {#})"
  using assms
proof (induction rs)
  case (Cons r rs)
  then show ?case by (cases "tt_id r = re_runtime_id e") (simp_all add: runtime_leaves_def add_item_def)
qed (simp add: runtime_leaves_def)

lemma tt_id_add_item [simp]: "tt_id (add_item e r) = tt_id r"
  by (simp add: add_item_def)

lemma map_tt_id [simp]: "map tt_id (map (add_item e) rs) = map tt_id rs"
  by simp

definition runtimes_ok :: "remote_endpoint list \<Rightarrow> tree_runtime list \<Rightarrow> bool" where
  "runtimes_ok es rs \<longleftrightarrow> distinct (map tt_id rs) \<and> mset (runtime_leaves rs) = mset (map endpoint_item es)"

lemma runtimes_ok_snoc:
  assumes "runtimes_ok es rs" and "mset rs' = mset (if re_runtime_id e \<in> tt_id ` set rs then rs else rs @ [runtime_item e])"
  shows "runtimes_ok (es @ [e]) (map (add_item e) rs')"
proof -
  let ?rs = "if re_runtime_id e \<in> tt_id ` set rs then rs else rs @ [runtime_item e]"
  have "mset (map tt_id rs') = mset (map tt_id ?rs)" using assms(2) by (simp only: mset_map)
  moreover have "distinct (map tt_id ?rs)" using assms(1) by (auto simp: runtimes_ok_def runtime_item_def)
  ultimately have d: "distinct (map tt_id rs')" by (metis mset_eq_imp_distinct_iff)
  have "mset (runtime_leaves xs) = (\<Sum>r \<in># mset xs. mset (tt_items r))" for xs by (induction xs) (simp_all add: runtime_leaves_def)
  then have "mset (runtime_leaves rs') = mset (runtime_leaves ?rs)" using assms(2) by simp
  moreover have "mset (runtime_leaves ?rs) = mset (map endpoint_item es)"
    using assms(1) by (simp add: runtimes_ok_def runtime_leaves_def runtime_item_def)
  moreover have "re_runtime_id e \<in> tt_id ` set rs'"
    using mset_eq_setD[OF assms(2)] by (auto simp: runtime_item_def)
  ultimately show ?thesis using d add_item_leaves[OF d, of e] by (simp add: runtimes_ok_def comp_def)
qed

lemma elements_ok: "runtimes_ok es (fold add_element_row es [])"
proof (induction es rule: rev_induct)
  case (snoc e es)
  have "list_ex (\<lambda>r. tt_id r = re_runtime_id e) rs \<longleftrightarrow> re_runtime_id e \<in> tt_id ` set rs" for rs :: "tree_runtime list"
    unfolding list_ex_iff by (metis imageE image_eqI)
  then have "add_element_row e rs = map (add_item e) (if re_runtime_id e \<in> tt_id ` set rs then rs else rs @ [runtime_item e])" for rs
    by (simp only: add_element_row_def)
  with runtimes_ok_snoc[OF snoc refl, of e] show ?case by (simp only: fold_append fold_simps comp_apply)
qed (simp add: runtimes_ok_def runtime_leaves_def)

lemma add_runtime_apps:
  assumes "distinct (map ta_id apps)" and "i \<in> ta_id ` set apps"
  shows "mset (all_runtimes (map (\<lambda>a. if ta_id a = i then a\<lparr>ta_runtimes := ta_runtimes a @ [r]\<rparr> else a) apps)) = mset (all_runtimes apps @ [r])"
  using assms
proof (induction apps)
  case (Cons a apps)
  have "map (\<lambda>a. if ta_id a = i then a\<lparr>ta_runtimes := ta_runtimes a @ [r]\<rparr> else a) apps = apps" if "i \<notin> ta_id ` set apps"
    using that by (induction apps) auto
  with Cons show ?case by (cases "ta_id a = i") (auto simp: all_runtimes_def)
qed simp

lemma all_runtimes_add_item: "all_runtimes (map (\<lambda>a. a\<lparr>ta_runtimes := map (add_item e) (ta_runtimes a)\<rparr>) apps) = map (add_item e) (all_runtimes apps)"
  by (induction apps) (simp_all add: all_runtimes_def)

lemma applications_ok: "distinct (map ta_id (fold add_application_row es [])) \<and> runtimes_ok es (all_runtimes (fold add_application_row es []))"
proof (induction es rule: rev_induct)
  case (snoc e es)
  define old where "old = fold add_application_row es []"
  define apps where "apps = (if list_ex (\<lambda>a. ta_id a = re_application_id e) old then old else old @ [application_item e])"
  let ?add = "\<lambda>a. if ta_id a = re_application_id e then a\<lparr>ta_runtimes := ta_runtimes a @ [runtime_item e]\<rparr> else a"
  define new where "new = (if list_ex (\<lambda>a. list_ex (\<lambda>r. tt_id r = re_runtime_id e) (ta_runtimes a)) apps then apps else map ?add apps)"
  have a: "distinct (map ta_id apps)" "re_application_id e \<in> ta_id ` set apps" "all_runtimes apps = all_runtimes old"
    using snoc by (force simp: list_ex_iff application_item_def all_runtimes_def apps_def old_def)+
  have x: "list_ex (\<lambda>a. list_ex (\<lambda>r. tt_id r = re_runtime_id e) (ta_runtimes a)) apps \<longleftrightarrow> re_runtime_id e \<in> tt_id ` set (all_runtimes old)"
    unfolding a(3)[symmetric] by (force simp: list_ex_iff all_runtimes_def)
  have "mset (all_runtimes new) = mset (if re_runtime_id e \<in> tt_id ` set (all_runtimes old) then all_runtimes old else all_runtimes old @ [runtime_item e])"
    using add_runtime_apps[OF a(1,2), of "runtime_item e"] unfolding new_def x a(3) by (simp add: a(3))
  from runtimes_ok_snoc[OF conjunct2[OF snoc, folded old_def] this] have r: "runtimes_ok (es @ [e]) (map (add_item e) (all_runtimes new))" .
  have "map ta_id (map ?add as) = map ta_id as" for as :: "tree_application list" by (induction as) auto
  then have "distinct (map ta_id new)" using a(1) by (simp add: new_def del: map_map)
  moreover have f: "fold add_application_row (es @ [e]) [] = map (\<lambda>a. a\<lparr>ta_runtimes := map (add_item e) (ta_runtimes a)\<rparr>) new"
    by (simp add: add_application_row_def Let_def new_def apps_def old_def)
  moreover have "map ta_id (map (\<lambda>a. a\<lparr>ta_runtimes := f a\<rparr>) as) = map ta_id as" for f and as :: "tree_application list" by (induction as) auto
  ultimately show ?case using r by (simp only: all_runtimes_add_item f)
qed (simp add: runtimes_ok_def runtime_leaves_def all_runtimes_def)

section \<open>Closing\<close>

text \<open>How many ends of \<open>ConfigureNetwork\<close> a closing still waits for at most.\<close>

definition closing_left :: "network_view \<Rightarrow> nat" where
  "closing_left n = (if nv_closed n then 0 else if nv_shutdown n then 1 else 2)"

definition closing_ok :: "network_view \<Rightarrow> bool" where
  "closing_ok n \<longleftrightarrow> nv_closing n \<and> (nv_closed n \<or> nv_configuring n)
     \<and> (nv_closed n \<or> nv_shutdown n \<longrightarrow> nv_calls n \<noteq> [] \<and> \<not> snd (last (nv_calls n)))"

lemma configure_shutdown_network:
  "rw_network (configure_now True w) = (rw_network w)\<lparr>nv_epoch := nv_epoch (rw_network w) + 1, nv_shutdown := True, nv_apply := False,
     nv_configuring := True, nv_calls := nv_calls (rw_network w) @ [(form_options (nv_form (rw_network w)), False)]\<rparr>"
  by (simp add: configure_now_def Let_def)

lemma closing_snapshot [simp]: "closing_ok (n\<lparr>nv_snapshot := x\<rparr>) = closing_ok n" "closing_left (n\<lparr>nv_snapshot := x\<rparr>) = closing_left n"
  by (simp_all add: closing_ok_def closing_left_def)

lemma Tick_closing:
  assumes "closing_ok (rw_network w)"
  shows "closing_ok (rw_network (Tick strerror fixed k w))
    \<and> closing_left (rw_network (Tick strerror fixed k w)) \<le> closing_left (rw_network w) - (if tk_configured k = None then 0 else 1)"
proof -
  let ?w = "w\<lparr>rw_local := LocalTick (tk_gateway k) (rw_local w)\<rparr>"
  obtain stop v where f: "finish_configuration strerror k ?w = (stop, v)" by (cases "finish_configuration strerror k ?w")
  have "closing_ok (rw_network v) \<and> closing_left (rw_network v) \<le> closing_left (rw_network w) - (if tk_configured k = None then 0 else 1)"
    using f assms
    by (auto simp: finish_configuration_def Let_def configure_shutdown_network closing_ok_def closing_left_def
        simp del: append.simps split: option.splits if_splits)
  then show ?thesis by (cases stop) (simp_all add: Tick_def f)
qed

lemma ticks_closing:
  assumes "closing_ok (rw_network w)"
  shows "closing_ok (rw_network (fold (Tick strerror fixed) ks w))
    \<and> closing_left (rw_network (fold (Tick strerror fixed) ks w)) \<le> closing_left (rw_network w) - length (filter (\<lambda>k. tk_configured k \<noteq> None) ks)"
  using assms
proof (induction ks arbitrary: w)
  case (Cons k ks)
  from Tick_closing[OF Cons.prems, of strerror fixed k] Cons.IH[of "Tick strerror fixed k w"] show ?case by auto
qed simp

lemma BeginClose_closing:
  assumes "BeginClose strerror fixed d w = (False, w')" and "\<not> nv_closing (rw_network w)" and "\<not> nv_shutdown (rw_network w)"
    and "nv_closing (rw_network w')"
  shows "closing_ok (rw_network w')"
proof -
  have c: "closing_ok (rw_network (Configure strerror fixed d True (y\<lparr>rw_network := (rw_network y)\<lparr>nv_closing := True\<rparr>\<rparr>)))"
    if "\<not> nv_shutdown (rw_network y)" "\<not> nv_closed (rw_network y)" for y
    using that by (simp add: Configure_def configure_shutdown_network closing_ok_def)
  let ?x = "fold (Tick strerror fixed) (fst d) w"
  have x: "\<not> nv_shutdown (rw_network ?x)" "nv_closed (rw_network ?x) = nv_closed (rw_network w)" "\<not> nv_closing (rw_network ?x)"
    using ticks_run[OF assms(2), of strerror fixed "fst d"] assms(3) by auto
  show ?thesis using assms c[of w] c[of ?x] x
    unfolding BeginClose_def Let_def ask_def by (auto split: if_splits prod.splits)
qed

section \<open>Properties\<close>

text \<open>
  C16. The receive rate shown for a topic is measured: over two observations of the topic at least half a second
  apart, with the topic active on one and the same route ever since the first, as the difference of a counter that
  has not fallen between them. Nothing is shown where there is no such pair.
\<close>

theorem topic_rate_unbroken:
  "let as = filter (\<lambda>a. ra_handle a = h) observed; hz = fst (topic_run as)
   in if hz = -1 then True else (\<exists>route i j. unbroken_from as route i \<and> measured_over as i j hz)"
  using topic_run_inv[of "filter (\<lambda>a. ra_handle a = h) observed" h] by (auto simp: Let_def rate_inv_def split: option.splits)

text \<open>
  C40. No goal that still runs leaves the list: when a poll shortens it only goals that are over go, at most 128 stay
  unless all of them run, and the goal that was selected stays selected while it is listed.
\<close>

theorem remote_goals_kept:
  "let v' = list_activities v
   in map snd (av_items v') = map fst (av_activities v')
    \<and> filter (\<lambda>x. \<not> ended (snd x)) (av_activities v') = filter (\<lambda>x. \<not> ended (snd x)) (av_activities v)
    \<and> (if 128 < length (av_activities v') then list_all (\<lambda>x. \<not> ended (snd x)) (av_activities v') else True)
    \<and> (case current_activity v of None \<Rightarrow> True
       | Some h \<Rightarrow> current_activity v' = (if h \<in> fst ` set (av_activities v') then Some h else None))"
proof -
  let ?as = "drop_ended (length (av_activities v) - 128) (av_activities v)"
  let ?v = "list_activities v"
  have v: "av_activities ?v = ?as" "map snd (av_items ?v) = map fst ?as" by (simp_all add: list_activities_def Let_def comp_def case_prod_beta)
  have "128 < length ?as \<Longrightarrow> list_all (\<lambda>x. \<not> ended (snd x)) ?as"
    by (rule drop_ended_all) (simp add: drop_ended_length)
  moreover have "current_activity ?v = (if h \<in> fst ` set ?as then Some h else None)" if h: "current_activity v = Some h" for h
  proof -
    have q: "(\<lambda>(i, a :: remote_activity). i = h) = (\<lambda>x. fst x = h)" by auto
    have row: "av_row ?v = last_index (\<lambda>x. fst x = h) 0 ?as (-1)" by (simp add: list_activities_def Let_def h q)
    have len: "length (av_items ?v) = length ?as" using v(2) by (metis length_map)
    have nth: "snd (av_items ?v ! j) = fst (?as ! j)" if "j < length ?as" for j using v(2) that len by (metis nth_map)
    from last_index_spec[of ?as "\<lambda>x. fst x = h" 0 "-1"] show ?thesis
    proof (elim disjE exE conjE)
      fix j assume j: "j < length ?as" "fst (?as ! j) = h" "last_index (\<lambda>x. fst x = h) 0 ?as (-1) = int (0 + j)"
      then have "h \<in> fst ` set ?as" by (metis image_eqI nth_mem)
      then show ?thesis using j nth[OF j(1)] by (simp add: current_activity_def row row_ok_def len)
    next
      assume "\<forall>x \<in> set ?as. fst x \<noteq> h" "last_index (\<lambda>x. fst x = h) 0 ?as (-1) = -1"
      then show ?thesis by (auto simp: current_activity_def row row_ok_def)
    qed
  qed
  ultimately show ?thesis unfolding Let_def v by (auto simp: drop_ended_running split: option.split)
qed

text \<open>
  C39. The trees of a host show every endpoint of the host exactly once: below one row for its runtime, in the tree of
  the applications as in that of the elements, with no runtime and no application listed twice; and each page lists the endpoints
  of its kind in the order of the host.
\<close>

theorem remote_trees_complete:
  "let v = rw_host (Populate w); es = host_endpoints (selected_host w)
   in mset (runtime_leaves (all_runtimes (hv_applications v))) = mset (map endpoint_item es)
    \<and> mset (runtime_leaves (hv_elements v)) = mset (map endpoint_item es)
    \<and> distinct (map tt_id (all_runtimes (hv_applications v))) \<and> distinct (map tt_id (hv_elements v))
    \<and> distinct (map ta_id (hv_applications v))
    \<and> wp_choices (rw_pages (Populate w) t) = filter (\<lambda>e. re_kind e = tab_kind t) es"
  using elements_ok[of "host_endpoints (selected_host w)"] applications_ok[of "host_endpoints (selected_host w)"]
  by (simp add: Populate_def Let_def runtimes_ok_def)

text \<open>
  C15. Closing ends: once the workspace has begun to close, it is closed after at most two ends of a network
  configuration, the one that may be under way and its own, whatever the network does meanwhile; the last
  configuration it asked for turns the network off, and the next attempt to close succeeds.
\<close>

theorem remote_close_ends:
  assumes "BeginClose strerror fixed d w = (False, w1)" and "\<not> nv_closing (rw_network w)" and "\<not> nv_shutdown (rw_network w)"
    and "nv_closing (rw_network w1)" and "2 \<le> length (filter (\<lambda>k. tk_configured k \<noteq> None) ks)"
  shows "let w2 = fold (Tick strerror fixed) ks w1
     in BeginClose strerror fixed d' w2 = (True, w2) \<and> nv_calls (rw_network w2) \<noteq> [] \<and> \<not> snd (last (nv_calls (rw_network w2)))"
proof -
  let ?n = "rw_network (fold (Tick strerror fixed) ks w1)"
  have "closing_ok ?n" "closing_left ?n \<le> closing_left (rw_network w1) - 2"
    using ticks_closing[OF BeginClose_closing[OF assms(1-4)], of strerror fixed ks] assms(5) by auto
  moreover have "closing_left (rw_network w1) \<le> 2" by (simp add: closing_left_def)
  ultimately have "nv_closed ?n" "nv_calls ?n \<noteq> [] \<and> \<not> snd (last (nv_calls ?n))"
    by (auto simp: closing_left_def closing_ok_def split: if_splits)
  then show ?thesis by (simp add: BeginClose_def Let_def)
qed

definition demo_open :: remote_workspace where
  "demo_open = (initial_workspace network_options0 network_snapshot0 [])\<lparr>rw_pending := rw_pending demo_request\<rparr>"

theorem remote_close_ends_witness:
  "let w1 = snd (BeginClose (\<lambda>_. []) (\<lambda>_. []) ([], True) demo_open);
       w2 = fold (Tick (\<lambda>_. []) (\<lambda>_. [])) [demo_tick\<lparr>tk_configured := Some 0\<rparr>, demo_tick\<lparr>tk_configured := Some 0\<rparr>] w1
   in BeginClose (\<lambda>_. []) (\<lambda>_. []) ([], True) w2 = (True, w2) \<and> nv_calls (rw_network w2) \<noteq> [] \<and> \<not> snd (last (nv_calls (rw_network w2)))"
proof -
  have "\<not> Dirty demo_open" "rw_pending demo_open \<noteq> []" "\<not> nv_configuring (rw_network demo_open)" "\<not> nv_closed (rw_network demo_open)"
    "\<not> nv_closing (rw_network demo_open)" "\<not> nv_shutdown (rw_network demo_open)"
    by (simp_all add: demo_open_def demo_request_def initial_workspace_def remote_page0_def Dirty_def remote_tabs_def Submit_def Let_def)
  then have "\<exists>w1. BeginClose (\<lambda>_. []) (\<lambda>_. []) ([], True) demo_open = (False, w1) \<and> nv_closing (rw_network w1)
      \<and> \<not> nv_closing (rw_network demo_open) \<and> \<not> nv_shutdown (rw_network demo_open)"
    by (simp add: BeginClose_def Configure_def configure_shutdown_network Let_def)
  then obtain w1 where w1: "BeginClose (\<lambda>_. []) (\<lambda>_. []) ([], True) demo_open = (False, w1)" "nv_closing (rw_network w1)"
    "\<not> nv_closing (rw_network demo_open)" "\<not> nv_shutdown (rw_network demo_open)" by blast
  from remote_close_ends[OF w1(1,3,4,2), of "[demo_tick\<lparr>tk_configured := Some 0\<rparr>, demo_tick\<lparr>tk_configured := Some 0\<rparr>]" "([], True)"]
  show ?thesis unfolding w1(1) by simp
qed

end
