(* ===== verification/EntryPoint.thy ===== *)
theory EntryPoint
  imports ToolModel
begin

text \<open>
  \<open>src/main.cpp\<close>: what the program starts, from the values of its options. Qt parses the command line and the
  number of the port (\<open>to_uint\<close>, None where it is not one) and runs the window.
\<close>

record command_line =
  cl_backend :: string
  cl_no_network :: bool
  cl_interface :: string
  cl_port :: string
  cl_host_id :: string
  cl_socket :: string

definition command_line0 :: command_line where
  "command_line0 = \<lparr>cl_backend = ''mock'', cl_no_network = False, cl_interface = ''0.0.0.0'', cl_port = ''37651'', cl_host_id = [],
     cl_socket = ''/run/kcf/gateway.sock''\<rparr>"

text \<open>
  The outcome: the help and an exit code, or a window titled by its backend; the framework backend observes a
  gateway socket and, with a network, starts with these options.
\<close>

datatype startup = Show_help int | Mock_window | Kcf_window string "network_options option"

definition start_program :: "(string \<Rightarrow> nat option) \<Rightarrow> command_line \<Rightarrow> startup" where
  "start_program to_uint c =
     (if cl_backend c \<noteq> ''mock'' \<and> cl_backend c \<noteq> ''kcf'' then Show_help 1
      else if cl_backend c = ''kcf''
      then if cl_no_network c then Kcf_window (cl_socket c) None
        else (case to_uint (cl_port c) of
            None \<Rightarrow> Show_help 1
          | Some port \<Rightarrow> if port = 0 \<or> 65535 < port then Show_help 1
              else Kcf_window (cl_socket c) (Some \<lparr>no_interface_address = cl_interface c, no_port = of_nat port, no_host_id = cl_host_id c\<rparr>))
      else Mock_window)"

text \<open>The network starts on the port that was typed, which is not 0; the defaults are those of \<open>NetworkOptions\<close>.\<close>

lemma started_port:
  assumes "start_program to_uint c = Kcf_window socket (Some opts)"
  shows "to_uint (cl_port c) = Some (unat (no_port opts)) \<and> no_port opts \<noteq> 0"
  using assms by (auto simp: start_program_def unat_of_nat word_unat_eq_iff split: if_splits option.splits)

lemma default_options:
  "to_uint ''37651'' = Some 37651 \<Longrightarrow>
     start_program to_uint (command_line0\<lparr>cl_backend := ''kcf''\<rparr>) = Kcf_window ''/run/kcf/gateway.sock'' (Some network_options0)"
  by (simp add: start_program_def command_line0_def network_options0_def)

end
