(* ===== verification/Spec2Isabelle.thy ===== *)
theory Spec2Isabelle
  imports CodecRoundTrip MockBackend NetworkRates GraphBuild RemoteProps GatewayRun KcfProps NetworkProps RemoteControl ParameterProps
    EchoProps WindowBackends GraphProps RemoteWorkspaceViews EntryPoint
begin

text \<open>
  KCF Tool is a Qt program that inspects a running KCF system: it lists applications, elements,
  topics, parameters and services, reads and writes their values, draws the network as a graph and,
  with the network options on, does the same for other hosts. This library models the parts of it
  that decide something, function by function, and proves what they promise.

  The parts, from the bottom up.

  \<^item> \<open>Prelude\<close>, \<open>OrdMap\<close>, \<open>NumText\<close>, \<open>FloatText\<close>: what the code takes from the C++ library. Errors are
    values (\<open>err + 'a\<close>: a returned negative code, or \<open>Undefined\<close> where the standard gives the program no
    meaning), \<open>std::map\<close> is a sorted association list behind the locale \<open>ordered_map\<close>, numbers are printed
    and parsed digit by digit, and floating point values are their bits.
  \<^item> \<open>ToolModel\<close>: the structs and enums of \<open>include/kcf_tool/model/\<close> and of
    \<open>include/kcf_tool/backend/local_gateway.hpp\<close>, field for field; integers keep their width.
  \<^item> \<open>ValueCodec\<close>, \<open>CodecCodes\<close>, \<open>CodecRoundTrip\<close>: \<open>src/backend/value_codec.cpp\<close>, which turns payload bytes
    into texts and back. Memory safety over validated descriptors, the error codes, both round trips, and what a
    refused or accepted input leaves in the buffer.
  \<^item> \<open>ToolBackend\<close>, \<open>MockBackend\<close>: the abstract backend with its defaults, the stub, and the mock
    backend of \<open>src/backend/mock_backend.cpp\<close>. The locale \<open>parameter_store\<close> is the contract of the
    parameter editor and the mock interprets it; further, the invariant of the mock state under any sequence
    of operations, echo sessions and service calls.
  \<^item> \<open>KcfBackend\<close>, \<open>KcfProps\<close>: \<open>src/backend/kcf_backend.cpp\<close>, the backend of a running system. Framework
    calls are a record of functions of the time of the call, so two calls may answer differently; exceptions are
    outcomes, and writes and service calls are logged. The lemmas show what is read before what is written,
    what a refresh keeps of what it listed, and which codes the operations return.
  \<^item> \<open>NetworkBackend\<close>, \<open>NetworkProps\<close>, \<open>NetworkRates\<close>: \<open>src/backend/network_backend.cpp\<close> and the counter
    history of \<open>src/backend/network_rates.hpp\<close>. A turn of the observer every 100 ms reconciles the discovered hosts
    and queries at most one of them; what it shows belongs to the boot and session it lists, no host starves, and a
    rate is shown only over an unbroken run of observations.
  \<^item> \<open>RemoteRuntime\<close>, \<open>RemoteControl\<close>: \<open>src/backend/remote_runtime.cpp\<close> and its header, the commands to other
    hosts and the executor with its queue of 32. Each command sends at most the request it stands for, with an encoding
    of its own type; every command gets exactly one reply in every interleaving, and \<open>Stop\<close> ends the worker.
  \<^item> \<open>GatewayJson\<close>, \<open>GatewayRead\<close>, \<open>GatewayClient\<close>, \<open>GatewayRun\<close>: \<open>src/backend/local_gateway.cpp\<close>, its
    document readers, its socket loops over a kernel that may answer anything, and the client object as a
    step relation of a worker and \<open>Stop\<close>. \<open>StepSystem\<close> holds the locale of invariants of step relations.
  \<^item> \<open>GraphModel\<close>, \<open>GraphBuild\<close>: \<open>src/ui/graph_model.cpp\<close>, the graph of the local system, characterised
    exactly and shown not to depend on the order of its inputs.
  \<^item> \<open>RemoteGraph\<close>, \<open>RemoteProps\<close>: \<open>src/ui/network_graph_model.cpp\<close>, which adds other hosts and the
    network edges that both ends report.
  \<^item> \<open>GraphWidget\<close>, \<open>GraphProps\<close>: \<open>src/ui/graph_widget.cpp\<close>, the layout of that graph, its filters and what
    activating a node asks for. Nodes never overlap, and every node and edge of a graph of the program is drawn.
  \<^item> \<open>WindowForms\<close>, \<open>ParameterPanel\<close>, \<open>ServicePanel\<close>, \<open>EchoPanel\<close>, \<open>MainWindow\<close>: \<open>src/ui/main_window.cpp\<close>,
    page by page and then as one step function of events, over a record of the backend functions the window calls.
    \<open>ParameterProps\<close> and \<open>EchoProps\<close> are about one page (what is written; the session and the rate), \<open>WindowProps\<close>
    about the window over any backend of the locale \<open>window_contract\<close>, and \<open>WindowBackends\<close> interprets that locale
    for the mock and for the framework backend of \<open>KcfBackend\<close>.
  \<^item> \<open>RemoteWorkspace\<close>: \<open>src/ui/remote_workspace.cpp\<close>, the pages for the endpoints of other hosts. The timer runs
    on while a question is open, so a question is its answer and the ticks that pass. \<open>RemoteWorkspaceProps\<close> shows that a
    page has one request at a time and that a reply is accepted only for the selection it was asked for, and states three things that
    go wrong; \<open>RemoteWorkspaceViews\<close> is about the rates, goals and trees on view and about closing.
  \<^item> \<open>EntryPoint\<close>: \<open>src/main.cpp\<close>, what the program starts.

  How they interact. \<open>EntryPoint\<close> chooses a backend; \<open>MainWindow\<close> calls it from its handlers, \<open>RemoteWorkspace\<close> by
  commands whose replies \<open>RemoteControl\<close> computes in another thread, and \<open>GraphWidget\<close> draws the lists of both. The
  network part of the framework backend is \<open>NetworkBackend\<close>, which feeds \<open>RemoteGraph\<close> and \<open>RemoteWorkspace\<close> with the
  same snapshots.

  Bounds and fuel. The socket loops of \<open>GatewayClient\<close> are \<open>partial_function\<close>s, because nothing but the
  deadline ends them; that they return is a theorem over a clock that advances, and that they succeed one over a kernel that moves a byte at least
  every so many steps. All other loops are
  structural. Payload offsets and sizes are natural numbers, which validated descriptors keep below the 64 bits of
  the code; where the code narrows a number the model does. Coordinates of the drawing are whole numbers in the
  code and integers here. The revisions of the remote pages are 64-bit words; statements about them count the steps
  and hold for runs of fewer than \<open>2 ^ 64\<close>. \<open>std::sort\<close> leaves the order of equal keys open; where the code sorts by
  a key that may repeat the model sorts stably, as the library's own implementation need not.

  Not modelled: painting, fonts, the arrangement of widgets in the constructors, and the copies of panel texts in the status
  bar, which are Qt's; the framework, its network library and the JSON parser, which are not part of the
  repository and are parameters here; \<open>strerror\<close> and Qt's number formats, also parameters; the clock, an argument
  where the code asks for it. Pointers are values, since no modelled function keeps one past a change of its
  container.
\<close>

end
